(* ===== verification/Prelude.thy ===== *)
theory Prelude
  imports Complex_Main "HOL-Library.Product_Lexorder" "HOL-Library.AList"
begin

text \<open>
  What every component of the LiveQuiz model shares: the error values of the services
  (\<^verbatim>\<open>AuthError\<close> of src/backend/app/core/security.py and the generic Python exceptions), the
  JSON values the services put into outbox payloads and WebSocket messages, decimal printing of
  integers (Python's \<^verbatim>\<open>str(int)\<close>), rows-in-a-table operations (a SQL table is the list of its
  rows, in the order a scan returns them), and the lemmas on lists, options and association lists
  that the component proofs use.  The collection \<^verbatim>\<open>tables\<close> gathers the table lemmas.
\<close>

named_theorems tables \<open>rows-in-a-table rewrite rules\<close>
named_theorems result_iff \<open>when a computation of type error + 'a returns Inr\<close>

section \<open>Errors and results\<close>

datatype error =
    AuthError (err_code: string) (err_status: int) (err_message: string)
  | PyError string

type_synonym 'a result = "error + 'a"

definition guard :: "bool \<Rightarrow> error \<Rightarrow> unit result" where
  "guard b e = (if b then Inr () else Inl e)"

definition bind_r :: "'a result \<Rightarrow> ('a \<Rightarrow> 'b result) \<Rightarrow> 'b result" where
  "bind_r r f = (case r of Inl e \<Rightarrow> Inl e | Inr x \<Rightarrow> f x)"

definition of_option :: "error \<Rightarrow> 'a option \<Rightarrow> 'a result" where
  "of_option e x = (case x of None \<Rightarrow> Inl e | Some v \<Rightarrow> Inr v)"

section \<open>JSON\<close>

text \<open>
  \<open>JTime t\<close> stands for the ISO rendering \<^verbatim>\<open>_iso(t)\<close> of an instant, which stays abstract:
  instants are microseconds since the Unix epoch.
\<close>

type_synonym time = int

datatype json =
    JNull
  | JBool bool
  | JInt int
  | JFloat rat
  | JStr string
  | JTime time
  | JArr "json list"
  | JObj "(string \<times> json) list"

fun json_get :: "json \<Rightarrow> string \<Rightarrow> json" where
  "json_get (JObj kvs) k = (case map_of kvs k of None \<Rightarrow> JNull | Some v \<Rightarrow> v)"
| "json_get _ k = JNull"

text \<open>Python's truth value of a JSON value.\<close>

fun truthy :: "json \<Rightarrow> bool" where
  "truthy JNull = False"
| "truthy (JBool b) = b"
| "truthy (JInt i) = (i \<noteq> 0)"
| "truthy (JFloat x) = (x \<noteq> 0)"
| "truthy (JStr s) = (s \<noteq> [])"
| "truthy (JTime t) = True"
| "truthy (JArr xs) = (xs \<noteq> [])"
| "truthy (JObj kvs) = (kvs \<noteq> [])"

section \<open>Decimal printing: Python's str(int)\<close>

definition digit_char :: "nat \<Rightarrow> char" where
  "digit_char d = char_of (48 + d)"

fun nat_str :: "nat \<Rightarrow> string" where
  "nat_str n = (if n < 10 then [digit_char n] else nat_str (n div 10) @ [digit_char (n mod 10)])"

declare nat_str.simps [simp del]

definition int_str :: "int \<Rightarrow> string" where
  "int_str i = (if i < 0 then CHR ''-'' # nat_str (nat (- i)) else nat_str (nat i))"

text \<open>\<^verbatim>\<open>str(x) if x is not None else None\<close>, as JSON.\<close>

definition opt_id :: "int option \<Rightarrow> json" where
  "opt_id x = (case x of None \<Rightarrow> JNull | Some i \<Rightarrow> JStr (int_str i))"

section \<open>Tables\<close>

definition upd_where :: "('a \<Rightarrow> bool) \<Rightarrow> ('a \<Rightarrow> 'a) \<Rightarrow> 'a list \<Rightarrow> 'a list" where
  "upd_where P f rows = map (\<lambda>r. if P r then f r else r) rows"

definition unique_by :: "('a \<Rightarrow> 'k) \<Rightarrow> 'a list \<Rightarrow> bool" where
  "unique_by k rows \<longleftrightarrow> distinct (map k rows)"

text \<open>An \<^verbatim>\<open>INSERT\<close> against one unique index: \<open>None\<close> is \<^verbatim>\<open>IntegrityError\<close>.\<close>

definition insert_unique :: "('a \<Rightarrow> 'k) \<Rightarrow> 'a \<Rightarrow> 'a list \<Rightarrow> 'a list option" where
  "insert_unique k r rows = (if k r \<in> k ` set rows then None else Some (rows @ [r]))"

section \<open>Lemmas: results\<close>

lemma guard_Inr [result_iff]: "guard b e = Inr u \<longleftrightarrow> b"
  by (simp add: guard_def)

lemma bind_r_Inr [result_iff]: "bind_r r f = Inr y \<longleftrightarrow> (\<exists>x. r = Inr x \<and> f x = Inr y)"
  by (cases r) (auto simp: bind_r_def)

lemma of_option_Inr [result_iff]: "of_option e x = Inr v \<longleftrightarrow> x = Some v"
  by (auto simp: of_option_def split: option.splits)

lemma guard_simps [simp]: "guard True e = Inr ()" "guard False e = Inl e"
  by (simp_all add: guard_def)

lemma bind_r_simps [simp]: "bind_r (Inl e) f = Inl e" "bind_r (Inr x) f = f x"
  by (simp_all add: bind_r_def)

lemma of_option_simps [simp]: "of_option e None = Inl e" "of_option e (Some v) = Inr v"
  by (simp_all add: of_option_def)

section \<open>Lemmas: decimal printing is injective\<close>

fun str_nat :: "string \<Rightarrow> nat \<Rightarrow> nat" where
  "str_nat [] acc = acc"
| "str_nat (c # cs) acc = str_nat cs (10 * acc + (of_char c - 48))"

lemma str_nat_append: "str_nat (xs @ ys) acc = str_nat ys (str_nat xs acc)"
  by (induction xs arbitrary: acc) auto

lemma of_digit_char: "d < 10 \<Longrightarrow> of_char (digit_char d) = 48 + d"
  by (simp add: digit_char_def)

lemma str_nat_nat_str: "str_nat (nat_str n) 0 = n"
proof (induction n rule: nat_str.induct)
  case (1 n)
  show ?case
  proof (cases "n < 10")
    case True
    then show ?thesis by (simp add: nat_str.simps [of n] of_digit_char)
  next
    case False
    with 1 show ?thesis
      by (simp add: nat_str.simps [of n] str_nat_append of_digit_char)
  qed
qed

lemma nat_str_inject [simp]: "nat_str m = nat_str n \<longleftrightarrow> m = n"
  by (metis str_nat_nat_str)

lemma nat_str_digits: "c \<in> set (nat_str n) \<Longrightarrow> 48 \<le> (of_char c :: nat) \<and> of_char c \<le> (57 :: nat)"
proof (induction n rule: nat_str.induct)
  case (1 n)
  have mod: "n mod 10 < 10" by simp
  show ?case
  proof (cases "n < 10")
    case True
    with 1 show ?thesis by (auto simp: nat_str.simps [of n] of_digit_char)
  next
    case False
    with 1 have "c \<in> set (nat_str (n div 10)) \<or> c = digit_char (n mod 10)"
      by (auto simp: nat_str.simps [of n])
    with False 1 of_digit_char [OF mod] mod show ?thesis by auto
  qed
qed

lemma nat_str_nonempty [simp]: "nat_str n \<noteq> []"
  by (simp add: nat_str.simps [of n])

lemma nat_str_no_minus: "nat_str n \<noteq> CHR ''-'' # xs"
proof
  assume "nat_str n = CHR ''-'' # xs"
  then have "CHR ''-'' \<in> set (nat_str n)" by simp
  from nat_str_digits [OF this] show False by simp
qed

lemma int_str_inject [simp]: "int_str i = int_str j \<longleftrightarrow> i = j"
  using nat_str_no_minus nat_str_no_minus [symmetric] by (auto simp: int_str_def)

lemma int_str_chars:
  "c \<in> set (int_str i) \<Longrightarrow> of_char c = (45 :: nat) \<or> 48 \<le> (of_char c :: nat) \<and> of_char c \<le> (57 :: nat)"
  using nat_str_digits by (auto simp: int_str_def split: if_splits)

lemma int_str_no_colon: "CHR '':'' \<notin> set (int_str i)"
  using int_str_chars [of "CHR '':''" i] by auto

section \<open>Lemmas: tables\<close>

lemma length_upd_where [simp]: "length (upd_where P f rows) = length rows"
  by (simp add: upd_where_def)

lemma set_upd_where [tables]:
  "set (upd_where P f rows) = (\<lambda>r. if P r then f r else r) ` set rows"
  by (simp add: upd_where_def)

lemma map_upd_where [tables]:
  assumes "\<And>r. P r \<Longrightarrow> k (f r) = k r"
  shows "map k (upd_where P f rows) = map k rows"
  using assms by (auto simp: upd_where_def)

lemma find_upd_where:
  assumes "\<And>r. P r \<Longrightarrow> Q (f r) = Q r"
  shows "find Q (upd_where P f rows) = map_option (\<lambda>r. if P r then f r else r) (find Q rows)"
  using assms by (induction rows) (auto simp: upd_where_def)

lemma filter_upd_where:
  assumes "\<And>r. P r \<Longrightarrow> Q (f r) = Q r"
  shows "filter Q (upd_where P f rows) = upd_where P f (filter Q rows)"
  using assms by (induction rows) (auto simp: upd_where_def)

lemma upd_where_id: "\<forall>r \<in> set rows. \<not> P r \<Longrightarrow> upd_where P f rows = rows"
  by (auto simp: upd_where_def intro: map_idI)

lemma upd_where_append [simp]: "upd_where P f (xs @ ys) = upd_where P f xs @ upd_where P f ys"
  by (simp add: upd_where_def)

lemma upd_where_Nil [simp]: "upd_where P f [] = []"
  by (simp add: upd_where_def)

lemma upd_where_Cons [simp]:
  "upd_where P f (x # xs) = (if P x then f x else x) # upd_where P f xs"
  by (simp add: upd_where_def)

lemma unique_by_upd_where:
  assumes "\<And>r. P r \<Longrightarrow> k (f r) = k r"
  shows "unique_by k (upd_where P f rows) = unique_by k rows"
  using map_upd_where [of P k f rows] assms by (simp add: unique_by_def)

lemma insert_unique_Some:
  "insert_unique k r rows = Some rows' \<longleftrightarrow> k r \<notin> k ` set rows \<and> rows' = rows @ [r]"
  by (auto simp: insert_unique_def)

lemma insert_unique_keeps:
  assumes "insert_unique k r rows = Some rows'" and "unique_by k rows"
  shows "unique_by k rows'"
  using assms by (auto simp: insert_unique_Some unique_by_def)

lemma unique_by_append1: "unique_by k (rows @ [r]) \<longleftrightarrow> unique_by k rows \<and> k r \<notin> k ` set rows"
  by (auto simp: unique_by_def)

lemma unique_by_eq:
  assumes "unique_by k rows" "x \<in> set rows" "y \<in> set rows" "k x = k y"
  shows "x = y"
  using assms by (auto simp: unique_by_def distinct_map dest: inj_onD)

lemma find_Some_set: "find P xs = Some x \<Longrightarrow> x \<in> set xs \<and> P x"
  by (auto simp: find_Some_iff)

lemma find_unique:
  assumes "unique_by k rows" "x \<in> set rows"
  shows "find (\<lambda>r. k r = k x) rows = Some x"
proof (cases "find (\<lambda>r. k r = k x) rows")
  case None
  with assms show ?thesis by (auto simp: find_None_iff)
next
  case (Some y)
  then have "y \<in> set rows" "k y = k x" using find_Some_set by fastforce+
  with assms Some show ?thesis by (auto dest: unique_by_eq)
qed

lemma find_filter_hd: "find P xs = (case filter P xs of [] \<Rightarrow> None | y # _ \<Rightarrow> Some y)"
  by (induction xs) auto

section \<open>Lemmas: stable sorting\<close>

lemma sort_key_sorted_id: "sorted (map f xs) \<Longrightarrow> sort_key f xs = xs"
  by (induction xs) (auto simp: insort_is_Cons)

lemma enumerate_fst: "map fst (enumerate n xs) = [n ..< n + length xs]"
  by (simp add: enumerate_eq_zip)

end
