(* ===== verification/Snowflake.thy ===== *)
theory Snowflake
  imports Prelude "HOL-Library.Word"
begin

unbundle bit_operations_syntax

text \<open>
  The id generator of src/backend/app/core/ids/snowflake.py.  Python integers are unbounded, so
  ids are \<open>int\<close> and the 64-bit claim is a theorem.  The clock is the sequence of its readings: a
  function \<open>clk :: nat \<Rightarrow> int\<close> and the index of the next reading, which every operation passes on.
  The busy wait of \<^verbatim>\<open>_wait_until_next_ms\<close> need not end, so it is a \<open>partial_function (option)\<close>
  and \<open>None\<close> means that \<^verbatim>\<open>next_id\<close> does not return; that it does return under an advancing
  clock is proved, not assumed.  The lock serialises calls; a call is one step of the model.
\<close>

section \<open>Definitions\<close>

definition EPOCH_MS :: int where "EPOCH_MS = 1767225600000"
definition WORKER_ID_BITS :: nat where "WORKER_ID_BITS = 10"
definition SEQUENCE_BITS :: nat where "SEQUENCE_BITS = 12"
definition WORKER_ID_SHIFT :: nat where "WORKER_ID_SHIFT = SEQUENCE_BITS"
definition TIMESTAMP_SHIFT :: nat where "TIMESTAMP_SHIFT = SEQUENCE_BITS + WORKER_ID_BITS"
definition MAX_WORKER_ID :: int where "MAX_WORKER_ID = push_bit WORKER_ID_BITS 1 - 1"
definition SEQUENCE_MASK :: int where "SEQUENCE_MASK = push_bit SEQUENCE_BITS 1 - 1"

datatype id_error = ClockMovedBackwardsError int

record generator =
  worker_id :: int
  epoch_ms :: int
  last_ms :: int
  sequence :: int

definition SnowflakeGenerator :: "int \<Rightarrow> int \<Rightarrow> generator result" where
  "SnowflakeGenerator wid epoch =
     (if 0 \<le> wid \<and> wid \<le> MAX_WORKER_ID
      then Inr \<lparr>worker_id = wid, epoch_ms = epoch, last_ms = - 1, sequence = 0\<rparr>
      else Inl (PyError ''ValueError''))"

partial_function (option) wait_until_next_ms :: "(nat \<Rightarrow> int) \<Rightarrow> nat \<Rightarrow> int \<Rightarrow> (int \<times> nat) option" where
  "wait_until_next_ms clk i prev =
     (if clk i \<le> prev then wait_until_next_ms clk (Suc i) prev else Some (clk i, Suc i))"

declare wait_until_next_ms.simps [code]

text \<open>The id packed from timestamp, worker and sequence: the return expression of \<^verbatim>\<open>next_id\<close>.\<close>

definition pack_id :: "generator \<Rightarrow> int" where
  "pack_id g =
     (push_bit TIMESTAMP_SHIFT (last_ms g - epoch_ms g)
      OR push_bit WORKER_ID_SHIFT (worker_id g)) OR sequence g"

definition next_id ::
  "generator \<Rightarrow> (nat \<Rightarrow> int) \<Rightarrow> nat \<Rightarrow> ((id_error + int) \<times> generator \<times> nat) option" where
  "next_id g clk i =
     (let now = clk i in
      if now < last_ms g then Some (Inl (ClockMovedBackwardsError (last_ms g - now)), g, Suc i)
      else if now = last_ms g then
        (let g1 = g\<lparr>sequence := (sequence g + 1) AND SEQUENCE_MASK\<rparr> in
         if sequence g1 = 0 then
           (case wait_until_next_ms clk (Suc i) (last_ms g) of
              None \<Rightarrow> None
            | Some (now', j) \<Rightarrow> (let g2 = g1\<lparr>last_ms := now'\<rparr> in Some (Inr (pack_id g2), g2, j)))
         else (let g2 = g1\<lparr>last_ms := now\<rparr> in Some (Inr (pack_id g2), g2, Suc i)))
      else (let g2 = g\<lparr>sequence := 0, last_ms := now\<rparr> in Some (Inr (pack_id g2), g2, Suc i)))"

definition decode :: "generator \<Rightarrow> int \<Rightarrow> int \<times> int \<times> int" where
  "decode g snowflake_id =
     (drop_bit TIMESTAMP_SHIFT snowflake_id + epoch_ms g,
      drop_bit WORKER_ID_SHIFT snowflake_id AND MAX_WORKER_ID,
      snowflake_id AND SEQUENCE_MASK)"

text \<open>
  The process singleton.  \<open>parse_int\<close> is Python's \<^verbatim>\<open>int(str)\<close> (\<open>None\<close> for \<^verbatim>\<open>ValueError\<close>);
  the environment variables are arguments.
\<close>

definition get_id_generator ::
  "(string \<Rightarrow> int option) \<Rightarrow> generator option \<Rightarrow> string option \<Rightarrow> string option \<Rightarrow> generator result" where
  "get_id_generator parse_int singleton raw_worker raw_epoch =
     (case singleton of
        Some g \<Rightarrow> Inr g
      | None \<Rightarrow>
          (case raw_worker of
             None \<Rightarrow> Inl (PyError ''RuntimeError'')
           | Some rw \<Rightarrow>
               if rw = '''' then Inl (PyError ''RuntimeError'')
               else (case parse_int rw of
                  None \<Rightarrow> Inl (PyError ''RuntimeError'')
                | Some wid \<Rightarrow>
                    if \<not> (0 \<le> wid \<and> wid \<le> MAX_WORKER_ID) then Inl (PyError ''RuntimeError'')
                    else (case raw_epoch of
                       None \<Rightarrow> SnowflakeGenerator wid EPOCH_MS
                     | Some re \<Rightarrow>
                         if re = '''' then SnowflakeGenerator wid EPOCH_MS
                         else (case parse_int re of
                            None \<Rightarrow> Inl (PyError ''ValueError'')
                          | Some e \<Rightarrow> SnowflakeGenerator wid e)))))"

text \<open>\<open>n\<close> successive calls; \<open>None\<close> when one of them raises or does not return.\<close>

fun mint :: "nat \<Rightarrow> generator \<Rightarrow> (nat \<Rightarrow> int) \<Rightarrow> nat \<Rightarrow> (int list \<times> generator \<times> nat) option" where
  "mint 0 g clk i = Some ([], g, i)"
| "mint (Suc n) g clk i =
     (case next_id g clk i of
        Some (Inr v, g', j) \<Rightarrow> map_option (\<lambda>(vs, g'', k). (v # vs, g'', k)) (mint n g' clk j)
      | _ \<Rightarrow> None)"

definition generator_ok :: "generator \<Rightarrow> bool" where
  "generator_ok g \<longleftrightarrow> 0 \<le> worker_id g \<and> worker_id g \<le> MAX_WORKER_ID \<and>
     0 \<le> sequence g \<and> sequence g \<le> SEQUENCE_MASK"

section \<open>The layout as arithmetic\<close>

lemmas layout_defs = WORKER_ID_BITS_def SEQUENCE_BITS_def WORKER_ID_SHIFT_def TIMESTAMP_SHIFT_def

lemma MAX_WORKER_ID_eq [simp]: "MAX_WORKER_ID = 1023"
  by (simp add: MAX_WORKER_ID_def layout_defs)

lemma SEQUENCE_MASK_eq [simp]: "SEQUENCE_MASK = 4095"
  by (simp add: SEQUENCE_MASK_def layout_defs)

lemma or_push_bit:
  fixes lo hi :: int
  assumes "0 \<le> lo" "lo < 2 ^ n"
  shows "push_bit n hi OR lo = hi * 2 ^ n + lo"
proof -
  have lo: "take_bit n lo = lo" using assms by (simp add: take_bit_int_eq_self)
  have "concat_bit n lo hi = lo OR push_bit n hi" using lo by (simp add: concat_bit_def)
  moreover have "concat_bit n lo hi = lo + push_bit n hi" using lo by (simp add: concat_bit_eq)
  ultimately show ?thesis by (simp add: or.commute push_bit_eq_mult)
qed

lemma pack_id_arith:
  assumes "generator_ok g"
  shows "pack_id g = (last_ms g - epoch_ms g) * 2 ^ 22 + (worker_id g * 2 ^ 12 + sequence g)"
proof -
  have w: "0 \<le> worker_id g" "worker_id g \<le> 1023" and s: "0 \<le> sequence g" "sequence g < 2 ^ 12"
    using assms by (auto simp: generator_ok_def)
  have low: "push_bit 12 (worker_id g) OR sequence g = worker_id g * 2 ^ 12 + sequence g"
    by (rule or_push_bit) (use s in auto)
  have "pack_id g = push_bit 22 (last_ms g - epoch_ms g) OR (worker_id g * 2 ^ 12 + sequence g)"
    by (simp add: pack_id_def layout_defs or.assoc low [simplified])
  also have "\<dots> = (last_ms g - epoch_ms g) * 2 ^ 22 + (worker_id g * 2 ^ 12 + sequence g)"
    by (rule or_push_bit) (use w s in auto)
  finally show ?thesis .
qed

lemma and_mask_mod: "(x::int) AND 4095 = x mod 2 ^ 12" "(x::int) AND 1023 = x mod 2 ^ 10"
proof -
  have "(4095::int) = mask 12" "(1023::int) = mask 10" by (simp_all add: mask_eq_exp_minus_1)
  then show "x AND 4095 = x mod 2 ^ 12" "x AND 1023 = x mod 2 ^ 10"
    by (simp_all only: take_bit_eq_mask [symmetric] take_bit_eq_mod)
qed

lemma decode_arith:
  "decode g v = (v div 2 ^ 22 + epoch_ms g, (v div 2 ^ 12) mod 2 ^ 10, v mod 2 ^ 12)"
  by (simp add: decode_def layout_defs drop_bit_eq_div and_mask_mod [simplified])

lemma layout_digits:
  fixes t w s :: int
  assumes "0 \<le> w" "w \<le> 1023" "0 \<le> s" "s < 4096"
  shows "(t * 4194304 + (w * 4096 + s)) div 4194304 = t"
    and "((t * 4194304 + (w * 4096 + s)) div 4096) mod 1024 = w"
    and "(t * 4194304 + (w * 4096 + s)) mod 4096 = s"
proof -
  have low: "0 \<le> w * 4096 + s" "w * 4096 + s < 4194304" using assms by auto
  then show "(t * 4194304 + (w * 4096 + s)) div 4194304 = t" by simp
  have eq: "t * 4194304 + (w * 4096 + s) = (t * 1024 + w) * 4096 + s" by simp
  have "((t * 1024 + w) * 4096 + s) div 4096 = t * 1024 + w" using assms by simp
  then show "((t * 4194304 + (w * 4096 + s)) div 4096) mod 1024 = w"
    unfolding eq using assms by simp
  show "(t * 4194304 + (w * 4096 + s)) mod 4096 = s"
    unfolding eq using assms by (simp only: mod_mult_self3) simp
qed

lemma decode_pack_id:
  assumes "generator_ok g"
  shows "decode g (pack_id g) = (last_ms g, worker_id g, sequence g)"
  using assms layout_digits [of "worker_id g" "sequence g" "last_ms g - epoch_ms g"]
  by (simp add: decode_arith pack_id_arith generator_ok_def)

section \<open>One call\<close>

lemma wait_until_next_ms_gt:
  assumes "wait_until_next_ms clk i prev = Some (now, j)"
  shows "prev < now"
proof -
  have "prev < fst (now, j)"
  proof (rule wait_until_next_ms.raw_induct [where P = "\<lambda>clk i prev r. prev < fst r", OF _ assms])
    fix w :: "(nat \<Rightarrow> int) \<Rightarrow> nat \<Rightarrow> int \<Rightarrow> (int \<times> nat) option" and clk i prev r
    assume IH: "\<And>clk i prev r. w clk i prev = Some r \<Longrightarrow> prev < fst r"
      and eq: "(if clk i \<le> prev then w clk (Suc i) prev else Some (clk i, Suc i)) = Some r"
    then show "prev < fst r" by (auto split: if_splits)
  qed
  then show ?thesis by simp
qed

lemma wait_until_next_ms_returns:
  assumes "prev < clk (i + n)"
  shows "\<exists>now j. wait_until_next_ms clk i prev = Some (now, j)"
  using assms
proof (induction n arbitrary: i)
  case 0
  then show ?case by (subst wait_until_next_ms.simps) auto
next
  case (Suc n)
  then show ?case by (subst wait_until_next_ms.simps) auto
qed

text \<open>What a successful call does: a strictly later (timestamp, sequence) pair, packed.\<close>

lemma next_id_Inr:
  assumes "next_id g clk i = Some (Inr v, g', j)" and "generator_ok g"
  shows "v = pack_id g'" and "generator_ok g'"
    and "worker_id g' = worker_id g" and "epoch_ms g' = epoch_ms g"
    and "last_ms g < last_ms g' \<or> last_ms g = last_ms g' \<and> sequence g < sequence g'"
proof -
  have s: "0 \<le> sequence g" "sequence g \<le> 4095" using assms(2) by (auto simp: generator_ok_def)
  have m: "(sequence g + 1) AND 4095 = (if sequence g = 4095 then 0 else sequence g + 1)"
    using s and_mask_mod(1) [of "sequence g + 1"] by simp
  show "v = pack_id g'" "generator_ok g'" "worker_id g' = worker_id g" "epoch_ms g' = epoch_ms g"
    "last_ms g < last_ms g' \<or> last_ms g = last_ms g' \<and> sequence g < sequence g'"
    using assms(1) assms(2) s
    by (auto simp: next_id_def Let_def m generator_ok_def
          dest: wait_until_next_ms_gt split: if_splits option.splits)
qed

lemma pack_id_less:
  assumes "generator_ok g" "generator_ok g'" "worker_id g' = worker_id g" "epoch_ms g' = epoch_ms g"
    and "last_ms g < last_ms g' \<or> last_ms g = last_ms g' \<and> sequence g < sequence g'"
  shows "pack_id g < pack_id g'"
proof -
  have "0 \<le> sequence g" "sequence g \<le> 4095" "0 \<le> sequence g'" "sequence g' \<le> 4095"
    using assms(1,2) by (auto simp: generator_ok_def)
  with assms show ?thesis by (auto simp: pack_id_arith)
qed

lemma next_id_increases:
  assumes "next_id g clk i = Some (Inr v, g', j)" "generator_ok g"
  shows "pack_id g < v"
  using pack_id_less [of g g'] next_id_Inr [OF assms] assms(2) by auto

lemma SnowflakeGenerator_ok: "SnowflakeGenerator wid epoch = Inr g \<Longrightarrow> generator_ok g"
  by (auto simp: SnowflakeGenerator_def generator_ok_def split: if_splits)

section \<open>Sequences of calls\<close>

lemma mint_increasing:
  assumes "mint n g clk i = Some (vs, g', j)" "generator_ok g"
  shows "sorted_wrt (<) (pack_id g # vs) \<and> generator_ok g' \<and> worker_id g' = worker_id g \<and>
    (\<forall>v \<in> set vs. (v div 2 ^ 12) mod 2 ^ 10 = worker_id g)"
  using assms
proof (induction n arbitrary: g i vs)
  case 0
  then show ?case by auto
next
  case (Suc n)
  then obtain v g1 k ws where c: "next_id g clk i = Some (Inr v, g1, k)"
    and r: "mint n g1 clk k = Some (ws, g', j)" and vs: "vs = v # ws"
    by (auto split: option.splits sum.splits prod.splits)
  note n = next_id_Inr [OF c Suc.prems(2)]
  have "decode g1 v = (last_ms g1, worker_id g1, sequence g1)" using n decode_pack_id by simp
  then have "(v div 2 ^ 12) mod 2 ^ 10 = worker_id g" using n by (simp add: decode_arith)
  moreover from Suc.IH [OF r n(2)] have "sorted_wrt (<) (v # ws)" "generator_ok g'"
    "worker_id g' = worker_id g" "\<forall>v \<in> set ws. (v div 2 ^ 12) mod 2 ^ 10 = worker_id g"
    using n by auto
  moreover have "pack_id g < v" using next_id_increases [OF c Suc.prems(2)] .
  ultimately show ?case by (auto simp: vs)
qed

text \<open>
  The timestamp, worker id and sequence are recovered from an emitted id by \<^verbatim>\<open>decode\<close>, whatever
  the clock reads and however often the generator was called before.
\<close>
theorem decode_next_id:
  assumes "generator_ok g" and "next_id g clk i = Some (Inr v, g', j)"
  shows "decode g v = (last_ms g', worker_id g, sequence g')"
proof -
  note n = next_id_Inr [OF assms(2,1)]
  from decode_pack_id [OF n(2)] n show ?thesis by (simp add: decode_arith)
qed

definition example_generator :: generator where
  "example_generator = \<lparr>worker_id = 7, epoch_ms = EPOCH_MS, last_ms = - 1, sequence = 0\<rparr>"

lemma example_generator_ok: "generator_ok example_generator"
  by (simp add: generator_ok_def example_generator_def)

lemma example_next_id:
  "next_id example_generator (\<lambda>n. EPOCH_MS + 5) 0 =
     Some (Inr (pack_id (example_generator\<lparr>last_ms := EPOCH_MS + 5\<rparr>)),
           example_generator\<lparr>last_ms := EPOCH_MS + 5\<rparr>, 1)"
  by (simp add: next_id_def example_generator_def EPOCH_MS_def Let_def)

theorem decode_next_id_witness:
  "decode example_generator (pack_id (example_generator\<lparr>last_ms := EPOCH_MS + 5\<rparr>))
     = (EPOCH_MS + 5, 7, 0)"
  using decode_next_id [OF example_generator_ok example_next_id]
  by (simp add: example_generator_def)

text \<open>
  C37: the ids of any sequence of successful calls on one generator are strictly increasing, hence
  distinct, and two generators with different worker ids never emit the same id.
\<close>
theorem ids_unique:
  assumes "generator_ok g1" "mint m g1 clk1 i1 = Some (vs, g1', j1)"
    and "generator_ok g2" "mint n g2 clk2 i2 = Some (ws, g2', j2)"
  shows "sorted_wrt (<) vs \<and> distinct vs \<and> (worker_id g1 \<noteq> worker_id g2 \<longrightarrow> set vs \<inter> set ws = {})"
proof -
  note a = mint_increasing [OF assms(2,1)] and b = mint_increasing [OF assms(4,3)]
  then show ?thesis by (auto simp: strict_sorted_iff)
qed

lemma example_mint: "\<exists>vs g' j. mint 1 example_generator (\<lambda>n. EPOCH_MS + 5) 0 = Some (vs, g', j)"
  using example_next_id by (simp add: One_nat_def)

theorem ids_unique_witness:
  "\<exists>vs. (\<exists>g' j. mint 1 example_generator (\<lambda>n. EPOCH_MS + 5) 0 = Some (vs, g', j)) \<and> distinct vs"
  using example_mint ids_unique [OF example_generator_ok _ example_generator_ok] by meson

text \<open>
  An id fits a signed 64-bit BIGINT with the sign bit clear as long as the clock is within
  \<open>2 ^ 41\<close> ms (about 69.7 years) of the custom epoch.
\<close>
theorem next_id_bigint:
  assumes "generator_ok g" and "next_id g clk i = Some (Inr v, g', j)"
    and "epoch_ms g \<le> last_ms g'" "last_ms g' < epoch_ms g + 2 ^ 41"
  shows "0 \<le> v \<and> v < 2 ^ 63"
proof -
  note n = next_id_Inr [OF assms(2,1)]
  have "0 \<le> worker_id g'" "worker_id g' \<le> 1023" "0 \<le> sequence g'" "sequence g' \<le> 4095"
    using n(2) by (auto simp: generator_ok_def)
  with n assms(3,4) show ?thesis by (simp add: pack_id_arith)
qed

theorem next_id_bigint_witness:
  "0 \<le> pack_id (example_generator\<lparr>last_ms := EPOCH_MS + 5\<rparr>) \<and>
   pack_id (example_generator\<lparr>last_ms := EPOCH_MS + 5\<rparr>) < 2 ^ 63"
  by (rule next_id_bigint [OF example_generator_ok example_next_id])
    (simp_all add: example_generator_def)

text \<open>
  C38: under a clock that never goes back and eventually advances, \<^verbatim>\<open>next_id\<close> always returns an id:
  it neither raises nor spins forever, also when the 4096 sequence numbers of a millisecond are used
  up; and a clock that went back makes it raise, leaving the generator as it was.
\<close>
theorem next_id_returns:
  assumes "generator_ok g" and "\<forall>n. \<exists>m. last_ms g < clk (n + m)"
  shows "(last_ms g \<le> clk i \<longrightarrow> (\<exists>v g' j. next_id g clk i = Some (Inr v, g', j))) \<and>
    (clk i < last_ms g \<longrightarrow>
       next_id g clk i = Some (Inl (ClockMovedBackwardsError (last_ms g - clk i)), g, Suc i))"
proof -
  from assms(2) obtain m where "last_ms g < clk (Suc i + m)" by blast
  then obtain now j where "wait_until_next_ms clk (Suc i) (last_ms g) = Some (now, j)"
    using wait_until_next_ms_returns [of "last_ms g" clk "Suc i" m] by blast
  then show ?thesis by (auto simp: next_id_def Let_def)
qed

theorem next_id_returns_witness:
  "\<exists>v g' j. next_id (example_generator\<lparr>last_ms := 3, sequence := 4095\<rparr>) int 3 = Some (Inr v, g', j)"
proof -
  have "generator_ok (example_generator\<lparr>last_ms := 3, sequence := 4095\<rparr>)"
    by (simp add: generator_ok_def example_generator_def)
  moreover have "\<forall>n. \<exists>m. last_ms (example_generator\<lparr>last_ms := 3, sequence := 4095\<rparr>) < int (n + m)"
    by (intro allI exI [of _ 4]) simp
  ultimately show ?thesis
    using next_id_returns [of "example_generator\<lparr>last_ms := 3, sequence := 4095\<rparr>" int 3] by simp
qed

end
