(* ===== verification/PyFloat.thy ===== *)
theory PyFloat
  imports Prelude Complex_Main "HOL-Library.Log_Nat"
begin

text \<open>
  Python's \<^verbatim>\<open>float\<close> (and Lua's numbers) as the exact rational value of an IEEE binary64: every
  arithmetic operation of the source is the exact operation followed by the rounding \<open>fl64\<close>
  (round to nearest, ties to even, 53-bit significand).  Overflow and subnormal numbers are left
  out: the values of this program (ratios of millisecond counts, token counts, percentages) stay
  between \<open>2 powi -60\<close> and \<open>2 ^ 60\<close> in absolute value or are zero.  \<open>rne\<close> is
  \<^verbatim>\<open>round(x)\<close> to an integer, \<open>py_int\<close> is \<^verbatim>\<open>int(x)\<close> (truncation towards zero).  The lemmas
  give what the scoring, timing and rate-limit proofs use: \<open>fl64\<close> is monotone, odd, and exact
  on 53-bit significands.
\<close>

section \<open>Definitions\<close>

definition rne :: "rat \<Rightarrow> int" where
  "rne y = (let f = \<lfloor>y\<rfloor>; d = y - of_int f in
     if d < 1/2 then f else if d > 1/2 then f + 1 else if even f then f else f + 1)"

text \<open>The binary exponent of a positive rational: \<open>2 powi e \<le> x < 2 powi (e + 1)\<close>.\<close>

definition expo :: "rat \<Rightarrow> int" where
  "expo x = (let (p, q) = quotient_of x; e = bitlen p - bitlen q in
     if 2 powi e \<le> x then e else e - 1)"

definition fl64 :: "rat \<Rightarrow> rat" where
  "fl64 x = (if x = 0 then 0 else
     let u = 2 powi (expo \<bar>x\<bar> - 52) in of_int (rne (x / u)) * u)"

definition py_int :: "rat \<Rightarrow> int" where
  "py_int x = (if 0 \<le> x then \<lfloor>x\<rfloor> else \<lceil>x\<rceil>)"

text \<open>\<^verbatim>\<open>timedelta.total_seconds()\<close> and \<^verbatim>\<open>total_seconds() * 1000\<close> of a span in microseconds.\<close>

definition total_seconds :: "int \<Rightarrow> rat" where
  "total_seconds us = fl64 (of_int us / 1000000)"

definition total_ms :: "int \<Rightarrow> rat" where
  "total_ms us = fl64 (total_seconds us * 1000)"

section \<open>Rounding to an integer\<close>

lemma rne_of_int [simp]: "rne (of_int i) = i"
  by (simp add: rne_def)

lemma rne_ge_floor: "\<lfloor>y\<rfloor> \<le> rne y"
  by (simp add: rne_def Let_def)

lemma rne_le_floor_Suc: "rne y \<le> \<lfloor>y\<rfloor> + 1"
  by (simp add: rne_def Let_def)

lemma rne_mono:
  assumes "x \<le> y"
  shows "rne x \<le> rne y"
proof (cases "\<lfloor>x\<rfloor> = \<lfloor>y\<rfloor>")
  case True
  with assms show ?thesis by (auto simp: rne_def Let_def)
next
  case False
  with floor_mono [OF assms] have "\<lfloor>x\<rfloor> + 1 \<le> \<lfloor>y\<rfloor>" by linarith
  with rne_le_floor_Suc [of x] rne_ge_floor [of y] show ?thesis by linarith
qed

lemma rne_ge_int: "of_int i \<le> y \<Longrightarrow> i \<le> rne y"
  using rne_mono [of "of_int i" y] by simp

lemma rne_le_int: "y \<le> of_int i \<Longrightarrow> rne y \<le> i"
  using rne_mono [of y "of_int i"] by simp

lemma rne_uminus: "rne (- y) = - rne y"
proof -
  define f where "f = \<lfloor>y\<rfloor>"
  have f: "of_int f \<le> y" "y < of_int f + 1" unfolding f_def by linarith+
  show ?thesis
  proof (cases "y = of_int f")
    case True
    then show ?thesis using rne_of_int [of f] rne_of_int [of "- f"] by simp
  next
    case False
    with f have "\<lfloor>- y\<rfloor> = - f - 1" by (intro floor_unique) auto
    moreover from this have "even \<lfloor>- y\<rfloor> \<longleftrightarrow> odd f" by simp
    ultimately show ?thesis using False f
      by (auto simp: rne_def Let_def f_def [symmetric] field_simps)
  qed
qed

lemma rne_error: "\<bar>of_int (rne y) - y\<bar> \<le> 1/2"
proof -
  have "of_int \<lfloor>y\<rfloor> \<le> y" "y < of_int \<lfloor>y\<rfloor> + 1" by linarith+
  then show ?thesis by (auto simp: rne_def Let_def abs_le_iff field_simps)
qed

section \<open>The binary exponent\<close>

lemma powi2_pos [simp]: "0 < (2::rat) powi e"
  by simp

lemma powi2_mono: "a \<le> b \<Longrightarrow> (2::rat) powi a \<le> 2 powi b"
  by (rule power_int_increasing) auto

lemma powi2_less: "a < b \<Longrightarrow> (2::rat) powi a < 2 powi b"
  by (rule power_int_strict_increasing) auto

lemma powi2_add: "(2::rat) powi (a + b) = 2 powi a * 2 powi b"
  by (simp add: power_int_add)

lemma bitlen_rat_bounds:
  assumes "0 < p"
  shows "2 powi (bitlen p - 1) \<le> (of_int p :: rat)" "(of_int p :: rat) < 2 powi bitlen p"
proof -
  have pos: "0 < bitlen p" 
  proof -
    have "0 \<le> \<lfloor>log 2 (real_of_int p)\<rfloor>" using assms by (simp add: zero_le_log_cancel_iff)
    then have "0 < 1 + \<lfloor>log 2 (real_of_int p)\<rfloor>" by linarith
    then show ?thesis using assms by (simp add: bitlen_def floorlog_def)
  qed
  have b: "2 ^ nat (bitlen p - 1) \<le> p \<and> p < 2 ^ nat (bitlen p)"
    using bitlen_bounds [OF assms] .
  then have "(of_int (2 ^ nat (bitlen p - 1)) :: rat) \<le> of_int p" by (simp only: of_int_le_iff)
  moreover from b have "(of_int p :: rat) < of_int (2 ^ nat (bitlen p))" by (simp only: of_int_less_iff)
  ultimately show "2 powi (bitlen p - 1) \<le> (of_int p :: rat)" "(of_int p :: rat) < 2 powi bitlen p"
    using pos by (simp_all add: power_int_def)
qed

lemma expo_bounds:
  assumes "0 < x"
  shows "2 powi expo x \<le> x" "x < 2 powi (expo x + 1)"
proof -
  obtain p q where pq: "quotient_of x = (p, q)" by (cases "quotient_of x")
  have q: "0 < q" using quotient_of_denom_pos [OF pq] .
  have x: "x = of_int p / of_int q" using quotient_of_div [OF pq] .
  with assms q have p: "0 < p" by (simp add: zero_less_divide_iff)
  define e where "e = bitlen p - bitlen q"
  note bp = bitlen_rat_bounds [OF p] and bq = bitlen_rat_bounds [OF q]
  have q0: "(0::rat) < of_int q" using q by simp
  have up: "x < 2 powi (e + 1)"
  proof -
    have "2 powi bitlen p = 2 powi (e + 1) * (2::rat) powi (bitlen q - 1)"
      unfolding powi2_add [symmetric] by (simp add: e_def)
    with bp(2) bq(1) have "of_int p < 2 powi (e + 1) * (of_int q :: rat)"
      by (metis less_le_trans mult_left_mono less_imp_le powi2_pos)
    with q0 show ?thesis unfolding x by (simp add: field_simps)
  qed
  have lo: "2 powi (e - 1) \<le> x"
  proof -
    have "2 powi (bitlen p - 1) = 2 powi (e - 1) * (2::rat) powi bitlen q"
      unfolding powi2_add [symmetric] by (simp add: e_def)
    with bp(1) bq(2) have "2 powi (e - 1) * (of_int q :: rat) \<le> of_int p"
      by (metis order_trans mult_left_mono less_imp_le powi2_pos)
    with q0 show ?thesis unfolding x by (simp add: field_simps)
  qed
  have ex: "expo x = (if 2 powi e \<le> x then e else e - 1)"
    by (simp add: expo_def pq e_def)
  show "2 powi expo x \<le> x" using lo by (simp add: ex)
  show "x < 2 powi (expo x + 1)" using up by (simp add: ex)
qed

lemma expo_mono:
  assumes "0 < x" "x \<le> y"
  shows "expo x \<le> expo y"
proof (rule ccontr)
  assume "\<not> expo x \<le> expo y"
  then have "(2::rat) powi (expo y + 1) \<le> 2 powi expo x" by (intro powi2_mono) simp
  with expo_bounds [of x] expo_bounds [of y] assms show False by linarith
qed

section \<open>Rounding to binary64\<close>

lemma fl64_0 [simp]: "fl64 0 = 0"
  by (simp add: fl64_def)

lemma fl64_uminus [simp]: "fl64 (- x) = - fl64 x"
  by (simp add: fl64_def Let_def rne_uminus)

lemma fl64_scaled:
  assumes "0 < x"
  shows "2 ^ 52 \<le> x / 2 powi (expo x - 52)" "x / 2 powi (expo x - 52) < 2 ^ 53"
proof -
  have a: "2 powi expo x = 2 ^ 52 * (2::rat) powi (expo x - 52)"
    using powi2_add [of 52 "expo x - 52"] by simp
  have b: "2 powi (expo x + 1) = 2 ^ 53 * (2::rat) powi (expo x - 52)"
    using powi2_add [of 53 "expo x - 52"] by (simp add: algebra_simps)
  from expo_bounds [OF assms] a b
  show "2 ^ 52 \<le> x / 2 powi (expo x - 52)" "x / 2 powi (expo x - 52) < 2 ^ 53"
    by (simp_all add: field_simps)
qed

lemma fl64_binade:
  assumes "0 < x"
  shows "2 powi expo x \<le> fl64 x" "fl64 x \<le> 2 powi (expo x + 1)"
proof -
  let ?u = "(2::rat) powi (expo x - 52)"
  have fl: "fl64 x = of_int (rne (x / ?u)) * ?u" using assms by (simp add: fl64_def Let_def)
  have lo: "(2 ^ 52 :: int) \<le> rne (x / ?u)"
    using fl64_scaled(1) [OF assms] by (intro rne_ge_int) simp
  have hi: "rne (x / ?u) \<le> (2 ^ 53 :: int)"
    using fl64_scaled(2) [OF assms] by (intro rne_le_int) simp
  have "of_int (2 ^ 52) \<le> (of_int (rne (x / ?u)) :: rat)"
       "(of_int (rne (x / ?u)) :: rat) \<le> of_int (2 ^ 53)"
    using lo hi by (simp_all only: of_int_le_iff)
  then have "2 ^ 52 * ?u \<le> fl64 x" "fl64 x \<le> 2 ^ 53 * ?u"
    unfolding fl by (simp_all add: mult_right_mono)
  moreover have "2 ^ 52 * ?u = 2 powi expo x" using powi2_add [of 52 "expo x - 52"] by simp
  moreover have "2 ^ 53 * ?u = 2 powi (expo x + 1)"
    using powi2_add [of 53 "expo x - 52"] by (simp add: algebra_simps)
  ultimately show "2 powi expo x \<le> fl64 x" "fl64 x \<le> 2 powi (expo x + 1)" by simp_all
qed

lemma fl64_pos: "0 < x \<Longrightarrow> 0 < fl64 x"
  using fl64_binade(1) [of x] powi2_pos [of "expo x"] by linarith

lemma fl64_mono_pos:
  assumes "0 < x" "x \<le> y"
  shows "fl64 x \<le> fl64 y"
proof (cases "expo x = expo y")
  case True
  let ?u = "(2::rat) powi (expo x - 52)"
  have "rne (x / ?u) \<le> rne (y / ?u)"
    using assms by (intro rne_mono) (simp add: divide_right_mono)
  then have "(of_int (rne (x / ?u)) :: rat) * ?u \<le> of_int (rne (y / ?u)) * ?u"
    by (intro mult_right_mono) simp_all
  with True assms show ?thesis by (simp add: fl64_def Let_def)
next
  case False
  with expo_mono [OF assms] have "expo x + 1 \<le> expo y" by simp
  then have "(2::rat) powi (expo x + 1) \<le> 2 powi expo y" by (rule powi2_mono)
  with fl64_binade(2) [of x] fl64_binade(1) [of y] assms show ?thesis by linarith
qed

lemma fl64_nonneg: "0 \<le> x \<Longrightarrow> 0 \<le> fl64 x"
  using fl64_pos [of x] by (cases "x = 0") auto

lemma fl64_mono:
  assumes "x \<le> y"
  shows "fl64 x \<le> fl64 y"
proof -
  consider "0 < x" | "x \<le> 0" "0 \<le> y" | "y < 0" by linarith
  then show ?thesis
  proof cases
    case 1
    then show ?thesis using assms by (rule fl64_mono_pos)
  next
    case 2
    then have "fl64 x \<le> 0" using fl64_nonneg [of "- x"] by simp
    with fl64_nonneg [OF 2(2)] show ?thesis by linarith
  next
    case 3
    with assms have "fl64 (- y) \<le> fl64 (- x)" by (intro fl64_mono_pos) auto
    then show ?thesis by simp
  qed
qed

text \<open>Values with a 53-bit significand are represented exactly.\<close>

lemma fl64_exact_pos:
  assumes "0 < m" "m < 2 ^ 53"
  shows "fl64 (of_int m * 2 powi k) = of_int m * 2 powi k"
proof -
  let ?x = "(of_int m :: rat) * 2 powi k"
  have x: "0 < ?x" using assms by simp
  have "(of_int m :: rat) < of_int (2 ^ 53)" using assms(2) by (simp only: of_int_less_iff)
  then have "?x < 2 powi (k + 53)" using powi2_add [of k 53] by (simp add: mult.commute)
  with expo_bounds(1) [OF x] have "2 powi expo ?x < (2::rat) powi (k + 53)" by linarith
  then have "expo ?x < k + 53" using powi2_mono [of "k + 53" "expo ?x"] by linarith
  then have e: "0 \<le> k - (expo ?x - 52)" by simp
  define j where "j = nat (k - (expo ?x - 52))"
  have "k = int j + (expo ?x - 52)" using e by (simp add: j_def)
  then have "2 powi k = 2 powi int j * (2::rat) powi (expo ?x - 52)" by (metis powi2_add)
  then have k: "2 powi k = 2 ^ j * (2::rat) powi (expo ?x - 52)" by (simp add: power_int_of_nat)
  from k have q: "?x / 2 powi (expo ?x - 52) = of_int (m * 2 ^ j)" by (simp add: field_simps)
  then have "rne (?x / 2 powi (expo ?x - 52)) = m * 2 ^ j" by (simp only: rne_of_int)
  with x have "fl64 ?x = of_int (m * 2 ^ j) * 2 powi (expo ?x - 52)" by (simp add: fl64_def Let_def)
  also have "\<dots> = of_int m * (2 ^ j * 2 powi (expo ?x - 52))" by simp
  finally show ?thesis by (simp only: k [symmetric])
qed

lemma fl64_exact:
  assumes "\<bar>m\<bar> < 2 ^ 53"
  shows "fl64 (of_int m * 2 powi k) = of_int m * 2 powi k"
proof -
  consider "m = 0" | "0 < m" | "m < 0" by linarith
  then show ?thesis
  proof cases
    case 3
    with assms have "fl64 (of_int (- m) * 2 powi k) = of_int (- m) * 2 powi k"
      by (intro fl64_exact_pos) auto
    then show ?thesis using fl64_uminus [of "of_int m * 2 powi k"] by simp
  qed (use assms fl64_exact_pos [of m k] in auto)
qed

lemma fl64_of_int: "\<bar>m\<bar> < 2 ^ 53 \<Longrightarrow> fl64 (of_int m) = of_int m"
  using fl64_exact [of m 0] by simp

lemma fl64_half: "\<bar>m\<bar> < 2 ^ 53 \<Longrightarrow> fl64 (of_int m / 2) = of_int m / 2"
  using fl64_exact [of m "- 1"] by (simp add: power_int_minus field_simps)

lemma fl64_1 [simp]: "fl64 1 = 1"
  using fl64_of_int [of 1] by simp

lemma fl64_half_1 [simp]: "fl64 (1/2) = 1/2"
  using fl64_half [of 1] by simp

lemma fl64_le_int: "x \<le> of_int m \<Longrightarrow> \<bar>m\<bar> < 2 ^ 53 \<Longrightarrow> fl64 x \<le> of_int m"
  using fl64_mono [of x "of_int m"] fl64_of_int [of m] by simp

lemma fl64_ge_int: "of_int m \<le> x \<Longrightarrow> \<bar>m\<bar> < 2 ^ 53 \<Longrightarrow> of_int m \<le> fl64 x"
  using fl64_mono [of "of_int m" x] fl64_of_int [of m] by simp

text \<open>Rounding a second time changes nothing: a rounded value is a binary64.\<close>

lemma fl64_idem [simp]: "fl64 (fl64 x) = fl64 x"
proof -
  have pos: "fl64 (fl64 y) = fl64 y" if y: "0 < y" for y
  proof -
    let ?u = "(2::rat) powi (expo y - 52)"
    let ?m = "rne (y / ?u)"
    have fl: "fl64 y = of_int ?m * ?u" using y by (simp add: fl64_def Let_def)
    have "2 ^ 52 \<le> ?m" using fl64_scaled(1) [OF y] by (intro rne_ge_int) simp
    moreover have "?m \<le> 2 ^ 53" using fl64_scaled(2) [OF y] by (intro rne_le_int) simp
    ultimately have "0 < ?m" "?m < 2 ^ 53 \<or> ?m = 2 ^ 53" by auto
    then consider "0 < ?m" "?m < 2 ^ 53" | "?m = 2 ^ 53" by blast
    then show ?thesis
    proof cases
      case 1
      then show ?thesis unfolding fl by (rule fl64_exact_pos)
    next
      case 2
      then have "fl64 y = of_int 1 * 2 powi (expo y + 1)"
        unfolding fl using powi2_add [of 53 "expo y - 52"] by (simp add: algebra_simps)
      then show ?thesis using fl64_exact_pos [of 1 "expo y + 1"] by simp
    qed
  qed
  consider "x = 0" | "0 < x" | "0 < - x" by linarith
  then show ?thesis
  proof cases
    case 3
    then show ?thesis using pos [of "- x"] by simp
  qed (auto simp: pos)
qed

section \<open>Spans of time in milliseconds\<close>

lemma py_int_mono: "x \<le> y \<Longrightarrow> py_int x \<le> py_int y"
proof -
  assume le: "x \<le> y"
  have "\<lceil>x\<rceil> \<le> \<lfloor>y\<rfloor>" if "x < 0" "0 \<le> y"
  proof -
    have "\<lceil>x\<rceil> \<le> 0" using that by (simp add: ceiling_le_iff)
    moreover have "0 \<le> \<lfloor>y\<rfloor>" using that by simp
    ultimately show ?thesis by (rule order_trans)
  qed
  with le floor_mono [OF le] ceiling_mono [OF le] show ?thesis
    by (auto simp: py_int_def not_le)
qed

lemma py_int_of_int [simp]: "py_int (of_int i) = i"
  by (simp add: py_int_def)

lemma py_int_0 [simp]: "py_int 0 = 0"
  by (simp add: py_int_def)

lemma total_ms_mono: "a \<le> b \<Longrightarrow> total_ms a \<le> total_ms b"
  unfolding total_ms_def total_seconds_def
  by (intro fl64_mono mult_right_mono) (auto intro: divide_right_mono)

lemma total_ms_0 [simp]: "total_ms 0 = 0"
  by (simp add: total_ms_def total_seconds_def)

text \<open>A span of whole seconds (every time limit of a question) is exact in milliseconds.\<close>

lemma total_ms_seconds:
  assumes "0 \<le> s" "s \<le> 2 ^ 40"
  shows "total_ms (s * 1000000) = of_int (s * 1000)"
proof -
  have "total_seconds (s * 1000000) = of_int s"
    using assms fl64_of_int [of s] by (simp add: total_seconds_def)
  moreover have "fl64 (of_int (s * 1000)) = of_int (s * 1000)"
    using assms by (intro fl64_of_int) simp
  ultimately show ?thesis by (simp add: total_ms_def)
qed

lemma fl64_error:
  assumes "0 \<le> x"
  shows "\<bar>fl64 x - x\<bar> \<le> x / 2 ^ 53"
proof (cases "x = 0")
  case False
  with assms have pos: "0 < x" by simp
  let ?u = "(2::rat) powi (expo x - 52)"
  have fl: "fl64 x = of_int (rne (x / ?u)) * ?u" using pos by (simp add: fl64_def Let_def)
  have "fl64 x - x = (of_int (rne (x / ?u)) - x / ?u) * ?u" by (simp add: fl left_diff_distrib)
  then have "\<bar>fl64 x - x\<bar> = \<bar>of_int (rne (x / ?u)) - x / ?u\<bar> * ?u" by (simp add: abs_mult)
  also have "\<dots> \<le> 1/2 * ?u" by (intro mult_right_mono rne_error) simp
  also have "\<dots> \<le> x / 2 ^ 53" using fl64_scaled(1) [OF pos] by (simp add: field_simps)
  finally show ?thesis .
qed simp

text \<open>Up to a span of eleven days the float computation of whole milliseconds is at most one short.\<close>

lemma total_ms_error:
  assumes "0 \<le> us" "us \<le> 10 ^ 12"
  shows "\<bar>total_ms us - of_int us / 1000\<bar> < 1/1000"
proof -
  define s where "s = total_seconds us"
  have us: "0 \<le> (of_int us :: rat)" "(of_int us :: rat) \<le> 10 ^ 12"
    using assms by (simp, metis of_int_le_iff of_int_numeral of_int_power)
  have s: "\<bar>s - of_int us / 1000000\<bar> \<le> (of_int us / 1000000) / 2 ^ 53"
    unfolding s_def total_seconds_def by (rule fl64_error) (simp add: assms)
  have s0: "0 \<le> s" unfolding s_def total_seconds_def by (rule fl64_nonneg) (simp add: assms)
  have m: "\<bar>total_ms us - s * 1000\<bar> \<le> (s * 1000) / 2 ^ 53"
    unfolding total_ms_def s_def [symmetric] by (rule fl64_error) (simp add: s0)
  have "(of_int us / 1000000) / 2 ^ 53 \<le> (1 / 100000000 :: rat)" using us by simp
  with s have s1: "\<bar>s - of_int us / 1000000\<bar> \<le> 1 / 100000000" by linarith
  have "(of_int us :: rat) / 1000000 \<le> 1000000" using us(2) by (simp add: field_simps)
  with s1 have "s \<le> 2000000" by linarith
  then have "(s * 1000) / 2 ^ 53 \<le> 1 / 1000000" by simp
  with m have "\<bar>total_ms us - s * 1000\<bar> \<le> 1 / 1000000" by linarith
  with s1 show ?thesis by linarith
qed

lemma py_int_total_ms:
  assumes "0 \<le> us" "us \<le> 10 ^ 12"
  shows "us - 1000 \<le> 1000 * py_int (total_ms us)" "1000 * py_int (total_ms us) \<le> us" "0 \<le> py_int (total_ms us)"
proof -
  note e = total_ms_error [OF assms]
  have n: "0 \<le> total_ms us"
    unfolding total_ms_def total_seconds_def using assms by (intro fl64_nonneg mult_nonneg_nonneg) auto
  then have f: "of_int (py_int (total_ms us)) \<le> total_ms us" "total_ms us < of_int (py_int (total_ms us)) + 1"
    using floor_correct [of "total_ms us"] by (simp_all add: py_int_def)
  from f e have "(1000 * of_int (py_int (total_ms us)) :: rat) < of_int us + 1" by linarith
  then have "(of_int (1000 * py_int (total_ms us)) :: rat) < of_int (us + 1)" by simp
  then show "1000 * py_int (total_ms us) \<le> us" unfolding of_int_less_iff by simp
  from f e have "(of_int us :: rat) < 1000 * of_int (py_int (total_ms us)) + 1001" by linarith
  then have "(of_int us :: rat) < of_int (1000 * py_int (total_ms us) + 1001)" by simp
  then show "us - 1000 \<le> 1000 * py_int (total_ms us)" unfolding of_int_less_iff by simp
  show "0 \<le> py_int (total_ms us)" using n by (simp add: py_int_def)
qed

end
