(* ===== verification/RateLimit.thy ===== *)
theory RateLimit
  imports PyFloat
begin

text \<open>
  The token bucket of src/backend/app/cache/rate_limit.py: the Lua script the server runs as one
  atomic command, and \<^verbatim>\<open>acquire\<close>.  Lua numbers are binary64, so every operation of the script is
  rounded; integers below \<open>2 ^ 53\<close> are exact.  The bucket hashes of Redis are a map from keys
  to the bucket and its expiry instant (\<^verbatim>\<open>PEXPIRE\<close>), in milliseconds.
\<close>

section \<open>Definitions\<close>

record bucket =
  tokens :: rat
  ts_ms :: int

type_synonym buckets = "string \<rightharpoonup> bucket \<times> int"

text \<open>\<^verbatim>\<open>HMGET\<close> on a key that may have expired.\<close>

definition live_bucket :: "buckets \<Rightarrow> string \<Rightarrow> int \<Rightarrow> bucket option" where
  "live_bucket bs key now_ms =
     (case bs key of None \<Rightarrow> None | Some (b, expires) \<Rightarrow> if now_ms < expires then Some b else None)"

text \<open>The refill step of the script.\<close>

definition refill :: "int \<Rightarrow> rat \<Rightarrow> int \<Rightarrow> bucket option \<Rightarrow> bucket" where
  "refill capacity refill_per_sec now_ms data =
     (case data of
        None \<Rightarrow> \<lparr>tokens = of_int capacity, ts_ms = now_ms\<rparr>
      | Some b \<Rightarrow>
          (let delta_ms = max 0 (now_ms - ts_ms b)
           in \<lparr>tokens = min (of_int capacity)
                 (fl64 (tokens b + fl64 (fl64 (of_int delta_ms * refill_per_sec) / 1000))),
               ts_ms = now_ms\<rparr>))"

definition rate_limit_lua ::
  "int \<Rightarrow> rat \<Rightarrow> int \<Rightarrow> int \<Rightarrow> bucket option \<Rightarrow> (bool \<times> int \<times> int) \<times> bucket" where
  "rate_limit_lua capacity refill_per_sec cost now_ms data =
     (let b = refill capacity refill_per_sec now_ms data in
      if of_int cost \<le> tokens b
      then (let t = fl64 (tokens b - of_int cost) in ((True, \<lfloor>t\<rfloor>, 0), b\<lparr>tokens := t\<rparr>))
      else (let missing = fl64 (of_int cost - tokens b) in
            ((False, \<lfloor>tokens b\<rfloor>, \<lceil>fl64 (fl64 (missing * 1000) / refill_per_sec)\<rceil>), b)))"

definition bucket_ttl_ms :: "int \<Rightarrow> rat \<Rightarrow> int" where
  "bucket_ttl_ms capacity refill_per_sec = \<lceil>fl64 (of_int capacity / refill_per_sec)\<rceil> * 1000 + 1000"

definition acquire ::
  "buckets \<Rightarrow> string \<Rightarrow> int \<Rightarrow> rat \<Rightarrow> int \<Rightarrow> int \<Rightarrow> (bool \<times> int \<times> int) \<times> buckets" where
  "acquire bs key capacity refill_per_sec cost now_ms =
     (let (reply, b) = rate_limit_lua capacity refill_per_sec cost now_ms (live_bucket bs key now_ms)
      in (reply, bs(key \<mapsto> (b, now_ms + bucket_ttl_ms capacity refill_per_sec))))"

text \<open>A reference bucket that never expires, and a history of requests at given instants.\<close>

definition acquire_ref ::
  "(string \<rightharpoonup> bucket) \<Rightarrow> string \<Rightarrow> int \<Rightarrow> rat \<Rightarrow> int \<Rightarrow> int \<Rightarrow> (bool \<times> int \<times> int) \<times> (string \<rightharpoonup> bucket)" where
  "acquire_ref bs key capacity refill_per_sec cost now_ms =
     (let (reply, b) = rate_limit_lua capacity refill_per_sec cost now_ms (bs key)
      in (reply, bs(key \<mapsto> b)))"

fun requests :: "int \<Rightarrow> rat \<Rightarrow> bucket option \<Rightarrow> int list \<Rightarrow> bool list \<times> bucket option" where
  "requests capacity r data [] = ([], data)"
| "requests capacity r data (now # ts) =
     (let (reply, b) = rate_limit_lua capacity r 1 now data;
          (rest, data') = requests capacity r (Some b) ts
      in (fst reply # rest, data'))"

definition bucket_ok :: "int \<Rightarrow> bucket \<Rightarrow> bool" where
  "bucket_ok capacity b \<longleftrightarrow> 0 \<le> tokens b \<and> tokens b \<le> of_int capacity \<and> fl64 (tokens b) = tokens b"

section \<open>The bucket stays between empty and full\<close>

lemma refill_ok:
  assumes "0 \<le> capacity" "capacity < 2 ^ 53" "0 \<le> r" and "\<forall>b. data = Some b \<longrightarrow> bucket_ok capacity b"
  shows "bucket_ok capacity (refill capacity r now data)"
proof (cases data)
  case None
  with assms show ?thesis by (simp add: refill_def bucket_ok_def fl64_of_int)
next
  case (Some b)
  with assms have "0 \<le> tokens b" by (simp add: bucket_ok_def)
  moreover have "0 \<le> fl64 (fl64 (of_int (max 0 (now - ts_ms b)) * r) / 1000)"
    using assms(3) by (intro fl64_nonneg divide_nonneg_nonneg mult_nonneg_nonneg) auto
  ultimately have "0 \<le> fl64 (tokens b + fl64 (fl64 (of_int (max 0 (now - ts_ms b)) * r) / 1000))"
    by (intro fl64_nonneg) auto
  with Some assms show ?thesis
    by (auto simp: refill_def Let_def bucket_ok_def min_def fl64_of_int)
qed

lemma rate_limit_lua_ok:
  assumes "0 \<le> capacity" "capacity < 2 ^ 53" "0 \<le> r" "0 \<le> cost"
    and "\<forall>b. data = Some b \<longrightarrow> bucket_ok capacity b"
    and "rate_limit_lua capacity r cost now data = (reply, b')"
  shows "bucket_ok capacity b'"
proof -
  let ?b = "refill capacity r now data"
  have ok: "bucket_ok capacity ?b" using assms by (intro refill_ok)
  have "bucket_ok capacity (?b\<lparr>tokens := fl64 (tokens ?b - of_int cost)\<rparr>)" if "of_int cost \<le> tokens ?b"
  proof -
    have "0 \<le> fl64 (tokens ?b - of_int cost)" using that by (intro fl64_nonneg) simp
    moreover have "fl64 (tokens ?b - of_int cost) \<le> of_int capacity"
      using ok assms by (intro fl64_le_int) (auto simp: bucket_ok_def)
    ultimately show ?thesis by (simp add: bucket_ok_def)
  qed
  with ok assms(6) show ?thesis by (auto simp: rate_limit_lua_def Let_def split: if_splits)
qed

section \<open>A burst\<close>

lemma refill_same_instant:
  assumes "bucket_ok capacity b" "now = ts_ms b"
  shows "refill capacity r now (Some b) = b"
  using assms by (simp add: refill_def bucket_ok_def min_absorb2)

text \<open>Requests at one instant: as many are admitted as there are whole tokens.\<close>

lemma requests_burst:
  assumes "0 \<le> capacity" "capacity < 2 ^ 53" "0 \<le> k" "int k \<le> capacity"
  shows "fst (requests capacity r (Some \<lparr>tokens = of_int (int k), ts_ms = now\<rparr>) (replicate n now))
    = replicate (min n k) True @ replicate (n - k) False"
  using assms(3,4)
proof (induction n arbitrary: k)
  case 0
  then show ?case by simp
next
  case (Suc n)
  let ?b = "\<lambda>k. \<lparr>tokens = of_int (int k), ts_ms = now\<rparr>"
  have ok: "bucket_ok capacity (?b k)"
    using Suc.prems assms(2) fl64_of_int [of "int k"] by (simp add: bucket_ok_def)
  have b: "refill capacity r now (Some (?b k)) = ?b k" by (rule refill_same_instant [OF ok]) simp
  show ?case
  proof (cases k)
    case 0
    then have "rate_limit_lua capacity r 1 now (Some (?b k)) = ((False, 0,
        \<lceil>fl64 (fl64 (fl64 1 * 1000) / r)\<rceil>), ?b k)"
      using b by (simp add: rate_limit_lua_def)
    then show ?thesis using Suc.IH [of k] Suc.prems 0 by (simp add: split_beta)
  next
    case (Suc k')
    have "fl64 (of_int (int k')) = of_int (int k')"
      using Suc.prems Suc assms(2) by (intro fl64_of_int) simp
    then have "rate_limit_lua capacity r 1 now (Some (?b k)) = ((True, int k', 0), ?b k')"
      using b Suc by (simp add: rate_limit_lua_def)
    then show ?thesis using Suc.IH [of k'] Suc.prems Suc by (simp add: split_beta)
  qed
qed

section \<open>Expiry of an idle bucket\<close>

lemma fl64_error_half:
  assumes "0 < x" "x < 2 ^ 53"
  shows "\<bar>fl64 x - x\<bar> \<le> 1/2"
proof -
  let ?u = "(2::rat) powi (expo x - 52)"
  have "2 powi expo x < (2::rat) powi 53" using expo_bounds(1) [OF assms(1)] assms(2) by simp
  then have "expo x < 53" using powi2_mono [of 53 "expo x"] by linarith
  then have u: "?u \<le> 1" using powi2_mono [of "expo x - 52" 0] by simp
  have "fl64 x - x = (of_int (rne (x / ?u)) - x / ?u) * ?u"
    using assms(1) by (simp add: fl64_def Let_def algebra_simps)
  then have "\<bar>fl64 x - x\<bar> = \<bar>of_int (rne (x / ?u)) - x / ?u\<bar> * ?u" by (simp add: abs_mult)
  also have "\<dots> \<le> 1/2 * 1" using rne_error [of "x / ?u"] u by (intro mult_mono) auto
  finally show ?thesis by simp
qed

lemma refill_after_ttl:
  assumes "0 < capacity" "capacity < 2 ^ 40" "0 < r" "of_int capacity / r < 2 ^ 53"
    and "bucket_ok capacity b" "ts_ms b + bucket_ttl_ms capacity r \<le> now"
  shows "refill capacity r now (Some b) = refill capacity r now None"
proof -
  let ?x = "of_int capacity / r"
  let ?d = "now - ts_ms b"
  have "\<bar>fl64 ?x - ?x\<bar> \<le> 1/2" using assms by (intro fl64_error_half) simp_all
  then have "?x - 1/2 \<le> fl64 ?x" by linarith
  then have "?x \<le> of_int (\<lceil>fl64 ?x\<rceil> + 1)" using le_of_int_ceiling [of "fl64 ?x"] by linarith
  then have "?x * 1000 \<le> (of_int (\<lceil>fl64 ?x\<rceil> + 1)) * 1000" by (rule mult_right_mono) simp
  also have "\<dots> = of_int (bucket_ttl_ms capacity r)" by (simp add: bucket_ttl_ms_def)
  also have "\<dots> \<le> of_int ?d" using assms(6) by (simp only: of_int_le_iff)
  finally have "?x * 1000 \<le> of_int ?d" .
  then have d: "of_int (capacity * 1000) \<le> of_int ?d * r" using assms(3) by (simp add: field_simps)
  have d0: "0 \<le> ?d"
  proof -
    have "0 \<le> ?x * 1000" using assms by simp
    with \<open>?x * 1000 \<le> of_int ?d\<close> have "(0::rat) \<le> of_int ?d" by linarith
    then show ?thesis by simp
  qed
  have "of_int (capacity * 1000) \<le> fl64 (of_int ?d * r)"
    using d assms(1,2) by (intro fl64_ge_int) auto
  then have "of_int capacity \<le> fl64 (of_int ?d * r) / 1000" by simp
  then have "of_int capacity \<le> fl64 (fl64 (of_int ?d * r) / 1000)"
    using assms(1,2) by (intro fl64_ge_int) auto
  then have "of_int capacity \<le> fl64 (tokens b + fl64 (fl64 (of_int ?d * r) / 1000))"
    using assms(1,2,5) by (intro fl64_ge_int) (auto simp: bucket_ok_def)
  with d0 show ?thesis by (simp add: refill_def Let_def min_absorb1)
qed

section \<open>Properties\<close>

text \<open>
  A fresh bucket admits exactly \<open>capacity\<close> requests of a burst at one instant and refuses all
  the others, so the eleventh login attempt (or join) of a burst is always rate limited.
\<close>
theorem burst_admits_capacity:
  assumes "0 < capacity" "capacity < 2 ^ 53"
  shows "fst (requests capacity r None (replicate n now)) =
    replicate (min n (nat capacity)) True @ replicate (n - nat capacity) False"
proof (cases n)
  case 0
  then show ?thesis by simp
next
  case (Suc m)
  let ?b = "\<lparr>tokens = of_int (int (nat capacity)), ts_ms = now\<rparr>"
  have "refill capacity r now None = ?b" using assms by (simp add: refill_def)
  moreover have "refill capacity r now (Some ?b) = ?b"
    using assms fl64_of_int [of capacity]
    by (intro refill_same_instant) (simp_all add: bucket_ok_def)
  ultimately have "requests capacity r None (replicate n now) = requests capacity r (Some ?b) (replicate n now)"
    by (simp add: Suc rate_limit_lua_def)
  then show ?thesis using requests_burst [of capacity "nat capacity" r now n] assms by simp
qed

theorem burst_admits_capacity_witness:
  "fst (requests 10 (1/6) None (replicate 11 5000)) = replicate 10 True @ replicate 1 False"
  using burst_admits_capacity [of 10 "1/6" 11 5000] by simp

text \<open>
  Letting Redis drop an idle bucket after its TTL changes no decision: on buckets whose expiry
  is their last use plus the TTL, \<^verbatim>\<open>acquire\<close> replies exactly as a bucket that never expires.
\<close>
theorem expiry_is_invisible:
  assumes "0 < capacity" "capacity < 2 ^ 40" "0 < r" "of_int capacity / r < 2 ^ 53"
    and "bs key = Some (b, ts_ms b + bucket_ttl_ms capacity r)" "bucket_ok capacity b"
    and "ref key = Some b"
  shows "fst (acquire bs key capacity r cost now) = fst (acquire_ref ref key capacity r cost now) \<and>
    map_option fst (snd (acquire bs key capacity r cost now) key)
      = snd (acquire_ref ref key capacity r cost now) key"
proof -
  have "rate_limit_lua capacity r cost now (live_bucket bs key now)
      = rate_limit_lua capacity r cost now (Some b)"
  proof (cases "now < ts_ms b + bucket_ttl_ms capacity r")
    case True
    with assms(5) show ?thesis by (simp add: live_bucket_def)
  next
    case False
    with assms have "refill capacity r now (Some b) = refill capacity r now None"
      by (intro refill_after_ttl) auto
    with False assms(5) show ?thesis by (simp add: live_bucket_def rate_limit_lua_def)
  qed
  with assms(7) show ?thesis by (simp add: acquire_def acquire_ref_def split_beta)
qed

definition example_bucket :: bucket where
  "example_bucket = \<lparr>tokens = 3, ts_ms = 0\<rparr>"

theorem expiry_is_invisible_witness:
  "fst (acquire [''k'' \<mapsto> (example_bucket, ts_ms example_bucket + bucket_ttl_ms 60 1)] ''k'' 60 1 1 70000)
     = fst (acquire_ref [''k'' \<mapsto> example_bucket] ''k'' 60 1 1 70000)"
proof -
  have ok: "bucket_ok 60 example_bucket"
    using fl64_of_int [of 3] by (simp add: bucket_ok_def example_bucket_def)
  show ?thesis
    using expiry_is_invisible [of 60 1 "[''k'' \<mapsto> (example_bucket, ts_ms example_bucket + bucket_ttl_ms 60 1)]"
        "''k''" example_bucket "[''k'' \<mapsto> example_bucket]" 1 70000] ok by simp
qed

text \<open>
  Over any history of requests the bucket holds between zero and \<open>capacity\<close> tokens, so the
  remaining count the script replies is never negative and never above the capacity.
\<close>
theorem acquire_remaining_bounds:
  assumes "0 \<le> capacity" "capacity < 2 ^ 53" "0 \<le> r" "0 \<le> cost"
    and "\<forall>b e. bs key = Some (b, e) \<longrightarrow> bucket_ok capacity b"
    and "acquire bs key capacity r cost now = ((allowed, remaining, retry), bs')"
  shows "0 \<le> remaining \<and> remaining \<le> capacity \<and> (\<forall>b e. bs' key = Some (b, e) \<longrightarrow> bucket_ok capacity b)"
proof -
  have live: "\<forall>b. live_bucket bs key now = Some b \<longrightarrow> bucket_ok capacity b"
    using assms(5) by (auto simp: live_bucket_def split: option.splits if_splits)
  obtain b where lua: "rate_limit_lua capacity r cost now (live_bucket bs key now) = ((allowed, remaining, retry), b)"
    and bs': "bs' = bs(key \<mapsto> (b, now + bucket_ttl_ms capacity r))"
    using assms(6) by (auto simp: acquire_def split: prod.splits)
  have ok: "bucket_ok capacity b" using rate_limit_lua_ok [OF assms(1-4) live lua] .
  have "remaining = \<lfloor>tokens b\<rfloor>" using lua by (auto simp: rate_limit_lua_def Let_def split: if_splits)
  moreover have "0 \<le> \<lfloor>tokens b\<rfloor>" using ok by (simp add: bucket_ok_def)
  moreover have "\<lfloor>tokens b\<rfloor> \<le> capacity" using ok floor_mono [of "tokens b" "of_int capacity"]
    by (simp add: bucket_ok_def)
  ultimately show ?thesis using ok bs' by simp
qed

theorem acquire_remaining_bounds_witness:
  "0 \<le> fst (snd (fst (acquire Map.empty ''k'' 10 (1/6) 1 0)))"
proof -
  obtain al re rt bs' where a: "acquire Map.empty ''k'' 10 (1/6) 1 0 = ((al, re, rt), bs')"
    by (metis prod.exhaust)
  have "0 \<le> re \<and> re \<le> 10 \<and> (\<forall>b e. bs' ''k'' = Some (b, e) \<longrightarrow> bucket_ok 10 b)"
    by (rule acquire_remaining_bounds [OF _ _ _ _ _ a]) simp_all
  with a show ?thesis by simp
qed

end
