(* ===== verification/Scoring.thy ===== *)
theory Scoring
  imports PyFloat
begin

text \<open>
  The pure scoring function of src/backend/app/services/scoring_service.py, with Python's float
  arithmetic: \<^verbatim>\<open>rt / deadline_ms\<close>, \<^verbatim>\<open>1.0 - _\<close>, \<^verbatim>\<open>0.5 * _\<close>, \<^verbatim>\<open>0.5 + _\<close> and \<^verbatim>\<open>points * _\<close>
  are each rounded to binary64, and \<^verbatim>\<open>round\<close> is half-to-even.  The theorems hold of the rounded
  computation, not of an idealised one.
\<close>

definition SCORING_MODE_FIXED :: string where
  "SCORING_MODE_FIXED = ''fixed''"

definition SCORING_MODE_SPEED_BONUS :: string where
  "SCORING_MODE_SPEED_BONUS = ''speed_bonus''"

text \<open>The float factor \<^verbatim>\<open>0.5 + 0.5 * fraction\<close> the points are multiplied with.\<close>

definition speed_factor :: "int \<Rightarrow> int \<Rightarrow> rat" where
  "speed_factor response_time_ms deadline_ms =
     (let rt = max 0 (min response_time_ms deadline_ms);
          fraction = fl64 (1 - fl64 (of_int rt / of_int deadline_ms))
      in fl64 (1/2 + fl64 (1/2 * fraction)))"

definition score :: "int \<Rightarrow> int \<Rightarrow> int \<Rightarrow> string \<Rightarrow> bool \<Rightarrow> int" where
  "score points response_time_ms deadline_ms mode is_correct =
     (if \<not> is_correct then 0
      else if mode = SCORING_MODE_FIXED then points
      else if deadline_ms \<le> 0 then points
      else rne (fl64 (of_int points * speed_factor response_time_ms deadline_ms)))"

section \<open>The speed factor\<close>

lemma speed_factor_antimono:
  assumes "0 < d" "a \<le> b"
  shows "speed_factor b d \<le> speed_factor a d"
proof -
  have "max 0 (min a d) \<le> max 0 (min b d)" using assms by auto
  then have "(of_int (max 0 (min a d)) :: rat) / of_int d \<le> of_int (max 0 (min b d)) / of_int d"
    using assms by (intro divide_right_mono) (simp_all only: of_int_le_iff of_int_0_le_iff)
  then show ?thesis unfolding speed_factor_def Let_def
    by (intro fl64_mono add_left_mono mult_left_mono diff_left_mono) simp_all
qed

lemma speed_factor_start: "0 < d \<Longrightarrow> speed_factor 0 d = 1"
  by (simp add: speed_factor_def)

lemma speed_factor_deadline: "0 < d \<Longrightarrow> speed_factor d d = 1/2"
  by (simp add: speed_factor_def)

lemma speed_factor_clamp_low: "a \<le> 0 \<Longrightarrow> 0 < d \<Longrightarrow> speed_factor a d = speed_factor 0 d"
  by (simp add: speed_factor_def)

lemma speed_factor_clamp_high: "d \<le> a \<Longrightarrow> speed_factor a d = speed_factor d d"
  by (simp add: speed_factor_def min_absorb2)

lemma speed_factor_bounds:
  assumes "0 < d"
  shows "1/2 \<le> speed_factor a d" "speed_factor a d \<le> 1"
proof -
  have "speed_factor (max a d) d \<le> speed_factor a d"
    using assms by (intro speed_factor_antimono) auto
  then show "1/2 \<le> speed_factor a d"
    using assms speed_factor_clamp_high [of d "max a d"] speed_factor_deadline [of d] by simp
  have "speed_factor a d \<le> speed_factor (min a 0) d"
    using assms by (intro speed_factor_antimono) auto
  then show "speed_factor a d \<le> 1"
    using assms speed_factor_clamp_low [of "min a 0" d] speed_factor_start [of d] by simp
qed

section \<open>The score\<close>

lemma score_wrong [simp]: "score p rt d mode False = 0"
  by (simp add: score_def)

lemma score_fixed [simp]: "score p rt d SCORING_MODE_FIXED True = p"
  by (simp add: score_def)

lemma score_speed:
  "0 < d \<Longrightarrow> mode \<noteq> SCORING_MODE_FIXED \<Longrightarrow>
   score p rt d mode True = rne (fl64 (of_int p * speed_factor rt d))"
  by (simp add: score_def)

lemma points_scaled_bounds:
  assumes "0 < d" "0 \<le> p" "p < 2 ^ 53"
  shows "of_int p / 2 \<le> fl64 (of_int p * speed_factor rt d)"
    and "fl64 (of_int p * speed_factor rt d) \<le> of_int p"
proof -
  have p0: "(0::rat) \<le> of_int p" using assms by simp
  have "of_int p * (1/2) \<le> of_int p * speed_factor rt d"
    using speed_factor_bounds(1) [OF assms(1)] p0 by (rule mult_left_mono)
  then have "fl64 (of_int p / 2) \<le> fl64 (of_int p * speed_factor rt d)"
    by (intro fl64_mono) simp
  with assms show "of_int p / 2 \<le> fl64 (of_int p * speed_factor rt d)"
    by (simp add: fl64_half)
  have "of_int p * speed_factor rt d \<le> of_int p * 1"
    using speed_factor_bounds(2) [OF assms(1)] p0 by (rule mult_left_mono)
  with assms show "fl64 (of_int p * speed_factor rt d) \<le> of_int p"
    by (intro fl64_le_int) auto
qed

lemma score_nonneg_le:
  assumes "0 \<le> p" "p < 2 ^ 53"
  shows "0 \<le> score p rt d mode c \<and> score p rt d mode c \<le> p"
proof (cases "c \<and> mode \<noteq> SCORING_MODE_FIXED \<and> 0 < d")
  case True
  note b = points_scaled_bounds [OF _ assms, of d rt]
  have "of_int 0 \<le> fl64 (of_int p * speed_factor rt d)"
    using b(1) assms(1) True by (intro order_trans [OF _ b(1)]) auto
  then have "0 \<le> rne (fl64 (of_int p * speed_factor rt d))" by (rule rne_ge_int)
  moreover have "rne (fl64 (of_int p * speed_factor rt d)) \<le> p"
    using b(2) True by (intro rne_le_int) auto
  ultimately show ?thesis using True by (simp add: score_def)
next
  case False
  with assms show ?thesis by (auto simp: score_def)
qed

text \<open>
  C40: whatever the timing, the mode and the configured points, a correct answer earns at least
  half of the points (rounded half-to-even) and at most all of them, and a wrong answer earns
  nothing, with every float operation of \<^verbatim>\<open>score\<close> rounded to binary64.
\<close>
theorem score_bounds:
  assumes "0 \<le> points" "points < 2 ^ 53"
  shows "score points rt d mode False = 0 \<and>
    rne (of_int points / 2) \<le> score points rt d mode True \<and>
    score points rt d mode True \<le> points"
proof (intro conjI)
  show "score points rt d mode False = 0" by simp
  show "score points rt d mode True \<le> points" using score_nonneg_le [OF assms] by blast
  have half: "rne (of_int points / 2) \<le> points"
    using assms by (intro rne_le_int) simp
  show "rne (of_int points / 2) \<le> score points rt d mode True"
  proof (cases "mode \<noteq> SCORING_MODE_FIXED \<and> 0 < d")
    case True
    then have "rne (of_int points / 2) \<le> rne (fl64 (of_int points * speed_factor rt d))"
      using points_scaled_bounds(1) [OF _ assms] by (intro rne_mono) auto
    with True show ?thesis by (auto simp: score_speed)
  next
    case False
    with half show ?thesis by (auto simp: score_def)
  qed
qed

theorem score_bounds_witness:
  "score 1000 20000 20000 ''speed_bonus'' False = 0 \<and>
   rne (of_int 1000 / 2) \<le> score 1000 20000 20000 ''speed_bonus'' True \<and>
   score 1000 20000 20000 ''speed_bonus'' True \<le> 1000"
  by (rule score_bounds) simp_all

text \<open>
  Answering later never earns more: for a fixed question the score of a correct answer is
  antitone in the response time, an instantaneous answer earns exactly the points, and one at (or
  after) the deadline earns exactly half of them, rounded half-to-even.
\<close>
theorem score_speed_bonus:
  assumes "0 \<le> points" "points < 2 ^ 53" "0 < deadline_ms" "mode \<noteq> SCORING_MODE_FIXED"
  shows "(rt1 \<le> rt2 \<longrightarrow>
      score points rt2 deadline_ms mode True \<le> score points rt1 deadline_ms mode True) \<and>
    (rt1 \<le> 0 \<longrightarrow> score points rt1 deadline_ms mode True = points) \<and>
    (deadline_ms \<le> rt2 \<longrightarrow> score points rt2 deadline_ms mode True = rne (of_int points / 2))"
proof (intro conjI impI)
  assume "rt1 \<le> rt2"
  then have "fl64 (of_int points * speed_factor rt2 deadline_ms) \<le>
      fl64 (of_int points * speed_factor rt1 deadline_ms)"
    using assms by (intro fl64_mono mult_left_mono speed_factor_antimono) simp_all
  then show "score points rt2 deadline_ms mode True \<le> score points rt1 deadline_ms mode True"
    using assms by (simp add: score_speed rne_mono)
next
  assume "rt1 \<le> 0"
  then have "speed_factor rt1 deadline_ms = 1"
    using assms speed_factor_clamp_low [of rt1 deadline_ms] speed_factor_start by simp
  with assms show "score points rt1 deadline_ms mode True = points"
    by (simp add: score_speed fl64_of_int)
next
  assume "deadline_ms \<le> rt2"
  then have eq: "speed_factor rt2 deadline_ms = 1/2"
    using assms speed_factor_clamp_high [of deadline_ms rt2] speed_factor_deadline by simp
  have "score points rt2 deadline_ms mode True = rne (fl64 (of_int points * (1/2)))"
    using score_speed [OF assms(3,4)] by (simp only: eq)
  with assms show "score points rt2 deadline_ms mode True = rne (of_int points / 2)"
    by (simp add: fl64_half)
qed

theorem score_speed_bonus_witness:
  "score 1000 20000 20000 ''speed_bonus'' True \<le> score 1000 0 20000 ''speed_bonus'' True \<and>
   score 1000 0 20000 ''speed_bonus'' True = 1000 \<and>
   score 1000 20000 20000 ''speed_bonus'' True = rne (1000 / 2)"
proof -
  have "''speed_bonus'' \<noteq> SCORING_MODE_FIXED" by (simp add: SCORING_MODE_FIXED_def)
  from score_speed_bonus [OF _ _ _ this, of 1000 20000 0 20000] show ?thesis by simp
qed

end
