(* ===== verification/Keys.thy ===== *)
theory Keys
  imports Prelude
begin

text \<open>
  The Redis key formatters of src/backend/app/cache/keys.py and the ad hoc keys the services build
  inline, as strings.  The rest of the development keeps Redis as one map per key family (theory
  RedisState); the injectivity theorem here is what makes that representation exact: two families, or two
  arguments of one family, never name the same Redis key.
\<close>

section \<open>Definitions\<close>

definition QUIZ_LIST_PREFIX :: string where "QUIZ_LIST_PREFIX = ''cache:quiz:list:''"

text \<open>
  The payload the list cache key hashes (\<^verbatim>\<open>sort_keys=True\<close>: the fields in alphabetic order).
  \<open>sha1_json\<close> is the hex SHA-1 of the JSON text, a library function.
\<close>

definition quiz_list_payload ::
  "int option \<Rightarrow> string option \<Rightarrow> int option \<Rightarrow> string option \<Rightarrow> int \<Rightarrow> int \<Rightarrow> json" where
  "quiz_list_payload viewer_id q owner_id tag limit offset =
     JObj [(''limit'', JInt limit),
           (''offset'', JInt offset),
           (''owner_id'', JStr (case owner_id of None \<Rightarrow> '''' | Some i \<Rightarrow> if i = 0 then '''' else int_str i)),
           (''q'', JStr (case q of None \<Rightarrow> '''' | Some s \<Rightarrow> s)),
           (''tag'', JStr (case tag of None \<Rightarrow> '''' | Some s \<Rightarrow> s)),
           (''viewer'', JStr (case viewer_id of None \<Rightarrow> ''anon'' | Some i \<Rightarrow> if i = 0 then ''anon'' else int_str i))]"

definition quiz_list_cache_key ::
  "(json \<Rightarrow> string) \<Rightarrow> int option \<Rightarrow> string option \<Rightarrow> int option \<Rightarrow> string option \<Rightarrow> int \<Rightarrow> int \<Rightarrow> string" where
  "quiz_list_cache_key sha1_json viewer_id q owner_id tag limit offset =
     QUIZ_LIST_PREFIX @ sha1_json (quiz_list_payload viewer_id q owner_id tag limit offset)"

definition room_state :: "string \<Rightarrow> string" where "room_state code = ''room:'' @ code @ '':state''"
definition room_participants_key :: "string \<Rightarrow> string" where
  "room_participants_key code = ''room:'' @ code @ '':participants''"
definition room_presence :: "string \<Rightarrow> string" where "room_presence code = ''room:'' @ code @ '':presence''"
definition ws_room :: "string \<Rightarrow> string" where "ws_room code = ''ws:room:'' @ code"
definition room_capacity_counter :: "string \<Rightarrow> string" where
  "room_capacity_counter code = ''room:'' @ code @ '':participants_count''"
definition join_rate_limit_key :: "string \<Rightarrow> string \<Rightarrow> string" where
  "join_rate_limit_key ip code = ''rate:join:'' @ ip @ '':'' @ code"
definition match_leaderboard :: "int \<Rightarrow> string" where
  "match_leaderboard match_id = ''match:'' @ int_str match_id @ '':leaderboard''"
definition match_answered :: "int \<Rightarrow> int \<Rightarrow> string" where
  "match_answered match_id question_id = ''match:'' @ int_str match_id @ '':answered:'' @ int_str question_id"
definition match_current_question :: "int \<Rightarrow> string" where
  "match_current_question match_id = ''match:'' @ int_str match_id @ '':current_question''"
definition match_participant_nick :: "int \<Rightarrow> string" where
  "match_participant_nick match_id = ''match:'' @ int_str match_id @ '':nicknames''"
definition match_pause :: "int \<Rightarrow> string" where
  "match_pause match_id = ''match:'' @ int_str match_id @ '':pause''"
definition match_lb_version :: "int \<Rightarrow> string" where
  "match_lb_version match_id = ''match:'' @ int_str match_id @ '':lb_version''"
definition idempotency_key :: "string \<Rightarrow> string" where "idempotency_key request_id = ''idem:'' @ request_id"

text \<open>Every key family of the room and match state, as data.\<close>

datatype redis_key =
    RoomState string | RoomParticipants string | RoomPresence string | RoomCount string
  | MatchLeaderboard int | MatchAnswered int int | MatchCurrentQuestion int | MatchNicknames int
  | MatchPause int | MatchLbVersion int | IdemKey string

fun render :: "redis_key \<Rightarrow> string" where
  "render (RoomState c) = room_state c"
| "render (RoomParticipants c) = room_participants_key c"
| "render (RoomPresence c) = room_presence c"
| "render (RoomCount c) = room_capacity_counter c"
| "render (MatchLeaderboard m) = match_leaderboard m"
| "render (MatchAnswered m q) = match_answered m q"
| "render (MatchCurrentQuestion m) = match_current_question m"
| "render (MatchNicknames m) = match_participant_nick m"
| "render (MatchPause m) = match_pause m"
| "render (MatchLbVersion m) = match_lb_version m"
| "render (IdemKey r) = idempotency_key r"

section \<open>Lemmas\<close>

lemmas key_defs = room_state_def room_participants_key_def room_presence_def room_capacity_counter_def
  match_leaderboard_def match_answered_def match_current_question_def match_participant_nick_def
  match_pause_def match_lb_version_def idempotency_key_def

text \<open>Splitting a string at its first colon is unambiguous.\<close>

lemma colon_split:
  assumes "CHR '':'' \<notin> set a" "CHR '':'' \<notin> set b" "a @ CHR '':'' # x = b @ CHR '':'' # y"
  shows "a = b \<and> x = y"
  using assms by (auto simp: append_eq_append_conv2 append_eq_Cons_conv Cons_eq_append_conv)

lemma int_str_colon [simp]:
  "int_str i @ CHR '':'' # x = int_str j @ CHR '':'' # y \<longleftrightarrow> i = j \<and> x = y"
  using colon_split [OF int_str_no_colon int_str_no_colon] by auto

text \<open>Within the room family, the text read backwards decides the key.\<close>

lemma room_key_rev:
  "rev (render (RoomState c)) = ''etats:'' @ rev c @ '':moor''"
  "rev (render (RoomParticipants c)) = ''stnapicitrap:'' @ rev c @ '':moor''"
  "rev (render (RoomPresence c)) = ''ecneserp:'' @ rev c @ '':moor''"
  "rev (render (RoomCount c)) = ''tnuoc_stnapicitrap:'' @ rev c @ '':moor''"
  by (simp_all add: key_defs)

lemma rev_apart: "rev a \<noteq> rev b \<Longrightarrow> a \<noteq> b"
  by auto

lemma room_keys_apart:
  "render (RoomState c) \<noteq> render (RoomParticipants d)" "render (RoomState c) \<noteq> render (RoomPresence d)"
  "render (RoomState c) \<noteq> render (RoomCount d)" "render (RoomParticipants c) \<noteq> render (RoomPresence d)"
  "render (RoomParticipants c) \<noteq> render (RoomCount d)" "render (RoomPresence c) \<noteq> render (RoomCount d)"
  by (rule rev_apart, simp only: room_key_rev, simp)+

lemmas room_keys_distinct =
  room_keys_apart [unfolded render.simps] room_keys_apart [unfolded render.simps, symmetric]

text \<open>
  No two Redis keys of the room and match state collide: the key text determines the family
  and its arguments, so a room code, a match id or a request id can never address another family's
  entry.
\<close>
theorem redis_keys_injective: "render a = render b \<longleftrightarrow> a = b"
proof
  assume eq: "render a = render b"
  show "a = b"
    using eq by (cases a; cases b) (simp_all only: render.simps room_keys_distinct, simp_all add: key_defs)
qed simp

end
