(* ===== verification/Models.thy ===== *)
theory Models
  imports Prelude
begin

text \<open>
  The relational data of src/backend/app/db/models: one record per mapped class (columns with the
  class's prefix), the enums, and the database as one list of rows per table.  A list is the order
  in which a scan returns the rows; nothing is assumed of it, so the theorems hold for every order.
  \<^verbatim>\<open>scalar_one_or_none\<close> on a unique column is \<open>find\<close>.  The outbox writer of
  src/backend/app/services/outbox_service.py is here because every service uses it.
\<close>

section \<open>Enums\<close>

datatype UserRole = role_player | role_host | role_moderator | role_admin
datatype QuizVisibility = vis_private | vis_unlisted | vis_public
datatype RoomStatus = lobby | running | paused | completed | cancelled
datatype QuestionType = single_choice | multiple_choice | true_false
datatype ModerationStatus = pending | dismissed | action_taken

fun room_status_value :: "RoomStatus \<Rightarrow> string" where
  "room_status_value lobby = ''lobby''"
| "room_status_value running = ''running''"
| "room_status_value paused = ''paused''"
| "room_status_value completed = ''completed''"
| "room_status_value cancelled = ''cancelled''"

fun visibility_value :: "QuizVisibility \<Rightarrow> string" where
  "visibility_value vis_private = ''private''"
| "visibility_value vis_unlisted = ''unlisted''"
| "visibility_value vis_public = ''public''"

fun question_type_value :: "QuestionType \<Rightarrow> string" where
  "question_type_value single_choice = ''single_choice''"
| "question_type_value multiple_choice = ''multiple_choice''"
| "question_type_value true_false = ''true_false''"

fun moderation_status_value :: "ModerationStatus \<Rightarrow> string" where
  "moderation_status_value pending = ''pending''"
| "moderation_status_value dismissed = ''dismissed''"
| "moderation_status_value action_taken = ''action_taken''"

section \<open>Rows\<close>

record User =
  u_id :: int
  u_email :: string
  u_password_hash :: string
  u_display_name :: string
  u_role :: UserRole
  u_is_active :: bool

record QuizSet =
  qs_id :: int
  qs_owner_id :: int
  qs_title :: string
  qs_description :: "string option"
  qs_visibility :: QuizVisibility
  qs_is_published :: bool
  qs_version :: int
  qs_created_at :: time

record Question =
  q_id :: int
  q_quiz_set_id :: int
  q_position :: int
  q_body :: string
  q_type :: QuestionType
  q_time_limit_seconds :: int
  q_points :: int
  q_explanation :: "string option"

record AnswerOption =
  ao_id :: int
  ao_question_id :: int
  ao_position :: int
  ao_body :: string
  ao_is_correct :: bool

record QuizTag =
  qt_id :: int
  qt_name :: string

record QuizSetTag =
  qst_quiz_set_id :: int
  qst_tag_id :: int

record Room =
  rm_id :: int
  rm_code :: string
  rm_host_id :: int
  rm_quiz_set_id :: int
  rm_status :: RoomStatus
  rm_max_players :: int
  rm_settings :: json
  rm_started_at :: "time option"
  rm_ended_at :: "time option"

record RoomParticipant =
  rp_id :: int
  rp_room_id :: int
  rp_user_id :: "int option"
  rp_nickname :: string
  rp_guest_token_hash :: "string option"
  rp_joined_at :: time
  rp_left_at :: "time option"
  rp_is_kicked :: bool

record Match =
  m_id :: int
  m_room_id :: int
  m_quiz_set_version :: int
  m_status :: RoomStatus
  m_started_at :: time
  m_ended_at :: "time option"

record MatchQuestion =
  mq_id :: int
  mq_match_id :: int
  mq_question_id :: int
  mq_position :: int
  mq_started_at :: "time option"
  mq_deadline_at :: "time option"
  mq_closed_at :: "time option"

record AnswerSubmission =
  as_id :: int
  as_match_id :: int
  as_match_question_id :: int
  as_participant_id :: int
  as_selected_option_ids :: "int list"
  as_is_correct :: bool
  as_score_awarded :: int
  as_response_time_ms :: int
  as_request_id :: string

record FinalScore =
  fs_match_id :: int
  fs_participant_id :: int
  fs_total_score :: int
  fs_correct_count :: int
  fs_average_response_ms :: "int option"
  fs_rank :: int

record OutboxEvent =
  ob_id :: int
  ob_aggregate_type :: string
  ob_aggregate_id :: int
  ob_event_type :: string
  ob_payload :: json
  ob_occurred_at :: time
  ob_published_at :: "time option"
  ob_publish_attempts :: int

record ModerationReport =
  mr_id :: int
  mr_reporter_user_id :: "int option"
  mr_room_id :: "int option"
  mr_target_user_id :: "int option"
  mr_target_quiz_set_id :: "int option"
  mr_reason :: string
  mr_details :: "json option"
  mr_status :: ModerationStatus
  mr_created_at :: time
  mr_reviewed_by :: "int option"
  mr_reviewed_at :: "time option"

record AuditLog =
  al_id :: int
  al_actor_user_id :: "int option"
  al_action :: string
  al_entity_type :: string
  al_entity_id :: "int option"
  al_metadata :: json

record db =
  users :: "User list"
  quiz_sets :: "QuizSet list"
  questions :: "Question list"
  answer_options :: "AnswerOption list"
  quiz_tags :: "QuizTag list"
  quiz_set_tags :: "QuizSetTag list"
  rooms :: "Room list"
  room_participants :: "RoomParticipant list"
  matches :: "Match list"
  match_questions :: "MatchQuestion list"
  answer_submissions :: "AnswerSubmission list"
  final_scores :: "FinalScore list"
  outbox_events :: "OutboxEvent list"
  moderation_reports :: "ModerationReport list"
  audit_logs :: "AuditLog list"

definition empty_db :: db where
  "empty_db = \<lparr>users = [], quiz_sets = [], questions = [], answer_options = [], quiz_tags = [],
     quiz_set_tags = [], rooms = [], room_participants = [], matches = [], match_questions = [],
     answer_submissions = [], final_scores = [], outbox_events = [], moderation_reports = [],
     audit_logs = []\<rparr>"

section \<open>Primary-key reads: session.get\<close>

definition get_user :: "db \<Rightarrow> int \<Rightarrow> User option" where
  "get_user d i = find (\<lambda>u. u_id u = i) (users d)"
definition get_quiz_set :: "db \<Rightarrow> int \<Rightarrow> QuizSet option" where
  "get_quiz_set d i = find (\<lambda>q. qs_id q = i) (quiz_sets d)"
definition get_question :: "db \<Rightarrow> int \<Rightarrow> Question option" where
  "get_question d i = find (\<lambda>q. q_id q = i) (questions d)"
definition get_room :: "db \<Rightarrow> int \<Rightarrow> Room option" where
  "get_room d i = find (\<lambda>r. rm_id r = i) (rooms d)"
definition get_room_by_code :: "db \<Rightarrow> string \<Rightarrow> Room option" where
  "get_room_by_code d code = find (\<lambda>r. rm_code r = code) (rooms d)"
definition get_match :: "db \<Rightarrow> int \<Rightarrow> Match option" where
  "get_match d i = find (\<lambda>m. m_id m = i) (matches d)"
definition get_match_by_room :: "db \<Rightarrow> int \<Rightarrow> Match option" where
  "get_match_by_room d rid = find (\<lambda>m. m_room_id m = rid) (matches d)"
definition get_mq :: "db \<Rightarrow> int \<Rightarrow> int \<Rightarrow> MatchQuestion option" where
  "get_mq d mid pos = find (\<lambda>q. mq_match_id q = mid \<and> mq_position q = pos) (match_questions d)"
definition mqs_of :: "db \<Rightarrow> int \<Rightarrow> MatchQuestion list" where
  "mqs_of d mid = filter (\<lambda>q. mq_match_id q = mid) (match_questions d)"
definition options_of :: "db \<Rightarrow> int \<Rightarrow> AnswerOption list" where
  "options_of d qid = sort_key ao_position (filter (\<lambda>ao. ao_question_id ao = qid) (answer_options d))"
definition questions_of :: "db \<Rightarrow> int \<Rightarrow> Question list" where
  "questions_of d qsid = sort_key q_position (filter (\<lambda>q. q_quiz_set_id q = qsid) (questions d))"

section \<open>Event types and the outbox row\<close>

definition AGG_MATCH :: string where "AGG_MATCH = ''match''"
definition AGG_ANSWER :: string where "AGG_ANSWER = ''answer''"
definition AGG_MODERATION :: string where "AGG_MODERATION = ''moderation''"
definition EVT_MATCH_STARTED :: string where "EVT_MATCH_STARTED = ''MatchStarted''"
definition EVT_QUESTION_STARTED :: string where "EVT_QUESTION_STARTED = ''QuestionStarted''"
definition EVT_QUESTION_CLOSED :: string where "EVT_QUESTION_CLOSED = ''QuestionClosed''"
definition EVT_MATCH_FINISHED :: string where "EVT_MATCH_FINISHED = ''MatchFinished''"
definition EVT_ANSWER_SUBMITTED :: string where "EVT_ANSWER_SUBMITTED = ''AnswerSubmitted''"
definition EVT_CONTENT_REPORTED :: string where "EVT_CONTENT_REPORTED = ''ContentReported''"
definition EVT_CONTENT_FLAGGED :: string where "EVT_CONTENT_FLAGGED = ''ContentFlagged''"
definition EVT_MODERATION_DECISION :: string where "EVT_MODERATION_DECISION = ''ModerationDecisionMade''"

definition outbox_row :: "int \<Rightarrow> string \<Rightarrow> string \<Rightarrow> int \<Rightarrow> json \<Rightarrow> time \<Rightarrow> OutboxEvent" where
  "outbox_row i event_type aggregate_type aggregate_id payload occurred_at =
     \<lparr>ob_id = i, ob_aggregate_type = aggregate_type, ob_aggregate_id = aggregate_id,
      ob_event_type = event_type, ob_payload = payload, ob_occurred_at = occurred_at,
      ob_published_at = None, ob_publish_attempts = 0\<rparr>"

text \<open>\<^verbatim>\<open>register_event\<close> and \<^verbatim>\<open>OutboxRepo.add\<close>: one row in the caller's transaction.\<close>

definition register_event :: "int \<Rightarrow> string \<Rightarrow> string \<Rightarrow> int \<Rightarrow> json \<Rightarrow> time \<Rightarrow> db \<Rightarrow> db" where
  "register_event i event_type aggregate_type aggregate_id payload occurred_at d =
     d\<lparr>outbox_events := outbox_events d @
         [outbox_row i event_type aggregate_type aggregate_id payload occurred_at]\<rparr>"

section \<open>Lemmas\<close>

lemmas get_defs = get_user_def get_quiz_set_def get_question_def get_room_def get_room_by_code_def
  get_match_def get_match_by_room_def get_mq_def

lemma register_event_frame [simp]:
  "users (register_event i e a n p t d) = users d"
  "quiz_sets (register_event i e a n p t d) = quiz_sets d"
  "questions (register_event i e a n p t d) = questions d"
  "answer_options (register_event i e a n p t d) = answer_options d"
  "rooms (register_event i e a n p t d) = rooms d"
  "room_participants (register_event i e a n p t d) = room_participants d"
  "matches (register_event i e a n p t d) = matches d"
  "match_questions (register_event i e a n p t d) = match_questions d"
  "answer_submissions (register_event i e a n p t d) = answer_submissions d"
  "final_scores (register_event i e a n p t d) = final_scores d"
  "moderation_reports (register_event i e a n p t d) = moderation_reports d"
  "audit_logs (register_event i e a n p t d) = audit_logs d"
  "outbox_events (register_event i e a n p t d) = outbox_events d @ [outbox_row i e a n p t]"
  by (simp_all add: register_event_def)

lemma outbox_row_sel [simp]:
  "ob_id (outbox_row i e a n p t) = i" "ob_event_type (outbox_row i e a n p t) = e"
  "ob_aggregate_type (outbox_row i e a n p t) = a" "ob_aggregate_id (outbox_row i e a n p t) = n"
  "ob_payload (outbox_row i e a n p t) = p" "ob_occurred_at (outbox_row i e a n p t) = t"
  "ob_published_at (outbox_row i e a n p t) = None" "ob_publish_attempts (outbox_row i e a n p t) = 0"
  by (simp_all add: outbox_row_def)

lemma find_Some_simps:
  "get_room_by_code d c = Some r \<Longrightarrow> r \<in> set (rooms d) \<and> rm_code r = c"
  "get_room d i = Some r \<Longrightarrow> r \<in> set (rooms d) \<and> rm_id r = i"
  "get_match d i = Some m \<Longrightarrow> m \<in> set (matches d) \<and> m_id m = i"
  "get_match_by_room d i = Some m \<Longrightarrow> m \<in> set (matches d) \<and> m_room_id m = i"
  "get_mq d i p = Some q \<Longrightarrow> q \<in> set (match_questions d) \<and> mq_match_id q = i \<and> mq_position q = p"
  by (auto simp: get_defs dest!: find_Some_set)

end
