(* ===== verification/RedisState.thy ===== *)
theory RedisState
  imports Prelude RateLimit Keys Models "HOL-Library.Multiset" "HOL-Library.Char_ord"
    "HOL-Library.List_Lexorder"
begin

text \<open>
  The Redis side of the backend: src/backend/app/cache/leaderboard.py, idempotency.py and redis.py
  (the two capacity Lua scripts and \<^verbatim>\<open>RoomSnapshotWriter\<close>).  One map per key family (theory Keys
  shows that the families cannot collide), each entry with its expiry instant where the code sets
  one.  A sorted set is the association list of its members and scores, read in Redis's order: by
  score, ties by member, descending.  Every Redis command is one step; a Lua script is one command.
\<close>

section \<open>State\<close>

record answer_response =
  submission_id :: json
  accepted :: bool
  resp_is_correct :: bool
  resp_score_awarded :: int
  resp_response_time_ms :: int
  leaderboard_rank :: "int option"

record rstate =
  room_states :: "string \<rightharpoonup> json \<times> time option"
  room_counts :: "string \<rightharpoonup> int"
  leaderboards :: "int \<Rightarrow> (int \<times> int) list"
  nicknames :: "int \<Rightarrow> (int \<times> string) list"
  answered :: "int \<times> int \<Rightarrow> int list"
  current_questions :: "int \<rightharpoonup> json"
  pauses :: "int \<rightharpoonup> (int option \<times> int) \<times> time"
  lb_versions :: "int \<Rightarrow> int"
  idem :: "string \<rightharpoonup> answer_response \<times> time"
  rate_buckets :: buckets
  revoked_jtis :: "string \<rightharpoonup> time"
  attempt_counts :: "string \<rightharpoonup> int \<times> time"
  match_analytics :: "int \<rightharpoonup> json \<times> time"
  quiz_lists :: "string \<rightharpoonup> json \<times> time"

definition empty_rstate :: rstate where
  "empty_rstate = \<lparr>room_states = Map.empty, room_counts = Map.empty, leaderboards = (\<lambda>_. []),
     nicknames = (\<lambda>_. []), answered = (\<lambda>_. []), current_questions = Map.empty, pauses = Map.empty,
     lb_versions = (\<lambda>_. 0), idem = Map.empty, rate_buckets = Map.empty, revoked_jtis = Map.empty,
     attempt_counts = Map.empty, match_analytics = Map.empty, quiz_lists = Map.empty\<rparr>"

definition json_set :: "json \<Rightarrow> string \<Rightarrow> json \<Rightarrow> json" where
  "json_set j k v = (case j of JObj kvs \<Rightarrow> JObj (AList.update k v kvs) | _ \<Rightarrow> JObj [(k, v)])"

text \<open>\<^verbatim>\<open>cached.setdefault("room", {})["status"] = v\<close>\<close>

definition set_room_status :: "json \<Rightarrow> string \<Rightarrow> json" where
  "set_room_status s v =
     json_set s ''room'' (json_set (case json_get s ''room'' of JNull \<Rightarrow> JObj [] | r \<Rightarrow> r) ''status'' (JStr v))"

section \<open>Leaderboard\<close>

definition zadd_total :: "int \<Rightarrow> int \<Rightarrow> int \<Rightarrow> rstate \<Rightarrow> rstate" where
  "zadd_total match_id participant_id delta r =
     (let z = leaderboards r match_id;
          old = (case map_of z participant_id of None \<Rightarrow> 0 | Some s \<Rightarrow> s)
      in r\<lparr>leaderboards := (leaderboards r)(match_id := AList.update participant_id (old + delta) z)\<rparr>)"

definition mark_answered :: "int \<Rightarrow> int \<Rightarrow> int \<Rightarrow> rstate \<Rightarrow> int \<times> rstate" where
  "mark_answered match_id question_id participant_id r =
     (let s = List.insert participant_id (answered r (match_id, question_id))
      in (int (length s), r\<lparr>answered := (answered r)((match_id, question_id) := s)\<rparr>))"

definition answered_count :: "int \<Rightarrow> int \<Rightarrow> rstate \<Rightarrow> int" where
  "answered_count match_id question_id r = int (length (answered r (match_id, question_id)))"

definition set_nicknames :: "int \<Rightarrow> (int \<times> string) list \<Rightarrow> rstate \<Rightarrow> rstate" where
  "set_nicknames match_id pairs r =
     (if pairs = [] then r
      else r\<lparr>nicknames := (nicknames r)(match_id :=
             fold (\<lambda>(p, n). AList.update p n) pairs (nicknames r match_id))\<rparr>)"

definition get_nickname :: "int \<Rightarrow> int \<Rightarrow> rstate \<Rightarrow> string option" where
  "get_nickname match_id participant_id r = map_of (nicknames r match_id) participant_id"

definition zrevrange :: "(int \<times> int) list \<Rightarrow> (int \<times> int) list" where
  "zrevrange z = rev (sort_key (\<lambda>(p, s). (s, int_str p)) z)"

record lb_entry =
  e_rank :: int
  e_participant_id :: string
  e_nickname :: string
  e_score :: int

definition top :: "int \<Rightarrow> int \<Rightarrow> rstate \<Rightarrow> lb_entry list" where
  "top match_id n r =
     (let rows = take (Suc (nat (max 0 (n - 1)))) (zrevrange (leaderboards r match_id))
      in map (\<lambda>(rank, pid, s). \<lparr>e_rank = int rank, e_participant_id = int_str pid,
             e_nickname = (case get_nickname match_id pid r of None \<Rightarrow> '''' | Some nick \<Rightarrow> nick),
             e_score = s\<rparr>) (enumerate 1 rows))"

definition reset :: "int \<Rightarrow> rstate \<Rightarrow> rstate" where
  "reset match_id r =
     r\<lparr>leaderboards := (leaderboards r)(match_id := []), nicknames := (nicknames r)(match_id := [])\<rparr>"

section \<open>Idempotency cache\<close>

definition IDEMPOTENCY_TTL_SECONDS :: int where "IDEMPOTENCY_TTL_SECONDS = 24 * 60 * 60"

definition idem_get :: "rstate \<Rightarrow> time \<Rightarrow> string \<Rightarrow> answer_response option" where
  "idem_get r now request_id =
     (case idem r request_id of None \<Rightarrow> None
      | Some (v, expires) \<Rightarrow> if now < expires then Some v else None)"

definition idem_set :: "rstate \<Rightarrow> time \<Rightarrow> string \<Rightarrow> answer_response \<Rightarrow> bool \<times> rstate" where
  "idem_set r now request_id response =
     (case idem_get r now request_id of
        Some _ \<Rightarrow> (False, r)
      | None \<Rightarrow> (True, r\<lparr>idem := (idem r)(request_id \<mapsto>
                    (response, now + IDEMPOTENCY_TTL_SECONDS * 1000000))\<rparr>))"

section \<open>Capacity counter and room snapshot\<close>

definition count_of :: "rstate \<Rightarrow> string \<Rightarrow> int" where
  "count_of r code = (case room_counts r code of None \<Rightarrow> 0 | Some n \<Rightarrow> n)"

definition participants_count_init :: "string \<Rightarrow> int \<Rightarrow> rstate \<Rightarrow> rstate" where
  "participants_count_init code value r = r\<lparr>room_counts := (room_counts r)(code \<mapsto> value)\<rparr>"

definition participants_count_admit :: "string \<Rightarrow> int \<Rightarrow> rstate \<Rightarrow> int \<times> rstate" where
  "participants_count_admit code max_players r =
     (let cur = count_of r code in
      if max_players \<le> cur then (- 1, r)
      else (cur + 1, r\<lparr>room_counts := (room_counts r)(code \<mapsto> cur + 1)\<rparr>))"

definition participants_count_release :: "string \<Rightarrow> rstate \<Rightarrow> int \<times> rstate" where
  "participants_count_release code r =
     (let cur = count_of r code in
      if cur \<le> 0 then (0, r)
      else (cur - 1, r\<lparr>room_counts := (room_counts r)(code \<mapsto> cur - 1)\<rparr>))"

definition COMPLETED_TTL_SECONDS :: int where "COMPLETED_TTL_SECONDS = 24 * 60 * 60"

definition snapshot_write :: "time \<Rightarrow> string \<Rightarrow> json \<Rightarrow> RoomStatus \<Rightarrow> rstate \<Rightarrow> rstate" where
  "snapshot_write now code snapshot status r =
     (if status = completed
      then r\<lparr>room_states := (room_states r)(code \<mapsto> (snapshot, Some (now + COMPLETED_TTL_SECONDS * 1000000)))\<rparr>
      else r\<lparr>room_states := (room_states r)(code \<mapsto> (snapshot, None))\<rparr>)"

definition snapshot_read :: "time \<Rightarrow> string \<Rightarrow> rstate \<Rightarrow> json option" where
  "snapshot_read now code r =
     (case room_states r code of None \<Rightarrow> None
      | Some (s, None) \<Rightarrow> Some s
      | Some (s, Some expires) \<Rightarrow> if now < expires then Some s else None)"

section \<open>Interfaces\<close>

text \<open>
  A store in which the first writer of a key wins until the entry expires (\<^verbatim>\<open>SET NX EX\<close>).  The
  idempotency cache here and the stream worker's dedupe are both instances.
\<close>

locale once_store =
  fixes get :: "'s \<Rightarrow> time \<Rightarrow> 'k \<Rightarrow> 'v option"
    and put :: "'s \<Rightarrow> time \<Rightarrow> 'k \<Rightarrow> 'v \<Rightarrow> bool \<times> 's"
    and ttl :: int
  assumes put_hit: "get s now k \<noteq> None \<Longrightarrow> put s now k v = (False, s)"
    and put_miss: "get s now k = None \<Longrightarrow> fst (put s now k v)"
    and get_put_same: "get s now k = None \<Longrightarrow>
      get (snd (put s now k v)) t k = (if t < now + ttl then Some v else None)"
    and get_put_other: "k' \<noteq> k \<Longrightarrow> get (snd (put s now k v)) t k' = get s t k'"
begin

text \<open>After a put, a read within the TTL returns the value of whoever wrote first.\<close>

lemma read_after_put:
  assumes "0 < ttl"
  shows "get (snd (put s now k v)) now k = Some (case get s now k of None \<Rightarrow> v | Some w \<Rightarrow> w)"
  using assms put_hit [of s now k v] get_put_same [of s now k v now] by (cases "get s now k") auto

lemma second_put_loses:
  assumes "get s now k = None" "t < now + ttl"
  shows "put (snd (put s now k v)) t k w = (False, snd (put s now k v))"
  using assms get_put_same [of s now k v t] by (intro put_hit) simp

text \<open>A sequence of claims of one key inside one TTL window: only the first wins.\<close>

primrec claims :: "'s \<Rightarrow> 'k \<Rightarrow> (time \<times> 'v) list \<Rightarrow> bool list \<times> 's" where
  "claims s k [] = ([], s)"
| "claims s k (x # xs) =
     (let (ok, s') = put s (fst x) k (snd x); (oks, s'') = claims s' k xs in (ok # oks, s''))"

lemma claims_hit:
  assumes "\<forall>x \<in> set xs. get s (fst x) k \<noteq> None"
  shows "claims s k xs = (replicate (length xs) False, s)"
  using assms by (induction xs) (auto simp: put_hit)

lemma claims_once:
  assumes "get s now k = None" "\<forall>x \<in> set xs. fst x < now + ttl"
  shows "fst (claims s k ((now, v) # xs)) = True # replicate (length xs) False"
proof -
  have "\<forall>x \<in> set xs. get (snd (put s now k v)) (fst x) k \<noteq> None"
    using assms get_put_same [of s now k v] by auto
  then show ?thesis
    using claims_hit [of xs "snd (put s now k v)" k] put_miss [OF assms(1), of v]
    by (auto simp: split_beta)
qed

end

text \<open>
  A seat counter: what joining a room relies on.  \<open>count\<close> is the number of seats taken, \<open>admit\<close>
  takes one or answers \<open>-1\<close>, \<open>release\<close> gives one back.
\<close>

locale seat_counter =
  fixes count :: "'s \<Rightarrow> 'k \<Rightarrow> int"
    and admit :: "'k \<Rightarrow> int \<Rightarrow> 's \<Rightarrow> int \<times> 's"
    and release :: "'k \<Rightarrow> 's \<Rightarrow> int \<times> 's"
  assumes admit_full: "cap \<le> count s k \<Longrightarrow> admit k cap s = (- 1, s)"
    and admit_free: "count s k < cap \<Longrightarrow> fst (admit k cap s) = count s k + 1"
    and count_admit: "count s k < cap \<Longrightarrow> count (snd (admit k cap s)) k' = count s k' + (if k' = k then 1 else 0)"
    and count_release: "count (snd (release k s)) k' = (if k' = k then max (count s k - 1) (min (count s k) 0) else count s k')"
begin

lemma admit_bounded: "0 \<le> count s k \<Longrightarrow> count s k \<le> cap \<Longrightarrow> count (snd (admit k cap s)) k \<le> cap"
  by (cases "count s k < cap") (simp_all add: count_admit admit_full)

lemma admit_nonneg: "0 \<le> count s k \<Longrightarrow> 0 \<le> count (snd (admit k cap s)) k"
  by (cases "count s k < cap") (simp_all add: count_admit admit_full)

lemma admit_iff: "0 \<le> count s k \<Longrightarrow> fst (admit k cap s) = - 1 \<longleftrightarrow> cap \<le> count s k"
  by (cases "count s k < cap") (simp_all add: admit_free admit_full)

text \<open>Admitting and then compensating leaves the counter as it was.\<close>

lemma admit_release: "0 \<le> count s k \<Longrightarrow> count s k < cap \<Longrightarrow>
  count (snd (release k (snd (admit k cap s)))) k' = count s k'"
  by (simp add: count_release count_admit)

text \<open>Any interleaving of admissions and compensations keeps the counter within the capacity.\<close>

primrec seat_ops :: "'k \<Rightarrow> int \<Rightarrow> bool list \<Rightarrow> 's \<Rightarrow> 's" where
  "seat_ops k cap [] s = s"
| "seat_ops k cap (b # bs) s =
     seat_ops k cap bs (if b then snd (admit k cap s) else snd (release k s))"

lemma seat_ops_bounded:
  assumes "0 \<le> count s k" "count s k \<le> cap"
  shows "0 \<le> count (seat_ops k cap bs s) k \<and> count (seat_ops k cap bs s) k \<le> cap"
  using assms
proof (induction bs arbitrary: s)
  case (Cons b bs)
  have "0 \<le> count (if b then snd (admit k cap s) else snd (release k s)) k \<and>
      count (if b then snd (admit k cap s) else snd (release k s)) k \<le> cap"
    using Cons.prems admit_bounded [of s k cap] admit_nonneg [of s k cap] by (auto simp: count_release)
  with Cons.IH show ?case by simp
qed simp

end

section \<open>The model provides the interfaces\<close>

interpretation idem_store: once_store idem_get idem_set "IDEMPOTENCY_TTL_SECONDS * 1000000"
  by unfold_locales (auto simp: idem_get_def idem_set_def split: option.splits if_splits)

interpretation seats: seat_counter count_of participants_count_admit participants_count_release
  by unfold_locales
    (auto simp: count_of_def participants_count_admit_def participants_count_release_def Let_def)

section \<open>Lemmas\<close>

lemma map_of_update: "map_of (AList.update k v al) k' = (if k' = k then Some v else map_of al k')"
  by (simp add: update_conv)

lemma zadd_total_score:
  "map_of (leaderboards (zadd_total m p d r) m') p' =
     (if m' = m \<and> p' = p then Some ((case map_of (leaderboards r m) p of None \<Rightarrow> 0 | Some s \<Rightarrow> s) + d)
      else map_of (leaderboards r m') p')"
  by (simp add: zadd_total_def Let_def map_of_update)

lemma zadd_total_keys: "distinct (map fst (leaderboards r m)) \<Longrightarrow>
  distinct (map fst (leaderboards (zadd_total m' p d r) m))"
  using distinct_update [of "leaderboards r m'"] by (auto simp: zadd_total_def Let_def)

lemma mset_zrevrange: "mset (zrevrange z) = mset z"
  by (simp add: zrevrange_def)

lemma zrevrange_sorted: "sorted_wrt (\<lambda>a b. snd b \<le> snd a) (zrevrange z)"
proof -
  let ?f = "\<lambda>(p, s). (s :: int, int_str p)"
  have "sorted_wrt (\<lambda>a b. ?f a \<le> ?f b) (sort_key ?f z)"
    using sorted_sort_key [of ?f z] by (simp add: sorted_map)
  then have "sorted_wrt (\<lambda>a b. snd a \<le> snd b) (sort_key ?f z)"
    by (rule sorted_wrt_mono_rel [rotated]) (auto simp: less_eq_prod_def)
  then show ?thesis by (simp add: zrevrange_def sorted_wrt_rev)
qed

lemma map_of_zrevrange:
  assumes "distinct (map fst z)"
  shows "map_of (zrevrange z) = map_of z"
proof -
  have m: "mset (zrevrange z) = mset z" by (rule mset_zrevrange)
  then have s: "set (zrevrange z) = set z" by (rule mset_eq_setD)
  have "mset (map fst (zrevrange z)) = mset (map fst z)" using m by simp
  then have "distinct (map fst (zrevrange z))" using assms mset_eq_imp_distinct_iff by blast
  with s assms show ?thesis by (metis map_of_inject_set)
qed

text \<open>A list of rows numbered from 1, as \<^verbatim>\<open>enumerate(rows, start=1)\<close> does in the reads below.\<close>

lemma map_enumerate_snd: "map (\<lambda>(i, x). f x) (enumerate n xs) = map f xs"
  by (induction xs arbitrary: n) auto

lemma map_enumerate_fst: "map (\<lambda>(i, x). f i) (enumerate n xs) = map f [n ..< n + length xs]"
  by (induction xs arbitrary: n) (auto simp: upt_conv_Cons simp del: upt_Suc)

text \<open>
  The live leaderboard read (\<^verbatim>\<open>top\<close>) lists at most \<open>n\<close> entries with ranks 1, 2, \<dots> in the order
  of the list, every entry is a participant with the score Redis holds for it, scores never increase
  down the list, and no participant left out of the list has a higher score than one in it.
\<close>
theorem top_correct:
  assumes "0 < n" "distinct (map fst (leaderboards r m))"
  shows "map e_rank (top m n r) = map int [1 ..< Suc (length (top m n r))] \<and>
    int (length (top m n r)) \<le> n \<and>
    sorted_wrt (\<lambda>a b. e_score b \<le> e_score a) (top m n r) \<and>
    (\<forall>e \<in> set (top m n r). \<exists>p. e_participant_id e = int_str p \<and>
        map_of (leaderboards r m) p = Some (e_score e)) \<and>
    (\<forall>p s. map_of (leaderboards r m) p = Some s \<longrightarrow>
        int_str p \<in> e_participant_id ` set (top m n r) \<or> (\<forall>e \<in> set (top m n r). s \<le> e_score e))"
proof -
  define rows where "rows = take (Suc (nat (max 0 (n - 1)))) (zrevrange (leaderboards r m))"
  define rest where "rest = drop (Suc (nat (max 0 (n - 1)))) (zrevrange (leaderboards r m))"
  have all: "rows @ rest = zrevrange (leaderboards r m)" by (simp add: rows_def rest_def)
  have t: "top m n r = map (\<lambda>(rank, pid, s). \<lparr>e_rank = int rank, e_participant_id = int_str pid,
      e_nickname = (case get_nickname m pid r of None \<Rightarrow> '''' | Some nick \<Rightarrow> nick), e_score = s\<rparr>)
      (enumerate 1 rows)" by (simp add: top_def rows_def Let_def)
  have ranks: "map e_rank (top m n r) = map int [1 ..< Suc (length rows)]"
    using map_enumerate_fst [of int 1 rows] by (simp add: t comp_def case_prod_unfold del: upt_Suc)
  have ids: "map (\<lambda>e. (e_participant_id e, e_score e)) (top m n r) = map (\<lambda>(p, s). (int_str p, s)) rows"
    using map_enumerate_snd [of "\<lambda>(p, s). (int_str p, s)" 1 rows] by (simp add: t comp_def case_prod_unfold)
  then have "map snd (map (\<lambda>e. (e_participant_id e, e_score e)) (top m n r)) = map snd rows"
    by (simp add: split_beta comp_def)
  then have scores: "map e_score (top m n r) = map snd rows" by (simp add: comp_def)
  have srt: "sorted_wrt (\<lambda>a b. snd b \<le> snd a) (rows @ rest)"
    unfolding all by (rule zrevrange_sorted)
  then have "sorted_wrt (\<lambda>a b. b \<le> a) (map snd rows)"
    by (simp add: sorted_wrt_append sorted_wrt_map)
  then have desc: "sorted_wrt (\<lambda>a b. e_score b \<le> e_score a) (top m n r)"
    by (simp add: scores [symmetric] sorted_wrt_map)
  have set_ids: "(\<lambda>e. (e_participant_id e, e_score e)) ` set (top m n r) = (\<lambda>(p, s). (int_str p, s)) ` set rows"
    using ids by (metis list.set_map)
  have mo: "map_of (rows @ rest) = map_of (leaderboards r m)"
    unfolding all by (rule map_of_zrevrange [OF assms(2)])
  have dist: "distinct (map fst (rows @ rest))"
    unfolding all by (metis assms(2) mset_zrevrange mset_map mset_eq_imp_distinct_iff)
  have inn: "\<exists>p. e_participant_id e = int_str p \<and> map_of (leaderboards r m) p = Some (e_score e)"
    if "e \<in> set (top m n r)" for e
  proof -
    have "(e_participant_id e, e_score e) \<in> (\<lambda>(p, s). (int_str p, s)) ` set rows"
      unfolding set_ids [symmetric] using that by blast
    then obtain p where "e_participant_id e = int_str p" "(p, e_score e) \<in> set rows" by auto
    then show ?thesis using dist mo map_of_eq_Some_iff [OF dist] by (metis Un_iff set_append)
  qed
  have out: "int_str p \<in> e_participant_id ` set (top m n r) \<or> (\<forall>e \<in> set (top m n r). s \<le> e_score e)"
    if "map_of (leaderboards r m) p = Some s" for p s
  proof (cases "(p, s) \<in> set rows")
    case True
    then have "(int_str p, s) \<in> (\<lambda>e. (e_participant_id e, e_score e)) ` set (top m n r)"
      unfolding set_ids by force
    then show ?thesis by auto
  next
    case False
    then have "(p, s) \<in> set rest" using that mo by (metis Un_iff map_of_SomeD set_append)
    with srt have "\<forall>x \<in> set (map snd rows). s \<le> x" by (fastforce simp: sorted_wrt_append)
    then show ?thesis unfolding scores [symmetric] by simp
  qed
  have len: "length (top m n r) = length rows" by (simp add: t)
  then have "int (length (top m n r)) \<le> n" using assms(1) by (simp add: rows_def)
  with ranks len desc inn out show ?thesis by simp
qed

theorem top_correct_witness:
  "let r = zadd_total 5 30 700 (zadd_total 5 20 900 (zadd_total 5 10 700 empty_rstate)) in
    0 < (2 :: int) \<and> map e_rank (top 5 2 r) = map int [1 ..< Suc (length (top 5 2 r))] \<and>
    map (\<lambda>e. (e_rank e, e_participant_id e, e_score e)) (top 5 2 r) = [(1, ''20'', 900), (2, ''30'', 700)]"
proof -
  define r where "r = zadd_total 5 30 700 (zadd_total 5 20 900 (zadd_total 5 10 700 empty_rstate))"
  have "distinct (map fst (leaderboards r 5))" unfolding r_def by code_simp
  from top_correct [of 2 r 5, OF _ this] have "map e_rank (top 5 2 r) = map int [1 ..< Suc (length (top 5 2 r))]"
    by simp
  moreover have "map (\<lambda>e. (e_rank e, e_participant_id e, e_score e)) (top 5 2 r) =
      [(1, ''20'', 900), (2, ''30'', 700)]" unfolding r_def by code_simp
  ultimately show ?thesis by (simp add: Let_def r_def)
qed

end
