(* ===== verification/World.thy ===== *)
theory World
  imports RedisState PyFloat
begin

text \<open>
  The state the services act on: Postgres (\<open>wdb\<close>), Redis (\<open>wredis\<close>), the id generator's
  remaining output (\<open>id_supply\<close>, theory Snowflake), the WebSocket bus (\<open>bus\<close>, every message the
  service hands to \<^verbatim>\<open>broadcast_all\<close>), and the asyncio side of src/backend/app/services/match_service.py:
  the live tasks, the task that is running, and the \<^verbatim>\<open>MatchScheduler\<close> registry.

  A service call is a function from a world to a result and a world.  An error before the commit
  leaves the database as it was (the session rolls back) and keeps what was done outside it.
  Cancelling a sleeping task removes it; cancelling the running task only marks it, and the
  \<^verbatim>\<open>CancelledError\<close> is raised where that task next awaits (\<open>must_cancel\<close>).
\<close>

section \<open>State\<close>

datatype task =
    ArmQuestion (task_match: int) (task_position: int)
  | CloseQuestion (task_match: int) (task_position: int)
  | CloseQuestionAfter (task_match: int) (task_position: int) (task_due: time)
  | GapThenArm (task_match: int) (task_position: int) (task_due: time)

record world =
  wdb :: db
  wredis :: rstate
  id_supply :: "nat \<Rightarrow> int"
  id_next :: nat
  bus :: "(string \<times> json) list"
  tasks :: "(nat \<times> task) list"
  next_task :: nat
  registry :: "(int \<times> nat) list"
  runtimes :: "int list"
  running_task :: "nat option"
  must_cancel :: bool

type_synonym 'a handler = "world \<Rightarrow> 'a result \<times> world"

definition empty_world :: "(nat \<Rightarrow> int) \<Rightarrow> world" where
  "empty_world ids = \<lparr>wdb = empty_db, wredis = empty_rstate, id_supply = ids, id_next = 0, bus = [],
     tasks = [], next_task = 0, registry = [], runtimes = [], running_task = None,
     must_cancel = False\<rparr>"

section \<open>Ids and messages\<close>

definition fresh_id :: "world \<Rightarrow> int \<times> world" where
  "fresh_id w = (id_supply w (id_next w), w\<lparr>id_next := Suc (id_next w)\<rparr>)"

definition fresh_ids :: "nat \<Rightarrow> world \<Rightarrow> int list \<times> world" where
  "fresh_ids n w = (map (id_supply w) [id_next w ..< id_next w + n], w\<lparr>id_next := id_next w + n\<rparr>)"

definition broadcast :: "string \<Rightarrow> string \<Rightarrow> json \<Rightarrow> world \<Rightarrow> world" where
  "broadcast room_code msg_type payload w =
     (let (message_id, w) = fresh_id w
      in w\<lparr>bus := bus w @ [(room_code, JObj [(''type'', JStr msg_type),
            (''message_id'', JStr (int_str message_id)), (''payload'', payload)])]\<rparr>)"

text \<open>\<^verbatim>\<open>register_event\<close>: the outbox row takes its id from the generator.\<close>

definition register :: "string \<Rightarrow> string \<Rightarrow> int \<Rightarrow> json \<Rightarrow> time \<Rightarrow> db \<Rightarrow> world \<Rightarrow> db \<times> world" where
  "register event_type aggregate_type aggregate_id payload occurred_at d w =
     (let (i, w) = fresh_id w
      in (register_event i event_type aggregate_type aggregate_id payload occurred_at d, w))"

section \<open>Tasks and MatchScheduler\<close>

definition create_task :: "task \<Rightarrow> world \<Rightarrow> nat \<times> world" where
  "create_task t w =
     (next_task w, w\<lparr>tasks := tasks w @ [(next_task w, t)], next_task := Suc (next_task w)\<rparr>)"

definition task_cancel :: "nat \<Rightarrow> world \<Rightarrow> world" where
  "task_cancel tid w =
     (if running_task w = Some tid then w\<lparr>must_cancel := True\<rparr>
      else w\<lparr>tasks := filter (\<lambda>(i, _). i \<noteq> tid) (tasks w)\<rparr>)"

definition active :: "world \<Rightarrow> int \<Rightarrow> nat option" where
  "active w = map_of (registry w)"

definition set_active :: "int \<Rightarrow> nat \<Rightarrow> world \<Rightarrow> world" where
  "set_active match_id tid w =
     (let old = active w match_id; w = w\<lparr>registry := AList.update match_id tid (registry w)\<rparr>
      in case old of None \<Rightarrow> w | Some o' \<Rightarrow> task_cancel o' w)"

definition cancel :: "int \<Rightarrow> world \<Rightarrow> bool \<times> world" where
  "cancel match_id w =
     (let task = active w match_id; w = w\<lparr>registry := AList.delete match_id (registry w)\<rparr>
      in case task of None \<Rightarrow> (False, w) | Some t \<Rightarrow> (True, task_cancel t w))"

definition cancel_all :: "world \<Rightarrow> world" where
  "cancel_all w = fold task_cancel (map snd (registry w)) (w\<lparr>registry := []\<rparr>)"

definition runtime_state_for :: "int \<Rightarrow> world \<Rightarrow> world" where
  "runtime_state_for match_id w = w\<lparr>runtimes := List.insert match_id (runtimes w)\<rparr>"

section \<open>Lemmas\<close>

named_theorems world_frame \<open>what the helpers leave alone\<close>
named_theorems exec \<open>definitions unfolded to evaluate a call on a concrete world\<close>

declare empty_db_def [exec] empty_rstate_def [exec] get_defs [exec] questions_of_def [exec] options_of_def [exec]
  mqs_of_def [exec] register_event_def [exec] outbox_row_def [exec] unique_by_def [exec] upd_where_def [exec]
  enumerate_eq_zip [exec] set_nicknames_def [exec] reset_def [exec] snapshot_read_def [exec] answered_count_def [exec]
  empty_world_def [exec] register_def [exec] fresh_id_def [exec] fresh_ids_def [exec] broadcast_def [exec] create_task_def [exec]
  task_cancel_def [exec] active_def [exec] set_active_def [exec] cancel_def [exec] runtime_state_for_def [exec] Let_def [exec]

lemma active_updates [world_frame, simp]:
  "active (w\<lparr>wdb := d\<rparr>) = active w" "active (w\<lparr>wredis := r\<rparr>) = active w" "active (w\<lparr>bus := b\<rparr>) = active w"
  "active (w\<lparr>tasks := ts\<rparr>) = active w" "active (w\<lparr>id_next := n\<rparr>) = active w"
  "active (w\<lparr>running_task := rt\<rparr>) = active w" "active (w\<lparr>must_cancel := mc\<rparr>) = active w"
  by (simp_all add: active_def)

lemma fresh_id_frame [world_frame, simp]:
  "wdb (snd (fresh_id w)) = wdb w" "wredis (snd (fresh_id w)) = wredis w" "bus (snd (fresh_id w)) = bus w"
  "tasks (snd (fresh_id w)) = tasks w" "active (snd (fresh_id w)) = active w"
  "running_task (snd (fresh_id w)) = running_task w" "must_cancel (snd (fresh_id w)) = must_cancel w"
  "next_task (snd (fresh_id w)) = next_task w" "id_supply (snd (fresh_id w)) = id_supply w"
  "id_next (snd (fresh_id w)) = Suc (id_next w)" "fst (fresh_id w) = id_supply w (id_next w)"
  "runtimes (snd (fresh_id w)) = runtimes w"
  by (simp_all add: fresh_id_def active_def)

lemma fresh_ids_frame [world_frame, simp]:
  "wdb (snd (fresh_ids n w)) = wdb w" "wredis (snd (fresh_ids n w)) = wredis w"
  "tasks (snd (fresh_ids n w)) = tasks w" "active (snd (fresh_ids n w)) = active w"
  "running_task (snd (fresh_ids n w)) = running_task w" "must_cancel (snd (fresh_ids n w)) = must_cancel w"
  "next_task (snd (fresh_ids n w)) = next_task w" "id_supply (snd (fresh_ids n w)) = id_supply w"
  "id_next (snd (fresh_ids n w)) = id_next w + n" "length (fst (fresh_ids n w)) = n"
  "bus (snd (fresh_ids n w)) = bus w" "runtimes (snd (fresh_ids n w)) = runtimes w"
  by (simp_all add: fresh_ids_def active_def)

lemma broadcast_frame [world_frame, simp]:
  "wdb (broadcast c t p w) = wdb w" "wredis (broadcast c t p w) = wredis w"
  "tasks (broadcast c t p w) = tasks w" "active (broadcast c t p w) = active w"
  "running_task (broadcast c t p w) = running_task w" "must_cancel (broadcast c t p w) = must_cancel w"
  "next_task (broadcast c t p w) = next_task w" "id_supply (broadcast c t p w) = id_supply w"
  "id_next (broadcast c t p w) = Suc (id_next w)" "runtimes (broadcast c t p w) = runtimes w"
  by (simp_all add: broadcast_def active_def fresh_id_def Let_def)

lemma create_task_frame [world_frame, simp]:
  "wdb (snd (create_task t w)) = wdb w" "wredis (snd (create_task t w)) = wredis w"
  "active (snd (create_task t w)) = active w" "bus (snd (create_task t w)) = bus w"
  "running_task (snd (create_task t w)) = running_task w" "must_cancel (snd (create_task t w)) = must_cancel w"
  "id_supply (snd (create_task t w)) = id_supply w" "id_next (snd (create_task t w)) = id_next w"
  "fst (create_task t w) = next_task w" "tasks (snd (create_task t w)) = tasks w @ [(next_task w, t)]"
  "next_task (snd (create_task t w)) = Suc (next_task w)" "runtimes (snd (create_task t w)) = runtimes w"
  by (simp_all add: create_task_def active_def)

lemma task_cancel_frame [world_frame, simp]:
  "wdb (task_cancel t w) = wdb w" "wredis (task_cancel t w) = wredis w" "bus (task_cancel t w) = bus w"
  "active (task_cancel t w) = active w" "running_task (task_cancel t w) = running_task w"
  "registry (task_cancel t w) = registry w"
  "id_supply (task_cancel t w) = id_supply w" "id_next (task_cancel t w) = id_next w"
  "next_task (task_cancel t w) = next_task w" "runtimes (task_cancel t w) = runtimes w"
  by (simp_all add: task_cancel_def active_def)

lemma set_active_frame [world_frame, simp]:
  "wdb (set_active m t w) = wdb w" "wredis (set_active m t w) = wredis w" "bus (set_active m t w) = bus w"
  "active (set_active m t w) = (active w)(m \<mapsto> t)" "running_task (set_active m t w) = running_task w"
  "id_supply (set_active m t w) = id_supply w" "id_next (set_active m t w) = id_next w"
  "next_task (set_active m t w) = next_task w" "runtimes (set_active m t w) = runtimes w"
  by (simp_all add: set_active_def active_def update_conv' Let_def split: option.splits)

lemma cancel_frame [world_frame, simp]:
  "wdb (snd (cancel m w)) = wdb w" "wredis (snd (cancel m w)) = wredis w" "bus (snd (cancel m w)) = bus w"
  "active (snd (cancel m w)) = (active w)(m := None)" "running_task (snd (cancel m w)) = running_task w"
  "id_supply (snd (cancel m w)) = id_supply w" "id_next (snd (cancel m w)) = id_next w"
  "next_task (snd (cancel m w)) = next_task w" "runtimes (snd (cancel m w)) = runtimes w"
  by (simp_all add: cancel_def active_def delete_conv' Let_def split: option.splits)

lemma runtime_state_for_frame [world_frame, simp]:
  "wdb (runtime_state_for m w) = wdb w" "wredis (runtime_state_for m w) = wredis w"
  "tasks (runtime_state_for m w) = tasks w" "active (runtime_state_for m w) = active w"
  "running_task (runtime_state_for m w) = running_task w" "must_cancel (runtime_state_for m w) = must_cancel w"
  "next_task (runtime_state_for m w) = next_task w" "id_supply (runtime_state_for m w) = id_supply w"
  "id_next (runtime_state_for m w) = id_next w" "bus (runtime_state_for m w) = bus w"
  by (simp_all add: runtime_state_for_def active_def)

lemma set_active_tasks:
  "tasks (set_active m t w) =
     (case active w m of Some o' \<Rightarrow> if running_task w = Some o' then tasks w
        else filter (\<lambda>(i, _). i \<noteq> o') (tasks w) | None \<Rightarrow> tasks w)"
  by (simp add: set_active_def task_cancel_def Let_def split: option.splits)

lemma cancel_tasks:
  "tasks (snd (cancel m w)) =
     (case active w m of Some o' \<Rightarrow> if running_task w = Some o' then tasks w
        else filter (\<lambda>(i, _). i \<noteq> o') (tasks w) | None \<Rightarrow> tasks w)"
  by (simp add: cancel_def task_cancel_def Let_def split: option.splits)

lemma cancel_must_cancel:
  "must_cancel (snd (cancel m w)) \<longleftrightarrow>
     must_cancel w \<or> (running_task w \<noteq> None \<and> active w m = running_task w)"
  by (auto simp: cancel_def task_cancel_def Let_def split: option.splits)

lemma register_eq:
  "register e a i p t d w = (register_event (id_supply w (id_next w)) e a i p t d, snd (fresh_id w))"
  by (simp add: register_def split_beta)

end
