(* ===== verification/PyText.thy ===== *)
theory PyText
  imports PyFloat
begin

text \<open>
  What the services use of Python's text functions: \<^verbatim>\<open>str.lower\<close> and \<^verbatim>\<open>str.strip\<close> on ASCII text, the \<^verbatim>\<open>in\<close> of
  substrings, and \<^verbatim>\<open>int\<close> of a string or of a decoded JSON value.
\<close>

section \<open>Text\<close>

definition lower_char :: "char \<Rightarrow> char" where
  "lower_char c = (let n = of_char c :: nat in if 65 \<le> n \<and> n \<le> 90 then char_of (n + 32) else c)"

definition lower :: "string \<Rightarrow> string" where
  "lower = map lower_char"

definition is_space :: "char \<Rightarrow> bool" where
  "is_space c \<longleftrightarrow> (let n = of_char c :: nat in n = 32 \<or> 9 \<le> n \<and> n \<le> 13 \<or> 28 \<le> n \<and> n \<le> 31)"

definition strip :: "string \<Rightarrow> string" where
  "strip s = rev (dropWhile is_space (rev (dropWhile is_space s)))"

definition contains :: "string \<Rightarrow> string \<Rightarrow> bool" where
  "contains word t \<longleftrightarrow> list_ex (\<lambda>i. take (length word) (drop i t) = word) [0 ..< Suc (length t)]"

section \<open>int()\<close>

text \<open>Python's \<^verbatim>\<open>int\<close> of a decimal string: blanks around, a sign, digits with single underscores between.\<close>

fun int_digits :: "string \<Rightarrow> nat \<Rightarrow> bool \<Rightarrow> nat option" where
  "int_digits [] acc d = (if d then Some acc else None)"
| "int_digits (c # cs) acc d =
     (if 48 \<le> (of_char c :: nat) \<and> (of_char c :: nat) \<le> 57 then int_digits cs (10 * acc + (of_char c - 48)) True
      else if c = CHR ''_'' \<and> d then int_digits cs acc False else None)"

definition int_of_str :: "string \<Rightarrow> int option" where
  "int_of_str s =
     (case strip s of [] \<Rightarrow> None
      | c # cs \<Rightarrow> if c = CHR ''-'' then map_option (\<lambda>n. - int n) (int_digits cs 0 False)
                  else if c = CHR ''+'' then map_option int (int_digits cs 0 False)
                  else map_option int (int_digits (c # cs) 0 False))"

datatype int_error = TypeError | ValueError

fun int_of_json :: "json \<Rightarrow> int_error + int" where
  "int_of_json (JInt i) = Inr i"
| "int_of_json (JBool b) = Inr (if b then 1 else 0)"
| "int_of_json (JFloat r) = Inr (py_int r)"
| "int_of_json (JStr s) = (case int_of_str s of None \<Rightarrow> Inl ValueError | Some i \<Rightarrow> Inr i)"
| "int_of_json (JTime t) = Inl ValueError"
| "int_of_json JNull = Inl TypeError"
| "int_of_json (JArr xs) = Inl TypeError"
| "int_of_json (JObj kvs) = Inl TypeError"

section \<open>Lemmas\<close>

abbreviation is_digit :: "char \<Rightarrow> bool" where
  "is_digit c \<equiv> 48 \<le> (of_char c :: nat) \<and> (of_char c :: nat) \<le> 57"

lemma int_digits_str_nat:
  "list_all is_digit s \<Longrightarrow> s \<noteq> [] \<or> d \<Longrightarrow> int_digits s acc d = Some (str_nat s acc)"
  by (induction s arbitrary: acc d) auto

lemma nat_str_all_digits: "list_all is_digit (nat_str n)"
  using nat_str_digits by (auto simp: list_all_iff)

lemma int_digits_nat_str: "int_digits (nat_str n) 0 False = Some n"
  using int_digits_str_nat [OF nat_str_all_digits [of n], of False 0] nat_str_nonempty [of n] by (simp add: str_nat_nat_str)

lemma strip_id:
  assumes "\<forall>c \<in> set s. \<not> is_space c"
  shows "strip s = s"
proof -
  have *: "dropWhile is_space xs = xs" if "\<forall>c \<in> set xs. \<not> is_space c" for xs
    using that by (cases xs) auto
  show ?thesis using * [OF assms] * [of "rev s"] assms by (simp add: strip_def)
qed

lemma int_str_no_space: "c \<in> set (int_str i) \<Longrightarrow> \<not> is_space c"
proof -
  assume "c \<in> set (int_str i)"
  then have "c = CHR ''-'' \<or> is_digit c"
    using nat_str_digits by (auto simp: int_str_def split: if_splits)
  then show ?thesis by (auto simp: is_space_def Let_def)
qed

lemma int_of_str_int_str: "int_of_str (int_str i) = Some i"
proof -
  have s: "strip (int_str i) = int_str i" using strip_id int_str_no_space by blast
  show ?thesis
  proof (cases "i < 0")
    case True
    then show ?thesis by (simp add: int_of_str_def s) (simp add: int_str_def int_digits_nat_str)
  next
    case False
    obtain c cs where c: "nat_str (nat i) = c # cs" using nat_str_nonempty by (cases "nat_str (nat i)") auto
    then have "is_digit c" using nat_str_digits [of c "nat i"] by simp
    then have "c \<noteq> CHR ''-''" "c \<noteq> CHR ''+''" by auto
    with False c int_digits_nat_str [of "nat i"] show ?thesis by (simp add: int_of_str_def s) (simp add: int_str_def)
  qed
qed

end
