(* ===== verification/Auth.thy ===== *)
theory Auth
  imports World PyText
begin

text \<open>
  Authentication: src/backend/app/core/security.py (tokens and the revocation list),
  src/backend/app/services/auth_service.py (register, login, refresh, logout), the dependencies of
  src/backend/app/api/deps.py and the user and audit repositories.

  The JWT library, the password hasher and SHA-1 are third-party code: the record \<open>auth_lib\<close> holds them as
  functions and \<open>jwt_ok\<close>, \<open>hasher_ok\<close> say what the code relies on.  A decoded token is the dictionary of its
  claims.  \<^verbatim>\<open>time.time()\<close> is the instant \<open>now\<close> of the call, in microseconds.
\<close>

section \<open>Libraries and settings\<close>

datatype jwt_error = ExpiredSignatureError | InvalidTokenError

type_synonym claims = "(string \<times> json) list"

record auth_lib =
  jwt_encode :: "claims \<Rightarrow> string \<Rightarrow> string"
  jwt_decode :: "string \<Rightarrow> string \<Rightarrow> time \<Rightarrow> jwt_error + claims"
  pw_hash :: "nat \<Rightarrow> string \<Rightarrow> string"
  pw_verify :: "string \<Rightarrow> string \<Rightarrow> bool option"
  sha1_hex :: "string \<Rightarrow> string"
  py_repr :: "json \<Rightarrow> string"

text \<open>The claims the code signs: a dictionary of strings and integers without the claims PyJWT treats specially.\<close>

definition plain_claims :: "claims \<Rightarrow> bool" where
  "plain_claims c \<longleftrightarrow> distinct (map fst c) \<and> map_of c ''aud'' = None \<and> map_of c ''nbf'' = None \<and>
     list_all (\<lambda>(k, v). case v of JStr _ \<Rightarrow> True | JInt _ \<Rightarrow> True | _ \<Rightarrow> False) c"

text \<open>
  What PyJWT documents of \<^verbatim>\<open>encode\<close> and \<^verbatim>\<open>decode\<close>: a token is not empty; signed and read with one secret it gives
  back its claims between \<^verbatim>\<open>iat\<close> and \<^verbatim>\<open>exp\<close>; the secret decides only whether the claims are given out; the claims
  do not depend on when the token is read; and nothing is given out at or after \<^verbatim>\<open>exp\<close>.
\<close>

definition jwt_ok :: "auth_lib \<Rightarrow> bool" where
  "jwt_ok L \<longleftrightarrow>
     (\<forall>c s. plain_claims c \<longrightarrow> jwt_encode L c s \<noteq> []) \<and>
     (\<forall>c s now iat expiry. plain_claims c \<and> map_of c ''iat'' = Some (JInt iat) \<and> map_of c ''exp'' = Some (JInt expiry) \<and>
        iat * 1000000 \<le> now \<and> now < expiry * 1000000 \<longrightarrow> jwt_decode L (jwt_encode L c s) s now = Inr c) \<and>
     (\<forall>c s s' now c'. plain_claims c \<and> jwt_decode L (jwt_encode L c s) s' now = Inr c' \<longrightarrow> c' = c) \<and>
     (\<forall>t s now now' c c'. jwt_decode L t s now = Inr c \<and> jwt_decode L t s now' = Inr c' \<longrightarrow> c' = c) \<and>
     (\<forall>t s now c v expiry. jwt_decode L t s now = Inr c \<and> map_of c ''exp'' = Some v \<and> int_of_json v = Inr expiry \<longrightarrow>
        now < expiry * 1000000)"

text \<open>\<^verbatim>\<open>verify\<close> accepts the password a hash was made from, whatever the salt.\<close>

definition hasher_ok :: "auth_lib \<Rightarrow> bool" where
  "hasher_ok L \<longleftrightarrow> (\<forall>salt plain. pw_verify L plain (pw_hash L salt plain) = Some True)"

record Settings =
  jwt_secret :: string
  jwt_refresh_secret :: string
  jwt_access_ttl_min :: int
  jwt_refresh_ttl_days :: int

fun role_value :: "UserRole \<Rightarrow> string" where
  "role_value role_player = ''player''"
| "role_value role_host = ''host''"
| "role_value role_moderator = ''moderator''"
| "role_value role_admin = ''admin''"

section \<open>security.py: passwords and tokens\<close>

definition verify_password :: "auth_lib \<Rightarrow> string \<Rightarrow> string \<Rightarrow> bool" where
  "verify_password L plain hashed = (case pw_verify L plain hashed of None \<Rightarrow> False | Some b \<Rightarrow> b)"

definition ACCESS_TYPE :: string where "ACCESS_TYPE = ''access''"
definition REFRESH_TYPE :: string where "REFRESH_TYPE = ''refresh''"
definition PARTICIPANT_TYPE :: string where "PARTICIPANT_TYPE = ''participant''"
definition PARTICIPANT_TTL_SEC :: int where "PARTICIPANT_TTL_SEC = 4 * 60 * 60"

definition now_ts :: "time \<Rightarrow> int" where "now_ts now = now div 1000000"

definition create_access_token :: "auth_lib \<Rightarrow> Settings \<Rightarrow> time \<Rightarrow> int \<Rightarrow> string \<Rightarrow> int \<Rightarrow> string" where
  "create_access_token L cfg now sub role jti =
     jwt_encode L [(''sub'', JStr (int_str sub)), (''role'', JStr role), (''jti'', JStr (int_str jti)),
       (''type'', JStr ACCESS_TYPE), (''iat'', JInt (now_ts now)),
       (''exp'', JInt (now_ts now + jwt_access_ttl_min cfg * 60))] (jwt_secret cfg)"

definition create_refresh_token :: "auth_lib \<Rightarrow> Settings \<Rightarrow> time \<Rightarrow> int \<Rightarrow> int \<Rightarrow> string" where
  "create_refresh_token L cfg now sub jti =
     jwt_encode L [(''sub'', JStr (int_str sub)), (''jti'', JStr (int_str jti)), (''type'', JStr REFRESH_TYPE),
       (''iat'', JInt (now_ts now)), (''exp'', JInt (now_ts now + jwt_refresh_ttl_days cfg * 86400))]
       (jwt_refresh_secret cfg)"

definition create_participant_token :: "auth_lib \<Rightarrow> Settings \<Rightarrow> time \<Rightarrow> string \<Rightarrow> int \<Rightarrow> string \<Rightarrow> string" where
  "create_participant_token L cfg now room_code participant_id nickname =
     jwt_encode L [(''type'', JStr PARTICIPANT_TYPE), (''room_code'', JStr room_code),
       (''participant_id'', JStr (int_str participant_id)), (''nickname'', JStr nickname),
       (''iat'', JInt (now_ts now)), (''exp'', JInt (now_ts now + PARTICIPANT_TTL_SEC))] (jwt_secret cfg)"

definition decode_token :: "auth_lib \<Rightarrow> time \<Rightarrow> string \<Rightarrow> string \<Rightarrow> string \<Rightarrow> claims result" where
  "decode_token L now token expected_type secret =
     (case jwt_decode L token secret now of
        Inl ExpiredSignatureError \<Rightarrow> Inl (AuthError ''AUTH_REQUIRED'' 401 ''token expired'')
      | Inl InvalidTokenError \<Rightarrow> Inl (AuthError ''AUTH_REQUIRED'' 401 ''invalid token'')
      | Inr c \<Rightarrow>
          if map_of c ''type'' \<noteq> Some (JStr expected_type)
          then Inl (AuthError ''FORBIDDEN'' 403 (''expected token type '' @ [CHR 0x27] @ expected_type @ [CHR 0x27]))
          else Inr c)"

text \<open>\<^verbatim>\<open>claims[k]\<close>, and the text an f-string or \<^verbatim>\<open>str\<close> makes of a claim.\<close>

definition claim_get :: "claims \<Rightarrow> string \<Rightarrow> json result" where
  "claim_get c k = of_option (PyError ''KeyError'') (map_of c k)"

definition claim_text :: "auth_lib \<Rightarrow> json \<Rightarrow> string" where
  "claim_text L v = (case v of JStr s \<Rightarrow> s | JInt i \<Rightarrow> int_str i | JNull \<Rightarrow> ''None'' | JBool b \<Rightarrow> (if b then ''True'' else ''False'') | _ \<Rightarrow> py_repr L v)"

section \<open>security.py: the revocation list\<close>

definition is_jti_revoked :: "rstate \<Rightarrow> time \<Rightarrow> string \<Rightarrow> bool" where
  "is_jti_revoked r now jti \<longleftrightarrow> (case revoked_jtis r jti of None \<Rightarrow> False | Some expires \<Rightarrow> now < expires)"

definition revoke_jti :: "rstate \<Rightarrow> time \<Rightarrow> string \<Rightarrow> int \<Rightarrow> rstate" where
  "revoke_jti r now jti ttl_seconds =
     r\<lparr>revoked_jtis := (revoked_jtis r)(jti \<mapsto> now + max 1 ttl_seconds * 1000000)\<rparr>"

section \<open>Repositories\<close>

definition get_by_email :: "db \<Rightarrow> string \<Rightarrow> User option" where
  "get_by_email d email = find (\<lambda>u. lower (u_email u) = lower email) (users d)"

text \<open>The primary key and the unique index on \<^verbatim>\<open>lower(email)\<close>; \<open>None\<close> is \<^verbatim>\<open>IntegrityError\<close>.\<close>

definition insert_user :: "User \<Rightarrow> db \<Rightarrow> db option" where
  "insert_user u d =
     (if u_id u \<in> u_id ` set (users d) \<or> lower (u_email u) \<in> (\<lambda>v. lower (u_email v)) ` set (users d) then None
      else Some (d\<lparr>users := users d @ [u]\<rparr>))"

definition audit_add :: "AuditLog \<Rightarrow> db \<Rightarrow> db" where
  "audit_add entry d = d\<lparr>audit_logs := audit_logs d @ [entry]\<rparr>"

section \<open>auth_service.py\<close>

definition LOGIN_CAPACITY :: int where "LOGIN_CAPACITY = 10"
definition LOGIN_REFILL_PER_SEC :: rat where "LOGIN_REFILL_PER_SEC = fl64 (10 / 60)"

record TokenPair =
  access_token :: string
  refresh_token :: string
  expires_in :: int

definition login_key :: "auth_lib \<Rightarrow> string \<Rightarrow> string \<Rightarrow> string" where
  "login_key L ip email = ''rate:login:'' @ ip @ '':'' @ sha1_hex L (lower email)"

definition build_pair :: "auth_lib \<Rightarrow> Settings \<Rightarrow> time \<Rightarrow> User \<Rightarrow> world \<Rightarrow> TokenPair \<times> world" where
  "build_pair L cfg now user w =
     (let (access_jti, w) = fresh_id w; (refresh_jti, w) = fresh_id w
      in (\<lparr>access_token = create_access_token L cfg now (u_id user) (role_value (u_role user)) access_jti,
           refresh_token = create_refresh_token L cfg now (u_id user) refresh_jti,
           expires_in = jwt_access_ttl_min cfg * 60\<rparr>, w))"

definition register_user :: "auth_lib \<Rightarrow> nat \<Rightarrow> string \<Rightarrow> string \<Rightarrow> string \<Rightarrow> User handler" where
  "register_user L salt email password display_name w =
     (if get_by_email (wdb w) email \<noteq> None
      then (Inl (AuthError ''VALIDATION_ERROR'' 422 ''email already registered''), w)
      else
        let (i, w) = fresh_id w;
            user = \<lparr>u_id = i, u_email = email, u_password_hash = pw_hash L salt password,
              u_display_name = display_name, u_role = role_player, u_is_active = True\<rparr>
        in case insert_user user (wdb w) of
             None \<Rightarrow> (Inl (PyError ''IntegrityError''), w)
           | Some d \<Rightarrow>
               let (a, w) = fresh_id w;
                   d = audit_add \<lparr>al_id = a, al_actor_user_id = Some i, al_action = ''user.registered'',
                     al_entity_type = ''user'', al_entity_id = Some i,
                     al_metadata = JObj [(''email'', JStr email)]\<rparr> d
               in (Inr user, w\<lparr>wdb := d\<rparr>))"

definition login_check :: "auth_lib \<Rightarrow> db \<Rightarrow> string \<Rightarrow> string \<Rightarrow> User result" where
  "login_check L d email password =
     bind_r (of_option (AuthError ''AUTH_REQUIRED'' 401 ''invalid credentials'') (get_by_email d email)) (\<lambda>user.
     bind_r (guard (u_is_active user) (AuthError ''AUTH_REQUIRED'' 401 ''account disabled'')) (\<lambda>_.
     bind_r (guard (verify_password L password (u_password_hash user)) (AuthError ''AUTH_REQUIRED'' 401 ''invalid credentials'')) (\<lambda>_.
     Inr user)))"

definition login ::
  "auth_lib \<Rightarrow> Settings \<Rightarrow> time \<Rightarrow> string \<Rightarrow> string \<Rightarrow> string \<Rightarrow> (User \<times> TokenPair) handler" where
  "login L cfg now email password ip w =
     (let ((allowed, remaining, retry_ms), bs) =
            acquire (rate_buckets (wredis w)) (login_key L ip email) LOGIN_CAPACITY LOGIN_REFILL_PER_SEC 1 (now div 1000);
          w = w\<lparr>wredis := (wredis w)\<lparr>rate_buckets := bs\<rparr>\<rparr>
      in if \<not> allowed then (Inl (AuthError ''RATE_LIMITED'' 429 ''too many login attempts''), w)
         else case login_check L (wdb w) email password of
           Inl e \<Rightarrow> (Inl e, w)
         | Inr user \<Rightarrow> let (pair, w) = build_pair L cfg now user w in (Inr (user, pair), w))"

text \<open>\<^verbatim>\<open>int(claims["sub"])\<close> with its \<^verbatim>\<open>except\<close>, and the user behind it.\<close>

definition claim_int :: "claims \<Rightarrow> string \<Rightarrow> string \<Rightarrow> int result" where
  "claim_int c k msg =
     (case map_of c k of None \<Rightarrow> Inl (AuthError ''AUTH_REQUIRED'' 401 msg)
      | Some v \<Rightarrow> (case int_of_json v of Inl _ \<Rightarrow> Inl (AuthError ''AUTH_REQUIRED'' 401 msg) | Inr i \<Rightarrow> Inr i))"

definition load_active_user :: "db \<Rightarrow> int \<Rightarrow> User result" where
  "load_active_user d user_id =
     bind_r (of_option (AuthError ''AUTH_REQUIRED'' 401 ''user not found or inactive'') (get_user d user_id)) (\<lambda>user.
     bind_r (guard (u_is_active user) (AuthError ''AUTH_REQUIRED'' 401 ''user not found or inactive'')) (\<lambda>_.
     Inr user))"

text \<open>The checks \<^verbatim>\<open>refresh\<close> and \<^verbatim>\<open>current_user\<close> share after decoding: not revoked, and a live user.\<close>

definition user_of_claims :: "auth_lib \<Rightarrow> time \<Rightarrow> db \<Rightarrow> rstate \<Rightarrow> claims \<Rightarrow> User result" where
  "user_of_claims L now d r c =
     bind_r (claim_get c ''jti'') (\<lambda>jti.
     bind_r (guard (\<not> is_jti_revoked r now (claim_text L jti)) (AuthError ''AUTH_REQUIRED'' 401 ''token revoked'')) (\<lambda>_.
     bind_r (claim_int c ''sub'' ''malformed token sub'') (\<lambda>user_id.
     load_active_user d user_id)))"

definition refresh_check :: "auth_lib \<Rightarrow> Settings \<Rightarrow> time \<Rightarrow> db \<Rightarrow> rstate \<Rightarrow> string \<Rightarrow> (claims \<times> User) result" where
  "refresh_check L cfg now d r token =
     bind_r (decode_token L now token REFRESH_TYPE (jwt_refresh_secret cfg)) (\<lambda>c.
     bind_r (user_of_claims L now d r c) (\<lambda>user.
     Inr (c, user)))"

text \<open>\<^verbatim>\<open>int(v)\<close> outside a \<^verbatim>\<open>try\<close>.\<close>

definition int_or_raise :: "json \<Rightarrow> int result" where
  "int_or_raise v =
     (case int_of_json v of Inl TypeError \<Rightarrow> Inl (PyError ''TypeError'') | Inl ValueError \<Rightarrow> Inl (PyError ''ValueError'')
      | Inr i \<Rightarrow> Inr i)"

text \<open>\<^verbatim>\<open>revoke_jti(redis, claims["jti"], max(1, int(claims["exp"]) - int(time.time())))\<close>\<close>

definition revoke_claims :: "auth_lib \<Rightarrow> time \<Rightarrow> claims \<Rightarrow> rstate \<Rightarrow> rstate result" where
  "revoke_claims L now c r =
     bind_r (claim_get c ''exp'') (\<lambda>e.
     bind_r (int_or_raise e) (\<lambda>expiry.
     bind_r (claim_get c ''jti'') (\<lambda>jti.
     Inr (revoke_jti r now (claim_text L jti) (max 1 (expiry - now_ts now))))))"

definition refresh_rotate :: "auth_lib \<Rightarrow> Settings \<Rightarrow> time \<Rightarrow> claims \<Rightarrow> User \<Rightarrow> (User \<times> TokenPair) handler" where
  "refresh_rotate L cfg now c user w =
     (case revoke_claims L now c (wredis w) of
        Inl e \<Rightarrow> (Inl e, w)
      | Inr r \<Rightarrow> let (pair, w) = build_pair L cfg now user (w\<lparr>wredis := r\<rparr>) in (Inr (user, pair), w))"

definition refresh :: "auth_lib \<Rightarrow> Settings \<Rightarrow> time \<Rightarrow> string \<Rightarrow> (User \<times> TokenPair) handler" where
  "refresh L cfg now token w =
     (case refresh_check L cfg now (wdb w) (wredis w) token of
        Inl e \<Rightarrow> (Inl e, w)
      | Inr (c, user) \<Rightarrow> refresh_rotate L cfg now c user w)"

definition logout :: "auth_lib \<Rightarrow> Settings \<Rightarrow> time \<Rightarrow> string \<Rightarrow> unit handler" where
  "logout L cfg now token w =
     (case decode_token L now token REFRESH_TYPE (jwt_refresh_secret cfg) of
        Inl e \<Rightarrow> (Inr (), w)
      | Inr c \<Rightarrow>
          (case revoke_claims L now c (wredis w) of
             Inl e \<Rightarrow> (Inl e, w)
           | Inr r \<Rightarrow> (Inr (), w\<lparr>wredis := r\<rparr>)))"

section \<open>deps.py\<close>

text \<open>\<open>creds\<close> is the credential of a bearer header, \<open>None\<close> without one.\<close>

definition bearer :: "string \<Rightarrow> string option \<Rightarrow> string result" where
  "bearer msg creds =
     (case creds of None \<Rightarrow> Inl (AuthError ''AUTH_REQUIRED'' 401 msg)
      | Some t \<Rightarrow> if t = [] then Inl (AuthError ''AUTH_REQUIRED'' 401 msg) else Inr t)"

definition current_user :: "auth_lib \<Rightarrow> Settings \<Rightarrow> time \<Rightarrow> string option \<Rightarrow> world \<Rightarrow> User result" where
  "current_user L cfg now creds w =
     bind_r (bearer ''missing bearer token'' creds) (\<lambda>token.
     bind_r (decode_token L now token ACCESS_TYPE (jwt_secret cfg)) (\<lambda>c.
     user_of_claims L now (wdb w) (wredis w) c))"

definition optional_current_user :: "auth_lib \<Rightarrow> Settings \<Rightarrow> time \<Rightarrow> string option \<Rightarrow> world \<Rightarrow> User option result" where
  "optional_current_user L cfg now creds w =
     (if creds = None \<or> creds = Some [] then Inr None
      else case current_user L cfg now creds w of
             Inr u \<Rightarrow> Inr (Some u)
           | Inl (AuthError _ _ _) \<Rightarrow> Inr None
           | Inl (PyError e) \<Rightarrow> Inl (PyError e))"

definition require_role :: "UserRole list \<Rightarrow> User \<Rightarrow> User result" where
  "require_role allowed user =
     (if u_role user \<notin> set allowed
      then Inl (AuthError ''FORBIDDEN'' 403 (''role '' @ [CHR 0x27] @ role_value (u_role user) @ [CHR 0x27] @ '' not permitted''))
      else Inr user)"

record ParticipantContext =
  pc_room_code :: string
  pc_participant_id :: int
  pc_nickname :: string

definition current_participant :: "auth_lib \<Rightarrow> Settings \<Rightarrow> time \<Rightarrow> string \<Rightarrow> ParticipantContext result" where
  "current_participant L cfg now token =
     bind_r (decode_token L now token PARTICIPANT_TYPE (jwt_secret cfg)) (\<lambda>c.
     bind_r (claim_int c ''participant_id'' ''malformed participant token'') (\<lambda>participant_id.
     bind_r (claim_get c ''room_code'') (\<lambda>code.
     bind_r (claim_get c ''nickname'') (\<lambda>nick.
     Inr \<lparr>pc_room_code = claim_text L code, pc_participant_id = participant_id, pc_nickname = claim_text L nick\<rparr>))))"

definition current_participant_from_header ::
  "auth_lib \<Rightarrow> Settings \<Rightarrow> time \<Rightarrow> string option \<Rightarrow> ParticipantContext result" where
  "current_participant_from_header L cfg now creds =
     bind_r (bearer ''missing participant token'' creds) (current_participant L cfg now)"

section \<open>Interfaces\<close>

text \<open>
  A revocation list: what the token checks rely on.  \<open>revoked s t k\<close> reads it at the instant \<open>t\<close>, \<open>revoke s now k ttl\<close>
  enters \<open>k\<close> for \<open>ttl\<close> seconds, at least one.
\<close>

locale revocation_list =
  fixes revoked :: "'s \<Rightarrow> time \<Rightarrow> 'k \<Rightarrow> bool"
    and revoke :: "'s \<Rightarrow> time \<Rightarrow> 'k \<Rightarrow> int \<Rightarrow> 's"
  assumes revoked_same: "revoked (revoke s now k ttl) t k \<longleftrightarrow> t < now + max 1 ttl * 1000000"
    and revoked_other: "k' \<noteq> k \<Longrightarrow> revoked (revoke s now k ttl) t k' \<longleftrightarrow> revoked s t k'"
begin

text \<open>An entry made with the remaining lifetime, in whole seconds from a truncated clock, outlives the token.\<close>

lemma covers_lifetime:
  assumes "t < expiry * 1000000"
  shows "revoked (revoke s now k (max 1 (expiry - now div 1000000))) t k"
proof -
  have "now div 1000000 * 1000000 \<le> now" using div_mult_mod_eq [of now 1000000] pos_mod_sign [of 1000000 now] by linarith
  then have "expiry * 1000000 \<le> now + (expiry - now div 1000000) * 1000000" by (simp add: algebra_simps)
  also have "\<dots> \<le> now + max 1 (max 1 (expiry - now div 1000000)) * 1000000" by (simp add: max_def)
  finally show ?thesis using assms by (simp add: revoked_same)
qed

text \<open>Any later entries that cover the same lifetime keep the token dead.\<close>

primrec entries :: "'s \<Rightarrow> (time \<times> 'k \<times> int) list \<Rightarrow> 's" where
  "entries s [] = s"
| "entries s (x # xs) = entries (revoke s (fst x) (fst (snd x)) (max 1 (snd (snd x) - fst x div 1000000))) xs"

lemma entries_keep:
  assumes "\<forall>x \<in> set xs. fst (snd x) = k \<longrightarrow> snd (snd x) = expiry" "t < expiry * 1000000" "revoked s t k"
  shows "revoked (entries s xs) t k"
  using assms(1,3)
proof (induction xs arbitrary: s)
  case (Cons x xs)
  have "revoked (revoke s (fst x) (fst (snd x)) (max 1 (snd (snd x) - fst x div 1000000))) t k"
  proof (cases "fst (snd x) = k")
    case True
    with Cons.prems(1) have "snd (snd x) = expiry" by simp
    with True show ?thesis using covers_lifetime [OF assms(2)] by simp
  next
    case False
    with Cons.prems(2) show ?thesis by (simp add: revoked_other)
  qed
  with Cons show ?case by simp
qed simp

end

text \<open>
  A kind of bearer token: \<open>issue\<close> signs one at an instant, \<open>accept\<close> reads it at another.  The law is the round trip
  inside the lifetime, under the assumptions \<open>ok\<close> on the signing library.
\<close>

locale bearer_token =
  fixes ok :: bool
    and lifetime :: int
    and issue :: "time \<Rightarrow> 'a \<Rightarrow> string"
    and accept :: "time \<Rightarrow> string \<Rightarrow> 'b result"
    and content :: "'a \<Rightarrow> 'b"
  assumes accept_issue: "ok \<Longrightarrow> now \<le> t \<Longrightarrow> t < (now div 1000000 + lifetime) * 1000000 \<Longrightarrow> accept t (issue now x) = Inr (content x)"
begin

text \<open>A token is good at the instant it is issued, and two different contents never share a token.\<close>

lemma accept_now:
  assumes ok "0 < lifetime"
  shows "accept now (issue now x) = Inr (content x)"
proof (rule accept_issue)
  have "now < (now div 1000000 + 1) * 1000000" using div_mult_mod_eq [of now 1000000] pos_mod_bound [of 1000000 now] by simp
  also have "\<dots> \<le> (now div 1000000 + lifetime) * 1000000" using assms(2) by (intro mult_right_mono) auto
  finally show "now < (now div 1000000 + lifetime) * 1000000" .
qed (use assms in auto)

lemma issue_separates:
  assumes ok "0 < lifetime" "issue now x = issue now y"
  shows "content x = content y"
  using accept_now [OF assms(1,2), of now x] accept_now [OF assms(1,2), of now y] assms(3) by simp

end

section \<open>Lemmas: tokens\<close>

definition access_claims :: "Settings \<Rightarrow> time \<Rightarrow> int \<Rightarrow> string \<Rightarrow> int \<Rightarrow> claims" where
  "access_claims cfg now sub role jti = [(''sub'', JStr (int_str sub)), (''role'', JStr role), (''jti'', JStr (int_str jti)),
       (''type'', JStr ACCESS_TYPE), (''iat'', JInt (now_ts now)),
       (''exp'', JInt (now_ts now + jwt_access_ttl_min cfg * 60))]"

definition refresh_claims :: "Settings \<Rightarrow> time \<Rightarrow> int \<Rightarrow> int \<Rightarrow> claims" where
  "refresh_claims cfg now sub jti = [(''sub'', JStr (int_str sub)), (''jti'', JStr (int_str jti)), (''type'', JStr REFRESH_TYPE),
       (''iat'', JInt (now_ts now)), (''exp'', JInt (now_ts now + jwt_refresh_ttl_days cfg * 86400))]"

definition participant_claims :: "time \<Rightarrow> string \<Rightarrow> int \<Rightarrow> string \<Rightarrow> claims" where
  "participant_claims now code pid nick = [(''type'', JStr PARTICIPANT_TYPE), (''room_code'', JStr code),
       (''participant_id'', JStr (int_str pid)), (''nickname'', JStr nick),
       (''iat'', JInt (now_ts now)), (''exp'', JInt (now_ts now + PARTICIPANT_TTL_SEC))]"

lemma create_tokens:
  "create_access_token L cfg now sub role jti = jwt_encode L (access_claims cfg now sub role jti) (jwt_secret cfg)"
  "create_refresh_token L cfg now sub jti = jwt_encode L (refresh_claims cfg now sub jti) (jwt_refresh_secret cfg)"
  "create_participant_token L cfg now code pid nick = jwt_encode L (participant_claims now code pid nick) (jwt_secret cfg)"
  by (simp_all add: create_access_token_def create_refresh_token_def create_participant_token_def access_claims_def
      refresh_claims_def participant_claims_def)

lemma claims_plain [simp]:
  "plain_claims (access_claims cfg now sub role jti)" "plain_claims (refresh_claims cfg now sub jti)"
  "plain_claims (participant_claims now code pid nick)"
  by (simp_all add: plain_claims_def access_claims_def refresh_claims_def participant_claims_def)

lemma claims_type [simp]:
  "map_of (access_claims cfg now sub role jti) ''type'' = Some (JStr ACCESS_TYPE)"
  "map_of (refresh_claims cfg now sub jti) ''type'' = Some (JStr REFRESH_TYPE)"
  "map_of (participant_claims now code pid nick) ''type'' = Some (JStr PARTICIPANT_TYPE)"
  by (simp_all add: access_claims_def refresh_claims_def participant_claims_def)

lemma claims_window [simp]:
  "map_of (access_claims cfg now sub role jti) ''iat'' = Some (JInt (now_ts now))"
  "map_of (access_claims cfg now sub role jti) ''exp'' = Some (JInt (now_ts now + jwt_access_ttl_min cfg * 60))"
  "map_of (refresh_claims cfg now sub jti) ''iat'' = Some (JInt (now_ts now))"
  "map_of (refresh_claims cfg now sub jti) ''exp'' = Some (JInt (now_ts now + jwt_refresh_ttl_days cfg * 86400))"
  "map_of (participant_claims now code pid nick) ''iat'' = Some (JInt (now_ts now))"
  "map_of (participant_claims now code pid nick) ''exp'' = Some (JInt (now_ts now + PARTICIPANT_TTL_SEC))"
  by (simp_all add: access_claims_def refresh_claims_def participant_claims_def)

lemma claims_ids [simp]:
  "map_of (access_claims cfg now sub role jti) ''sub'' = Some (JStr (int_str sub))"
  "map_of (access_claims cfg now sub role jti) ''jti'' = Some (JStr (int_str jti))"
  "map_of (refresh_claims cfg now sub jti) ''sub'' = Some (JStr (int_str sub))"
  "map_of (refresh_claims cfg now sub jti) ''jti'' = Some (JStr (int_str jti))"
  "map_of (participant_claims now code pid nick) ''participant_id'' = Some (JStr (int_str pid))"
  "map_of (participant_claims now code pid nick) ''room_code'' = Some (JStr code)"
  "map_of (participant_claims now code pid nick) ''nickname'' = Some (JStr nick)"
  by (simp_all add: access_claims_def refresh_claims_def participant_claims_def)

lemma jwt_okD:
  assumes "jwt_ok L"
  shows "plain_claims c \<Longrightarrow> jwt_encode L c s \<noteq> []"
    and "plain_claims c \<Longrightarrow> map_of c ''iat'' = Some (JInt iat) \<Longrightarrow> map_of c ''exp'' = Some (JInt expiry) \<Longrightarrow>
      iat * 1000000 \<le> now \<Longrightarrow> now < expiry * 1000000 \<Longrightarrow> jwt_decode L (jwt_encode L c s) s now = Inr c"
    and "plain_claims c \<Longrightarrow> jwt_decode L (jwt_encode L c s) s' now = Inr c' \<Longrightarrow> c' = c"
    and "jwt_decode L tok s now = Inr c \<Longrightarrow> jwt_decode L tok s now' = Inr c' \<Longrightarrow> c' = c"
    and "jwt_decode L tok s now = Inr c \<Longrightarrow> map_of c ''exp'' = Some v \<Longrightarrow> int_of_json v = Inr expiry \<Longrightarrow> now < expiry * 1000000"
  proof -
  note ok = assms [unfolded jwt_ok_def]
  show "plain_claims c \<Longrightarrow> jwt_encode L c s \<noteq> []" using conjunct1 [OF ok] by blast
  note ok = conjunct2 [OF ok]
  show "jwt_decode L (jwt_encode L c s) s now = Inr c" if "plain_claims c" "map_of c ''iat'' = Some (JInt iat)"
      "map_of c ''exp'' = Some (JInt expiry)" "iat * 1000000 \<le> now" "now < expiry * 1000000"
    using conjunct1 [OF ok] that by blast
  note ok = conjunct2 [OF ok]
  show "plain_claims c \<Longrightarrow> jwt_decode L (jwt_encode L c s) s' now = Inr c' \<Longrightarrow> c' = c" using conjunct1 [OF ok] by blast
  note ok = conjunct2 [OF ok]
  show "jwt_decode L tok s now = Inr c \<Longrightarrow> jwt_decode L tok s now' = Inr c' \<Longrightarrow> c' = c" using conjunct1 [OF ok] by blast
  show "jwt_decode L tok s now = Inr c \<Longrightarrow> map_of c ''exp'' = Some v \<Longrightarrow> int_of_json v = Inr expiry \<Longrightarrow> now < expiry * 1000000"
    using conjunct2 [OF ok] by blast
qed

lemma decode_token_Inr:
  "decode_token L now tok ty s = Inr c \<longleftrightarrow> jwt_decode L tok s now = Inr c \<and> map_of c ''type'' = Some (JStr ty)"
  by (auto simp: decode_token_def split: sum.splits jwt_error.splits if_splits)

lemma decode_token_Inl_401_403:
  "decode_token L now tok ty s = Inl e \<Longrightarrow> (\<exists>msg. e = AuthError ''AUTH_REQUIRED'' 401 msg) \<or> (\<exists>msg. e = AuthError ''FORBIDDEN'' 403 msg)"
  by (auto simp: decode_token_def split: sum.splits jwt_error.splits if_splits)

lemma now_ts_le: "now_ts now * 1000000 \<le> now"
  using div_mult_mod_eq [of now 1000000] pos_mod_sign [of 1000000 now] unfolding now_ts_def by linarith

lemma decode_issued:
  assumes "jwt_ok L" "plain_claims c" "map_of c ''iat'' = Some (JInt (now_ts now))" "map_of c ''exp'' = Some (JInt expiry)"
    "now \<le> t" "t < expiry * 1000000" "map_of c ''type'' = Some (JStr ty)"
  shows "decode_token L t (jwt_encode L c s) ty s = Inr c"
  using jwt_okD(2) [OF assms(1-4), of t s] now_ts_le [of now] assms(5-7) by (simp add: decode_token_Inr)

lemma decode_wrong_type:
  assumes "jwt_ok L" "plain_claims c" "map_of c ''type'' \<noteq> Some (JStr ty)"
  shows "\<exists>e. decode_token L t (jwt_encode L c s) ty s' = Inl e"
  using assms jwt_okD(3) [OF assms(1,2), of s s' t] by (cases "decode_token L t (jwt_encode L c s) ty s'") (auto simp: decode_token_Inr)

section \<open>The model provides the interfaces\<close>

interpretation revocations: revocation_list is_jti_revoked revoke_jti
  by unfold_locales (simp_all add: is_jti_revoked_def revoke_jti_def)

lemma claim_int_str [simp]: "map_of c k = Some (JStr (int_str i)) \<Longrightarrow> claim_int c k msg = Inr i"
  by (simp add: claim_int_def int_of_str_int_str)

lemma claim_str [simp]: "map_of c k = Some v \<Longrightarrow> claim_get c k = Inr v"
  by (simp add: claim_get_def)

lemma claim_text_str [simp]: "claim_text L (JStr s) = s"
  by (simp add: claim_text_def)

interpretation participant_tokens: bearer_token "jwt_ok L" PARTICIPANT_TTL_SEC
    "\<lambda>now (code, pid, nick). create_participant_token L cfg now code pid nick" "\<lambda>t. current_participant L cfg t"
    "\<lambda>(code, pid, nick). \<lparr>pc_room_code = code, pc_participant_id = pid, pc_nickname = nick\<rparr>" for L cfg
  by unfold_locales
    (auto simp: current_participant_def create_tokens now_ts_def decode_issued [OF _ _ claims_window(5,6)])

lemma build_pair_eq:
  "build_pair L cfg now user w =
     (\<lparr>access_token = create_access_token L cfg now (u_id user) (role_value (u_role user)) (id_supply w (id_next w)),
       refresh_token = create_refresh_token L cfg now (u_id user) (id_supply w (Suc (id_next w))),
       expires_in = jwt_access_ttl_min cfg * 60\<rparr>, w\<lparr>id_next := Suc (Suc (id_next w))\<rparr>)"
  by (simp add: build_pair_def fresh_id_def Let_def)

lemma user_of_claims_Inr:
  "user_of_claims L now d r c = Inr u \<longleftrightarrow>
     (\<exists>jti v. map_of c ''jti'' = Some jti \<and> \<not> is_jti_revoked r now (claim_text L jti) \<and>
        claim_int c ''sub'' ''malformed token sub'' = Inr v \<and> get_user d v = Some u \<and> u_is_active u)"
  by (auto simp: user_of_claims_def load_active_user_def claim_get_def result_iff)

text \<open>An access token stands for its user as long as it lives, is not revoked and the account is active.\<close>

lemma current_user_issued:
  assumes "jwt_ok L" "now \<le> t" "t < (now_ts now + jwt_access_ttl_min cfg * 60) * 1000000"
    and "get_user (wdb w) sub = Some u" "u_is_active u" "\<not> is_jti_revoked (wredis w) t (int_str jti)"
  shows "current_user L cfg t (Some (create_access_token L cfg now sub role jti)) w = Inr u"
  using assms jwt_okD(1) [OF assms(1) claims_plain(1)]
  by (simp add: current_user_def bearer_def create_tokens decode_issued [OF _ _ claims_window(1,2)] user_of_claims_Inr)

lemma refresh_check_issued:
  assumes "jwt_ok L" "now \<le> t" "t < (now_ts now + jwt_refresh_ttl_days cfg * 86400) * 1000000"
    and "get_user d sub = Some u" "u_is_active u" "\<not> is_jti_revoked r t (int_str jti)"
  shows "refresh_check L cfg t d r (create_refresh_token L cfg now sub jti) = Inr (refresh_claims cfg now sub jti, u)"
  using assms
  by (simp add: refresh_check_def create_tokens decode_issued [OF _ _ claims_window(3,4)] user_of_claims_Inr result_iff)

lemma login_check_Inr:
  "login_check L d email pw = Inr u \<longleftrightarrow>
     get_by_email d email = Some u \<and> u_is_active u \<and> verify_password L pw (u_password_hash u)"
  by (auto simp: login_check_def result_iff)

lemma insert_user_Some:
  "insert_user u d = Some d' \<longleftrightarrow> u_id u \<notin> u_id ` set (users d) \<and>
     lower (u_email u) \<notin> (\<lambda>v. lower (u_email v)) ` set (users d) \<and> d' = d\<lparr>users := users d @ [u]\<rparr>"
  by (auto simp: insert_user_def)

lemma find_append_new: "(\<forall>x \<in> set xs. \<not> P x) \<Longrightarrow> P y \<Longrightarrow> find P (xs @ [y]) = Some y"
  by (induction xs) auto

lemma register_user_Inr:
  assumes "register_user L salt email pw name w = (Inr u, w')"
  shows "u_email u = email" "u_password_hash u = pw_hash L salt pw" "u_is_active u" "u_role u = role_player"
    and "users (wdb w') = users (wdb w) @ [u]" "get_user (wdb w') (u_id u) = Some u"
    and "lower email' = lower email \<Longrightarrow> get_by_email (wdb w') email' = Some u"
    and "wredis w' = wredis w" "id_supply w' = id_supply w" "id_next w' = Suc (Suc (id_next w))"
proof -
  let ?u = "\<lparr>u_id = id_supply w (id_next w), u_email = email, u_password_hash = pw_hash L salt pw,
     u_display_name = name, u_role = role_player, u_is_active = True\<rparr>"
  from assms obtain d where d: "insert_user ?u (wdb w) = Some d" and u: "u = ?u"
    and w': "users (wdb w') = users d" "wredis w' = wredis w" "id_supply w' = id_supply w" "id_next w' = Suc (Suc (id_next w))"
    by (auto simp: register_user_def fresh_id_def Let_def audit_add_def split: if_splits option.splits)
  show "u_email u = email" "u_password_hash u = pw_hash L salt pw" "u_is_active u" "u_role u = role_player"
    by (simp_all add: u)
  show us: "users (wdb w') = users (wdb w) @ [u]" using d by (simp add: w' u insert_user_Some)
  show "get_user (wdb w') (u_id u) = Some u"
    using d unfolding get_user_def us by (intro find_append_new) (auto simp: insert_user_Some u image_iff)
  show "get_by_email (wdb w') email' = Some u" if "lower email' = lower email"
    using d that unfolding get_by_email_def us by (intro find_append_new) (auto simp: insert_user_Some u image_iff)
  show "wredis w' = wredis w" "id_supply w' = id_supply w" "id_next w' = Suc (Suc (id_next w))" by (simp_all add: w')
qed

lemma login_Inr_iff:
  "login L cfg now email pw ip w = (Inr (u, pair), w') \<longleftrightarrow>
     (let a = acquire (rate_buckets (wredis w)) (login_key L ip email) LOGIN_CAPACITY LOGIN_REFILL_PER_SEC 1 (now div 1000);
          w1 = w\<lparr>wredis := (wredis w)\<lparr>rate_buckets := snd a\<rparr>\<rparr>
      in fst (fst a) \<and> login_check L (wdb w) email pw = Inr u \<and> build_pair L cfg now u w1 = (pair, w'))"
  by (auto simp: login_def Let_def split_beta build_pair_eq split: sum.splits)

text \<open>A login that passes its checks gives a pair whose access token is good for the user until it expires.\<close>

lemma login_authenticates:
  assumes "jwt_ok L" "login_check L (wdb w) email password = Inr u" "get_user (wdb w) (u_id u) = Some u"
    and "fst (fst (acquire (rate_buckets (wredis w)) (login_key L ip email) LOGIN_CAPACITY LOGIN_REFILL_PER_SEC 1 (now div 1000)))"
    and "\<And>t. \<not> is_jti_revoked (wredis w) t (int_str (id_supply w (id_next w)))"
  shows "\<exists>pair w2. login L cfg now email password ip w = (Inr (u, pair), w2) \<and>
    (\<forall>t w3. wdb w3 = wdb w2 \<and> wredis w3 = wredis w2 \<and> now \<le> t \<and> t < (now_ts now + jwt_access_ttl_min cfg * 60) * 1000000 \<longrightarrow>
       current_user L cfg t (Some (access_token pair)) w3 = Inr u)"
proof -
  define w0 where "w0 = w\<lparr>wredis := (wredis w)\<lparr>rate_buckets := snd (acquire (rate_buckets (wredis w)) (login_key L ip email)
     LOGIN_CAPACITY LOGIN_REFILL_PER_SEC 1 (now div 1000))\<rparr>\<rparr>"
  obtain pair w2 where pair: "build_pair L cfg now u w0 = (pair, w2)" by fastforce
  have active: "u_is_active u" using assms(2) by (simp add: login_check_Inr)
  have "login L cfg now email password ip w = (Inr (u, pair), w2)"
    using assms(2,4) pair by (simp add: login_Inr_iff Let_def w0_def)
  moreover have "current_user L cfg t (Some (access_token pair)) w3 = Inr u"
    if "wdb w3 = wdb w2" "wredis w3 = wredis w2" "now \<le> t" "t < (now_ts now + jwt_access_ttl_min cfg * 60) * 1000000" for t w3
  proof -
    have "\<not> is_jti_revoked (wredis w3) t (int_str (id_supply w (id_next w)))"
      using pair assms(5) that(2) by (auto simp: build_pair_eq is_jti_revoked_def w0_def)
    then show ?thesis
      using current_user_issued [OF assms(1) that(3,4), of w3 "u_id u" u] pair assms(3) active that(1) by (auto simp: build_pair_eq w0_def)
  qed
  ultimately show ?thesis by blast
qed

section \<open>Histories of authentication calls\<close>

text \<open>
  One call, at any instant: \<open>presented\<close> is the set of refresh tokens clients hold.  Every other call of the backend
  leaves the revocation list alone (\<open>elsewhere\<close>).
\<close>

inductive auth_step :: "auth_lib \<Rightarrow> Settings \<Rightarrow> string set \<Rightarrow> world \<Rightarrow> world \<Rightarrow> bool" for L cfg presented where
  registered: "auth_step L cfg presented w (snd (register_user L salt email password name w))"
| logged_in: "auth_step L cfg presented w (snd (login L cfg now email password ip w))"
| refreshed: "tok \<in> presented \<Longrightarrow> auth_step L cfg presented w (snd (refresh L cfg now tok w))"
| logged_out: "tok \<in> presented \<Longrightarrow> auth_step L cfg presented w (snd (logout L cfg now tok w))"
| elsewhere: "revoked_jtis (wredis w') = revoked_jtis (wredis w) \<Longrightarrow> auth_step L cfg presented w w'"

inductive auth_steps :: "auth_lib \<Rightarrow> Settings \<Rightarrow> string set \<Rightarrow> world \<Rightarrow> world \<Rightarrow> bool" for L cfg presented where
  none: "auth_steps L cfg presented w w"
| more: "auth_steps L cfg presented w w1 \<Longrightarrow> auth_step L cfg presented w1 w2 \<Longrightarrow> auth_steps L cfg presented w w2"

text \<open>The refresh tokens clients hold have one expiry per jti, because the generator never repeats an id.\<close>

definition one_expiry :: "auth_lib \<Rightarrow> Settings \<Rightarrow> string set \<Rightarrow> bool" where
  "one_expiry L cfg presented \<longleftrightarrow>
     (\<forall>tok \<in> presented. \<forall>tok' \<in> presented. \<forall>t t' c c' j j'.
        jwt_decode L tok (jwt_refresh_secret cfg) t = Inr c \<and> jwt_decode L tok' (jwt_refresh_secret cfg) t' = Inr c' \<and>
        map_of c ''jti'' = Some j \<and> map_of c' ''jti'' = Some j' \<and> claim_text L j = claim_text L j' \<longrightarrow>
        map_of c ''exp'' = map_of c' ''exp'')"

text \<open>\<open>dead\<close>: the revocation list covers the claims for the rest of their life.\<close>

definition dead :: "auth_lib \<Rightarrow> claims \<Rightarrow> world \<Rightarrow> bool" where
  "dead L c w \<longleftrightarrow> (\<exists>j v expiry. map_of c ''jti'' = Some j \<and> map_of c ''exp'' = Some v \<and> int_of_json v = Inr expiry \<and>
     (\<forall>t < expiry * 1000000. is_jti_revoked (wredis w) t (claim_text L j)))"

lemma int_or_raise_Inr [result_iff]: "int_or_raise v = Inr i \<longleftrightarrow> int_of_json v = Inr i"
  by (auto simp: int_or_raise_def split: sum.splits int_error.splits)

lemma revoke_claims_Inr:
  "revoke_claims L now c r = Inr r' \<longleftrightarrow> (\<exists>j v expiry. map_of c ''jti'' = Some j \<and> map_of c ''exp'' = Some v \<and>
     int_of_json v = Inr expiry \<and> r' = revoke_jti r now (claim_text L j) (max 1 (expiry - now_ts now)))"
  by (auto simp: revoke_claims_def claim_get_def result_iff)

lemma is_jti_revoked_cong: "revoked_jtis r = revoked_jtis r' \<Longrightarrow> is_jti_revoked r = is_jti_revoked r'"
  by (simp add: is_jti_revoked_def fun_eq_iff)

lemma dead_cong: "revoked_jtis (wredis w) = revoked_jtis (wredis w') \<Longrightarrow> dead L c w = dead L c w'"
  unfolding dead_def by (metis is_jti_revoked_cong)

lemma revoke_claims_dead:
  assumes "revoke_claims L now c (wredis w) = Inr r"
  shows "dead L c (w\<lparr>wredis := r\<rparr>)"
  using assms revocations.covers_lifetime unfolding revoke_claims_Inr dead_def now_ts_def by fastforce

text \<open>Revoking other claims keeps these dead: another jti does not matter, and the same one has the same expiry.\<close>

lemma revoke_claims_keeps_dead:
  assumes "dead L c w" "revoke_claims L now c' (wredis w) = Inr r"
    and "\<And>j j'. map_of c ''jti'' = Some j \<Longrightarrow> map_of c' ''jti'' = Some j' \<Longrightarrow> claim_text L j = claim_text L j' \<Longrightarrow>
      map_of c ''exp'' = map_of c' ''exp''"
  shows "dead L c (w\<lparr>wredis := r\<rparr>)"
proof -
  from assms(1) obtain j v e where c: "map_of c ''jti'' = Some j" "map_of c ''exp'' = Some v" "int_of_json v = Inr e"
    and rev: "\<forall>t < e * 1000000. is_jti_revoked (wredis w) t (claim_text L j)" unfolding dead_def by blast
  from assms(2) obtain j' v' e' where c': "map_of c' ''jti'' = Some j'" "map_of c' ''exp'' = Some v'" "int_of_json v' = Inr e'"
    and r: "r = revoke_jti (wredis w) now (claim_text L j') (max 1 (e' - now_ts now))" unfolding revoke_claims_Inr by blast
  have "is_jti_revoked r t (claim_text L j)" if "t < e * 1000000" for t
  proof (cases "claim_text L j = claim_text L j'")
    case True
    then have "e' = e" using assms(3) [OF c(1) c'(1)] c c' by simp
    with True that show ?thesis using revocations.covers_lifetime [of t e] by (simp add: r now_ts_def)
  next
    case False
    with that rev show ?thesis by (simp add: r revocations.revoked_other)
  qed
  with c show ?thesis unfolding dead_def by auto
qed

lemma refresh_cases:
  obtains (kept) e where "refresh L cfg now tok w = (Inl e, w)"
  | (rotated) c u pair r where "refresh_check L cfg now (wdb w) (wredis w) tok = Inr (c, u)"
      "revoke_claims L now c (wredis w) = Inr r" "refresh L cfg now tok w = (Inr (u, pair), w\<lparr>wredis := r, id_next := Suc (Suc (id_next w))\<rparr>)"
proof (cases "refresh_check L cfg now (wdb w) (wredis w) tok")
  case (Inl e)
  then show thesis using kept [of e] by (simp add: refresh_def)
next
  case (Inr x)
  obtain c u where x: "x = (c, u)" by (cases x)
  show thesis
  proof (cases "revoke_claims L now c (wredis w)")
    case (Inl e)
    then show thesis using kept [of e] Inr by (simp add: refresh_def refresh_rotate_def x)
  next
    case (Inr r)
    with \<open>refresh_check L cfg now (wdb w) (wredis w) tok = Inr x\<close> x show thesis
      by (intro rotated) (auto simp: refresh_def refresh_rotate_def build_pair_eq)
  qed
qed

lemma logout_cases:
  obtains (kept) "snd (logout L cfg now tok w) = w"
  | (revoked) c r where "decode_token L now tok REFRESH_TYPE (jwt_refresh_secret cfg) = Inr c"
      "revoke_claims L now c (wredis w) = Inr r" "logout L cfg now tok w = (Inr (), w\<lparr>wredis := r\<rparr>)"
proof (cases "decode_token L now tok REFRESH_TYPE (jwt_refresh_secret cfg)")
  case (Inl e)
  then show thesis by (intro kept) (simp add: logout_def)
next
  case (Inr c)
  then show thesis by (cases "revoke_claims L now c (wredis w)") (auto simp: logout_def intro: kept revoked)
qed

lemma refresh_check_Inr:
  "refresh_check L cfg now d r tok = Inr (c, u) \<longleftrightarrow>
     decode_token L now tok REFRESH_TYPE (jwt_refresh_secret cfg) = Inr c \<and> user_of_claims L now d r c = Inr u"
  by (auto simp: refresh_check_def result_iff)

lemma step_keeps_dead:
  assumes step: "auth_step L cfg P w w'" and d: "dead L c w" and P: "one_expiry L cfg P"
    and tok: "tok \<in> P" "jwt_decode L tok (jwt_refresh_secret cfg) now = Inr c"
  shows "dead L c w'"
  using step
proof cases
  case (registered salt email password name)
  have "wredis w' = wredis w"
    unfolding registered by (simp add: register_user_def fresh_id_def Let_def split: option.splits)
  then show ?thesis using d dead_cong [of w' w] by simp
next
  case (logged_in now email password ip)
  have "revoked_jtis (wredis w') = revoked_jtis (wredis w)"
    unfolding logged_in by (simp add: login_def Let_def split_beta build_pair_eq split: sum.splits)
  then show ?thesis using d dead_cong [of w' w] by simp
next
  case (refreshed tok' t)
  show ?thesis
  proof (rule refresh_cases [of L cfg t tok' w])
    fix e assume "refresh L cfg t tok' w = (Inl e, w)"
    with refreshed d show ?thesis by simp
  next
    fix c' u pair r
    assume ch: "refresh_check L cfg t (wdb w) (wredis w) tok' = Inr (c', u)" and r: "revoke_claims L t c' (wredis w) = Inr r"
      and eq: "refresh L cfg t tok' w = (Inr (u, pair), w\<lparr>wredis := r, id_next := Suc (Suc (id_next w))\<rparr>)"
    have dec: "jwt_decode L tok' (jwt_refresh_secret cfg) t = Inr c'" using ch by (simp add: refresh_check_Inr decode_token_Inr)
    have "dead L c (w\<lparr>wredis := r\<rparr>)"
      using revoke_claims_keeps_dead [OF d r] P tok refreshed(2) dec unfolding one_expiry_def by blast
    then show ?thesis using dead_cong [of "w\<lparr>wredis := r\<rparr>" w'] refreshed(1) eq by simp
  qed
next
  case (logged_out tok' t)
  show ?thesis
  proof (rule logout_cases [of L cfg t tok' w])
    assume "snd (logout L cfg t tok' w) = w"
    with logged_out d show ?thesis by simp
  next
    fix c' r
    assume ch: "decode_token L t tok' REFRESH_TYPE (jwt_refresh_secret cfg) = Inr c'" and r: "revoke_claims L t c' (wredis w) = Inr r"
      and eq: "logout L cfg t tok' w = (Inr (), w\<lparr>wredis := r\<rparr>)"
    have dec: "jwt_decode L tok' (jwt_refresh_secret cfg) t = Inr c'" using ch by (simp add: decode_token_Inr)
    have "dead L c (w\<lparr>wredis := r\<rparr>)"
      using revoke_claims_keeps_dead [OF d r] P tok logged_out(2) dec unfolding one_expiry_def by blast
    then show ?thesis using logged_out(1) eq by simp
  qed
next
  case elsewhere
  then show ?thesis using d dead_cong [of w' w] by simp
qed

lemma steps_keep_dead:
  assumes "auth_steps L cfg P w w'" "dead L c w" "one_expiry L cfg P" "tok \<in> P" "jwt_decode L tok (jwt_refresh_secret cfg) now = Inr c"
  shows "dead L c w'"
  using assms by (induction rule: auth_steps.induct) (blast intro: step_keeps_dead)+

text \<open>Whoever presents dead claims gets a 401, at every instant.\<close>

lemma dead_refused:
  assumes "jwt_ok L" "jwt_decode L tok (jwt_refresh_secret cfg) now = Inr c" "map_of c ''type'' = Some (JStr REFRESH_TYPE)" "dead L c w"
  shows "\<exists>msg. refresh L cfg t tok w = (Inl (AuthError ''AUTH_REQUIRED'' 401 msg), w)"
proof (cases "jwt_decode L tok (jwt_refresh_secret cfg) t")
  case (Inl x)
  then have "\<exists>msg. decode_token L t tok REFRESH_TYPE (jwt_refresh_secret cfg) = Inl (AuthError ''AUTH_REQUIRED'' 401 msg)"
    by (cases x) (simp_all add: decode_token_def)
  then show ?thesis by (auto simp: refresh_def refresh_check_def)
next
  case (Inr c')
  then have c': "c' = c" using jwt_okD(4) [OF assms(1,2)] by blast
  from assms(4) obtain j v e where j: "map_of c ''jti'' = Some j" "map_of c ''exp'' = Some v" "int_of_json v = Inr e"
    "\<forall>t < e * 1000000. is_jti_revoked (wredis w) t (claim_text L j)" unfolding dead_def by blast
  have "t < e * 1000000" using jwt_okD(5) [OF assms(1) Inr] j by (simp add: c')
  with j have "user_of_claims L t (wdb w) (wredis w) c = Inl (AuthError ''AUTH_REQUIRED'' 401 ''token revoked'')"
    by (simp add: user_of_claims_def)
  moreover have "decode_token L t tok REFRESH_TYPE (jwt_refresh_secret cfg) = Inr c"
    using Inr assms(3) by (simp add: decode_token_Inr c')
  ultimately show ?thesis by (simp add: refresh_def refresh_check_def)
qed

section \<open>A signing library for the examples\<close>

text \<open>
  Tokens as text: every character is preceded by a mark, so that strings, values and claims can be read back.
\<close>

definition demo_enc_str :: "string \<Rightarrow> string" where
  "demo_enc_str s = concat (map (\<lambda>c. [CHR ''x'', c]) s) @ ''n''"

fun demo_dec_str :: "string \<Rightarrow> (string \<times> string) option" where
  "demo_dec_str (m # rest) =
     (if m = CHR ''n'' then Some ([], rest)
      else case rest of [] \<Rightarrow> None | c # rest \<Rightarrow> map_option (\<lambda>(s, r). (c # s, r)) (demo_dec_str rest))"
| "demo_dec_str [] = None"

fun demo_enc_val :: "json \<Rightarrow> string" where
  "demo_enc_val (JStr s) = CHR ''s'' # demo_enc_str s"
| "demo_enc_val (JInt i) = CHR ''i'' # demo_enc_str (int_str i)"
| "demo_enc_val _ = ''?''"

definition demo_dec_val :: "string \<Rightarrow> (json \<times> string) option" where
  "demo_dec_val t =
     (case t of [] \<Rightarrow> None
      | m # t \<Rightarrow> (case demo_dec_str t of None \<Rightarrow> None
          | Some (s, r) \<Rightarrow> if m = CHR ''s'' then Some (JStr s, r) else map_option (\<lambda>i. (JInt i, r)) (int_of_str s)))"

fun demo_enc_claims :: "claims \<Rightarrow> string" where
  "demo_enc_claims [] = ''e''"
| "demo_enc_claims ((k, v) # c) = CHR ''c'' # demo_enc_str k @ demo_enc_val v @ demo_enc_claims c"

fun demo_dec_claims :: "nat \<Rightarrow> string \<Rightarrow> claims option" where
  "demo_dec_claims 0 t = None"
| "demo_dec_claims (Suc n) t =
     (case t of [] \<Rightarrow> None
      | m # t \<Rightarrow> if m = CHR ''e'' then Some []
          else case demo_dec_str t of None \<Rightarrow> None
            | Some (k, t) \<Rightarrow> (case demo_dec_val t of None \<Rightarrow> None
                | Some (v, t) \<Rightarrow> map_option ((#) (k, v)) (demo_dec_claims n t)))"

definition demo_decode :: "string \<Rightarrow> string \<Rightarrow> time \<Rightarrow> jwt_error + claims" where
  "demo_decode t s now =
     (case demo_dec_str t of None \<Rightarrow> Inl InvalidTokenError
      | Some (s', t) \<Rightarrow>
          if s' \<noteq> s then Inl InvalidTokenError
          else case demo_dec_claims (length t) t of None \<Rightarrow> Inl InvalidTokenError
            | Some c \<Rightarrow>
                (case (map_of c ''iat'', map_of c ''exp'') of
                   (Some (JInt iat), Some (JInt expiry)) \<Rightarrow>
                      if now < iat * 1000000 then Inl InvalidTokenError
                      else if expiry * 1000000 \<le> now then Inl ExpiredSignatureError else Inr c
                 | _ \<Rightarrow> Inl InvalidTokenError))"

definition demo_lib :: auth_lib where
  "demo_lib = \<lparr>jwt_encode = (\<lambda>c s. demo_enc_str s @ demo_enc_claims c), jwt_decode = demo_decode,
     pw_hash = (\<lambda>salt p. nat_str salt @ CHR '':'' # p),
     pw_verify = (\<lambda>p h. Some (dropWhile (\<lambda>c. c \<noteq> CHR '':'') h = CHR '':'' # p)),
     sha1_hex = id, py_repr = (\<lambda>_. '''')\<rparr>"

definition demo_settings :: Settings where
  "demo_settings = \<lparr>jwt_secret = ''a'', jwt_refresh_secret = ''r'', jwt_access_ttl_min = 15, jwt_refresh_ttl_days = 7\<rparr>"

lemma demo_dec_enc_str [simp]: "demo_dec_str (demo_enc_str s @ r) = Some (s, r)"
  by (induction s) (simp_all add: demo_enc_str_def)

lemma demo_dec_enc_val:
  "(case v of JStr _ \<Rightarrow> True | JInt _ \<Rightarrow> True | _ \<Rightarrow> False) \<Longrightarrow> demo_dec_val (demo_enc_val v @ r) = Some (v, r)"
  by (cases v) (simp_all add: demo_dec_val_def int_of_str_int_str)

lemma demo_dec_enc_claims:
  "list_all (\<lambda>(k, v). case v of JStr _ \<Rightarrow> True | JInt _ \<Rightarrow> True | _ \<Rightarrow> False) c \<Longrightarrow> length c < n \<Longrightarrow>
     demo_dec_claims n (demo_enc_claims c) = Some c"
proof (induction c arbitrary: n)
  case Nil
  then show ?case by (cases n) simp_all
next
  case (Cons x c)
  then show ?case by (cases n; cases x) (simp_all add: demo_dec_enc_val)
qed

lemma demo_enc_claims_length: "length c < length (demo_enc_claims c)"
proof (induction c)
  case (Cons x c)
  then show ?case by (cases x) simp
qed simp

lemma demo_decode_eq:
  assumes "plain_claims c"
  shows "jwt_decode demo_lib (jwt_encode demo_lib c s) s' now =
    (if s \<noteq> s' then Inl InvalidTokenError
     else case (map_of c ''iat'', map_of c ''exp'') of
       (Some (JInt iat), Some (JInt expiry)) \<Rightarrow>
          if now < iat * 1000000 then Inl InvalidTokenError
          else if expiry * 1000000 \<le> now then Inl ExpiredSignatureError else Inr c
     | _ \<Rightarrow> Inl InvalidTokenError)"
proof -
  have "demo_dec_claims (length (demo_enc_claims c)) (demo_enc_claims c) = Some c"
    using assms demo_dec_enc_claims [OF _ demo_enc_claims_length] by (simp add: plain_claims_def)
  then show ?thesis by (simp add: demo_lib_def demo_decode_def)
qed

lemma demo_decode_Inr:
  "demo_decode t s now = Inr c \<Longrightarrow>
     (\<exists>t' iat e. demo_dec_str t = Some (s, t') \<and> demo_dec_claims (length t') t' = Some c \<and>
        map_of c ''iat'' = Some (JInt iat) \<and> map_of c ''exp'' = Some (JInt e) \<and> now < e * 1000000)"
  by (auto simp: demo_decode_def split: option.splits if_splits json.splits prod.splits)

lemma demo_lib_ok: "jwt_ok demo_lib"
proof -
  have enc: "jwt_encode demo_lib c s \<noteq> []" for c s by (simp add: demo_lib_def demo_enc_str_def)
  have round: "jwt_decode demo_lib (jwt_encode demo_lib c s) s now = Inr c"
    if "plain_claims c" "map_of c ''iat'' = Some (JInt iat)" "map_of c ''exp'' = Some (JInt e)" "iat * 1000000 \<le> now" "now < e * 1000000"
    for c s now iat e using that by (simp add: demo_decode_eq)
  have same: "c' = c" if "plain_claims c" "jwt_decode demo_lib (jwt_encode demo_lib c s) s' now = Inr c'" for c c' s s' now
    using that by (auto simp: demo_decode_eq split: if_splits option.splits json.splits)
  have det: "c' = c" if "jwt_decode demo_lib t s now = Inr c" "jwt_decode demo_lib t s now' = Inr c'" for t s now now' c c'
    using that [unfolded demo_lib_def, simplified, THEN demo_decode_Inr] by auto
  have live: "now < e * 1000000"
    if "jwt_decode demo_lib t s now = Inr c" "map_of c ''exp'' = Some v" "int_of_json v = Inr e" for t s now c v e
    using demo_decode_Inr [of t s now c] that by (auto simp: demo_lib_def)
  show ?thesis unfolding jwt_ok_def
    by (intro conjI allI impI; (elim conjE)?) (rule enc, erule (4) round, erule (1) same, erule (1) det, erule (2) live)
qed

lemma demo_hasher_ok: "hasher_ok demo_lib"
proof -
  have "dropWhile (\<lambda>c. c \<noteq> CHR '':'') (nat_str n @ CHR '':'' # p) = CHR '':'' # p" for n p
  proof -
    have "CHR '':'' \<notin> set (nat_str n)" using nat_str_digits [of "CHR '':''" n] by auto
    then show ?thesis by (subst dropWhile_append2) auto
  qed
  then show ?thesis by (simp add: hasher_ok_def demo_lib_def)
qed

section \<open>Properties\<close>

text \<open>
  Who registers can log in and is recognised.  After a successful registration, a login with the same password and
  any spelling of the address that differs in case only, not stopped by the rate limiter, returns the
  registered user with a token pair, and until the access token expires \<^verbatim>\<open>current_user\<close> answers with that user.
  The library laws are those of the JWT library and of the password hasher; ids not minted yet are not on the
  revocation list.
\<close>
theorem registered_user_authenticates:
  assumes "jwt_ok L" "hasher_ok L" "register_user L salt email password name w = (Inr u, w1)"
    and "lower email' = lower email"
    and "fst (fst (acquire (rate_buckets (wredis w1)) (login_key L ip email') LOGIN_CAPACITY LOGIN_REFILL_PER_SEC 1 (now div 1000)))"
    and "\<forall>k \<ge> id_next w. revoked_jtis (wredis w) (int_str (id_supply w k)) = None"
  shows "\<exists>pair w2. login L cfg now email' password ip w1 = (Inr (u, pair), w2) \<and> u_email u = email \<and>
    (\<forall>t. now \<le> t \<and> t < (now_ts now + jwt_access_ttl_min cfg * 60) * 1000000 \<longrightarrow>
       current_user L cfg t (Some (access_token pair)) w2 = Inr u)"
proof -
  note reg = register_user_Inr [OF assms(3)]
  have "verify_password L password (u_password_hash u)" using assms(2) by (simp add: hasher_ok_def verify_password_def reg)
  then have chk: "login_check L (wdb w1) email' password = Inr u" by (simp add: login_check_Inr reg(3,7) assms(4))
  have "\<not> is_jti_revoked (wredis w1) t (int_str (id_supply w1 (id_next w1)))" for t
    using assms(6) by (simp add: is_jti_revoked_def reg(8-10))
  from login_authenticates [OF assms(1) chk reg(6) assms(5) this, of cfg] reg(1) show ?thesis by blast
qed

definition demo_register :: "User result \<times> world" where
  "demo_register = register_user demo_lib 7 ''Ada@x.org'' ''pw'' ''Ada'' (empty_world int)"

theorem registered_user_authenticates_witness:
  "\<exists>u w1 pair w2. demo_register = (Inr u, w1) \<and>
     login demo_lib demo_settings 0 ''ADA@x.org'' ''pw'' ''ip'' w1 = (Inr (u, pair), w2) \<and>
     current_user demo_lib demo_settings 899000000 (Some (access_token pair)) w2 = Inr u"
proof -
  obtain u w1 where reg: "register_user demo_lib 7 ''Ada@x.org'' ''pw'' ''Ada'' (empty_world int) = (Inr u, w1)"
    by (simp add: register_user_def empty_world_def empty_db_def get_by_email_def insert_user_def fresh_id_def Let_def)
  have buckets: "rate_buckets (wredis w1) = Map.empty" using register_user_Inr(8) [OF reg] by (simp add: empty_world_def empty_rstate_def)
  have allowed: "fst (fst (acquire (rate_buckets (wredis w1)) (login_key demo_lib ''ip'' ''ADA@x.org'') LOGIN_CAPACITY LOGIN_REFILL_PER_SEC 1 (0 div 1000)))"
    by (simp add: buckets acquire_def live_bucket_def rate_limit_lua_def refill_def LOGIN_CAPACITY_def Let_def split_beta)
  have spelled: "lower ''ADA@x.org'' = lower ''Ada@x.org''" by code_simp
  have clean: "\<forall>k \<ge> id_next (empty_world int). revoked_jtis (wredis (empty_world int)) (int_str (id_supply (empty_world int) k)) = None"
    by (simp add: empty_world_def empty_rstate_def)
  have "(899000000 :: int) < (now_ts 0 + jwt_access_ttl_min demo_settings * 60) * 1000000" by (simp add: now_ts_def demo_settings_def)
  with registered_user_authenticates [OF demo_lib_ok demo_hasher_ok reg spelled allowed clean, of demo_settings] reg show ?thesis
    unfolding demo_register_def by (meson zero_le_numeral)
qed

text \<open>
  C33: a refresh token works once.  After a refresh or a logout with a token, no history of registrations, logins,
  refreshes, logouts and other backend calls, at whatever instants, makes a refresh with that token succeed
  again: it gets a 401 and changes nothing.  The entry on the revocation list lives for whole seconds counted from a
  truncated clock, which is never less than the rest of the token's life.
\<close>
theorem refresh_token_single_use:
  assumes "jwt_ok L" "one_expiry L cfg presented" "tok \<in> presented"
    and "refresh L cfg now tok w = (Inr x, w1) \<or>
      logout L cfg now tok w = (Inr (), w1) \<and> (\<exists>c. decode_token L now tok REFRESH_TYPE (jwt_refresh_secret cfg) = Inr c)"
    and "auth_steps L cfg presented w1 w2"
  shows "\<exists>msg. refresh L cfg t tok w2 = (Inl (AuthError ''AUTH_REQUIRED'' 401 msg), w2)"
proof -
  obtain c where dec: "decode_token L now tok REFRESH_TYPE (jwt_refresh_secret cfg) = Inr c" and dead: "dead L c w1"
    using assms(4)
  proof
    assume "refresh L cfg now tok w = (Inr x, w1)"
    then show thesis
    proof (cases rule: refresh_cases [of L cfg now tok w])
      case (rotated c u pair r)
      then show thesis using that [of c] revoke_claims_dead [of L now c w r] dead_cong [of "w\<lparr>wredis := r\<rparr>" w1 L c]
          \<open>refresh L cfg now tok w = (Inr x, w1)\<close> by (auto simp: refresh_check_Inr)
    qed simp
  next
    assume *: "logout L cfg now tok w = (Inr (), w1) \<and> (\<exists>c. decode_token L now tok REFRESH_TYPE (jwt_refresh_secret cfg) = Inr c)"
    then obtain c where "decode_token L now tok REFRESH_TYPE (jwt_refresh_secret cfg) = Inr c" by blast
    with * show thesis using that [of c] revoke_claims_dead [of L now c w] by (auto simp: logout_def split: sum.splits)
  qed
  have jwt: "jwt_decode L tok (jwt_refresh_secret cfg) now = Inr c" "map_of c ''type'' = Some (JStr REFRESH_TYPE)"
    using dec by (simp_all add: decode_token_Inr)
  show ?thesis
    using dead_refused [OF assms(1) jwt] steps_keep_dead [OF assms(5) dead assms(2,3) jwt(1)] by blast
qed

lemma one_expiry_single: "jwt_ok L \<Longrightarrow> one_expiry L cfg {tok}"
  unfolding one_expiry_def by (auto dest: jwt_okD(4))

definition demo_user :: User where
  "demo_user = \<lparr>u_id = 5, u_email = ''ada@x.org'', u_password_hash = '':pw'', u_display_name = ''Ada'', u_role = role_player,
     u_is_active = True\<rparr>"

definition demo_accounts :: world where
  "demo_accounts = (empty_world int)\<lparr>wdb := empty_db\<lparr>users := [demo_user]\<rparr>\<rparr>"

lemma demo_refresh:
  "\<exists>pair w. refresh demo_lib demo_settings 7300000 (create_refresh_token demo_lib demo_settings 0 5 9) demo_accounts = (Inr (demo_user, pair), w)"
proof -
  have "refresh_check demo_lib demo_settings 7300000 (wdb demo_accounts) (wredis demo_accounts)
      (create_refresh_token demo_lib demo_settings 0 5 9) = Inr (refresh_claims demo_settings 0 5 9, demo_user)"
    by (rule refresh_check_issued [OF demo_lib_ok])
      (simp_all add: demo_accounts_def empty_world_def empty_rstate_def get_user_def demo_user_def is_jti_revoked_def
        demo_settings_def now_ts_def)
  then show ?thesis
    by (simp add: refresh_def refresh_rotate_def revoke_claims_def int_or_raise_def build_pair_eq)
qed

theorem refresh_token_single_use_witness:
  "\<exists>x w1 msg. refresh demo_lib demo_settings 7300000 (create_refresh_token demo_lib demo_settings 0 5 9) demo_accounts = (Inr x, w1) \<and>
     refresh demo_lib demo_settings 604799999999 (create_refresh_token demo_lib demo_settings 0 5 9) w1 =
       (Inl (AuthError ''AUTH_REQUIRED'' 401 msg), w1)"
proof -
  obtain pair w1 where "refresh demo_lib demo_settings 7300000 (create_refresh_token demo_lib demo_settings 0 5 9) demo_accounts =
      (Inr (demo_user, pair), w1)" using demo_refresh by blast
  then show ?thesis
    using refresh_token_single_use [OF demo_lib_ok one_expiry_single [OF demo_lib_ok] singletonI disjI1 auth_steps.none] by blast
qed

text \<open>
  The three kinds of token are not interchangeable.  An access token is never accepted as a participant token or
  for a refresh, a participant token never as an access token or for a refresh, a refresh token never as one of the
  others, at any instant and even when both secrets are the same; each is accepted for its own purpose while it
  lives.
\<close>
theorem tokens_not_interchangeable:
  fixes now jti sub pid :: int
  assumes "jwt_ok L"
  shows "let access = create_access_token L cfg now sub role jti;
      refresh_t = create_refresh_token L cfg now sub jti;
      participant = create_participant_token L cfg now code pid nick
    in (\<exists>e. current_participant L cfg t access = Inl e) \<and> (\<exists>e. refresh L cfg t access w = (Inl e, w)) \<and>
    (\<exists>e. current_user L cfg t (Some participant) w = Inl e) \<and> (\<exists>e. refresh L cfg t participant w = (Inl e, w)) \<and>
    (\<exists>e. current_user L cfg t (Some refresh_t) w = Inl e) \<and> (\<exists>e. current_participant L cfg t refresh_t = Inl e) \<and>
    (now \<le> t \<and> t < (now_ts now + PARTICIPANT_TTL_SEC) * 1000000 \<longrightarrow>
       current_participant L cfg t participant = Inr \<lparr>pc_room_code = code, pc_participant_id = pid, pc_nickname = nick\<rparr>)"
proof -
  define access where "access = create_access_token L cfg now sub role jti"
  define refresh_t where "refresh_t = create_refresh_token L cfg now sub jti"
  define participant where "participant = create_participant_token L cfg now code pid nick"
  have types [simp]: "ACCESS_TYPE \<noteq> PARTICIPANT_TYPE" "ACCESS_TYPE \<noteq> REFRESH_TYPE" "PARTICIPANT_TYPE \<noteq> REFRESH_TYPE"
    "PARTICIPANT_TYPE \<noteq> ACCESS_TYPE" "REFRESH_TYPE \<noteq> ACCESS_TYPE" "REFRESH_TYPE \<noteq> PARTICIPANT_TYPE"
    by (simp_all add: ACCESS_TYPE_def REFRESH_TYPE_def PARTICIPANT_TYPE_def)
  note wrong = decode_wrong_type [OF assms(1)]
  note enc = jwt_okD(1) [OF assms(1)]
  have "\<exists>e. current_participant L cfg t access = Inl e"
    using wrong [OF claims_plain(1), of cfg now sub role jti PARTICIPANT_TYPE t "jwt_secret cfg" "jwt_secret cfg"]
    by (auto simp: current_participant_def access_def create_tokens)
  moreover have "\<exists>e. refresh L cfg t access w = (Inl e, w)"
    using wrong [OF claims_plain(1), of cfg now sub role jti REFRESH_TYPE t "jwt_secret cfg" "jwt_refresh_secret cfg"]
    by (auto simp: refresh_def refresh_check_def access_def create_tokens)
  moreover have "\<exists>e. current_user L cfg t (Some participant) w = Inl e"
    using wrong [OF claims_plain(3), of now code pid nick ACCESS_TYPE t "jwt_secret cfg" "jwt_secret cfg"] enc [OF claims_plain(3)]
    by (auto simp: current_user_def bearer_def participant_def create_tokens)
  moreover have "\<exists>e. refresh L cfg t participant w = (Inl e, w)"
    using wrong [OF claims_plain(3), of now code pid nick REFRESH_TYPE t "jwt_secret cfg" "jwt_refresh_secret cfg"]
    by (auto simp: refresh_def refresh_check_def participant_def create_tokens)
  moreover have "\<exists>e. current_user L cfg t (Some refresh_t) w = Inl e"
    using wrong [OF claims_plain(2), of cfg now sub jti ACCESS_TYPE t "jwt_refresh_secret cfg" "jwt_secret cfg"] enc [OF claims_plain(2)]
    by (auto simp: current_user_def bearer_def refresh_t_def create_tokens)
  moreover have "\<exists>e. current_participant L cfg t refresh_t = Inl e"
    using wrong [OF claims_plain(2), of cfg now sub jti PARTICIPANT_TYPE t "jwt_refresh_secret cfg" "jwt_secret cfg"]
    by (auto simp: current_participant_def refresh_t_def create_tokens)
  moreover have "now \<le> t \<and> t < (now_ts now + PARTICIPANT_TTL_SEC) * 1000000 \<longrightarrow>
       current_participant L cfg t participant = Inr \<lparr>pc_room_code = code, pc_participant_id = pid, pc_nickname = nick\<rparr>"
    using participant_tokens.accept_issue [of L now t cfg "(code, pid, nick)"] assms(1) by (auto simp: participant_def now_ts_def)
  ultimately show ?thesis unfolding access_def refresh_t_def participant_def Let_def by blast
qed

theorem tokens_not_interchangeable_witness:
  "(\<exists>e. current_user demo_lib demo_settings 9 (Some (create_participant_token demo_lib demo_settings 3 ''ABC123'' 8 ''ada'')) demo_accounts = Inl e) \<and>
   current_participant demo_lib demo_settings 9 (create_participant_token demo_lib demo_settings 3 ''ABC123'' 8 ''ada'') =
     Inr \<lparr>pc_room_code = ''ABC123'', pc_participant_id = 8, pc_nickname = ''ada''\<rparr>"
  using tokens_not_interchangeable [OF demo_lib_ok, where cfg = demo_settings and now = 3 and t = 9 and w = demo_accounts and code = "''ABC123''" and pid = 8 and nick = "''ada''"]
  by (simp add: now_ts_def PARTICIPANT_TTL_SEC_def Let_def)

end
