(* ===== verification/MatchLifecycle.thy ===== *)
theory MatchLifecycle
  imports World Scoring "HOL-Library.Monad_Syntax"
begin

text \<open>
  The match lifecycle of src/backend/app/services/match_service.py: starting a match, arming and
  closing questions, pause and resume, the final ranking, and the recovery at startup.  Each service
  function is one definition over the world; \<open>now\<close>, \<open>now2\<close>, \<open>now3\<close> are the successive readings of
  \<^verbatim>\<open>_utcnow()\<close> inside one call.  The background functions run as tasks (\<open>run_task\<close>): one task
  step runs from its wake-up to its end.  A unique constraint is checked on the table after the
  insert; a violation is \<^verbatim>\<open>IntegrityError\<close> and the transaction rolls back.
\<close>

definition DEFAULT_INTER_QUESTION_SECONDS :: int where "DEFAULT_INTER_QUESTION_SECONDS = 3"
definition DEADLINE_GRACE_MS :: int where "DEADLINE_GRACE_MS = 200"

section \<open>Row updates through the session\<close>

definition set_match :: "int \<Rightarrow> (Match \<Rightarrow> Match) \<Rightarrow> db \<Rightarrow> db" where
  "set_match i f d = d\<lparr>matches := upd_where (\<lambda>m. m_id m = i) f (matches d)\<rparr>"

definition set_room :: "int \<Rightarrow> (Room \<Rightarrow> Room) \<Rightarrow> db \<Rightarrow> db" where
  "set_room i f d = d\<lparr>rooms := upd_where (\<lambda>r. rm_id r = i) f (rooms d)\<rparr>"

definition set_mq :: "int \<Rightarrow> (MatchQuestion \<Rightarrow> MatchQuestion) \<Rightarrow> db \<Rightarrow> db" where
  "set_mq i f d = d\<lparr>match_questions := upd_where (\<lambda>q. mq_id q = i) f (match_questions d)\<rparr>"

section \<open>start match\<close>

definition new_match_questions :: "int \<Rightarrow> int list \<Rightarrow> Question list \<Rightarrow> MatchQuestion list" where
  "new_match_questions match_id ids qs =
     map (\<lambda>(idx, i, q). \<lparr>mq_id = i, mq_match_id = match_id, mq_question_id = q_id q,
            mq_position = int idx, mq_started_at = None, mq_deadline_at = None, mq_closed_at = None\<rparr>)
       (enumerate 1 (zip ids qs))"

definition match_started_payload :: "Match \<Rightarrow> Room \<Rightarrow> QuizSet \<Rightarrow> nat \<Rightarrow> time \<Rightarrow> json" where
  "match_started_payload match room quiz n started_at =
     JObj [(''match_id'', JStr (int_str (m_id match))), (''room_id'', JStr (int_str (rm_id room))),
           (''code'', JStr (rm_code room)), (''quiz_set_id'', JStr (int_str (qs_id quiz))),
           (''quiz_set_version'', JInt (qs_version quiz)), (''question_count'', JInt (int n)),
           (''started_at'', JTime started_at)]"

definition start_match_redis :: "time \<Rightarrow> Match \<Rightarrow> Room \<Rightarrow> nat \<Rightarrow> RoomParticipant list \<Rightarrow> rstate \<Rightarrow> rstate" where
  "start_match_redis now match room n parts r =
     (let r = (if parts = [] then r
               else set_nicknames (m_id match) (map (\<lambda>p. (rp_id p, rp_nickname p)) parts) r);
          r = reset (m_id match) r
      in case snapshot_read now (rm_code room) r of
           None \<Rightarrow> r
         | Some cached \<Rightarrow>
             snapshot_write now (rm_code room)
               (json_set (set_room_status cached (room_status_value running)) ''match''
                 (JObj [(''match_id'', JStr (int_str (m_id match))), (''question_count'', JInt (int n)),
                        (''status'', JStr (room_status_value running))]))
               running r)"

definition start_check :: "db \<Rightarrow> int \<Rightarrow> string \<Rightarrow> (Room \<times> QuizSet \<times> Question list) result" where
  "start_check d host_id room_code =
     bind_r (of_option (AuthError ''ROOM_NOT_FOUND'' 404 ''room code not found'') (get_room_by_code d room_code)) (\<lambda>room.
     bind_r (guard (rm_host_id room = host_id) (AuthError ''FORBIDDEN'' 403 ''not the room host'')) (\<lambda>_.
     bind_r (guard (rm_status room = lobby)
       (AuthError ''ROOM_NOT_JOINABLE'' 409 ''match already started or completed'')) (\<lambda>_.
     bind_r (of_option (AuthError ''VALIDATION_ERROR'' 422 ''quiz has no questions'') (get_quiz_set d (rm_quiz_set_id room))) (\<lambda>quiz.
     bind_r (guard (questions_of d (rm_quiz_set_id room) \<noteq> []) (AuthError ''VALIDATION_ERROR'' 422 ''quiz has no questions'')) (\<lambda>_.
     Inr (room, quiz, questions_of d (rm_quiz_set_id room)))))))"

definition insert_match :: "Match \<Rightarrow> db \<Rightarrow> db option" where
  "insert_match m d =
     (let ms = matches d @ [m]
      in if unique_by m_id ms \<and> unique_by m_room_id ms then Some (d\<lparr>matches := ms\<rparr>) else None)"

definition insert_match_questions :: "MatchQuestion list \<Rightarrow> db \<Rightarrow> db option" where
  "insert_match_questions qs d =
     (let mqs = match_questions d @ qs
      in if unique_by mq_id mqs \<and> unique_by (\<lambda>q. (mq_match_id q, mq_position q)) mqs
         then Some (d\<lparr>match_questions := mqs\<rparr>) else None)"

definition start_post :: "time \<Rightarrow> Match \<Rightarrow> Room \<Rightarrow> nat \<Rightarrow> world \<Rightarrow> world" where
  "start_post now2 match room n w =
     (let parts = filter (\<lambda>p. rp_room_id p = rm_id room \<and> rp_left_at p = None \<and> \<not> rp_is_kicked p)
            (room_participants (wdb w));
          w = w\<lparr>wredis := start_match_redis now2 match room n parts (wredis w)\<rparr>;
          w = broadcast (rm_code room) ''match.started''
            (JObj [(''match_id'', JStr (int_str (m_id match))), (''question_count'', JInt (int n)),
                   (''server_now'', JTime now2)]) w;
          w = runtime_state_for (m_id match) w
      in snd (create_task (ArmQuestion (m_id match) 1) w))"

definition start_match :: "time \<Rightarrow> time \<Rightarrow> int \<Rightarrow> string \<Rightarrow> Match handler" where
  "start_match now now2 host_id room_code w =
     (case start_check (wdb w) host_id room_code of
        Inl e \<Rightarrow> (Inl e, w)
      | Inr (room, quiz, questions_sorted) \<Rightarrow>
        let (mid, w) = fresh_id w;
            match = \<lparr>m_id = mid, m_room_id = rm_id room, m_quiz_set_version = qs_version quiz,
                     m_status = running, m_started_at = now, m_ended_at = None\<rparr>
        in case insert_match match (wdb w) of
             None \<Rightarrow> (Inl (PyError ''IntegrityError''), w)
           | Some d \<Rightarrow>
             let (ids, w) = fresh_ids (length questions_sorted) w;
                 mqs = new_match_questions mid ids questions_sorted
             in case insert_match_questions mqs d of
                  None \<Rightarrow> (Inl (PyError ''IntegrityError''), w)
                | Some d \<Rightarrow>
                  let d = set_room (rm_id room) (\<lambda>r. r\<lparr>rm_status := running, rm_started_at := Some now\<rparr>) d;
                      (d, w) = register EVT_MATCH_STARTED AGG_MATCH mid
                        (match_started_payload match room quiz (length mqs) now) now d w
                  in (Inr match, start_post now2 match room (length mqs) (w\<lparr>wdb := d\<rparr>)))"

section \<open>arm question\<close>

definition question_started_event :: "int \<Rightarrow> MatchQuestion \<Rightarrow> Question \<Rightarrow> int \<Rightarrow> time \<Rightarrow> time \<Rightarrow> json" where
  "question_started_event match_id mq question position started_at deadline_at =
     JObj [(''match_id'', JStr (int_str match_id)), (''match_question_id'', JStr (int_str (mq_id mq))),
           (''question_id'', JStr (int_str (q_id question))), (''position'', JInt position),
           (''time_limit_seconds'', JInt (q_time_limit_seconds question)),
           (''started_at'', JTime started_at), (''deadline_at'', JTime deadline_at)]"

definition question_payload ::
  "MatchQuestion \<Rightarrow> Question \<Rightarrow> AnswerOption list \<Rightarrow> int \<Rightarrow> time \<Rightarrow> time \<Rightarrow> time \<Rightarrow> json" where
  "question_payload mq question options position started_at deadline_at server_now =
     JObj [(''match_question_id'', JStr (int_str (mq_id mq))), (''position'', JInt position),
           (''question'', JObj [(''body'', JStr (q_body question)),
               (''type'', JStr (question_type_value (q_type question))),
               (''options'', JArr (map (\<lambda>ao. JObj [(''id'', JStr (int_str (ao_id ao))), (''body'', JStr (ao_body ao))]) options))]),
           (''started_at'', JTime started_at), (''deadline_at'', JTime deadline_at),
           (''server_now'', JTime server_now)]"

definition arm_check :: "db \<Rightarrow> int \<Rightarrow> int \<Rightarrow> (MatchQuestion \<times> Question \<times> Room) option" where
  "arm_check d match_id position =
     do { mq \<leftarrow> get_mq d match_id position;
          _ \<leftarrow> (if mq_closed_at mq \<noteq> None then None else Some ());
          match \<leftarrow> get_match d match_id;
          _ \<leftarrow> (if m_status match \<noteq> running then None else Some ());
          question \<leftarrow> get_question d (mq_question_id mq);
          room \<leftarrow> get_room d (m_room_id match);
          Some (mq, question, room) }"

definition arm_question :: "time \<Rightarrow> time \<Rightarrow> time \<Rightarrow> int \<Rightarrow> int \<Rightarrow> world \<Rightarrow> world" where
  "arm_question now now2 now3 match_id position w =
     (let w = runtime_state_for match_id w; d = wdb w in
      case arm_check d match_id position of
        None \<Rightarrow> w
      | Some (mq, question, room) \<Rightarrow>
        let options = options_of d (mq_question_id mq);
            deadline_at = now + q_time_limit_seconds question * 1000000;
            d = set_mq (mq_id mq) (\<lambda>q. q\<lparr>mq_started_at := Some now, mq_deadline_at := Some deadline_at\<rparr>) d;
            (d, w) = register EVT_QUESTION_STARTED AGG_MATCH match_id
              (question_started_event match_id mq question position now deadline_at) now d w;
            w = w\<lparr>wdb := d\<rparr>;
            payload = question_payload mq question options position now deadline_at now2;
            w = w\<lparr>wredis := (wredis w)\<lparr>current_questions := (current_questions (wredis w))(match_id \<mapsto> payload)\<rparr>\<rparr>;
            w = broadcast (rm_code room) ''question.started'' payload w;
            (tid, w) = create_task (CloseQuestionAfter match_id position (max now3 deadline_at)) w
        in set_active match_id tid w)"

section \<open>end match\<close>

record agg =
  agg_total :: int
  agg_correct :: int
  agg_rt_sum :: int
  agg_rt_count :: int

definition zero_agg :: agg where
  "zero_agg = \<lparr>agg_total = 0, agg_correct = 0, agg_rt_sum = 0, agg_rt_count = 0\<rparr>"

definition add_submission :: "AnswerSubmission \<Rightarrow> agg \<Rightarrow> agg" where
  "add_submission s a = \<lparr>agg_total = agg_total a + as_score_awarded s,
     agg_correct = agg_correct a + (if as_is_correct s then 1 else 0),
     agg_rt_sum = agg_rt_sum a + as_response_time_ms s, agg_rt_count = agg_rt_count a + 1\<rparr>"

definition setdefault :: "int \<Rightarrow> (int \<times> agg) list \<Rightarrow> (int \<times> agg) list" where
  "setdefault pid t = (case map_of t pid of None \<Rightarrow> t @ [(pid, zero_agg)] | Some _ \<Rightarrow> t)"

definition count_submission :: "AnswerSubmission \<Rightarrow> (int \<times> agg) list \<Rightarrow> (int \<times> agg) list" where
  "count_submission s t =
     AList.map_entry (as_participant_id s) (add_submission s) (setdefault (as_participant_id s) t)"

definition per_participant :: "AnswerSubmission list \<Rightarrow> RoomParticipant list \<Rightarrow> (int \<times> agg) list" where
  "per_participant subs participants =
     fold (\<lambda>p. setdefault (rp_id p)) participants (fold count_submission subs [])"

type_synonym score_tuple = "int \<times> int \<times> int \<times> int option"

definition score_row :: "int \<times> agg \<Rightarrow> score_tuple" where
  "score_row = (\<lambda>(pid, a). (pid, agg_total a, agg_correct a,
     if agg_rt_count a > 0 then Some (py_int (fl64 (of_int (agg_rt_sum a) / of_int (agg_rt_count a)))) else None))"

definition rank_key :: "score_tuple \<Rightarrow> int \<times> int" where
  "rank_key = (\<lambda>(pid, total, correct, avg_ms). (- total, case avg_ms of Some a \<Rightarrow> a | None \<Rightarrow> 10 ^ 9))"

definition ranking :: "AnswerSubmission list \<Rightarrow> RoomParticipant list \<Rightarrow> score_tuple list" where
  "ranking subs participants = sort_key rank_key (map score_row (per_participant subs participants))"

definition final_rows :: "int \<Rightarrow> score_tuple list \<Rightarrow> FinalScore list" where
  "final_rows match_id rows =
     map (\<lambda>(rank, pid, total, correct, avg_ms).
       \<lparr>fs_match_id = match_id, fs_participant_id = pid, fs_total_score = total,
        fs_correct_count = correct, fs_average_response_ms = avg_ms, fs_rank = int rank\<rparr>) (enumerate 1 rows)"

definition final_payload :: "FinalScore list \<Rightarrow> json" where
  "final_payload rows = JArr (map (\<lambda>f. JObj [(''participant_id'', JStr (int_str (fs_participant_id f))),
      (''total_score'', JInt (fs_total_score f)), (''correct_count'', JInt (fs_correct_count f)),
      (''average_response_ms'', case fs_average_response_ms f of None \<Rightarrow> JNull | Some a \<Rightarrow> JInt a),
      (''rank'', JInt (fs_rank f))]) rows)"

definition end_match_redis :: "time \<Rightarrow> string \<Rightarrow> rstate \<Rightarrow> rstate" where
  "end_match_redis now room_code r =
     (case snapshot_read now room_code r of
        None \<Rightarrow> r
      | Some cached \<Rightarrow>
          snapshot_write now room_code (set_room_status cached (room_status_value completed)) completed r)"

definition end_check :: "db \<Rightarrow> int \<Rightarrow> int option \<Rightarrow> (Match \<times> Room) result" where
  "end_check d match_id host_id =
     bind_r (of_option (AuthError ''ROOM_NOT_FOUND'' 404 ''match not found'') (get_match d match_id)) (\<lambda>match.
     bind_r (of_option (AuthError ''ROOM_NOT_FOUND'' 404 ''room not found'') (get_room d (m_room_id match))) (\<lambda>room.
     bind_r (guard (host_id = None \<or> host_id = Some (rm_host_id room)) (AuthError ''FORBIDDEN'' 403 ''not the room host'')) (\<lambda>_.
     Inr (match, room))))"

definition match_subs :: "db \<Rightarrow> int \<Rightarrow> AnswerSubmission list" where
  "match_subs d match_id = filter (\<lambda>s. as_match_id s = match_id) (answer_submissions d)"

definition match_ranking :: "db \<Rightarrow> int \<Rightarrow> int \<Rightarrow> score_tuple list" where
  "match_ranking d match_id room_id =
     ranking (match_subs d match_id)
       (filter (\<lambda>p. rp_room_id p = room_id \<and> \<not> rp_is_kicked p) (room_participants d))"

definition match_finished_event :: "int \<Rightarrow> int \<Rightarrow> time \<Rightarrow> FinalScore list \<Rightarrow> json" where
  "match_finished_event match_id room_id ended_at scores =
     JObj [(''match_id'', JStr (int_str match_id)), (''room_id'', JStr (int_str room_id)),
           (''ended_at'', JTime ended_at), (''final_scores'', final_payload scores)]"

definition match_finished_message :: "int \<Rightarrow> json" where
  "match_finished_message match_id =
     JObj [(''match_id'', JStr (int_str match_id)),
           (''final_leaderboard_url'', JStr (''/api/v1/matches/'' @ int_str match_id @ ''/leaderboard'')),
           (''analytics_url'', JStr (''/api/v1/matches/'' @ int_str match_id @ ''/analytics''))]"

definition end_match :: "time \<Rightarrow> time \<Rightarrow> int \<Rightarrow> int option \<Rightarrow> Match handler" where
  "end_match now now2 match_id host_id w =
     (let w = snd (cancel match_id w); d = wdb w in
      if must_cancel w then (Inl (PyError ''CancelledError''), w)
      else case end_check d match_id host_id of
        Inl e \<Rightarrow> (Inl e, w)
      | Inr (match, room) \<Rightarrow>
        if m_status match = completed then (Inr match, w)
        else
          let new_scores = final_rows match_id (match_ranking d match_id (rm_id room));
              scores = final_scores d @ new_scores
          in if \<not> unique_by (\<lambda>f. (fs_match_id f, fs_participant_id f)) scores
             then (Inl (PyError ''IntegrityError''), w)
             else
               let d = set_match match_id (\<lambda>m. m\<lparr>m_status := completed, m_ended_at := Some now\<rparr>) d;
                   d = set_room (rm_id room) (\<lambda>r. r\<lparr>rm_status := completed, rm_ended_at := Some now\<rparr>) d;
                   d = d\<lparr>final_scores := scores\<rparr>;
                   (d, w) = register EVT_MATCH_FINISHED AGG_MATCH match_id
                     (match_finished_event match_id (rm_id room) now new_scores) now d w;
                   w = w\<lparr>wdb := d\<rparr>;
                   w = broadcast (rm_code room) ''match.finished'' (match_finished_message match_id) w;
                   w = w\<lparr>wredis := end_match_redis now2 (rm_code room) (wredis w)\<rparr>
               in (Inr (match\<lparr>m_status := completed, m_ended_at := Some now\<rparr>), w))"

section \<open>close question\<close>

text \<open>\<^verbatim>\<open>round(x, 1)\<close> of a float: the nearest tenth of its exact value, ties to even, as a float.\<close>

definition py_round1 :: "rat \<Rightarrow> rat" where
  "py_round1 x = fl64 (of_int (rne (10 * x)) / 10)"

definition accuracy_percent :: "int \<Rightarrow> int \<Rightarrow> rat" where
  "accuracy_percent correct_n answered_n =
     py_round1 (fl64 (fl64 (100 * of_int correct_n) / of_int (max 1 answered_n)))"

definition close_check :: "db \<Rightarrow> int \<Rightarrow> int \<Rightarrow> (MatchQuestion \<times> Room) option" where
  "close_check d match_id position =
     do { mq \<leftarrow> get_mq d match_id position;
          _ \<leftarrow> (if mq_closed_at mq \<noteq> None then None else Some ());
          match \<leftarrow> get_match d match_id;
          _ \<leftarrow> (if m_status match \<noteq> running then None else Some ());
          room \<leftarrow> get_room d (m_room_id match);
          Some (mq, room) }"

definition question_closed_event :: "int \<Rightarrow> MatchQuestion \<Rightarrow> int \<Rightarrow> time \<Rightarrow> json \<Rightarrow> json" where
  "question_closed_event match_id mq position closed_at correct_ids =
     JObj [(''match_id'', JStr (int_str match_id)), (''match_question_id'', JStr (int_str (mq_id mq))),
           (''question_id'', JStr (int_str (mq_question_id mq))), (''position'', JInt position),
           (''closed_at'', JTime closed_at), (''correct_option_ids'', correct_ids)]"

definition question_closed_message :: "MatchQuestion \<Rightarrow> Question option \<Rightarrow> json \<Rightarrow> int \<Rightarrow> int \<Rightarrow> json" where
  "question_closed_message mq question correct_ids correct_n answered_n =
     JObj [(''match_question_id'', JStr (int_str (mq_id mq))), (''correct_option_ids'', correct_ids),
           (''explanation'', case question of None \<Rightarrow> JNull
              | Some q \<Rightarrow> (case q_explanation q of None \<Rightarrow> JNull | Some e \<Rightarrow> JStr e)),
           (''accuracy_percent'', if answered_n > 0 then JFloat (accuracy_percent correct_n answered_n) else JNull)]"

definition close_commit :: "time \<Rightarrow> int \<Rightarrow> int \<Rightarrow> MatchQuestion \<Rightarrow> Room \<Rightarrow> world \<Rightarrow> world" where
  "close_commit now match_id position mq room w =
     (let d = wdb w;
          options = options_of d (mq_question_id mq);
          question = get_question d (mq_question_id mq);
          d = set_mq (mq_id mq) (\<lambda>q. q\<lparr>mq_closed_at := Some now\<rparr>) d;
          correct_ids = JArr (map (\<lambda>ao. JStr (int_str (ao_id ao))) (filter ao_is_correct options));
          (d, w) = register EVT_QUESTION_CLOSED AGG_MATCH match_id
            (question_closed_event match_id mq position now correct_ids) now d w;
          w = w\<lparr>wdb := d\<rparr>;
          answered_n = answered_count match_id (mq_question_id mq) (wredis w);
          correct_n = int (length (filter (\<lambda>s. as_match_question_id s = mq_id mq \<and> as_is_correct s) (answer_submissions d)))
      in broadcast (rm_code room) ''question.closed''
           (question_closed_message mq question correct_ids correct_n answered_n) w)"

definition close_question :: "int \<Rightarrow> time \<Rightarrow> time \<Rightarrow> int \<Rightarrow> int \<Rightarrow> unit handler" where
  "close_question inter_question_seconds now now2 match_id position w =
     (let w = runtime_state_for match_id w in
      case close_check (wdb w) match_id position of
        None \<Rightarrow> (Inr (), w)
      | Some (mq, room) \<Rightarrow>
        let w = close_commit now match_id position mq room w;
            total_questions = int (length (mqs_of (wdb w) match_id))
        in if position \<ge> total_questions
           then (case end_match now2 now2 match_id None w of (r, w) \<Rightarrow> (map_sum id (\<lambda>_. ()) r, w))
           else
             let (tid, w) = create_task
                   (GapThenArm match_id (position + 1) (now2 + max 0 inter_question_seconds * 1000000)) w
             in (Inr (), set_active match_id tid w))"

section \<open>pause and resume\<close>

definition active_mq :: "db \<Rightarrow> int \<Rightarrow> MatchQuestion option" where
  "active_mq d match_id =
     (case rev (sort_key mq_position
        (filter (\<lambda>q. mq_match_id q = match_id \<and> mq_started_at q \<noteq> None \<and> mq_closed_at q = None) (match_questions d)))
      of [] \<Rightarrow> None | q # _ \<Rightarrow> Some q)"

definition next_unstarted :: "db \<Rightarrow> int \<Rightarrow> MatchQuestion option" where
  "next_unstarted d match_id =
     (case sort_key mq_position
        (filter (\<lambda>q. mq_match_id q = match_id \<and> mq_started_at q = None) (match_questions d))
      of [] \<Rightarrow> None | q # _ \<Rightarrow> Some q)"

definition remaining_ms_of :: "MatchQuestion option \<Rightarrow> time \<Rightarrow> int" where
  "remaining_ms_of mq now =
     (case mq of None \<Rightarrow> 0
      | Some q \<Rightarrow> (case mq_deadline_at q of None \<Rightarrow> 0 | Some deadline \<Rightarrow> max 0 (py_int (total_ms (deadline - now)))))"

definition PAUSE_TTL_SECONDS :: int where "PAUSE_TTL_SECONDS = 24 * 3600"

definition set_statuses :: "int \<Rightarrow> int \<Rightarrow> RoomStatus \<Rightarrow> db \<Rightarrow> db" where
  "set_statuses match_id room_id st d =
     set_room room_id (\<lambda>r. r\<lparr>rm_status := st\<rparr>) (set_match match_id (\<lambda>m. m\<lparr>m_status := st\<rparr>) d)"

definition control_check :: "db \<Rightarrow> int \<Rightarrow> string \<Rightarrow> RoomStatus \<Rightarrow> string \<Rightarrow> (Room \<times> Match) result" where
  "control_check d host_id room_code required msg =
     bind_r (of_option (AuthError ''ROOM_NOT_FOUND'' 404 ''room code not found'') (get_room_by_code d room_code)) (\<lambda>room.
     bind_r (guard (rm_host_id room = host_id) (AuthError ''FORBIDDEN'' 403 ''not the room host'')) (\<lambda>_.
     bind_r (of_option (AuthError ''ROOM_NOT_JOINABLE'' 409 msg) (get_match_by_room d (rm_id room))) (\<lambda>match.
     bind_r (guard (m_status match = required) (AuthError ''ROOM_NOT_JOINABLE'' 409 msg)) (\<lambda>_.
     Inr (room, match)))))"

definition pause_match :: "time \<Rightarrow> int \<Rightarrow> string \<Rightarrow> Match handler" where
  "pause_match now host_id room_code w =
     (let d = wdb w in
      case control_check d host_id room_code running ''no running match'' of
        Inl e \<Rightarrow> (Inl e, w)
      | Inr (room, match) \<Rightarrow>
        let mq = active_mq d (m_id match);
            remaining_ms = remaining_ms_of mq now;
            w = w\<lparr>wdb := set_statuses (m_id match) (rm_id room) paused d\<rparr>;
            w = snd (cancel (m_id match) w);
            w = w\<lparr>wredis := (wredis w)\<lparr>pauses := (pauses (wredis w))(m_id match \<mapsto>
                  ((map_option mq_position mq, remaining_ms), now + PAUSE_TTL_SECONDS * 1000000))\<rparr>\<rparr>
        in (Inr (match\<lparr>m_status := paused\<rparr>), w))"

definition pause_state :: "rstate \<Rightarrow> time \<Rightarrow> int \<Rightarrow> int option \<times> int" where
  "pause_state r now match_id =
     (case pauses r match_id of
        Some (st, expires) \<Rightarrow> if now < expires then st else (None, 0)
      | None \<Rightarrow> (None, 0))"

definition resume_deadline :: "db \<Rightarrow> int \<Rightarrow> int option \<Rightarrow> int \<Rightarrow> time \<Rightarrow> db" where
  "resume_deadline d match_id position remaining_ms now =
     (case position of None \<Rightarrow> d
      | Some p \<Rightarrow>
        (case get_mq d match_id p of None \<Rightarrow> d
         | Some mq \<Rightarrow>
           if mq_closed_at mq = None
           then set_mq (mq_id mq) (\<lambda>q. q\<lparr>mq_deadline_at := Some (now + max 0 remaining_ms * 1000)\<rparr>) d
           else d))"

definition arm_next :: "int \<Rightarrow> world \<Rightarrow> world" where
  "arm_next match_id w =
     (case next_unstarted (wdb w) match_id of
        None \<Rightarrow> w
      | Some nxt \<Rightarrow> snd (create_task (ArmQuestion match_id (mq_position nxt)) w))"

definition resume_match :: "time \<Rightarrow> time \<Rightarrow> int \<Rightarrow> string \<Rightarrow> Match handler" where
  "resume_match now now2 host_id room_code w =
     (let d = wdb w in
      case control_check d host_id room_code paused ''match is not paused'' of
        Inl e \<Rightarrow> (Inl e, w)
      | Inr (room, match) \<Rightarrow>
        let (position, remaining_ms) = pause_state (wredis w) now (m_id match);
            d = resume_deadline d (m_id match) position remaining_ms now;
            w = w\<lparr>wdb := set_statuses (m_id match) (rm_id room) running d\<rparr>
        in (Inr (match\<lparr>m_status := running\<rparr>),
            case position of
              None \<Rightarrow> arm_next (m_id match) w
            | Some p \<Rightarrow>
                if remaining_ms > 0
                then (let (tid, w) = create_task (CloseQuestionAfter (m_id match) p (now2 + remaining_ms * 1000)) w
                      in set_active (m_id match) tid w)
                else arm_next (m_id match) w))"

section \<open>Crash recovery and tasks\<close>

definition recover_match :: "time \<Rightarrow> Match \<Rightarrow> nat \<times> world \<Rightarrow> nat \<times> world" where
  "recover_match now m = (\<lambda>(recovered, w).
     let w = runtime_state_for (m_id m) w; d = wdb w in
     case active_mq d (m_id m) of
       None \<Rightarrow>
         (case next_unstarted d (m_id m) of
            None \<Rightarrow> (recovered, w)
          | Some nxt \<Rightarrow> (Suc recovered, snd (create_task (ArmQuestion (m_id m) (mq_position nxt)) w)))
     | Some mq \<Rightarrow>
         (case mq_deadline_at mq of
            None \<Rightarrow> (recovered, w)
          | Some deadline_at \<Rightarrow>
              if deadline_at \<le> now
              then (Suc recovered, snd (create_task (CloseQuestion (m_id m) (mq_position mq)) w))
              else (let (tid, w) = create_task (CloseQuestionAfter (m_id m) (mq_position mq) deadline_at) w
                    in (Suc recovered, set_active (m_id m) tid w))))"

definition recover_running_matches :: "time \<Rightarrow> world \<Rightarrow> nat \<times> world" where
  "recover_running_matches now w =
     fold (recover_match now) (filter (\<lambda>m. m_status m = running) (matches (wdb w))) (0, w)"

text \<open>
  The event loop runs one live task from its wake-up to its end.  A task that is done is no longer
  live; an exception that escapes it is only logged by the loop.
\<close>

definition task_body :: "int \<Rightarrow> time \<Rightarrow> time \<Rightarrow> time \<Rightarrow> task \<Rightarrow> world \<Rightarrow> world" where
  "task_body inter_question_seconds now now2 now3 t w =
     (case t of
        ArmQuestion m p \<Rightarrow> arm_question now now2 now3 m p w
      | GapThenArm m p _ \<Rightarrow> arm_question now now2 now3 m p w
      | CloseQuestion m p \<Rightarrow> snd (close_question inter_question_seconds now now2 m p w)
      | CloseQuestionAfter m p _ \<Rightarrow> snd (close_question inter_question_seconds now now2 m p w))"

definition run_task :: "int \<Rightarrow> time \<Rightarrow> time \<Rightarrow> time \<Rightarrow> nat \<Rightarrow> world \<Rightarrow> world" where
  "run_task inter_question_seconds now now2 now3 tid w =
     (case map_of (tasks w) tid of
        None \<Rightarrow> w
      | Some t \<Rightarrow>
          let w = task_body inter_question_seconds now now2 now3 t (w\<lparr>running_task := Some tid, must_cancel := False\<rparr>)
          in w\<lparr>running_task := None, must_cancel := False, tasks := filter (\<lambda>(i, _). i \<noteq> tid) (tasks w)\<rparr>)"

section \<open>A concrete world\<close>

text \<open>
  For the witnesses: a host, a quiz of two questions, a room with two participants, and the same room
  in the middle of its first question (\<open>demo_running\<close>) with the close task registered.
\<close>

definition demo_db :: db where
  "demo_db = empty_db
     \<lparr>users := [\<lparr>u_id = 1, u_email = ''h'', u_password_hash = ''x'', u_display_name = ''H'', u_role = role_host, u_is_active = True\<rparr>],
      quiz_sets := [\<lparr>qs_id = 2, qs_owner_id = 1, qs_title = ''T'', qs_description = None, qs_visibility = vis_public,
        qs_is_published = True, qs_version = 1, qs_created_at = 0\<rparr>],
      questions := [\<lparr>q_id = 4, q_quiz_set_id = 2, q_position = 2, q_body = ''b'', q_type = true_false,
          q_time_limit_seconds = 20, q_points = 500, q_explanation = None\<rparr>,
        \<lparr>q_id = 3, q_quiz_set_id = 2, q_position = 1, q_body = ''a'', q_type = single_choice,
          q_time_limit_seconds = 10, q_points = 1000, q_explanation = None\<rparr>],
      answer_options := [\<lparr>ao_id = 31, ao_question_id = 3, ao_position = 1, ao_body = ''x'', ao_is_correct = True\<rparr>,
        \<lparr>ao_id = 32, ao_question_id = 3, ao_position = 2, ao_body = ''y'', ao_is_correct = False\<rparr>,
        \<lparr>ao_id = 41, ao_question_id = 4, ao_position = 1, ao_body = ''T'', ao_is_correct = True\<rparr>,
        \<lparr>ao_id = 42, ao_question_id = 4, ao_position = 2, ao_body = ''F'', ao_is_correct = False\<rparr>],
      rooms := [\<lparr>rm_id = 6, rm_code = ''ROOM'', rm_host_id = 1, rm_quiz_set_id = 2, rm_status = lobby, rm_max_players = 10,
        rm_settings = JObj [], rm_started_at = None, rm_ended_at = None\<rparr>],
      room_participants := [\<lparr>rp_id = 10, rp_room_id = 6, rp_user_id = None, rp_nickname = ''ann'', rp_guest_token_hash = None,
          rp_joined_at = 0, rp_left_at = None, rp_is_kicked = False\<rparr>,
        \<lparr>rp_id = 11, rp_room_id = 6, rp_user_id = None, rp_nickname = ''bob'', rp_guest_token_hash = None,
          rp_joined_at = 0, rp_left_at = None, rp_is_kicked = False\<rparr>]\<rparr>"

definition demo_lobby :: world where
  "demo_lobby = (empty_world (\<lambda>n. 100 + int n))\<lparr>wdb := demo_db\<rparr>"

definition demo_running_db :: db where
  "demo_running_db = demo_db
     \<lparr>rooms := [\<lparr>rm_id = 6, rm_code = ''ROOM'', rm_host_id = 1, rm_quiz_set_id = 2, rm_status = running, rm_max_players = 10,
        rm_settings = JObj [], rm_started_at = Some 0, rm_ended_at = None\<rparr>],
      matches := [\<lparr>m_id = 5, m_room_id = 6, m_quiz_set_version = 1, m_status = running, m_started_at = 0, m_ended_at = None\<rparr>],
      match_questions := [\<lparr>mq_id = 51, mq_match_id = 5, mq_question_id = 3, mq_position = 1, mq_started_at = Some 0,
          mq_deadline_at = Some 10000000, mq_closed_at = None\<rparr>,
        \<lparr>mq_id = 52, mq_match_id = 5, mq_question_id = 4, mq_position = 2, mq_started_at = None,
          mq_deadline_at = None, mq_closed_at = None\<rparr>]\<rparr>"

definition demo_running :: world where
  "demo_running = (empty_world (\<lambda>n. 100 + int n))
     \<lparr>wdb := demo_running_db, tasks := [(1, CloseQuestionAfter 5 1 10000000)], registry := [(5, 1)], next_task := 2\<rparr>"

declare demo_db_def [exec] demo_lobby_def [exec] demo_running_db_def [exec] demo_running_def [exec]
  set_match_def [exec] set_room_def [exec] set_mq_def [exec] new_match_questions_def [exec]
  start_check_def [exec] insert_match_def [exec] insert_match_questions_def [exec] start_match_redis_def [exec]
  start_post_def [exec] start_match_def [exec] arm_check_def [exec] arm_question_def [exec]
  zero_agg_def [exec] add_submission_def [exec] setdefault_def [exec] count_submission_def [exec]
  per_participant_def [exec] score_row_def [exec] rank_key_def [exec] ranking_def [exec] final_rows_def [exec]
  end_check_def [exec] match_subs_def [exec] match_ranking_def [exec] end_match_redis_def [exec] end_match_def [exec]
  close_check_def [exec] close_commit_def [exec] close_question_def [exec] active_mq_def [exec] next_unstarted_def [exec]
  remaining_ms_of_def [exec] control_check_def [exec] set_statuses_def [exec] pause_match_def [exec] pause_state_def [exec]
  resume_deadline_def [exec] arm_next_def [exec] resume_match_def [exec] recover_match_def [exec]
  recover_running_matches_def [exec] task_body_def [exec] run_task_def [exec]

section \<open>Lemmas: what the checks accept and what the calls write\<close>

lemma set_frames [simp]:
  "matches (set_room i g d) = matches d" "rooms (set_match i h d) = rooms d"
  "match_questions (set_room i g d) = match_questions d" "match_questions (set_match i h d) = match_questions d"
  "matches (set_mq i k d) = matches d" "rooms (set_mq i k d) = rooms d"
  "answer_submissions (set_room i g d) = answer_submissions d"
  "answer_submissions (set_match i h d) = answer_submissions d"
  "answer_submissions (set_mq i k d) = answer_submissions d"
  "final_scores (set_room i g d) = final_scores d" "final_scores (set_match i h d) = final_scores d"
  "final_scores (set_mq i k d) = final_scores d"
  "outbox_events (set_room i g d) = outbox_events d" "outbox_events (set_match i h d) = outbox_events d"
  "outbox_events (set_mq i k d) = outbox_events d"
  "room_participants (set_room i g d) = room_participants d" "room_participants (set_match i h d) = room_participants d"
  "room_participants (set_mq i k d) = room_participants d"
  "matches (set_match i h d) = upd_where (\<lambda>m. m_id m = i) h (matches d)"
  "rooms (set_room i g d) = upd_where (\<lambda>r. rm_id r = i) g (rooms d)"
  "match_questions (set_mq i k d) = upd_where (\<lambda>q. mq_id q = i) k (match_questions d)"
  by (simp_all add: set_room_def set_match_def set_mq_def)

lemma set_statuses_frames [simp]:
  "match_questions (set_statuses i j st d) = match_questions d"
  "answer_submissions (set_statuses i j st d) = answer_submissions d"
  "final_scores (set_statuses i j st d) = final_scores d" "outbox_events (set_statuses i j st d) = outbox_events d"
  "room_participants (set_statuses i j st d) = room_participants d"
  by (simp_all add: set_statuses_def)

lemma resume_deadline_frames [simp]:
  "matches (resume_deadline d i p n t) = matches d" "rooms (resume_deadline d i p n t) = rooms d"
  "answer_submissions (resume_deadline d i p n t) = answer_submissions d"
  "final_scores (resume_deadline d i p n t) = final_scores d" "outbox_events (resume_deadline d i p n t) = outbox_events d"
  "room_participants (resume_deadline d i p n t) = room_participants d"
  by (simp_all add: resume_deadline_def split: option.splits)

lemma start_post_frame [simp]:
  "wdb (start_post t m r n w) = wdb w"
  "tasks (start_post t m r n w) = tasks w @ [(next_task w, ArmQuestion (m_id m) 1)]"
  "next_task (start_post t m r n w) = Suc (next_task w)" "active (start_post t m r n w) = active w"
  by (simp_all add: start_post_def Let_def)

lemma arm_next_frame [simp]:
  "wdb (arm_next m w) = wdb w" "active (arm_next m w) = active w"
  by (simp_all add: arm_next_def split: option.splits)

lemma start_check_Inr:
  "start_check d h c = Inr (room, quiz, qs) \<longleftrightarrow>
     get_room_by_code d c = Some room \<and> rm_host_id room = h \<and> rm_status room = lobby \<and>
     get_quiz_set d (rm_quiz_set_id room) = Some quiz \<and> qs = questions_of d (rm_quiz_set_id room) \<and> qs \<noteq> []"
  by (auto simp: start_check_def result_iff)

lemma end_check_Inr:
  "end_check d i h = Inr (match, room) \<longleftrightarrow>
     get_match d i = Some match \<and> get_room d (m_room_id match) = Some room \<and> (h = None \<or> h = Some (rm_host_id room))"
  by (auto simp: end_check_def result_iff)

lemma control_check_Inr:
  "control_check d h c st msg = Inr (room, match) \<longleftrightarrow>
     get_room_by_code d c = Some room \<and> rm_host_id room = h \<and>
     get_match_by_room d (rm_id room) = Some match \<and> m_status match = st"
  by (auto simp: control_check_def result_iff)

lemma arm_check_Some:
  "arm_check d i p = Some (mq, question, room) \<longleftrightarrow>
     get_mq d i p = Some mq \<and> mq_closed_at mq = None \<and> get_question d (mq_question_id mq) = Some question \<and>
     (\<exists>match. get_match d i = Some match \<and> m_status match = running \<and> get_room d (m_room_id match) = Some room)"
  by (auto simp: arm_check_def bind_eq_Some_conv split: if_splits)

lemma close_check_Some:
  "close_check d i p = Some (mq, room) \<longleftrightarrow>
     get_mq d i p = Some mq \<and> mq_closed_at mq = None \<and>
     (\<exists>match. get_match d i = Some match \<and> m_status match = running \<and> get_room d (m_room_id match) = Some room)"
  by (auto simp: close_check_def bind_eq_Some_conv split: if_splits)

lemma insert_match_Some:
  "insert_match m d = Some d' \<longleftrightarrow>
     unique_by m_id (matches d @ [m]) \<and> unique_by m_room_id (matches d @ [m]) \<and> d' = d\<lparr>matches := matches d @ [m]\<rparr>"
  by (auto simp: insert_match_def Let_def)

lemma insert_match_questions_Some:
  "insert_match_questions qs d = Some d' \<longleftrightarrow>
     unique_by mq_id (match_questions d @ qs) \<and> unique_by (\<lambda>q. (mq_match_id q, mq_position q)) (match_questions d @ qs) \<and>
     d' = d\<lparr>match_questions := match_questions d @ qs\<rparr>"
  by (auto simp: insert_match_questions_def Let_def)

text \<open>The effect of each call on the database.\<close>



lemma start_match_Inl: "start_match now now2 h c w = (Inl e, w') \<Longrightarrow> \<exists>n. w' = w\<lparr>id_next := n\<rparr>"
  by (auto simp: start_match_def Let_def register_eq fresh_id_def fresh_ids_def split: option.splits sum.splits prod.splits)
    (metis world.surjective world.update_convs(4))

lemma start_match_Inr:
  assumes "start_match now now2 h c w = (Inr match, w')"
  obtains room quiz qs ids mqs ob p where
    "start_check (wdb w) h c = Inr (room, quiz, qs)"
    "match = \<lparr>m_id = id_supply w (id_next w), m_room_id = rm_id room, m_quiz_set_version = qs_version quiz,
               m_status = running, m_started_at = now, m_ended_at = None\<rparr>"
    "mqs = new_match_questions (m_id match) ids qs" "length ids = length qs"
    "unique_by m_id (matches (wdb w) @ [match])" "unique_by m_room_id (matches (wdb w) @ [match])"
    "unique_by mq_id (match_questions (wdb w) @ mqs)"
    "unique_by (\<lambda>q. (mq_match_id q, mq_position q)) (match_questions (wdb w) @ mqs)"
    "wdb w' = register_event ob EVT_MATCH_STARTED AGG_MATCH (m_id match) p now
          (set_room (rm_id room) (\<lambda>r. r\<lparr>rm_status := running, rm_started_at := Some now\<rparr>)
            ((wdb w)\<lparr>matches := matches (wdb w) @ [match], match_questions := match_questions (wdb w) @ mqs\<rparr>))"
    "\<exists>w0. w' = start_post now2 match room (length mqs) w0 \<and> wredis w0 = wredis w \<and> tasks w0 = tasks w \<and>
       next_task w0 = next_task w \<and> active w0 = active w \<and> running_task w0 = running_task w"
proof (cases "start_check (wdb w) h c")
  case Inl
  with assms show ?thesis by (simp add: start_match_def)
next
  case (Inr x)
  obtain room quiz qs where x: "x = (room, quiz, qs)" by (cases x)
  define m where "m = \<lparr>m_id = id_supply w (id_next w), m_room_id = rm_id room, m_quiz_set_version = qs_version quiz,
    m_status = running, m_started_at = now, m_ended_at = None\<rparr>"
  define w0 where "w0 = snd (fresh_id w)"
  define w1 where "w1 = snd (fresh_ids (length qs) w0)"
  define ids where "ids = fst (fresh_ids (length qs) w0)"
  define mqs where "mqs = new_match_questions (m_id m) ids qs"
  have id: "m_id m = id_supply w (id_next w)" by (simp add: m_def)
  have fr: "fresh_id w = (m_id m, w0)" "fresh_ids (length qs) w0 = (ids, w1)"
    by (simp_all add: w0_def w1_def ids_def id prod_eq_iff)
  have w0 [simp]: "wdb w0 = wdb w" by (simp add: w0_def)
  have sm: "start_match now now2 h c w =
     (case insert_match m (wdb w) of
        None \<Rightarrow> (Inl (PyError ''IntegrityError''), w0)
      | Some d \<Rightarrow> (case insert_match_questions mqs d of
          None \<Rightarrow> (Inl (PyError ''IntegrityError''), w1)
        | Some d \<Rightarrow> (Inr m, start_post now2 m room (length mqs) ((snd (fresh_id w1))\<lparr>wdb :=
            register_event (id_supply w1 (id_next w1)) EVT_MATCH_STARTED AGG_MATCH (m_id m)
              (match_started_payload m room quiz (length mqs) now) now
              (set_room (rm_id room) (\<lambda>r. r\<lparr>rm_status := running, rm_started_at := Some now\<rparr>) d)\<rparr>))))"
    by (simp add: start_match_def Inr x fr Let_def register_eq mqs_def m_def cong: option.case_cong)
  then obtain d1 d2 where i1: "insert_match m (wdb w) = Some d1" and i2: "insert_match_questions mqs d1 = Some d2"
    using assms by (auto split: option.splits)
  from sm i1 i2 assms have mm: "match = m" and w': "w' = start_post now2 m room (length mqs) ((snd (fresh_id w1))\<lparr>wdb :=
            register_event (id_supply w1 (id_next w1)) EVT_MATCH_STARTED AGG_MATCH (m_id m)
              (match_started_payload m room quiz (length mqs) now) now
              (set_room (rm_id room) (\<lambda>r. r\<lparr>rm_status := running, rm_started_at := Some now\<rparr>) d2)\<rparr>)"
    by simp_all
  note ins = i1 [unfolded insert_match_Some] i2 [unfolded insert_match_questions_Some]
  show ?thesis
  proof (rule that [of room quiz qs mqs ids])
    show "match = \<lparr>m_id = id_supply w (id_next w), m_room_id = rm_id room, m_quiz_set_version = qs_version quiz,
               m_status = running, m_started_at = now, m_ended_at = None\<rparr>" by (simp add: mm m_def)
    show "\<exists>w0. w' = start_post now2 match room (length mqs) w0 \<and> wredis w0 = wredis w \<and> tasks w0 = tasks w \<and>
       next_task w0 = next_task w \<and> active w0 = active w \<and> running_task w0 = running_task w"
      unfolding w' mm by (rule exI, rule conjI, rule refl) (simp add: w1_def w0_def)
  qed (use ins in \<open>simp_all add: Inr x mm mqs_def ids_def w'\<close>)
qed

lemma arm_question_db:
  "wdb (arm_question now now2 now3 i p w) =
     (case arm_check (wdb w) i p of None \<Rightarrow> wdb w
      | Some (mq, q, room) \<Rightarrow>
          register_event (id_supply w (id_next w)) EVT_QUESTION_STARTED AGG_MATCH i
            (question_started_event i mq q p now (now + q_time_limit_seconds q * 1000000)) now
            (set_mq (mq_id mq) (\<lambda>x. x\<lparr>mq_started_at := Some now,
               mq_deadline_at := Some (now + q_time_limit_seconds q * 1000000)\<rparr>) (wdb w)))"
  by (simp add: arm_question_def Let_def register_eq split_beta split: option.splits)

definition ended_db :: "time \<Rightarrow> int \<Rightarrow> Room \<Rightarrow> db \<Rightarrow> db" where
  "ended_db now match_id room d =
     (set_room (rm_id room) (\<lambda>r. r\<lparr>rm_status := completed, rm_ended_at := Some now\<rparr>)
       (set_match match_id (\<lambda>m. m\<lparr>m_status := completed, m_ended_at := Some now\<rparr>) d))
     \<lparr>final_scores := final_scores d @ final_rows match_id (match_ranking d match_id (rm_id room))\<rparr>"

definition end_commit :: "time \<Rightarrow> int \<Rightarrow> Room \<Rightarrow> world \<Rightarrow> db" where
  "end_commit now match_id room w =
     register_event (id_supply w (id_next w)) EVT_MATCH_FINISHED AGG_MATCH match_id
       (match_finished_event match_id (rm_id room) now
         (final_rows match_id (match_ranking (wdb w) match_id (rm_id room)))) now (ended_db now match_id room (wdb w))"

lemma end_match_db:
  "wdb (snd (end_match now now2 i h w)) = wdb w \<or>
   (\<exists>match room. end_check (wdb w) i h = Inr (match, room) \<and> m_status match \<noteq> completed \<and>
      unique_by (\<lambda>f. (fs_match_id f, fs_participant_id f))
        (final_scores (wdb w) @ final_rows i (match_ranking (wdb w) i (rm_id room))) \<and>
      wdb (snd (end_match now now2 i h w)) = end_commit now i room w)"
  by (auto simp: end_match_def Let_def register_eq ended_db_def end_commit_def split: sum.splits prod.splits if_splits)

lemma close_commit_frame [simp]:
  "wredis (close_commit now i p mq room w) = wredis w" "tasks (close_commit now i p mq room w) = tasks w"
  "next_task (close_commit now i p mq room w) = next_task w" "active (close_commit now i p mq room w) = active w"
  "running_task (close_commit now i p mq room w) = running_task w"
  "must_cancel (close_commit now i p mq room w) = must_cancel w"
  by (simp_all add: close_commit_def Let_def register_eq)

lemma close_commit_db:
  "\<exists>ob e. wdb (close_commit now i p mq room w) = register_event ob EVT_QUESTION_CLOSED AGG_MATCH i e now
     (set_mq (mq_id mq) (\<lambda>q. q\<lparr>mq_closed_at := Some now\<rparr>) (wdb w))"
  by (auto simp: close_commit_def Let_def register_eq)

lemma close_question_snd:
  "snd (close_question k now now2 i p w) =
     (case close_check (wdb w) i p of None \<Rightarrow> runtime_state_for i w
      | Some (mq, room) \<Rightarrow>
          let w1 = close_commit now i p mq room (runtime_state_for i w) in
          if p \<ge> int (length (mqs_of (wdb w1) i)) then snd (end_match now2 now2 i None w1)
          else set_active i (next_task w) (snd (create_task
            (GapThenArm i (p + 1) (now2 + max 0 k * 1000000)) w1)))"
  by (simp add: close_question_def Let_def split_beta split: option.splits)

lemma pause_match_db:
  "wdb (snd (pause_match now h c w)) =
     (case control_check (wdb w) h c running ''no running match'' of Inl _ \<Rightarrow> wdb w
      | Inr (room, match) \<Rightarrow> set_statuses (m_id match) (rm_id room) paused (wdb w))"
  by (simp add: pause_match_def Let_def split: sum.splits)

lemma resume_match_db:
  "wdb (snd (resume_match now now2 h c w)) =
     (case control_check (wdb w) h c paused ''match is not paused'' of Inl _ \<Rightarrow> wdb w
      | Inr (room, match) \<Rightarrow> set_statuses (m_id match) (rm_id room) running
          (resume_deadline (wdb w) (m_id match) (fst (pause_state (wredis w) now (m_id match)))
            (snd (pause_state (wredis w) now (m_id match))) now))"
  by (simp add: resume_match_def Let_def split_beta split: sum.splits option.splits)

lemma recover_match_db [simp]: "wdb (snd (recover_match now m x)) = wdb (snd x)"
  by (cases x) (simp add: recover_match_def Let_def split_beta split: option.splits)

lemma recover_db [simp]: "wdb (snd (recover_running_matches now w)) = wdb w"
proof -
  have "wdb (snd (fold (recover_match now) ms x)) = wdb (snd x)" for ms x
    by (induction ms arbitrary: x) simp_all
  then show ?thesis by (simp add: recover_running_matches_def)
qed

section \<open>The lifecycle invariant\<close>

definition lifecycle_ok :: "db \<Rightarrow> bool" where
  "lifecycle_ok d \<longleftrightarrow>
     unique_by rm_id (rooms d) \<and> unique_by m_id (matches d) \<and> unique_by m_room_id (matches d) \<and>
     (\<forall>m \<in> set (matches d). m_status m \<in> {running, paused, completed} \<and>
        (\<exists>r \<in> set (rooms d). rm_id r = m_room_id m \<and> rm_status r = m_status m)) \<and>
     (\<forall>r \<in> set (rooms d). rm_status r = lobby \<longleftrightarrow> (\<forall>m \<in> set (matches d). m_room_id m \<noteq> rm_id r))"

lemma lifecycle_ok_cong:
  "matches d = matches d' \<Longrightarrow> rooms d = rooms d' \<Longrightarrow> lifecycle_ok d = lifecycle_ok d'"
  by (simp add: lifecycle_ok_def)

text \<open>A match and its room move together to a status other than lobby.\<close>

lemma lifecycle_ok_move:
  assumes ok: "lifecycle_ok d" and m: "get_match d i = Some m"
    and f: "\<And>x. m_id (f x) = m_id x \<and> m_room_id (f x) = m_room_id x \<and> m_status (f x) = st"
    and g: "\<And>x. rm_id (g x) = rm_id x \<and> rm_status (g x) = st"
    and st: "st \<in> {running, paused, completed}"
  shows "lifecycle_ok (set_room (m_room_id m) g (set_match i f d))"
proof -
  note u = ok [unfolded lifecycle_ok_def]
  have m': "m \<in> set (matches d)" "m_id m = i" using find_Some_simps(3) [OF m] by auto
  have only: "x \<in> set (matches d) \<Longrightarrow> m_id x = i \<longleftrightarrow> m_room_id x = m_room_id m" for x
    using u m' by (metis unique_by_eq)
  have u1: "unique_by rm_id (upd_where (\<lambda>r. rm_id r = m_room_id m) g (rooms d))"
    "unique_by m_id (upd_where (\<lambda>m. m_id m = i) f (matches d))"
    "unique_by m_room_id (upd_where (\<lambda>m. m_id m = i) f (matches d))"
    using u f g by (simp_all add: unique_by_upd_where)
  have rids: "m_room_id ` set (upd_where (\<lambda>m. m_id m = i) f (matches d)) = m_room_id ` set (matches d)"
    using map_upd_where [of "\<lambda>m. m_id m = i" m_room_id f "matches d"] f by (metis list.set_map)
  have ms: "m_status y \<in> {running, paused, completed} \<and>
      (\<exists>r \<in> set (upd_where (\<lambda>r. rm_id r = m_room_id m) g (rooms d)). rm_id r = m_room_id y \<and> rm_status r = m_status y)"
    if y: "y \<in> set (upd_where (\<lambda>m. m_id m = i) f (matches d))" for y
  proof -
    obtain x where x: "x \<in> set (matches d)" "y = (if m_id x = i then f x else x)"
      using y unfolding set_upd_where by blast
    obtain r where r: "r \<in> set (rooms d)" "rm_id r = m_room_id x" "rm_status r = m_status x"
      and sx: "m_status x \<in> {running, paused, completed}" using u x(1) by auto
    let ?r = "if rm_id r = m_room_id m then g r else r"
    have "?r \<in> set (upd_where (\<lambda>r. rm_id r = m_room_id m) g (rooms d))" using r(1) by (auto simp: set_upd_where)
    moreover have "rm_id ?r = m_room_id y \<and> rm_status ?r = m_status y"
      using x r only [OF x(1)] f g by auto
    ultimately show ?thesis using x(2) sx f st by auto
  qed
  have rs: "rm_status y = lobby \<longleftrightarrow> (\<forall>z \<in> set (upd_where (\<lambda>m. m_id m = i) f (matches d)). m_room_id z \<noteq> rm_id y)"
    if y: "y \<in> set (upd_where (\<lambda>r. rm_id r = m_room_id m) g (rooms d))" for y
  proof -
    obtain x where x: "x \<in> set (rooms d)" "y = (if rm_id x = m_room_id m then g x else x)"
      using y unfolding set_upd_where by blast
    have "(\<forall>z \<in> set (upd_where (\<lambda>m. m_id m = i) f (matches d)). m_room_id z \<noteq> rm_id y) \<longleftrightarrow> rm_id y \<notin> m_room_id ` set (matches d)"
      unfolding rids [symmetric] by (metis (no_types, lifting) imageE imageI)
    also have "\<dots> \<longleftrightarrow> rm_id x \<notin> m_room_id ` set (matches d)" using x(2) g by simp
    also have "\<dots> \<longleftrightarrow> rm_status x = lobby" using u x(1) by (metis imageE imageI)
    also have "\<dots> \<longleftrightarrow> rm_status y = lobby" using u x g st m' by (auto split: if_splits)
    finally show ?thesis by simp
  qed
  show ?thesis unfolding lifecycle_ok_def set_frames using u1 ms rs by blast
qed

lemma start_match_lifecycle:
  assumes "lifecycle_ok (wdb w)"
  shows "lifecycle_ok (wdb (snd (start_match now now2 h c w)))"
proof (cases "start_match now now2 h c w")
  case (Pair res w')
  show ?thesis
  proof (cases res)
    case (Inl e)
    then show ?thesis using Pair assms start_match_Inl by fastforce
  next
    case (Inr match)
    from start_match_Inr [OF Pair [unfolded Inr]] obtain room quiz qs mqs ob p where
      ck: "start_check (wdb w) h c = Inr (room, quiz, qs)"
      and m: "match = \<lparr>m_id = id_supply w (id_next w), m_room_id = rm_id room, m_quiz_set_version = qs_version quiz,
               m_status = running, m_started_at = now, m_ended_at = None\<rparr>"
      and u1: "unique_by m_id (matches (wdb w) @ [match])" and u2: "unique_by m_room_id (matches (wdb w) @ [match])"
      and d: "wdb w' = register_event ob EVT_MATCH_STARTED AGG_MATCH (m_id match) p now
          (set_room (rm_id room) (\<lambda>r. r\<lparr>rm_status := running, rm_started_at := Some now\<rparr>)
            ((wdb w)\<lparr>matches := matches (wdb w) @ [match], match_questions := match_questions (wdb w) @ mqs\<rparr>))" .
    have r: "room \<in> set (rooms (wdb w))" using ck find_Some_simps(1) by (auto simp: start_check_Inr)
    note u = assms [unfolded lifecycle_ok_def]
    let ?rs = "upd_where (\<lambda>r. rm_id r = rm_id room) (\<lambda>r. r\<lparr>rm_status := running, rm_started_at := Some now\<rparr>) (rooms (wdb w))"
    have ur: "unique_by rm_id ?rs" using u by (simp add: unique_by_upd_where)
    have new: "x \<in> set (matches (wdb w)) \<Longrightarrow> m_room_id x \<noteq> rm_id room" for x
      using u2 by (force simp: unique_by_append1 m)
    have keep: "r \<in> set (rooms (wdb w)) \<Longrightarrow> rm_id r \<noteq> rm_id room \<Longrightarrow> r \<in> set ?rs" for r
      by (force simp: set_upd_where)
    have upd: "room\<lparr>rm_status := running, rm_started_at := Some now\<rparr> \<in> set ?rs"
      using r by (force simp: set_upd_where)
    have ms: "m_status y \<in> {running, paused, completed} \<and> (\<exists>r \<in> set ?rs. rm_id r = m_room_id y \<and> rm_status r = m_status y)"
      if y: "y \<in> set (matches (wdb w) @ [match])" for y
    proof (cases "y = match")
      case True
      then show ?thesis using upd by (auto simp: m intro!: bexI [OF _ upd])
    next
      case False
      then have "y \<in> set (matches (wdb w))" using y by simp
      with u obtain r where "r \<in> set (rooms (wdb w))" "rm_id r = m_room_id y" "rm_status r = m_status y"
        "m_status y \<in> {running, paused, completed}" by blast
      with new [OF \<open>y \<in> set (matches (wdb w))\<close>] keep show ?thesis by metis
    qed
    have rs: "rm_status y = lobby \<longleftrightarrow> (\<forall>z \<in> set (matches (wdb w) @ [match]). m_room_id z \<noteq> rm_id y)"
      if y: "y \<in> set ?rs" for y
    proof -
      obtain x where x: "x \<in> set (rooms (wdb w))"
        "y = (if rm_id x = rm_id room then x\<lparr>rm_status := running, rm_started_at := Some now\<rparr> else x)"
        using y unfolding set_upd_where by blast
      show ?thesis using u x by (cases "rm_id x = rm_id room") (simp_all add: m)
    qed
    show ?thesis unfolding lifecycle_ok_def Pair snd_conv d using u1 u2 ur ms rs by simp
  qed
qed

lemma set_statuses_lifecycle:
  assumes "lifecycle_ok d" "control_check d h c st0 msg = Inr (room, match)" "st \<in> {running, paused, completed}"
    "matches d' = matches d" "rooms d' = rooms d"
  shows "lifecycle_ok (set_statuses (m_id match) (rm_id room) st d')"
proof -
  have gm: "get_match_by_room d (rm_id room) = Some match" using assms(2) by (simp add: control_check_Inr)
  then have mm: "match \<in> set (matches d')" "m_room_id match = rm_id room"
    using find_Some_simps(4) assms(4) by fastforce+
  have ok: "lifecycle_ok d'" using assms lifecycle_ok_cong by blast
  have "get_match d' (m_id match) = Some match"
    using ok mm(1) by (auto simp: get_match_def lifecycle_ok_def intro: find_unique)
  from lifecycle_ok_move [OF ok this, of "\<lambda>m. m\<lparr>m_status := st\<rparr>" st "\<lambda>r. r\<lparr>rm_status := st\<rparr>"] assms(3)
  show ?thesis by (simp add: set_statuses_def mm(2))
qed

lemma end_match_lifecycle:
  assumes "lifecycle_ok (wdb w)"
  shows "lifecycle_ok (wdb (snd (end_match now now2 i h w)))"
  using end_match_db [of now now2 i h w]
proof (elim disjE exE conjE)
  fix match room
  assume ck: "end_check (wdb w) i h = Inr (match, room)"
    and d: "wdb (snd (end_match now now2 i h w)) = end_commit now i room w"
  have gm: "get_match (wdb w) i = Some match" and rid: "rm_id room = m_room_id match"
    using ck find_Some_simps(2) by (auto simp: end_check_Inr)
  have "lifecycle_ok (set_room (rm_id room) (\<lambda>r. r\<lparr>rm_status := completed, rm_ended_at := Some now\<rparr>)
       (set_match i (\<lambda>m. m\<lparr>m_status := completed, m_ended_at := Some now\<rparr>) (wdb w)))"
    unfolding rid by (rule lifecycle_ok_move [OF assms gm, where st = completed]) auto
  then show ?thesis unfolding d by (simp add: ended_db_def end_commit_def lifecycle_ok_def)
qed (simp add: assms)

lemma close_question_lifecycle:
  assumes "lifecycle_ok (wdb w)"
  shows "lifecycle_ok (wdb (snd (close_question k now now2 i p w)))"
proof -
  have "lifecycle_ok (wdb (close_commit now i p mq room (runtime_state_for i w)))" for mq room
    using close_commit_db [of now i p mq room "runtime_state_for i w"] assms
    by (auto simp: lifecycle_ok_def)
  then show ?thesis using assms
    by (simp add: close_question_snd Let_def end_match_lifecycle split: option.splits)
qed

lemma arm_question_lifecycle:
  "lifecycle_ok (wdb w) \<Longrightarrow> lifecycle_ok (wdb (arm_question now now2 now3 i p w))"
  by (simp add: arm_question_db lifecycle_ok_def split: option.splits)

lemma pause_match_lifecycle:
  "lifecycle_ok (wdb w) \<Longrightarrow> lifecycle_ok (wdb (snd (pause_match now h c w)))"
  by (auto simp: pause_match_db intro: set_statuses_lifecycle split: sum.splits)

lemma resume_match_lifecycle:
  "lifecycle_ok (wdb w) \<Longrightarrow> lifecycle_ok (wdb (snd (resume_match now now2 h c w)))"
  by (auto simp: resume_match_db intro: set_statuses_lifecycle split: sum.splits)

lemma run_task_lifecycle:
  "lifecycle_ok (wdb w) \<Longrightarrow> lifecycle_ok (wdb (run_task k now now2 now3 tid w))"
  by (auto simp: run_task_def task_body_def Let_def arm_question_lifecycle close_question_lifecycle
      split: option.splits task.splits)

section \<open>The final ranking\<close>

definition subs_by :: "AnswerSubmission list \<Rightarrow> int \<Rightarrow> AnswerSubmission list" where
  "subs_by subs p = filter (\<lambda>s. as_participant_id s = p) subs"

lemma subs_by_simps [simp]:
  "subs_by [] p = []"
  "subs_by (s # ss) p = (if as_participant_id s = p then s # subs_by ss p else subs_by ss p)"
  by (simp_all add: subs_by_def)

lemma map_of_setdefault:
  "map_of (setdefault q t) p = (if p = q \<and> map_of t p = None then Some zero_agg else map_of t p)"
  by (auto simp: setdefault_def map_add_def split: option.splits)

lemma map_of_count_submission:
  "map_of (count_submission s t) p =
     (if p = as_participant_id s then Some (add_submission s (case map_of t p of None \<Rightarrow> zero_agg | Some a \<Rightarrow> a))
      else map_of t p)"
  by (auto simp: count_submission_def map_of_map_entry map_of_setdefault split: option.splits)

lemma map_of_count_submissions:
  "map_of (fold count_submission subs t) p =
     (case map_of t p of
        Some a \<Rightarrow> Some (fold add_submission (subs_by subs p) a)
      | None \<Rightarrow> if subs_by subs p = [] then None else Some (fold add_submission (subs_by subs p) zero_agg))"
  by (induction subs arbitrary: t) (auto simp: map_of_count_submission split: option.splits)

lemma map_of_setdefaults:
  "map_of (fold (\<lambda>q. setdefault (rp_id q)) parts t) p =
     (if map_of t p = None \<and> p \<in> rp_id ` set parts then Some zero_agg else map_of t p)"
  by (induction parts arbitrary: t) (auto simp: map_of_setdefault)

lemma map_of_per_participant:
  "map_of (per_participant subs parts) p =
     (if subs_by subs p = [] \<and> p \<notin> rp_id ` set parts then None
      else Some (fold add_submission (subs_by subs p) zero_agg))"
  by (simp add: per_participant_def map_of_setdefaults map_of_count_submissions)

lemma keys_setdefault: "distinct (map fst t) \<Longrightarrow> distinct (map fst (setdefault q t))"
  by (auto simp: setdefault_def map_of_eq_None_iff split: option.splits)

lemma keys_map_entry: "map fst (AList.map_entry k f t) = map fst t"
  by (induction t) auto

lemma keys_per_participant: "distinct (map fst (per_participant subs parts))"
proof -
  have "distinct (map fst t) \<Longrightarrow> distinct (map fst (fold count_submission subs t))" for t
    by (induction subs arbitrary: t) (simp_all add: count_submission_def keys_map_entry keys_setdefault del: distinct_map)
  moreover have "distinct (map fst t) \<Longrightarrow> distinct (map fst (fold (\<lambda>q. setdefault (rp_id q)) parts t))" for t
    by (induction parts arbitrary: t) (simp_all add: keys_setdefault del: distinct_map)
  ultimately show ?thesis by (simp add: per_participant_def)
qed

lemma fold_add_submission:
  "agg_total (fold add_submission ss a) = agg_total a + sum_list (map as_score_awarded ss)"
  "agg_correct (fold add_submission ss a) = agg_correct a + int (length (filter as_is_correct ss))"
  "agg_rt_sum (fold add_submission ss a) = agg_rt_sum a + sum_list (map as_response_time_ms ss)"
  "agg_rt_count (fold add_submission ss a) = agg_rt_count a + int (length ss)"
  by (induction ss arbitrary: a) (simp_all add: add_submission_def)

definition avg_response :: "AnswerSubmission list \<Rightarrow> int option" where
  "avg_response ss = (if ss = [] then None
     else Some (py_int (fl64 (of_int (sum_list (map as_response_time_ms ss)) / of_int (int (length ss))))))"

lemma ranking_rows:
  "(p, tot, correct, avg) \<in> set (ranking subs parts) \<longleftrightarrow>
     (subs_by subs p \<noteq> [] \<or> p \<in> rp_id ` set parts) \<and>
     tot = sum_list (map as_score_awarded (subs_by subs p)) \<and>
     correct = int (length (filter as_is_correct (subs_by subs p))) \<and> avg = avg_response (subs_by subs p)"
proof -
  have "(p, tot, correct, avg) \<in> set (ranking subs parts) \<longleftrightarrow>
      (\<exists>a. map_of (per_participant subs parts) p = Some a \<and> (p, tot, correct, avg) = score_row (p, a))"
    unfolding map_of_eq_Some_iff [OF keys_per_participant]
    by (force simp: ranking_def score_row_def image_iff case_prod_unfold)
  also have "\<dots> \<longleftrightarrow> (subs_by subs p \<noteq> [] \<or> p \<in> rp_id ` set parts) \<and>
     tot = sum_list (map as_score_awarded (subs_by subs p)) \<and>
     correct = int (length (filter as_is_correct (subs_by subs p))) \<and> avg = avg_response (subs_by subs p)"
    by (auto simp: map_of_per_participant score_row_def fold_add_submission zero_agg_def avg_response_def)
  finally show ?thesis .
qed

lemma subs_by_nonempty: "subs_by subs p \<noteq> [] \<longleftrightarrow> p \<in> as_participant_id ` set subs"
  by (auto simp: subs_by_def filter_empty_conv)

lemma ranking_ids: "fst ` set (ranking subs parts) = as_participant_id ` set subs \<union> rp_id ` set parts"
proof -
  have "p \<in> fst ` set (ranking subs parts) \<longleftrightarrow> (\<exists>tot c a. (p, tot, c, a) \<in> set (ranking subs parts))" for p
    by force
  then show ?thesis by (auto simp: ranking_rows subs_by_nonempty)
qed

lemma ranking_distinct: "distinct (map fst (ranking subs parts))"
proof -
  have "mset (map fst (ranking subs parts)) = mset (map fst (map score_row (per_participant subs parts)))"
    by (simp add: ranking_def mset_map del: map_map)
  moreover have "map fst (map score_row (per_participant subs parts)) = map fst (per_participant subs parts)"
    by (auto simp: score_row_def)
  ultimately show ?thesis using keys_per_participant mset_eq_imp_distinct_iff by metis
qed

lemma ranking_sorted: "sorted_wrt (\<lambda>a b. rank_key a \<le> rank_key b) (ranking subs parts)"
  using sorted_sort_key [of rank_key "map score_row (per_participant subs parts)"]
  by (simp add: ranking_def sorted_map)

lemma final_rows_simps:
  "map fs_rank (final_rows i rows) = map int [1 ..< Suc (length rows)]"
  "map (\<lambda>f. (fs_participant_id f, fs_total_score f, fs_correct_count f, fs_average_response_ms f)) (final_rows i rows) = rows"
  "length (final_rows i rows) = length rows" "f \<in> set (final_rows i rows) \<Longrightarrow> fs_match_id f = i"
  using map_enumerate_fst [of int 1 rows] map_enumerate_snd [of id 1 rows]
  by (auto simp add: final_rows_def comp_def case_prod_unfold simp del: upt_Suc)


lemma end_match_Inr:
  assumes "end_match now now2 i h w = (Inr m, w')"
  obtains match room where "end_check (wdb w) i h = Inr (match, room)"
    "m_status match = completed \<and> m = match \<and> w' = snd (cancel i w) \<or>
     m_status match \<noteq> completed \<and> m = match\<lparr>m_status := completed, m_ended_at := Some now\<rparr> \<and> wdb w' = end_commit now i room w"
proof (cases "end_check (wdb w) i h")
  case (Inr x)
  obtain match room where x: "x = (match, room)" by (cases x)
  show ?thesis
    by (rule that [of match room])
      (use assms in \<open>auto simp: end_match_def Let_def register_eq ended_db_def end_commit_def Inr x split: if_splits\<close>)
qed (use assms in \<open>simp add: end_match_def Let_def split: if_splits\<close>)

text \<open>
  C23: when \<^verbatim>\<open>end_match\<close> completes a match it appends one \<^verbatim>\<open>final_scores\<close> row for every participant
  who answered and for every participant of the room who is not kicked, and for no one else.  Ranks
  are 1, 2, \<dots> in row order; each total is the sum of that participant's awarded scores in this match
  and each correct count the number of its correct answers; the rows are in descending total, ties in
  ascending average response time.
\<close>
theorem end_match_final_scores:
  assumes "end_match now now2 i h w = (Inr m, w')" "get_match (wdb w) i = Some m0" "m_status m0 \<noteq> completed"
  shows "\<exists>rows. final_scores (wdb w') = final_scores (wdb w) @ rows \<and>
    map fs_rank rows = map int [1 ..< Suc (length rows)] \<and> distinct (map fs_participant_id rows) \<and>
    fs_participant_id ` set rows = as_participant_id ` set (match_subs (wdb w) i) \<union>
      rp_id ` {p \<in> set (room_participants (wdb w)). rp_room_id p = m_room_id m0 \<and> \<not> rp_is_kicked p} \<and>
    (\<forall>f \<in> set rows. let ss = subs_by (match_subs (wdb w) i) (fs_participant_id f) in
        fs_match_id f = i \<and> fs_total_score f = sum_list (map as_score_awarded ss) \<and>
        fs_correct_count f = int (length (filter as_is_correct ss)) \<and>
        fs_average_response_ms f = avg_response ss) \<and>
    sorted_wrt (\<lambda>f g. fs_total_score g < fs_total_score f \<or> fs_total_score f = fs_total_score g \<and>
        (case fs_average_response_ms f of Some a \<Rightarrow> a | None \<Rightarrow> 10 ^ 9) \<le>
        (case fs_average_response_ms g of Some a \<Rightarrow> a | None \<Rightarrow> 10 ^ 9)) rows"
proof -
  from end_match_Inr [OF assms(1)] obtain match room where ck: "end_check (wdb w) i h = Inr (match, room)"
    and alt: "m_status match = completed \<and> m = match \<and> w' = snd (cancel i w) \<or>
     m_status match \<noteq> completed \<and> m = match\<lparr>m_status := completed, m_ended_at := Some now\<rparr> \<and> wdb w' = end_commit now i room w" .
  have mm: "match = m0" and room: "rm_id room = m_room_id m0"
    using ck assms(2) find_Some_simps(2) by (auto simp: end_check_Inr)
  define parts where "parts = filter (\<lambda>p. rp_room_id p = m_room_id m0 \<and> \<not> rp_is_kicked p) (room_participants (wdb w))"
  define subs where "subs = match_subs (wdb w) i"
  define rows where "rows = final_rows i (ranking subs parts)"
  let ?row = "\<lambda>f. (fs_participant_id f, fs_total_score f, fs_correct_count f, fs_average_response_ms f)"
  have fs: "final_scores (wdb w') = final_scores (wdb w) @ rows"
    using alt assms(3) mm
    by (auto simp: ended_db_def end_commit_def match_ranking_def room parts_def [symmetric] subs_def [symmetric] rows_def)
  have rows: "map ?row rows = ranking subs parts" by (simp add: rows_def final_rows_simps)
  have set_rows: "?row ` set rows = set (ranking subs parts)" using arg_cong [OF rows, of set] by simp
  have ids: "map fs_participant_id rows = map fst (ranking subs parts)"
    unfolding rows [symmetric] by simp
  have pids: "fs_participant_id ` set rows = as_participant_id ` set subs \<union> rp_id ` set parts"
    using arg_cong [OF ids, of set] by (simp add: ranking_ids)
  have each: "let ss = subs_by subs (fs_participant_id f) in
        fs_match_id f = i \<and> fs_total_score f = sum_list (map as_score_awarded ss) \<and>
        fs_correct_count f = int (length (filter as_is_correct ss)) \<and>
        fs_average_response_ms f = avg_response ss" if "f \<in> set rows" for f
  proof -
    have "?row f \<in> set (ranking subs parts)" using that set_rows by blast
    then show ?thesis using that by (simp add: ranking_rows final_rows_simps(4) rows_def Let_def)
  qed
  have "sorted_wrt (\<lambda>f g. rank_key (?row f) \<le> rank_key (?row g)) rows"
    using ranking_sorted [of subs parts] unfolding rows [symmetric] by (simp add: sorted_wrt_map)
  then have srt: "sorted_wrt (\<lambda>f g. fs_total_score g < fs_total_score f \<or> fs_total_score f = fs_total_score g \<and>
        (case fs_average_response_ms f of Some a \<Rightarrow> a | None \<Rightarrow> 10 ^ 9) \<le>
        (case fs_average_response_ms g of Some a \<Rightarrow> a | None \<Rightarrow> 10 ^ 9)) rows"
    by (rule sorted_wrt_mono_rel [rotated]) (auto simp: rank_key_def less_eq_prod_def)
  have "map fs_rank rows = map int [1 ..< Suc (length rows)]" by (simp add: rows_def final_rows_simps del: upt_Suc)
  moreover have "distinct (map fs_participant_id rows)" unfolding ids by (rule ranking_distinct)
  ultimately show ?thesis using fs pids each srt by (auto simp: parts_def subs_def simp del: upt_Suc intro!: exI [of _ rows])
qed

theorem end_match_final_scores_witness:
  "\<exists>m w'. end_match 50 60 5 (Some 1) demo_running = (Inr m, w') \<and>
     (\<exists>rows. final_scores (wdb w') = final_scores (wdb demo_running) @ rows \<and>
       map fs_rank rows = map int [1 ..< Suc (length rows)] \<and>
       fs_participant_id ` set rows = as_participant_id ` set (match_subs (wdb demo_running) 5) \<union>
         rp_id ` {p \<in> set (room_participants (wdb demo_running)). rp_room_id p = 6 \<and> \<not> rp_is_kicked p})"
proof -
  let ?m0 = "\<lparr>m_id = 5, m_room_id = 6, m_quiz_set_version = 1, m_status = running, m_started_at = 0, m_ended_at = None\<rparr>"
  have "\<exists>m w'. end_match 50 60 5 (Some 1) demo_running = (Inr m, w')" by (simp add: exec)
  then obtain m w' where e: "end_match 50 60 5 (Some 1) demo_running = (Inr m, w')" by blast
  have "get_match (wdb demo_running) 5 = Some ?m0" by (simp add: exec)
  from end_match_final_scores [OF e this] e show ?thesis by (auto simp del: upt_Suc)
qed

end
