(* ===== verification/MatchProperties.thy ===== *)
theory MatchProperties
  imports MatchLifecycle
begin

text \<open>
  Properties of the match lifecycle (theory MatchLifecycle): what starting a match creates, that
  ending is idempotent, that a pause keeps the remaining answer time, that a match never has two
  live timers, what recovery re-arms, and the two states in which a running match is left without
  a timer.
\<close>

section \<open>Start\<close>

lemma new_match_questions_simps:
  assumes "length ids = length qs"
  shows "map mq_position (new_match_questions i ids qs) = map int [1 ..< Suc (length qs)]"
    "map mq_question_id (new_match_questions i ids qs) = map q_id qs"
    "x \<in> set (new_match_questions i ids qs) \<Longrightarrow> mq_match_id x = i \<and> mq_started_at x = None \<and> mq_closed_at x = None"
proof -
  have len: "length (zip ids qs) = length qs" using assms by simp
  show "map mq_position (new_match_questions i ids qs) = map int [1 ..< Suc (length qs)]"
    using map_enumerate_fst [of int 1 "zip ids qs"] assms
    by (simp add: new_match_questions_def comp_def case_prod_unfold del: upt_Suc)
  have "map (q_id \<circ> snd) (zip ids qs) = map q_id qs" using assms by (metis map_map map_snd_zip)
  then show "map mq_question_id (new_match_questions i ids qs) = map q_id qs"
    using map_enumerate_snd [of "q_id \<circ> snd" 1 "zip ids qs"]
    by (simp add: new_match_questions_def comp_def case_prod_unfold)
qed (auto simp: new_match_questions_def)



section \<open>End\<close>

lemma map_option_find_upd:
  "(\<And>r. find P rows = Some r \<Longrightarrow> (if Q r then f r else r) = g r) \<Longrightarrow>
   map_option (\<lambda>r. if Q r then f r else r) (find P rows) = map_option g (find P rows)"
  by (cases "find P rows") simp_all

lemma get_match_ended: "get_match (ended_db now i room d) i =
  map_option (\<lambda>m. m\<lparr>m_status := completed, m_ended_at := Some now\<rparr>) (get_match d i)"
proof -
  have "get_match (ended_db now i room d) i = map_option (\<lambda>r. if m_id r = i then r\<lparr>m_status := completed, m_ended_at := Some now\<rparr> else r)
      (find (\<lambda>m. m_id m = i) (matches d))"
    unfolding get_match_def by (simp add: ended_db_def find_upd_where)
  also have "\<dots> = map_option (\<lambda>m. m\<lparr>m_status := completed, m_ended_at := Some now\<rparr>) (get_match d i)"
    unfolding get_match_def by (rule map_option_find_upd) (auto dest: find_Some_set)
  finally show ?thesis .
qed

lemma get_room_ended: "get_room d k = Some room0 \<Longrightarrow>
  \<exists>room1. get_room (ended_db now i room d) k = Some room1 \<and> rm_host_id room1 = rm_host_id room0"
  by (auto simp: get_room_def ended_db_def find_upd_where)

lemma end_match_completed:
  assumes "\<not> must_cancel w" "active w i = None" "end_check (wdb w) i h = Inr (m, room)" "m_status m = completed"
  shows "end_match t t2 i h w = (Inr m, snd (cancel i w))"
  using assms by (auto simp: end_match_def Let_def cancel_must_cancel)

lemma end_match_leaves:
  assumes "end_match now now2 i h w = (Inr m, w')"
  shows "\<not> must_cancel w' \<and> active w' i = None \<and> m_status m = completed \<and> (\<exists>room. end_check (wdb w') i h = Inr (m, room))"
proof -
  from end_match_Inr [OF assms] obtain match room where ck: "end_check (wdb w) i h = Inr (match, room)"
    and alt: "m_status match = completed \<and> m = match \<and> w' = snd (cancel i w) \<or>
     m_status match \<noteq> completed \<and> m = match\<lparr>m_status := completed, m_ended_at := Some now\<rparr> \<and> wdb w' = end_commit now i room w" .
  have c: "\<not> must_cancel w' \<and> active w' i = None"
    using assms by (auto simp: end_match_def Let_def register_eq split: sum.splits prod.splits if_splits)
  have "\<exists>room. end_check (wdb w') i h = Inr (m, room)" if "m_status match \<noteq> completed"
  proof -
    have "get_match (wdb w') i = Some m" "m_room_id m = m_room_id match"
      using alt that ck by (auto simp: end_commit_def get_match_def [of "register_event _ _ _ _ _ _ _"] get_match_ended [unfolded get_match_def]
          end_check_Inr get_match_def)
    moreover obtain room1 where "get_room (wdb w') (m_room_id match) = Some room1" "rm_host_id room1 = rm_host_id room"
      using alt that ck get_room_ended [of "wdb w" "m_room_id match" room now i room]
      by (auto simp: end_commit_def end_check_Inr get_room_def)
    ultimately show ?thesis using ck by (auto simp: end_check_Inr)
  qed
  with c alt ck show ?thesis by auto
qed

text \<open>
  Ending a match twice is ending it once: a second \<^verbatim>\<open>end_match\<close> with the same arguments returns
  the completed match and changes neither the database nor Redis, and broadcasts nothing.
\<close>
theorem end_match_idempotent:
  assumes "end_match now now2 i h w = (Inr m, w')"
  shows "fst (end_match now3 now4 i h w') = Inr m \<and> wdb (snd (end_match now3 now4 i h w')) = wdb w' \<and>
    wredis (snd (end_match now3 now4 i h w')) = wredis w' \<and> bus (snd (end_match now3 now4 i h w')) = bus w' \<and>
    m_status m = completed"
proof -
  from end_match_leaves [OF assms] obtain room where "end_check (wdb w') i h = Inr (m, room)"
    and c: "\<not> must_cancel w'" "active w' i = None" "m_status m = completed" by blast
  from end_match_completed [OF c(1,2) this(1) c(3)] c(3) show ?thesis by simp
qed

theorem end_match_idempotent_witness:
  "\<exists>m w'. end_match 50 60 5 (Some 1) demo_running = (Inr m, w') \<and>
     fst (end_match 70 80 5 (Some 1) w') = Inr m \<and> wdb (snd (end_match 70 80 5 (Some 1) w')) = wdb w'"
proof -
  have "\<exists>m w'. end_match 50 60 5 (Some 1) demo_running = (Inr m, w')" by (simp add: exec)
  then obtain m w' where e: "end_match 50 60 5 (Some 1) demo_running = (Inr m, w')" by blast
  from end_match_idempotent [OF e, of 70 80] e show ?thesis by blast
qed

section \<open>Pause and resume\<close>

lemma active_mq_Some:
  "active_mq d i = Some q \<Longrightarrow> q \<in> set (match_questions d) \<and> mq_match_id q = i \<and> mq_started_at q \<noteq> None \<and> mq_closed_at q = None"
proof -
  assume "active_mq d i = Some q"
  then obtain qs where "rev (sort_key mq_position (filter (\<lambda>q. mq_match_id q = i \<and> mq_started_at q \<noteq> None \<and> mq_closed_at q = None)
      (match_questions d))) = q # qs"
    by (auto simp: active_mq_def split: list.splits)
  from arg_cong [OF this, of set] have "q \<in> set (filter (\<lambda>q. mq_match_id q = i \<and> mq_started_at q \<noteq> None \<and> mq_closed_at q = None)
      (match_questions d))" by (simp only: set_rev set_sort) simp
  then show ?thesis by auto
qed

definition mq_unique :: "db \<Rightarrow> bool" where
  "mq_unique d \<longleftrightarrow> unique_by mq_id (match_questions d) \<and> unique_by (\<lambda>q. (mq_match_id q, mq_position q)) (match_questions d)"

lemma get_mq_unique:
  assumes "mq_unique d" "q \<in> set (match_questions d)"
  shows "get_mq d (mq_match_id q) (mq_position q) = Some q"
  using find_unique [of "\<lambda>q. (mq_match_id q, mq_position q)" "match_questions d" q] assms
  by (simp add: mq_unique_def get_mq_def)

lemma set_statuses_reads:
  "get_room_by_code (set_statuses i j st d) c =
     map_option (\<lambda>r. if rm_id r = j then r\<lparr>rm_status := st\<rparr> else r) (get_room_by_code d c)"
  "get_match_by_room (set_statuses i j st d) k =
     map_option (\<lambda>m. if m_id m = i then m\<lparr>m_status := st\<rparr> else m) (get_match_by_room d k)"
  by (simp_all add: set_statuses_def get_room_by_code_def get_match_by_room_def find_upd_where)

lemma pause_match_Inr:
  assumes "pause_match now h c w = (Inr m, w')"
  obtains room match where "control_check (wdb w) h c running ''no running match'' = Inr (room, match)"
    "m = match\<lparr>m_status := paused\<rparr>" "wdb w' = set_statuses (m_id match) (rm_id room) paused (wdb w)"
    "pauses (wredis w') (m_id match) = Some ((map_option mq_position (active_mq (wdb w) (m_id match)),
        remaining_ms_of (active_mq (wdb w) (m_id match)) now), now + PAUSE_TTL_SECONDS * 1000000)"
  using assms that by (auto simp: pause_match_def Let_def split: sum.splits)

lemma resume_match_Inr:
  assumes "resume_match now now2 h c w = (Inr m, w')"
  obtains room match where "control_check (wdb w) h c paused ''match is not paused'' = Inr (room, match)"
    "m = match\<lparr>m_status := running\<rparr>"
    "wdb w' = set_statuses (m_id match) (rm_id room) running
          (resume_deadline (wdb w) (m_id match) (fst (pause_state (wredis w) now (m_id match)))
            (snd (pause_state (wredis w) now (m_id match))) now)"
  using assms resume_match_db [of now now2 h c w] that
  by (auto simp: resume_match_def Let_def split_beta split: sum.splits)

text \<open>
  C25: a pause keeps the answer time.  When the host pauses at \<open>t1\<close> while question \<open>q\<close> is open with
  deadline \<open>dl\<close> still ahead, and resumes at \<open>t2\<close> before the pause record expires, the question's new
  deadline gives the players what was left at the pause, to the millisecond (never more, and less by
  at most one millisecond, although the code computes it in floating point).
\<close>
theorem pause_resume_keeps_time:
  assumes "mq_unique (wdb w)" "pause_match t1 h c w = (Inr m, w1)"
    and "active_mq (wdb w) (m_id m) = Some q" "mq_deadline_at q = Some dl" "t1 \<le> dl" "dl - t1 \<le> 10 ^ 12"
    and "wdb w2 = wdb w1" "wredis w2 = wredis w1" "t2 < t1 + PAUSE_TTL_SECONDS * 1000000"
    and "resume_match t2 t3 h c w2 = (Inr m', w3)"
  shows "\<exists>q' dl'. get_mq (wdb w3) (m_id m) (mq_position q) = Some q' \<and> mq_id q' = mq_id q \<and>
     mq_deadline_at q' = Some dl' \<and> dl' - t2 \<le> dl - t1 \<and> dl - t1 - 1000 \<le> dl' - t2"
proof -
  obtain room match where p: "control_check (wdb w) h c running ''no running match'' = Inr (room, match)"
    and m: "m = match\<lparr>m_status := paused\<rparr>" and d1: "wdb w1 = set_statuses (m_id match) (rm_id room) paused (wdb w)"
    and ps: "pauses (wredis w1) (m_id match) = Some ((map_option mq_position (active_mq (wdb w) (m_id match)),
        remaining_ms_of (active_mq (wdb w) (m_id match)) t1), t1 + PAUSE_TTL_SECONDS * 1000000)"
    using pause_match_Inr [OF assms(2)] .
  obtain room' match' where p': "control_check (wdb w2) h c paused ''match is not paused'' = Inr (room', match')"
    and d3: "wdb w3 = set_statuses (m_id match') (rm_id room') running
          (resume_deadline (wdb w2) (m_id match') (fst (pause_state (wredis w2) t2 (m_id match')))
            (snd (pause_state (wredis w2) t2 (m_id match'))) t2)"
    using resume_match_Inr [OF assms(10)] .
  have mi: "m_id m = m_id match" by (simp add: m)
  have same: "m_id match' = m_id match"
  proof -
    have g: "get_room_by_code (wdb w) c = Some room" "get_match_by_room (wdb w) (rm_id room) = Some match"
      using p by (simp_all add: control_check_Inr)
    have g': "get_room_by_code (wdb w1) c = Some room'" "get_match_by_room (wdb w1) (rm_id room') = Some match'"
      using p' by (simp_all add: control_check_Inr assms(7))
    have "rm_id room' = rm_id room" using g(1) g'(1) by (auto simp: d1 set_statuses_reads)
    with g(2) g'(2) have "Some match' = Some (match\<lparr>m_status := paused\<rparr>)" by (simp add: d1 set_statuses_reads)
    then show ?thesis by simp
  qed
  define r where "r = py_int (total_ms (dl - t1))"
  have r: "0 \<le> r" "dl - t1 - 1000 \<le> 1000 * r" "1000 * r \<le> dl - t1"
    using py_int_total_ms [of "dl - t1"] assms(5,6) by (simp_all add: r_def)
  have st: "pause_state (wredis w2) t2 (m_id match) = (Some (mq_position q), r)"
    using ps assms(3,4,8,9) r(1) by (simp add: pause_state_def mi remaining_ms_of_def r_def [symmetric])
  have q: "q \<in> set (match_questions (wdb w))" "mq_match_id q = m_id match" "mq_closed_at q = None"
    using active_mq_Some [OF assms(3)] by (auto simp: mi)
  have g2: "get_mq (wdb w2) (m_id match) (mq_position q) = Some q"
    using get_mq_unique [OF assms(1) q(1)] q(2) by (simp add: get_mq_def assms(7) d1)
  have "match_questions (wdb w3) = upd_where (\<lambda>x. mq_id x = mq_id q) (\<lambda>x. x\<lparr>mq_deadline_at := Some (t2 + r * 1000)\<rparr>) (match_questions (wdb w2))"
    using d3 by (simp add: same st resume_deadline_def g2 q(3) r(1))
  then have "get_mq (wdb w3) (m_id match) (mq_position q) = Some (q\<lparr>mq_deadline_at := Some (t2 + r * 1000)\<rparr>)"
    using g2 by (simp add: get_mq_def find_upd_where)
  then show ?thesis using r by (auto simp: mi)
qed

theorem pause_resume_keeps_time_witness:
  "\<exists>m w1 m' w3 q' dl'. pause_match 4000000 1 ''ROOM'' demo_running = (Inr m, w1) \<and>
     resume_match 9000000 9000000 1 ''ROOM'' w1 = (Inr m', w3) \<and> get_mq (wdb w3) 5 1 = Some q' \<and>
     mq_deadline_at q' = Some dl' \<and> dl' - 9000000 \<le> 6000000 \<and> 5999000 \<le> dl' - 9000000"
proof -
  define w1 where "w1 = snd (pause_match 4000000 1 ''ROOM'' demo_running)"
  obtain m where p: "pause_match 4000000 1 ''ROOM'' demo_running = (Inr m, w1)" and m: "m_id m = 5"
    by (simp add: w1_def exec)
  have "\<exists>m' w3. resume_match 9000000 9000000 1 ''ROOM'' w1 = (Inr m', w3)"
    by (simp add: w1_def exec split_beta)
  then obtain m' w3 where r: "resume_match 9000000 9000000 1 ''ROOM'' w1 = (Inr m', w3)" by blast
  let ?q = "\<lparr>mq_id = 51, mq_match_id = 5, mq_question_id = 3, mq_position = 1, mq_started_at = Some 0,
          mq_deadline_at = Some 10000000, mq_closed_at = None\<rparr>"
  have "\<exists>q' dl'. get_mq (wdb w3) (m_id m) (mq_position ?q) = Some q' \<and> mq_id q' = mq_id ?q \<and>
     mq_deadline_at q' = Some dl' \<and> dl' - 9000000 \<le> 10000000 - 4000000 \<and> 10000000 - 4000000 - 1000 \<le> dl' - 9000000"
    by (rule pause_resume_keeps_time [OF _ p _ _ _ _ refl refl _ r])
      (simp_all add: m PAUSE_TTL_SECONDS_def mq_unique_def exec)
  with p r m show ?thesis by auto
qed

section \<open>Timers\<close>

fun is_timer :: "task \<Rightarrow> bool" where
  "is_timer (CloseQuestionAfter _ _ _) = True"
| "is_timer (GapThenArm _ _ _) = True"
| "is_timer _ = False"

text \<open>
  Every live timer other than the running task is the one the scheduler has registered for its match,
  and the registry never points into another match's tasks.
\<close>

definition task_ok :: "world \<Rightarrow> nat \<Rightarrow> task \<Rightarrow> bool" where
  "task_ok w tid t \<longleftrightarrow> tid < next_task w \<and>
     (is_timer t \<and> running_task w \<noteq> Some tid \<longrightarrow> active w (task_match t) = Some tid) \<and>
     (\<forall>i. active w i = Some tid \<longrightarrow> task_match t = i)"

definition timers_ok :: "world \<Rightarrow> bool" where
  "timers_ok w \<longleftrightarrow> (\<forall>tid t. (tid, t) \<in> set (tasks w) \<longrightarrow> task_ok w tid t) \<and>
     (\<forall>i tid. active w i = Some tid \<longrightarrow> tid < next_task w)"

lemma timers_ok_cong:
  assumes "tasks w' = tasks w" "next_task w' = next_task w" "running_task w' = running_task w" "active w' = active w"
  shows "timers_ok w' = timers_ok w"
  using assms by (simp add: timers_ok_def task_ok_def)

lemma timers_ok_create:
  assumes ok: "timers_ok w" and "\<not> is_timer t"
  shows "timers_ok (snd (create_task t w))"
proof -
  have reg: "active w i = Some tid \<Longrightarrow> tid < next_task w" for i tid using ok by (simp add: timers_ok_def)
  have "task_ok (snd (create_task t w)) tid t'" if "(tid, t') \<in> set (tasks (snd (create_task t w)))" for tid t'
  proof (cases "(tid, t') \<in> set (tasks w)")
    case True
    with ok have "task_ok w tid t'" by (simp add: timers_ok_def)
    then show ?thesis by (simp add: task_ok_def)
  next
    case False
    with that have "tid = next_task w" "t' = t" by auto
    with assms(2) reg show ?thesis by (fastforce simp: task_ok_def)
  qed
  then show ?thesis using reg by (auto simp: timers_ok_def simp del: create_task_frame(10) intro: less_SucI)
qed

lemma cancel_tasks_mem:
  "(tid, t) \<in> set (tasks (snd (cancel i w))) \<Longrightarrow>
     (tid, t) \<in> set (tasks w) \<and> (active w i = Some tid \<longrightarrow> running_task w = Some tid)"
  by (auto simp: cancel_tasks split: option.splits if_splits)

lemma set_active_tasks_mem:
  "(tid, t) \<in> set (tasks (set_active i n w)) \<Longrightarrow>
     (tid, t) \<in> set (tasks w) \<and> (active w i = Some tid \<longrightarrow> running_task w = Some tid)"
  by (auto simp: set_active_tasks split: option.splits if_splits)

lemma timers_ok_cancel:
  assumes ok: "timers_ok w"
  shows "timers_ok (snd (cancel i w))"
proof -
  have "task_ok (snd (cancel i w)) tid t" if "(tid, t) \<in> set (tasks (snd (cancel i w)))" for tid t
  proof -
    have m: "(tid, t) \<in> set (tasks w)" "active w i = Some tid \<longrightarrow> running_task w = Some tid"
      using cancel_tasks_mem [OF that] by auto
    then have "task_ok w tid t" using ok by (simp add: timers_ok_def)
    then show ?thesis using m(2) by (auto simp: task_ok_def)
  qed
  then show ?thesis using ok by (auto simp: timers_ok_def)
qed

lemma timers_ok_activate:
  assumes ok: "timers_ok w" and t: "task_match t = i"
  shows "timers_ok (set_active i (next_task w) (snd (create_task t w)))"
proof -
  let ?w = "set_active i (next_task w) (snd (create_task t w))"
  have reg: "active w j = Some tid \<Longrightarrow> tid < next_task w" for j tid using ok by (simp add: timers_ok_def)
  have "task_ok ?w tid t'" if "(tid, t') \<in> set (tasks ?w)" for tid t'
  proof (cases "tid = next_task w \<and> t' = t")
    case True
    then show ?thesis using t reg by (fastforce simp: task_ok_def)
  next
    case False
    have m: "(tid, t') \<in> set (tasks w)" "active w i = Some tid \<longrightarrow> running_task w = Some tid"
      using set_active_tasks_mem [OF that] False by auto
    then have "task_ok w tid t'" using ok by (simp add: timers_ok_def)
    then show ?thesis using m(2) by (auto simp: task_ok_def)
  qed
  then show ?thesis using reg by (auto simp: timers_ok_def intro: less_SucI)
qed

text \<open>Each call keeps the invariant.\<close>

lemma start_match_timers:
  assumes "timers_ok w"
  shows "timers_ok (snd (start_match now now2 h c w))"
proof (cases "start_match now now2 h c w")
  case (Pair res w')
  show ?thesis
  proof (cases res)
    case (Inl e)
    then obtain n where "w' = w\<lparr>id_next := n\<rparr>" using start_match_Inl Pair by blast
    then show ?thesis using assms timers_ok_cong [of w' w] by (simp add: Pair)
  next
    case (Inr m)
    from start_match_Inr [OF Pair [unfolded Inr]] obtain room mqs w0 where
      w': "w' = start_post now2 m room (length (mqs :: MatchQuestion list)) w0" "tasks w0 = tasks w" "next_task w0 = next_task w"
        "active w0 = active w" "running_task w0 = running_task w" by metis
    have "timers_ok w' = timers_ok (snd (create_task (ArmQuestion (m_id m) 1) w))"
      by (rule timers_ok_cong) (simp_all add: w' start_post_def Let_def)
    with assms show ?thesis by (simp add: Pair timers_ok_create)
  qed
qed

lemma end_match_timers:
  assumes "timers_ok w"
  shows "timers_ok (snd (end_match now now2 i h w))"
proof -
  have "timers_ok (snd (end_match now now2 i h w)) = timers_ok (snd (cancel i w))"
    by (rule timers_ok_cong)
      (simp_all add: end_match_def Let_def register_eq split: sum.splits prod.splits)
  with timers_ok_cancel [OF assms] show ?thesis by simp
qed

lemma arm_question_timers:
  assumes "timers_ok w"
  shows "timers_ok (arm_question now now2 now3 i p w)"
proof (cases "arm_check (wdb w) i p")
  case None
  then have "arm_question now now2 now3 i p w = runtime_state_for i w" by (simp add: arm_question_def Let_def)
  with assms show ?thesis using timers_ok_cong [of "runtime_state_for i w" w] by simp
next
  case (Some x)
  obtain mq q room where x: "x = (mq, q, room)" by (cases x)
  obtain w1 t where "arm_question now now2 now3 i p w = set_active i (next_task w1) (snd (create_task t w1))" "task_match t = i"
    "tasks w1 = tasks w" "next_task w1 = next_task w" "running_task w1 = running_task w" "active w1 = active w"
    by (simp add: arm_question_def Let_def Some x register_eq split_beta)
  then show ?thesis using timers_ok_activate [of w1 t i] timers_ok_cong [of w1 w] assms by simp
qed

lemma close_question_timers:
  assumes "timers_ok w"
  shows "timers_ok (snd (close_question k now now2 i p w))"
proof (cases "close_check (wdb w) i p")
  case None
  with assms show ?thesis using timers_ok_cong [of "runtime_state_for i w" w] by (simp add: close_question_snd)
next
  case (Some x)
  obtain mq room where x: "x = (mq, room)" by (cases x)
  let ?w1 = "close_commit now i p mq room (runtime_state_for i w)"
  have "timers_ok ?w1" using assms timers_ok_cong [of ?w1 w] by simp
  with timers_ok_activate [of ?w1 "GapThenArm i (p + 1) (now2 + max 0 k * 1000000)" i] show ?thesis
    by (simp add: close_question_snd Some x Let_def end_match_timers)
qed

lemma pause_match_timers:
  assumes "timers_ok w"
  shows "timers_ok (snd (pause_match now h c w))"
proof (cases "control_check (wdb w) h c running ''no running match''")
  case (Inr x)
  obtain room match where x: "x = (room, match)" by (cases x)
  have "timers_ok (snd (pause_match now h c w)) = timers_ok (snd (cancel (m_id match) (w\<lparr>wdb := set_statuses (m_id match) (rm_id room) paused (wdb w)\<rparr>)))"
    by (rule timers_ok_cong) (simp_all add: pause_match_def Let_def Inr x)
  with timers_ok_cancel timers_ok_cong [of "w\<lparr>wdb := set_statuses (m_id match) (rm_id room) paused (wdb w)\<rparr>" w] assms
  show ?thesis by simp
qed (simp add: pause_match_def Let_def assms)

lemma arm_next_timers: "timers_ok w \<Longrightarrow> timers_ok (arm_next i w)"
  by (simp add: arm_next_def timers_ok_create split: option.splits)

lemma resume_match_timers:
  assumes "timers_ok w"
  shows "timers_ok (snd (resume_match now now2 h c w))"
proof (cases "control_check (wdb w) h c paused ''match is not paused''")
  case (Inr x)
  obtain room match where x: "x = (room, match)" by (cases x)
  have "timers_ok (w\<lparr>wdb := d\<rparr>)" for d using assms timers_ok_cong [of "w\<lparr>wdb := d\<rparr>" w] by simp
  note arm = arm_next_timers [OF this]
    timers_ok_activate [OF this, of "CloseQuestionAfter (m_id match) _ _" "m_id match", simplified]
  then show ?thesis
    by (auto simp: resume_match_def Let_def Inr x split_beta split: option.splits)
qed (simp add: resume_match_def Let_def assms)

lemma recover_match_timers:
  assumes "timers_ok (snd x)"
  shows "timers_ok (snd (recover_match now m x))"
proof -
  have ok: "timers_ok (runtime_state_for (m_id m) (snd x))"
    using assms timers_ok_cong [of "runtime_state_for (m_id m) (snd x)" "snd x"] by simp
  note act = timers_ok_activate [OF ok, of "CloseQuestionAfter (m_id m) _ _" "m_id m", simplified]
  show ?thesis using ok act
    by (cases x) (auto simp: recover_match_def Let_def split_beta timers_ok_create split: option.splits)
qed

lemma recover_timers:
  assumes "timers_ok w"
  shows "timers_ok (snd (recover_running_matches now w))"
proof -
  have "timers_ok (snd x) \<Longrightarrow> timers_ok (snd (fold (recover_match now) ms x))" for ms x
    by (induction ms arbitrary: x) (simp_all add: recover_match_timers)
  with assms show ?thesis by (simp add: recover_running_matches_def)
qed

lemma running_task_frames [simp]:
  "running_task (arm_question now now2 now3 i p w) = running_task w"
  "running_task (snd (end_match now now2 i h w)) = running_task w"
  "running_task (snd (close_question k now now2 i p w)) = running_task w"
proof -
  show e: "running_task (snd (end_match now now2 i h w)) = running_task w" for now now2 i h w
    by (simp add: end_match_def Let_def register_eq split: sum.splits prod.splits)
  show "running_task (arm_question now now2 now3 i p w) = running_task w"
    by (simp add: arm_question_def Let_def register_eq split_beta split: option.splits)
  show "running_task (snd (close_question k now now2 i p w)) = running_task w"
    by (simp add: close_question_snd Let_def e split: option.splits)
qed

lemma task_done_timers:
  assumes "timers_ok w" "running_task w = Some tid"
  shows "timers_ok (w\<lparr>running_task := None, must_cancel := False, tasks := filter (\<lambda>(i, _). i \<noteq> tid) (tasks w)\<rparr>)"
  using assms by (auto simp: timers_ok_def task_ok_def)

lemma run_task_timers:
  assumes ok: "timers_ok w" and idle: "running_task w = None"
  shows "timers_ok (run_task k now now2 now3 tid w)"
proof (cases "map_of (tasks w) tid")
  case (Some t)
  define w0 where "w0 = w\<lparr>running_task := Some tid, must_cancel := False\<rparr>"
  define w1 where "w1 = task_body k now now2 now3 t w0"
  have "timers_ok w0" using ok idle by (simp add: timers_ok_def task_ok_def w0_def)
  then have "timers_ok w1"
    by (simp add: w1_def task_body_def arm_question_timers close_question_timers split: task.splits)
  moreover have "running_task w1 = Some tid" by (simp add: w1_def w0_def task_body_def split: task.splits)
  ultimately show ?thesis
    by (simp add: run_task_def Some Let_def task_done_timers flip: w0_def w1_def)
qed (simp add: run_task_def ok)

lemma idle_frames:
  "running_task (run_task k now now2 now3 tid w) = (if map_of (tasks w) tid = None then running_task w else None)"
  by (simp add: run_task_def Let_def split: option.splits)

lemma timers_ok_unique:
  assumes "timers_ok w" "running_task w = None" "(a, s) \<in> set (tasks w)" "(b, t) \<in> set (tasks w)"
    "is_timer s" "is_timer t" "task_match s = task_match t"
  shows "a = b"
proof -
  have "active w (task_match s) = Some a" "active w (task_match t) = Some b"
    using assms(1-6) by (simp_all add: timers_ok_def task_ok_def)
  with assms(7) show ?thesis by simp
qed

section \<open>The last question\<close>

text \<open>
  C27: the automatic finish does not happen.  The close task of the last question is itself the task
  the scheduler has registered, so \<^verbatim>\<open>end_match\<close>, called from inside it, cancels the running task and
  is aborted at its first database access: the question is closed, but every match keeps its status,
  no final score is written, nothing is announced as finished, and the match has no registered timer
  left.
\<close>
theorem auto_finish_cancels_itself:
  assumes "map_of (tasks w) tid = Some (CloseQuestionAfter i p due)" "active w i = Some tid"
    and "close_check (wdb w) i p = Some (mq, room)" "int (length (mqs_of (wdb w) i)) \<le> p"
  shows "let w' = run_task k now now2 now3 tid w in
    matches (wdb w') = matches (wdb w) \<and> rooms (wdb w') = rooms (wdb w) \<and> final_scores (wdb w') = final_scores (wdb w) \<and>
    match_questions (wdb w') = upd_where (\<lambda>q. mq_id q = mq_id mq) (\<lambda>q. q\<lparr>mq_closed_at := Some now\<rparr>) (match_questions (wdb w)) \<and>
    active w' i = None \<and> tasks w' = filter (\<lambda>(j, _). j \<noteq> tid) (tasks w)"
proof -
  define w0 where "w0 = w\<lparr>running_task := Some tid, must_cancel := False\<rparr>"
  define w1 where "w1 = close_commit now i p mq room (runtime_state_for i w0)"
  obtain ob e where d1: "wdb w1 = register_event ob EVT_QUESTION_CLOSED AGG_MATCH i e now
     (set_mq (mq_id mq) (\<lambda>q. q\<lparr>mq_closed_at := Some now\<rparr>) (wdb w))"
    using close_commit_db [of now i p mq room "runtime_state_for i w0"] by (auto simp: w1_def w0_def)
  have len: "length (mqs_of (wdb w1) i) = length (mqs_of (wdb w) i)"
    by (simp add: mqs_of_def d1 filter_upd_where)
  have c: "must_cancel (snd (cancel i w1))"
    using assms(2) by (simp add: cancel_must_cancel w1_def w0_def)
  have e: "snd (end_match now2 now2 i None w1) = snd (cancel i w1)" by (simp add: end_match_def Let_def c)
  have wd: "wdb w0 = wdb w" by (simp add: w0_def)
  have body: "task_body k now now2 now3 (CloseQuestionAfter i p due) w0 = snd (cancel i w1)"
    using assms(3,4) len by (simp add: task_body_def close_question_snd wd Let_def e flip: w1_def)
  have t1: "tasks (snd (cancel i w1)) = tasks w"
    using assms(2) by (simp add: cancel_tasks w1_def w0_def)
  show ?thesis by (simp add: run_task_def assms(1) Let_def body d1 t1 flip: w0_def)
qed

definition demo_last :: world where
  "demo_last = demo_running\<lparr>wdb := demo_running_db\<lparr>match_questions := [\<lparr>mq_id = 51, mq_match_id = 5, mq_question_id = 3, mq_position = 1,
     mq_started_at = Some 0, mq_deadline_at = Some 10000000, mq_closed_at = None\<rparr>]\<rparr>\<rparr>"

theorem auto_finish_cancels_itself_witness:
  "matches (wdb (run_task 3 10000000 10000000 10000000 1 demo_last)) = matches (wdb demo_last) \<and>
   map m_status (matches (wdb demo_last)) = [running] \<and>
   tasks (run_task 3 10000000 10000000 10000000 1 demo_last) = []"
proof -
  have a: "map_of (tasks demo_last) 1 = Some (CloseQuestionAfter 5 1 10000000)" "active demo_last 5 = Some 1"
    by (simp_all add: demo_last_def exec)
  have "\<exists>mq room. close_check (wdb demo_last) 5 1 = Some (mq, room)" by (simp add: demo_last_def exec)
  then obtain mq room where c: "close_check (wdb demo_last) 5 1 = Some (mq, room)" by blast
  have "int (length (mqs_of (wdb demo_last) 5)) \<le> 1" by (simp add: demo_last_def exec)
  from auto_finish_cancels_itself [OF a c this, of 3 10000000 10000000 10000000]
  show ?thesis by (simp add: Let_def) (simp add: demo_last_def exec)
qed

section \<open>Recovery\<close>

lemma next_unstarted_None:
  "next_unstarted d i = None \<longleftrightarrow> (\<forall>q \<in> set (match_questions d). mq_match_id q = i \<longrightarrow> mq_started_at q \<noteq> None)"
proof -
  let ?f = "filter (\<lambda>q. mq_match_id q = i \<and> mq_started_at q = None) (match_questions d)"
  have "next_unstarted d i = None \<longleftrightarrow> set (sort_key mq_position ?f) = {}"
    unfolding next_unstarted_def by (cases "sort_key mq_position ?f") auto
  then show ?thesis by (auto simp: filter_empty_conv)
qed

lemma active_mq_None:
  "active_mq d i = None \<longleftrightarrow> (\<forall>q \<in> set (match_questions d). mq_match_id q = i \<and> mq_started_at q \<noteq> None \<longrightarrow> mq_closed_at q \<noteq> None)"
proof -
  let ?f = "filter (\<lambda>q. mq_match_id q = i \<and> mq_started_at q \<noteq> None \<and> mq_closed_at q = None) (match_questions d)"
  have "active_mq d i = None \<longleftrightarrow> set (rev (sort_key mq_position ?f)) = {}"
    unfolding active_mq_def by (cases "rev (sort_key mq_position ?f)") auto
  then show ?thesis by (auto simp: filter_empty_conv)
qed

text \<open>What recovery does for one match depends on that match alone, and keeps other matches' tasks.\<close>

definition recoverable :: "db \<Rightarrow> int \<Rightarrow> bool" where
  "recoverable d i \<longleftrightarrow> (case active_mq d i of None \<Rightarrow> next_unstarted d i \<noteq> None | Some q \<Rightarrow> mq_deadline_at q \<noteq> None)"

definition live_for :: "world \<Rightarrow> int \<Rightarrow> bool" where
  "live_for w i \<longleftrightarrow> (\<exists>(tid, t) \<in> set (tasks w). task_match t = i)"

lemma live_for_create: "live_for (snd (create_task t w)) j \<longleftrightarrow> live_for w j \<or> j = task_match t"
  by (auto simp: live_for_def)

lemma live_for_activate:
  assumes ok: "timers_ok w" and t: "task_match t = i"
  shows "live_for (set_active i (next_task w) (snd (create_task t w))) j \<longleftrightarrow> live_for w j \<or> j = i"
proof -
  let ?w = "set_active i (next_task w) (snd (create_task t w))"
  have new: "(next_task w, t) \<in> set (tasks ?w)"
    using ok by (auto simp: set_active_tasks timers_ok_def split: option.splits)
  have "(tid, t') \<in> set (tasks ?w)" if "(tid, t') \<in> set (tasks w)" "task_match t' \<noteq> i" for tid t'
  proof -
    have "task_ok w tid t'" using ok that(1) by (simp add: timers_ok_def)
    with that(2) have "active w i \<noteq> Some tid" by (auto simp: task_ok_def)
    then show ?thesis using that(1) by (auto simp: set_active_tasks split: option.splits)
  qed
  moreover have "(tid, t') \<in> set (tasks ?w) \<Longrightarrow> (tid, t') \<in> set (tasks w) \<or> t' = t" for tid t'
    using set_active_tasks_mem [of tid t' i "next_task w" "snd (create_task t w)"] by auto
  ultimately show ?thesis using new t unfolding live_for_def by (cases "j = i") fastforce+
qed

lemma recover_match_live:
  assumes ok: "timers_ok (snd x)"
  shows "live_for (snd (recover_match now m x)) j \<longleftrightarrow> live_for (snd x) j \<or> j = m_id m \<and> recoverable (wdb (snd x)) j"
proof -
  obtain n w where x: "x = (n, w)" by (cases x)
  let ?w = "runtime_state_for (m_id m) w"
  have ok': "timers_ok ?w" using ok timers_ok_cong [of ?w w] by (simp add: x)
  have l: "live_for ?w j \<longleftrightarrow> live_for w j" by (simp add: live_for_def)
  show ?thesis
    using live_for_activate [OF ok', of "CloseQuestionAfter (m_id m) _ _" "m_id m" j] l
    by (auto simp: x recover_match_def Let_def split_beta recoverable_def live_for_create split: option.splits)
qed

lemma recover_live:
  assumes "timers_ok w"
  shows "live_for (snd (recover_running_matches now w)) j \<longleftrightarrow>
     live_for w j \<or> (\<exists>m \<in> set (matches (wdb w)). m_status m = running \<and> m_id m = j) \<and> recoverable (wdb w) j"
proof -
  have "timers_ok (snd x) \<Longrightarrow> live_for (snd (fold (recover_match now) ms x)) j \<longleftrightarrow>
      live_for (snd x) j \<or> (\<exists>m \<in> set ms. m_id m = j) \<and> recoverable (wdb (snd x)) j" for ms x
    by (induction ms arbitrary: x) (auto simp: recover_match_timers recover_match_live)
  from this [of "(0, w)"] assms show ?thesis by (auto simp: recover_running_matches_def)
qed



text \<open>
  Resuming a match that was paused after the deadline of its open question (nothing left on the
  clock) does not close that question: no timer for it is created, it stays open with a deadline that
  is already over, and when no further question remains the match is running with no new task at all.
\<close>
theorem resume_with_no_time_left:
  assumes "resume_match now now2 h c w = (Inr m, w')"
    and "pauses (wredis w) (m_id m) = Some ((Some p, 0), expires)" "now < expires"
    and "mq_unique (wdb w)" "q \<in> set (match_questions (wdb w))" "mq_match_id q = m_id m" "mq_position q = p" "mq_closed_at q = None"
  shows "get_mq (wdb w') (m_id m) p = Some (q\<lparr>mq_deadline_at := Some now\<rparr>) \<and>
     (\<forall>(tid, t) \<in> set (tasks w') - set (tasks w). \<exists>p'. t = ArmQuestion (m_id m) p') \<and>
     ((\<forall>x \<in> set (match_questions (wdb w)). mq_match_id x = m_id m \<longrightarrow> mq_started_at x \<noteq> None) \<longrightarrow> tasks w' = tasks w)"
proof -
  obtain room match where ck: "control_check (wdb w) h c paused ''match is not paused'' = Inr (room, match)"
    and m: "m = match\<lparr>m_status := running\<rparr>" using resume_match_Inr [OF assms(1)] .
  have st: "pause_state (wredis w) now (m_id match) = (Some p, 0)"
    using assms(2,3) by (simp add: pause_state_def m)
  have g: "get_mq (wdb w) (m_id match) p = Some q"
    using get_mq_unique [OF assms(4,5)] assms(6,7) by (simp add: m)
  define d where "d = set_statuses (m_id match) (rm_id room) running
     (set_mq (mq_id q) (\<lambda>x. x\<lparr>mq_deadline_at := Some now\<rparr>) (wdb w))"
  have w': "w' = arm_next (m_id match) (w\<lparr>wdb := d\<rparr>)"
    using assms(1) by (simp add: resume_match_def Let_def ck st resume_deadline_def g assms(8) d_def)
  have mqs: "match_questions d = upd_where (\<lambda>x. mq_id x = mq_id q) (\<lambda>x. x\<lparr>mq_deadline_at := Some now\<rparr>) (match_questions (wdb w))"
    by (simp add: d_def)
  then have "get_mq (wdb w') (m_id m) p = Some (q\<lparr>mq_deadline_at := Some now\<rparr>)"
    using g by (simp add: w' m get_mq_def find_upd_where)
  moreover have "\<forall>(tid, t) \<in> set (tasks w') - set (tasks w). \<exists>p'. t = ArmQuestion (m_id m) p'"
    by (auto simp: w' m arm_next_def split: option.splits)
  moreover have "tasks w' = tasks w"
    if "\<forall>x \<in> set (match_questions (wdb w)). mq_match_id x = m_id m \<longrightarrow> mq_started_at x \<noteq> None"
  proof -
    have "next_unstarted d (m_id match) = None"
      unfolding next_unstarted_None mqs using that by (auto simp: set_upd_where m)
    then show ?thesis by (simp add: w' arm_next_def)
  qed
  ultimately show ?thesis by blast
qed

definition demo_paused :: world where
  "demo_paused = snd (pause_match 10000000 1 ''ROOM'' demo_last)"

theorem resume_with_no_time_left_witness:
  "\<exists>m w' q. resume_match 20000000 20000000 1 ''ROOM'' demo_paused = (Inr m, w') \<and> m_id m = 5 \<and>
     get_mq (wdb w') 5 1 = Some q \<and> mq_closed_at q = None \<and> tasks w' = tasks demo_paused \<and> tasks w' = []"
proof -
  let ?q = "\<lparr>mq_id = 51, mq_match_id = 5, mq_question_id = 3, mq_position = 1,
     mq_started_at = Some 0, mq_deadline_at = Some 10000000, mq_closed_at = None\<rparr>"
  have "\<exists>m w'. resume_match 20000000 20000000 1 ''ROOM'' demo_paused = (Inr m, w') \<and> m_id m = 5"
    by (simp add: demo_paused_def demo_last_def exec split_beta)
  then obtain m w' where r: "resume_match 20000000 20000000 1 ''ROOM'' demo_paused = (Inr m, w')" and m: "m_id m = 5" by blast
  have p: "pauses (wredis demo_paused) (m_id m) = Some ((Some 1, 0), 10000000 + PAUSE_TTL_SECONDS * 1000000)"
    by (simp add: m demo_paused_def demo_last_def exec)
  have u: "mq_unique (wdb demo_paused)" "?q \<in> set (match_questions (wdb demo_paused))" "tasks demo_paused = []"
    by (simp_all add: mq_unique_def demo_paused_def demo_last_def exec)
  have s: "\<forall>x \<in> set (match_questions (wdb demo_paused)). mq_match_id x = m_id m \<longrightarrow> mq_started_at x \<noteq> None"
    by (simp add: demo_paused_def demo_last_def exec)
  have "get_mq (wdb w') (m_id m) 1 = Some (?q\<lparr>mq_deadline_at := Some 20000000\<rparr>) \<and> tasks w' = tasks demo_paused"
    using resume_with_no_time_left [OF r p _ u(1,2), of ] s by (simp add: m PAUSE_TTL_SECONDS_def)
  with r m u show ?thesis by auto
qed

end
