(* ===== verification/AnswerSubmit.thy ===== *)
theory AnswerSubmit
  imports MatchProperties
begin

text \<open>
  Answer submission and the leaderboard read of src/backend/app/services/match_service.py, and the
  per-question attempt limit of the endpoint (src/backend/app/api/v1/matches.py).  \<open>submit_tx\<close> is the
  database transaction, \<open>submit_post\<close> the hooks after its commit; \<open>submit_answer\<close> is the whole call,
  from the idempotency probe to the write of the idempotency cache.
\<close>

record answer_request =
  req_match_question_id :: int
  req_selected_option_ids :: "int list"

section \<open>Checks and score\<close>

definition get_mq_by_id :: "db \<Rightarrow> int \<Rightarrow> MatchQuestion option" where
  "get_mq_by_id d i = find (\<lambda>q. mq_id q = i) (match_questions d)"

definition deadline_check :: "Match \<Rightarrow> MatchQuestion \<Rightarrow> time \<Rightarrow> (time \<times> time) result" where
  "deadline_check match mq now =
     bind_r (guard (m_status match = running) (AuthError ''QUESTION_CLOSED'' 409 ''match not running'')) (\<lambda>_.
     bind_r (guard (mq_closed_at mq = None) (AuthError ''QUESTION_CLOSED'' 409 ''question closed'')) (\<lambda>_.
     bind_r (of_option (AuthError ''QUESTION_CLOSED'' 409 ''question not armed'') (mq_deadline_at mq)) (\<lambda>deadline_at.
     bind_r (of_option (AuthError ''QUESTION_CLOSED'' 409 ''question not armed'') (mq_started_at mq)) (\<lambda>started_at.
     bind_r (guard (now \<le> deadline_at + DEADLINE_GRACE_MS * 1000) (AuthError ''QUESTION_CLOSED'' 409 ''deadline passed'')) (\<lambda>_.
     Inr (started_at, deadline_at))))))"

definition find_participant :: "db \<Rightarrow> int \<Rightarrow> int \<Rightarrow> RoomParticipant option" where
  "find_participant d participant_id room_id =
     (case find (\<lambda>p. rp_id p = participant_id \<and> rp_room_id p = room_id) (room_participants d) of
        None \<Rightarrow> None | Some p \<Rightarrow> if rp_is_kicked p then None else Some p)"

definition question_options :: "db \<Rightarrow> int \<Rightarrow> AnswerOption list" where
  "question_options d question_id = filter (\<lambda>ao. ao_question_id ao = question_id) (answer_options d)"

record accepted_answer =
  aa_mq :: MatchQuestion
  aa_match :: Match
  aa_participant :: RoomParticipant
  aa_started_at :: time
  aa_deadline_at :: time

definition submit_check :: "db \<Rightarrow> time \<Rightarrow> int \<Rightarrow> int \<Rightarrow> answer_request \<Rightarrow> accepted_answer result" where
  "submit_check d now match_id participant_id payload =
     bind_r (of_option (AuthError ''VALIDATION_ERROR'' 422 ''match_question not found'')
       (get_mq_by_id d (req_match_question_id payload))) (\<lambda>mq.
     bind_r (guard (mq_match_id mq = match_id) (AuthError ''VALIDATION_ERROR'' 422 ''match_question not found'')) (\<lambda>_.
     bind_r (of_option (AuthError ''ROOM_NOT_FOUND'' 404 ''match not found'') (get_match d match_id)) (\<lambda>match.
     bind_r (deadline_check match mq now) (\<lambda>(started_at, deadline_at).
     bind_r (of_option (AuthError ''FORBIDDEN'' 403 (''participant not in this match'' @ [CHR 0x27] @ ''s room or is kicked''))
       (find_participant d participant_id (m_room_id match))) (\<lambda>participant.
     bind_r (guard (set (req_selected_option_ids payload) \<subseteq> ao_id ` set (question_options d (mq_question_id mq)))
       (AuthError ''VALIDATION_ERROR'' 422 ''selected_option_ids must belong to this question'')) (\<lambda>_.
     Inr \<lparr>aa_mq = mq, aa_match = match, aa_participant = participant, aa_started_at = started_at,
          aa_deadline_at = deadline_at\<rparr>))))))"

definition answer_correct :: "db \<Rightarrow> int \<Rightarrow> int list \<Rightarrow> bool" where
  "answer_correct d question_id selected =
     (let correct_set = ao_id ` set (filter ao_is_correct (question_options d question_id))
      in set selected = correct_set \<and> correct_set \<noteq> {})"

text \<open>
  \<^verbatim>\<open>str\<close> of a setting.  The score only asks whether the
  text is \<^verbatim>\<open>fixed\<close>, which the text of a number, a list or an object never is.
\<close>

fun setting_str :: "json \<Rightarrow> string" where
  "setting_str (JStr s) = s"
| "setting_str _ = ''(repr)''"

definition scoring_mode :: "Room option \<Rightarrow> string" where
  "scoring_mode room =
     (case room of None \<Rightarrow> SCORING_MODE_SPEED_BONUS
      | Some r \<Rightarrow>
        (case rm_settings r of
           JObj kvs \<Rightarrow> (let v = json_get (JObj kvs) ''scoring_mode''
                        in if truthy v then setting_str v else SCORING_MODE_SPEED_BONUS)
         | _ \<Rightarrow> SCORING_MODE_SPEED_BONUS))"

definition response_time_ms_of :: "time \<Rightarrow> time \<Rightarrow> int" where
  "response_time_ms_of started_at now = py_int (max 0 (total_ms (now - started_at)))"

definition make_submission ::
  "db \<Rightarrow> time \<Rightarrow> accepted_answer \<Rightarrow> answer_request \<Rightarrow> string \<Rightarrow> int \<Rightarrow> AnswerSubmission" where
  "make_submission d now a payload request_id sid =
     (let mq = aa_mq a;
          is_correct = answer_correct d (mq_question_id mq) (req_selected_option_ids payload);
          response_time_ms = response_time_ms_of (aa_started_at a) now;
          deadline_ms = py_int (total_ms (aa_deadline_at a - aa_started_at a));
          points = (case get_question d (mq_question_id mq) of None \<Rightarrow> 0 | Some q \<Rightarrow> q_points q);
          mode = scoring_mode (get_room d (m_room_id (aa_match a)))
      in \<lparr>as_id = sid, as_match_id = m_id (aa_match a), as_match_question_id = mq_id mq,
          as_participant_id = rp_id (aa_participant a),
          as_selected_option_ids = sort (remdups (req_selected_option_ids payload)), as_is_correct = is_correct,
          as_score_awarded = score points response_time_ms deadline_ms mode is_correct,
          as_response_time_ms = response_time_ms, as_request_id = request_id\<rparr>)"

section \<open>The transaction\<close>

definition subs_unique :: "AnswerSubmission list \<Rightarrow> bool" where
  "subs_unique ss \<longleftrightarrow> unique_by as_id ss \<and> unique_by as_request_id ss \<and>
     unique_by (\<lambda>s. (as_match_question_id s, as_participant_id s)) ss"

definition conflicts :: "AnswerSubmission \<Rightarrow> AnswerSubmission list \<Rightarrow> bool" where
  "conflicts s ss \<longleftrightarrow> as_id s \<in> as_id ` set ss \<or> as_request_id s \<in> as_request_id ` set ss \<or>
     (as_match_question_id s, as_participant_id s) \<in> (\<lambda>s. (as_match_question_id s, as_participant_id s)) ` set ss"

definition existing_submission :: "db \<Rightarrow> string \<Rightarrow> int \<Rightarrow> int \<Rightarrow> AnswerSubmission option" where
  "existing_submission d request_id match_question_id participant_id =
     (case find (\<lambda>s. as_request_id s = request_id) (answer_submissions d) of
        Some s \<Rightarrow> Some s
      | None \<Rightarrow> find (\<lambda>s. as_match_question_id s = match_question_id \<and> as_participant_id s = participant_id) (answer_submissions d))"

definition answer_submitted_event :: "Match \<Rightarrow> MatchQuestion \<Rightarrow> AnswerSubmission \<Rightarrow> time \<Rightarrow> json" where
  "answer_submitted_event match mq s now =
     JObj [(''submission_id'', JStr (int_str (as_id s))), (''match_id'', JStr (int_str (m_id match))),
           (''room_id'', JStr (int_str (m_room_id match))), (''match_question_id'', JStr (int_str (mq_id mq))),
           (''question_id'', JStr (int_str (mq_question_id mq))),
           (''participant_id'', JStr (int_str (as_participant_id s))), (''is_correct'', JBool (as_is_correct s)),
           (''score_awarded'', JInt (as_score_awarded s)), (''response_time_ms'', JInt (as_response_time_ms s)),
           (''submitted_at'', JTime now)]"

datatype submit_outcome = Duplicate AnswerSubmission | Inserted AnswerSubmission accepted_answer

definition submit_tx ::
  "time \<Rightarrow> int \<Rightarrow> int \<Rightarrow> answer_request \<Rightarrow> string \<Rightarrow> submit_outcome handler" where
  "submit_tx now match_id participant_id payload request_id w =
     (case submit_check (wdb w) now match_id participant_id payload of
        Inl e \<Rightarrow> (Inl e, w)
      | Inr a \<Rightarrow>
        let (sid, w) = fresh_id w;
            s = make_submission (wdb w) now a payload request_id sid
        in if conflicts s (answer_submissions (wdb w))
           then (case existing_submission (wdb w) request_id (mq_id (aa_mq a)) participant_id of
                   None \<Rightarrow> (Inl (AuthError ''ANSWER_ALREADY_SUBMITTED'' 409 ''duplicate but original not found''), w)
                 | Some existing \<Rightarrow> (Inr (Duplicate existing), w))
           else
             let d = (wdb w)\<lparr>answer_submissions := answer_submissions (wdb w) @ [s]\<rparr>;
                 (d, w) = register EVT_ANSWER_SUBMITTED AGG_ANSWER sid
                   (answer_submitted_event (aa_match a) (aa_mq a) s now) now d w
             in (Inr (Inserted s a), w\<lparr>wdb := d\<rparr>))"

section \<open>After the commit\<close>

definition response_of :: "AnswerSubmission \<Rightarrow> int option \<Rightarrow> answer_response" where
  "response_of s rank = \<lparr>submission_id = JInt (as_id s), accepted = True, resp_is_correct = as_is_correct s,
     resp_score_awarded = as_score_awarded s, resp_response_time_ms = as_response_time_ms s, leaderboard_rank = rank\<rparr>"

text \<open>The cached form carries the submission id as text.\<close>

definition cached_form :: "answer_response \<Rightarrow> answer_response" where
  "cached_form r = r\<lparr>submission_id := (case submission_id r of JInt i \<Rightarrow> JStr (int_str i) | j \<Rightarrow> j)\<rparr>"

definition entry_json :: "lb_entry \<Rightarrow> json" where
  "entry_json e = JObj [(''rank'', JInt (e_rank e)), (''participant_id'', JStr (e_participant_id e)),
     (''nickname'', JStr (e_nickname e)), (''score'', JInt (e_score e))]"

definition submit_post :: "AnswerSubmission \<Rightarrow> accepted_answer \<Rightarrow> world \<Rightarrow> int option \<times> world" where
  "submit_post s a w =
     (let match_id = as_match_id s; pid = as_participant_id s;
          r = zadd_total match_id pid (as_score_awarded s) (wredis w);
          r = snd (mark_answered match_id (mq_question_id (aa_mq a)) pid r);
          r = set_nicknames match_id [(pid, rp_nickname (aa_participant a))] r;
          top10 = top match_id 10 r;
          rank = map_option e_rank (find (\<lambda>e. e_participant_id e = int_str pid) top10);
          version = lb_versions r match_id + 1;
          r = r\<lparr>lb_versions := (lb_versions r)(match_id := version)\<rparr>;
          w = w\<lparr>wredis := r\<rparr>
      in (rank,
          case get_room (wdb w) (m_room_id (aa_match a)) of
            None \<Rightarrow> w
          | Some room \<Rightarrow> broadcast (rm_code room) ''leaderboard.updated''
              (JObj [(''version'', JInt version), (''top'', JArr (map entry_json top10))]) w))"

definition submit_answer ::
  "time \<Rightarrow> time \<Rightarrow> int \<Rightarrow> int \<Rightarrow> answer_request \<Rightarrow> string \<Rightarrow> answer_response handler" where
  "submit_answer now now2 match_id participant_id payload request_id w =
     (if request_id = [] then (Inl (AuthError ''VALIDATION_ERROR'' 422 ''X-Request-ID is required''), w)
      else case idem_get (wredis w) now request_id of
        Some cached \<Rightarrow> (Inr cached, w)
      | None \<Rightarrow>
        (case submit_tx now match_id participant_id payload request_id w of
           (Inl e, w) \<Rightarrow> (Inl e, w)
         | (Inr (Duplicate existing), w) \<Rightarrow>
             let response = response_of existing None
             in (Inr response, w\<lparr>wredis := snd (idem_set (wredis w) now2 request_id (cached_form response))\<rparr>)
         | (Inr (Inserted s a), w) \<Rightarrow>
             let (rank, w) = submit_post s a w;
                 response = response_of s rank
             in (Inr response, w\<lparr>wredis := snd (idem_set (wredis w) now2 request_id (cached_form response))\<rparr>)))"

section \<open>Leaderboard read\<close>

definition nick_of :: "db \<Rightarrow> int \<Rightarrow> string" where
  "nick_of d pid = (case find (\<lambda>p. rp_id p = pid) (room_participants d) of None \<Rightarrow> [] | Some p \<Rightarrow> rp_nickname p)"

record leaderboard_response =
  lr_match_id :: int
  lr_is_final :: bool
  lr_entries :: "lb_entry list"

definition list_by_match_ordered_by_rank :: "db \<Rightarrow> int \<Rightarrow> FinalScore list" where
  "list_by_match_ordered_by_rank d match_id =
     sort_key fs_rank (filter (\<lambda>f. fs_match_id f = match_id) (final_scores d))"

definition final_entries :: "db \<Rightarrow> int \<Rightarrow> int \<Rightarrow> lb_entry list" where
  "final_entries d match_id limit =
     map (\<lambda>f. \<lparr>e_rank = fs_rank f, e_participant_id = int_str (fs_participant_id f),
            e_nickname = nick_of d (fs_participant_id f), e_score = fs_total_score f\<rparr>)
       (take (nat limit) (list_by_match_ordered_by_rank d match_id))"

text \<open>
  The SQL backend: totals grouped by participant, ordered by total descending, then by the exact
  average response time ascending.  The order of equal keys is the scan order of the groups.
\<close>

definition pg_rows :: "db \<Rightarrow> int \<Rightarrow> (int \<times> int) list" where
  "pg_rows d match_id =
     (let subs = match_subs d match_id;
          groups = map (\<lambda>p. let ss = filter (\<lambda>s. as_participant_id s = p) subs in
              (p, sum_list (map as_score_awarded ss),
               (of_int (sum_list (map as_response_time_ms ss)) / of_int (int (length ss)) :: rat)))
            (remdups (map as_participant_id subs))
      in map (\<lambda>(p, tot, _). (p, tot)) (sort_key (\<lambda>(p, tot, avg). (- tot, avg)) groups))"

definition pg_entries :: "db \<Rightarrow> int \<Rightarrow> int \<Rightarrow> lb_entry list" where
  "pg_entries d match_id limit =
     map (\<lambda>(idx, p, tot). \<lparr>e_rank = int idx, e_participant_id = int_str p, e_nickname = nick_of d p, e_score = tot\<rparr>)
       (enumerate 1 (take (nat limit) (pg_rows d match_id)))"

definition read_leaderboard :: "string \<Rightarrow> int \<Rightarrow> int \<Rightarrow> world \<Rightarrow> leaderboard_response result" where
  "read_leaderboard leaderboard_backend match_id limit w =
     (case get_match (wdb w) match_id of
        None \<Rightarrow> Inl (AuthError ''ROOM_NOT_FOUND'' 404 ''match not found'')
      | Some match \<Rightarrow>
        if m_status match = completed
        then Inr \<lparr>lr_match_id = match_id, lr_is_final = True, lr_entries = final_entries (wdb w) match_id limit\<rparr>
        else if leaderboard_backend = ''pg''
        then Inr \<lparr>lr_match_id = match_id, lr_is_final = False, lr_entries = pg_entries (wdb w) match_id limit\<rparr>
        else Inr \<lparr>lr_match_id = match_id, lr_is_final = False, lr_entries = top match_id limit (wredis w)\<rparr>)"

declare get_mq_by_id_def [exec] deadline_check_def [exec] find_participant_def [exec] question_options_def [exec]
  submit_check_def [exec] answer_correct_def [exec] make_submission_def [exec] conflicts_def [exec]
  existing_submission_def [exec] submit_tx_def [exec] submit_post_def [exec] submit_answer_def [exec]
  idem_get_def [exec] idem_set_def [exec] zadd_total_def [exec] mark_answered_def [exec] DEADLINE_GRACE_MS_def [exec]

section \<open>Lemmas\<close>

lemma deadline_check_Inr:
  "deadline_check match mq now = Inr (started, deadline) \<longleftrightarrow>
     m_status match = running \<and> mq_closed_at mq = None \<and> mq_deadline_at mq = Some deadline \<and>
     mq_started_at mq = Some started \<and> now \<le> deadline + 200000"
  by (auto simp: deadline_check_def result_iff DEADLINE_GRACE_MS_def)

lemma find_participant_Some:
  "find_participant d pid rid = Some p \<longleftrightarrow>
     find (\<lambda>p. rp_id p = pid \<and> rp_room_id p = rid) (room_participants d) = Some p \<and> \<not> rp_is_kicked p"
  by (auto simp: find_participant_def split: option.splits)

lemma find_participant_id: "find_participant d pid rid = Some p \<Longrightarrow> rp_id p = pid \<and> rp_room_id p = rid"
  by (auto simp: find_participant_Some dest: find_Some_set)

lemma get_mq_by_id_id: "get_mq_by_id d i = Some q \<Longrightarrow> q \<in> set (match_questions d) \<and> mq_id q = i"
  by (auto simp: get_mq_by_id_def dest: find_Some_set)

lemma submit_check_Inr:
  "submit_check d now mid pid payload = Inr a \<longleftrightarrow>
     get_mq_by_id d (req_match_question_id payload) = Some (aa_mq a) \<and> mq_match_id (aa_mq a) = mid \<and>
     get_match d mid = Some (aa_match a) \<and>
     deadline_check (aa_match a) (aa_mq a) now = Inr (aa_started_at a, aa_deadline_at a) \<and>
     find_participant d pid (m_room_id (aa_match a)) = Some (aa_participant a) \<and>
     set (req_selected_option_ids payload) \<subseteq> ao_id ` set (question_options d (mq_question_id (aa_mq a)))"
  by (cases a) (auto simp: submit_check_def result_iff split: prod.splits)

lemma submit_check_ids:
  assumes "submit_check d now mid pid payload = Inr a"
  shows "m_id (aa_match a) = mid \<and> rp_id (aa_participant a) = pid \<and> mq_id (aa_mq a) = req_match_question_id payload"
  using assms find_Some_simps(3) find_participant_id get_mq_by_id_id by (fastforce simp: submit_check_Inr)

lemma make_submission_sel [simp]:
  "as_id (make_submission d now a payload rid sid) = sid"
  "as_request_id (make_submission d now a payload rid sid) = rid"
  "as_match_id (make_submission d now a payload rid sid) = m_id (aa_match a)"
  "as_match_question_id (make_submission d now a payload rid sid) = mq_id (aa_mq a)"
  "as_participant_id (make_submission d now a payload rid sid) = rp_id (aa_participant a)"
  "as_is_correct (make_submission d now a payload rid sid) = answer_correct d (mq_question_id (aa_mq a)) (req_selected_option_ids payload)"
  by (simp_all add: make_submission_def Let_def)

text \<open>The outcome of the transaction, case by case.\<close>

lemma submit_tx_Inl:
  "submit_tx now mid pid payload rid w = (Inl e, w') \<Longrightarrow> w' = w \<or> w' = snd (fresh_id w)"
  by (auto simp: submit_tx_def Let_def register_eq split_beta split: sum.splits option.splits if_splits)

lemma submit_tx_Duplicate:
  assumes "submit_tx now mid pid payload rid w = (Inr (Duplicate s), w')"
  shows "w' = snd (fresh_id w) \<and> s \<in> set (answer_submissions (wdb w)) \<and>
    (as_request_id s = rid \<or> as_match_question_id s = req_match_question_id payload \<and> as_participant_id s = pid) \<and>
    (\<exists>a. submit_check (wdb w) now mid pid payload = Inr a)"
  using assms submit_check_ids [of "wdb w" now mid pid payload]
  by (auto simp: submit_tx_def Let_def register_eq split_beta existing_submission_def
      split: sum.splits option.splits if_splits dest!: find_Some_set)

lemma submit_tx_Inserted:
  assumes "submit_tx now mid pid payload rid w = (Inr (Inserted s a), w')"
  shows "submit_check (wdb w) now mid pid payload = Inr a \<and> s = make_submission (wdb w) now a payload rid (id_supply w (id_next w)) \<and>
    \<not> conflicts s (answer_submissions (wdb w)) \<and>
    w' = (snd (fresh_id (snd (fresh_id w))))\<lparr>wdb := register_event (id_supply w (Suc (id_next w))) EVT_ANSWER_SUBMITTED AGG_ANSWER (as_id s)
      (answer_submitted_event (aa_match a) (aa_mq a) s now) now ((wdb w)\<lparr>answer_submissions := answer_submissions (wdb w) @ [s]\<rparr>)\<rparr>"
  using assms
  by (auto simp: submit_tx_def Let_def register_eq split_beta split: sum.splits option.splits if_splits)

lemma submit_post_frame [simp]:
  "wdb (snd (submit_post s a w)) = wdb w" "tasks (snd (submit_post s a w)) = tasks w"
  "active (snd (submit_post s a w)) = active w" "running_task (snd (submit_post s a w)) = running_task w"
  "next_task (snd (submit_post s a w)) = next_task w" "must_cancel (snd (submit_post s a w)) = must_cancel w"
  "idem (wredis (snd (submit_post s a w))) = idem (wredis w)"
  "leaderboards (wredis (snd (submit_post s a w))) = leaderboards (zadd_total (as_match_id s) (as_participant_id s) (as_score_awarded s) (wredis w))"
  by (simp_all add: submit_post_def Let_def mark_answered_def set_nicknames_def zadd_total_def split: option.splits)

lemma submit_answer_cases:
  assumes "submit_answer now now2 mid pid payload rid w = (res, w')"
  obtains (no_request) "rid = []" "w' = w" "\<exists>e. res = Inl e"
  | (cached) r where "rid \<noteq> []" "idem_get (wredis w) now rid = Some r" "w' = w" "res = Inr r"
  | (rejected) e where "rid \<noteq> []" "idem_get (wredis w) now rid = None" "submit_tx now mid pid payload rid w = (Inl e, w')" "res = Inl e"
  | (duplicate) s w1 where "rid \<noteq> []" "idem_get (wredis w) now rid = None" "submit_tx now mid pid payload rid w = (Inr (Duplicate s), w1)"
      "res = Inr (response_of s None)"
      "w' = w1\<lparr>wredis := snd (idem_set (wredis w1) now2 rid (cached_form (response_of s None)))\<rparr>"
  | (inserted) s a w1 rank w2 where "rid \<noteq> []" "idem_get (wredis w) now rid = None"
      "submit_tx now mid pid payload rid w = (Inr (Inserted s a), w1)" "submit_post s a w1 = (rank, w2)"
      "res = Inr (response_of s rank)"
      "w' = w2\<lparr>wredis := snd (idem_set (wredis w2) now2 rid (cached_form (response_of s rank)))\<rparr>"
proof (cases "rid = [] \<or> idem_get (wredis w) now rid \<noteq> None")
  case True
  then show ?thesis using assms no_request cached by (auto simp: submit_answer_def split: if_splits)
next
  case False
  then have miss: "rid \<noteq> []" "idem_get (wredis w) now rid = None" by auto
  obtain r1 w1 where tx: "submit_tx now mid pid payload rid w = (r1, w1)" by (cases "submit_tx now mid pid payload rid w")
  show ?thesis
  proof (cases r1)
    case (Inl e)
    then show ?thesis using assms miss tx rejected [OF miss] by (simp add: submit_answer_def)
  next
    case (Inr oc)
    show ?thesis
    proof (cases oc)
      case (Duplicate s)
      then show ?thesis using assms miss tx Inr duplicate [OF miss] by (auto simp: submit_answer_def Let_def)
    next
      case (Inserted s a)
      then show ?thesis using assms miss tx Inr inserted [OF miss]
        by (cases "submit_post s a w1") (auto simp: submit_answer_def Let_def)
    qed
  qed
qed

section \<open>Properties of submission\<close>

lemma existing_submission_None:
  "existing_submission d rid q p = None \<longleftrightarrow> (\<forall>s \<in> set (answer_submissions d). as_request_id s \<noteq> rid \<and>
     \<not> (as_match_question_id s = q \<and> as_participant_id s = p))"
proof (cases "find (\<lambda>s. as_request_id s = rid) (answer_submissions d)")
  case None
  then have "existing_submission d rid q p = find (\<lambda>s. as_match_question_id s = q \<and> as_participant_id s = p) (answer_submissions d)"
    by (simp add: existing_submission_def)
  with None show ?thesis by (auto simp: find_None_iff)
next
  case (Some s)
  with find_Some_set [OF Some] show ?thesis by (auto simp: existing_submission_def)
qed




definition demo_answer :: answer_request where
  "demo_answer = \<lparr>req_match_question_id = 51, req_selected_option_ids = [31]\<rparr>"

lemma demo_submit: "\<exists>r w'. submit_answer 1000000 1000000 5 10 demo_answer ''r1'' demo_running = (Inr r, w')"
proof -
  have a: "''r1'' \<noteq> []" "idem_get (wredis demo_running) 1000000 ''r1'' = None" by (simp_all add: exec)
  have "\<exists>a. submit_check (wdb demo_running) 1000000 5 10 demo_answer = Inr a"
    by (simp add: exec demo_answer_def)
  then obtain a where "submit_check (wdb demo_running) 1000000 5 10 demo_answer = Inr a" by blast
  moreover have "answer_submissions (wdb demo_running) = []" by (simp add: exec)
  ultimately show ?thesis using a
    by (simp add: submit_answer_def submit_tx_def Let_def split_beta conflicts_def)
qed





definition demo_answered :: world where
  "demo_answered = demo_running\<lparr>wdb := demo_running_db\<lparr>answer_submissions := [\<lparr>as_id = 60, as_match_id = 5, as_match_question_id = 51,
     as_participant_id = 10, as_selected_option_ids = [31], as_is_correct = True, as_score_awarded = 950, as_response_time_ms = 1000,
     as_request_id = ''r1''\<rparr>]\<rparr>\<rparr>"


end
