(* ===== verification/Moderation.thy ===== *)
theory Moderation
  imports World PyText
begin

text \<open>
  src/backend/app/services/moderation_service.py: the banned-words policy and the scan, the automatic
  flags raised inside a publish or a join, reports, and the moderator's decision with its three
  actions.  Regular expressions are code outside the repository: a policy pattern is a function from
  the text to the matched part, and the compiler of patterns is an argument of \<open>load_policy\<close>, as are the file system and the reading of a JSON file.
  The JSON text stored in
  \<^verbatim>\<open>moderation_reports.details\<close> is kept as the JSON value.
\<close>

section \<open>Policy\<close>

record policy =
  policy_words :: "string list"
  policy_patterns :: "(string \<times> (string \<Rightarrow> string option)) list"

definition json_items :: "json \<Rightarrow> json list" where
  "json_items j = (case j of JArr xs \<Rightarrow> xs | _ \<Rightarrow> [])"

text \<open>A path is the list of its components; \<open>here\<close> is the resolved path of the module.\<close>

type_synonym path = "string list"

definition candidate_policy_paths :: "path option \<Rightarrow> path \<Rightarrow> path list result" where
  "candidate_policy_paths override here =
     (let file = [''ops'', ''moderation'', ''banned_words.json''] in
      if length here < 4 then Inl (PyError ''IndexError'')
      else Inr ((case override of None \<Rightarrow> [] | Some p \<Rightarrow> [p]) @
                map (\<lambda>k. take (length here - Suc k) here @ file) [3, 2, 1] @ [''app'' # file]))"

text \<open>\<open>exists p\<close> is \<open>None\<close> when the probe raises \<^verbatim>\<open>OSError\<close>.\<close>

definition resolve_policy_path :: "(path \<Rightarrow> bool option) \<Rightarrow> path list \<Rightarrow> path option" where
  "resolve_policy_path exists paths = find (\<lambda>p. exists p = Some True) paths"

definition load_word :: "json \<Rightarrow> string option" where
  "load_word w = (case w of JStr s \<Rightarrow> if strip s = [] then None else Some (lower (strip s)) | _ \<Rightarrow> None)"

text \<open>\<open>py_str\<close> is Python's \<^verbatim>\<open>str\<close> of a value that is not a string.\<close>

definition load_pattern ::
  "(string \<Rightarrow> (string \<Rightarrow> string option) option) \<Rightarrow> (json \<Rightarrow> string) \<Rightarrow> json \<Rightarrow> (string \<times> (string \<Rightarrow> string option)) option" where
  "load_pattern compile py_str p =
     (case p of
        JObj kvs \<Rightarrow>
          (let v = json_get p ''name'';
               name = (if truthy v then (case v of JStr s \<Rightarrow> s | _ \<Rightarrow> py_str v) else ''pattern'')
           in case json_get p ''regex'' of
                JStr src \<Rightarrow> map_option (\<lambda>m. (name, m)) (compile src)
              | _ \<Rightarrow> None)
      | _ \<Rightarrow> None)"

text \<open>\<^verbatim>\<open>for x in data.get(key) or []\<close>: a string is iterated by character, an object by key.\<close>

definition policy_items :: "json \<Rightarrow> string \<Rightarrow> json list result" where
  "policy_items data key =
     (let v = json_get data key in
      if \<not> truthy v then Inr []
      else case v of JArr xs \<Rightarrow> Inr xs | JStr s \<Rightarrow> Inr (map (\<lambda>c. JStr [c]) s) | JObj kvs \<Rightarrow> Inr (map (JStr \<circ> fst) kvs)
           | _ \<Rightarrow> Inl (PyError ''TypeError''))"

definition parse_policy :: "(string \<Rightarrow> (string \<Rightarrow> string option) option) \<Rightarrow> (json \<Rightarrow> string) \<Rightarrow> json \<Rightarrow> policy result" where
  "parse_policy compile py_str data =
     (case data of
        JObj kvs \<Rightarrow>
          bind_r (policy_items data ''words'') (\<lambda>words.
          bind_r (policy_items data ''patterns'') (\<lambda>patterns.
          Inr \<lparr>policy_words = List.map_filter load_word words, policy_patterns = List.map_filter (load_pattern compile py_str) patterns\<rparr>))
      | _ \<Rightarrow> Inl (PyError ''AttributeError''))"

definition no_policy :: policy where
  "no_policy = \<lparr>policy_words = [], policy_patterns = []\<rparr>"

text \<open>\<open>read p\<close> is the value of the JSON text of the file, or the exception of reading or parsing it.\<close>

definition load_policy ::
  "(string \<Rightarrow> (string \<Rightarrow> string option) option) \<Rightarrow> (json \<Rightarrow> string) \<Rightarrow> (path \<Rightarrow> bool option) \<Rightarrow> (path \<Rightarrow> json result) \<Rightarrow> path option \<Rightarrow> path \<Rightarrow>
     policy result" where
  "load_policy compile py_str exists read override here =
     bind_r (candidate_policy_paths override here) (\<lambda>paths.
       case resolve_policy_path exists paths of
         None \<Rightarrow> Inr no_policy
       | Some p \<Rightarrow>
           (case read p of
              Inl (PyError e) \<Rightarrow> if e \<in> {''OSError'', ''JSONDecodeError''} then Inr no_policy else Inl (PyError e)
            | Inl e \<Rightarrow> Inl e
            | Inr data \<Rightarrow> parse_policy compile py_str data))"

section \<open>Scan\<close>

record Flag =
  flag_reason :: string
  flag_context :: string
  flag_matched :: string
  flag_details :: "(string \<times> json) list"

definition word_flags :: "policy \<Rightarrow> string \<Rightarrow> string \<Rightarrow> Flag list" where
  "word_flags p t ctx =
     map (\<lambda>w. \<lparr>flag_reason = ''banned_word'', flag_context = ctx, flag_matched = w,
            flag_details = [(''strategy'', JStr ''substring'')]\<rparr>)
       (filter (\<lambda>w. w \<noteq> [] \<and> contains w (lower t)) (policy_words p))"

definition pattern_flags :: "policy \<Rightarrow> string \<Rightarrow> string \<Rightarrow> Flag list" where
  "pattern_flags p t ctx =
     List.map_filter (\<lambda>(name, search). map_option (\<lambda>m.
         \<lparr>flag_reason = ''banned_pattern'', flag_context = ctx, flag_matched = m,
          flag_details = [(''pattern'', JStr name), (''strategy'', JStr ''regex'')]\<rparr>) (search t))
       (policy_patterns p)"

definition scan_text :: "policy \<Rightarrow> string option \<Rightarrow> string \<Rightarrow> Flag list" where
  "scan_text p t ctx =
     (case t of None \<Rightarrow> [] | Some s \<Rightarrow> if s = [] then [] else word_flags p s ctx @ pattern_flags p s ctx)"

section \<open>Automatic flags\<close>

text \<open>\<^verbatim>\<open>str(x) if x else None\<close>: zero counts as absent.\<close>

definition truthy_id :: "int option \<Rightarrow> json" where
  "truthy_id x = (case x of None \<Rightarrow> JNull | Some i \<Rightarrow> if i = 0 then JNull else JStr (int_str i))"

record targets =
  t_reporter :: "int option"
  t_room :: "int option"
  t_user :: "int option"
  t_quiz :: "int option"

definition new_report :: "int \<Rightarrow> targets \<Rightarrow> string \<Rightarrow> json option \<Rightarrow> time \<Rightarrow> ModerationReport" where
  "new_report i t reason details now =
     \<lparr>mr_id = i, mr_reporter_user_id = t_reporter t, mr_room_id = t_room t, mr_target_user_id = t_user t,
      mr_target_quiz_set_id = t_quiz t, mr_reason = take 120 reason, mr_details = details, mr_status = pending,
      mr_created_at = now, mr_reviewed_by = None, mr_reviewed_at = None\<rparr>"

definition flag_details_json :: "string \<Rightarrow> Flag \<Rightarrow> string \<Rightarrow> json" where
  "flag_details_json ctx f source =
     JObj ([(''context'', JStr ctx), (''matched'', JStr (flag_matched f)), (''source'', JStr source)] @ flag_details f)"

definition flagged_event :: "int \<Rightarrow> targets \<Rightarrow> string \<Rightarrow> Flag \<Rightarrow> string \<Rightarrow> json" where
  "flagged_event report_id t ctx f source =
     JObj [(''report_id'', JStr (int_str report_id)), (''reason'', JStr (flag_reason f)), (''context'', JStr ctx),
           (''matched'', JStr (flag_matched f)), (''source'', JStr source), (''target_user_id'', truthy_id (t_user t)),
           (''target_quiz_set_id'', truthy_id (t_quiz t)), (''room_id'', truthy_id (t_room t))]"

text \<open>Runs inside the caller's transaction: the database under construction is threaded with the world.\<close>

fun persist_flags :: "time \<Rightarrow> (string \<times> Flag) list \<Rightarrow> targets \<Rightarrow> string \<Rightarrow> db \<Rightarrow> world \<Rightarrow> ModerationReport list \<times> db \<times> world" where
  "persist_flags now [] t source d w = ([], d, w)"
| "persist_flags now ((ctx, f) # flags) t source d w =
     (let (i, w) = fresh_id w;
          report = new_report i t (flag_reason f) (Some (flag_details_json ctx f source)) now;
          d = d\<lparr>moderation_reports := moderation_reports d @ [report]\<rparr>;
          (d, w) = register EVT_CONTENT_FLAGGED AGG_MODERATION i (flagged_event i t ctx f source) now d w;
          (rest, d, w) = persist_flags now flags t source d w
      in (report # rest, d, w))"

definition publish_fields :: "QuizSet \<Rightarrow> (Question \<times> AnswerOption list) list \<Rightarrow> (string \<times> string option) list" where
  "publish_fields quiz qs =
     [(''quiz.title'', Some (qs_title quiz)), (''quiz.description'', qs_description quiz)] @
     concat (map (\<lambda>(q, os). (''question.'' @ int_str (q_position q) @ ''.body'', Some (q_body q)) #
       map (\<lambda>ao. (''question.'' @ int_str (q_position q) @ ''.option.'' @ int_str (ao_position ao) @ ''.body'', Some (ao_body ao))) os) qs)"

definition auto_flag_on_publish ::
  "policy \<Rightarrow> time \<Rightarrow> QuizSet \<Rightarrow> (Question \<times> AnswerOption list) list \<Rightarrow> db \<Rightarrow> world \<Rightarrow> ModerationReport list \<times> db \<times> world" where
  "auto_flag_on_publish p now quiz qs d w =
     persist_flags now (concat (map (\<lambda>(ctx, t). map (Pair ctx) (scan_text p t ctx)) (publish_fields quiz qs)))
       \<lparr>t_reporter = None, t_room = None, t_user = None, t_quiz = Some (qs_id quiz)\<rparr> ''quiz.publish'' d w"

definition auto_flag_on_join ::
  "policy \<Rightarrow> time \<Rightarrow> Room \<Rightarrow> string \<Rightarrow> int option \<Rightarrow> db \<Rightarrow> world \<Rightarrow> ModerationReport list \<times> db \<times> world" where
  "auto_flag_on_join p now room nickname user_id d w =
     persist_flags now (map (Pair ''nickname'') (scan_text p (Some nickname) ''nickname''))
       \<lparr>t_reporter = None, t_room = Some (rm_id room), t_user = user_id, t_quiz = None\<rparr> ''room.join'' d w"

section \<open>Reports\<close>

definition set_count :: "targets \<Rightarrow> nat" where
  "set_count t = length (filter (\<lambda>x. x \<noteq> None) [t_room t, t_user t, t_quiz t])"

definition reported_event :: "int \<Rightarrow> targets \<Rightarrow> string \<Rightarrow> json" where
  "reported_event report_id t reason =
     JObj [(''report_id'', JStr (int_str report_id)), (''reporter_user_id'', truthy_id (t_reporter t)),
           (''room_id'', truthy_id (t_room t)), (''target_user_id'', truthy_id (t_user t)),
           (''target_quiz_set_id'', truthy_id (t_quiz t)), (''reason'', JStr reason)]"

text \<open>
  The targets are not looked up: an id without a row violates a foreign key of \<^verbatim>\<open>moderation_reports\<close> at the flush of the
  insert, which is \<^verbatim>\<open>IntegrityError\<close>.
\<close>

definition targets_exist :: "db \<Rightarrow> targets \<Rightarrow> bool" where
  "targets_exist d t \<longleftrightarrow>
     set_option (t_reporter t) \<subseteq> u_id ` set (users d) \<and> set_option (t_room t) \<subseteq> rm_id ` set (rooms d) \<and>
     set_option (t_user t) \<subseteq> u_id ` set (users d) \<and> set_option (t_quiz t) \<subseteq> qs_id ` set (quiz_sets d)"

definition create_report :: "time \<Rightarrow> targets \<Rightarrow> string \<Rightarrow> string option \<Rightarrow> ModerationReport handler" where
  "create_report now t reason details w =
     (if set_count t \<noteq> 1 then (Inl (AuthError ''VALIDATION_ERROR'' 422 ''exactly one target field is required''), w)
      else
        let (i, w) = fresh_id w;
            report = new_report i t reason (map_option JStr details) now
        in if \<not> targets_exist (wdb w) t then (Inl (PyError ''IntegrityError''), w)
           else
             let d = (wdb w)\<lparr>moderation_reports := moderation_reports (wdb w) @ [report]\<rparr>;
                 (d, w) = register EVT_CONTENT_REPORTED AGG_MODERATION i (reported_event i t reason) now d w
             in (Inr report, w\<lparr>wdb := d\<rparr>))"

section \<open>Decisions\<close>

definition get_report :: "db \<Rightarrow> int \<Rightarrow> ModerationReport option" where
  "get_report d i = find (\<lambda>r. mr_id r = i) (moderation_reports d)"

type_synonym affected = "(string \<times> json) list"

definition apply_hide :: "ModerationReport \<Rightarrow> db \<Rightarrow> (affected \<times> db) result" where
  "apply_hide report d =
     bind_r (of_option (AuthError ''VALIDATION_ERROR'' 422 ''hide requires a target_quiz_set_id'') (mr_target_quiz_set_id report)) (\<lambda>qid.
     bind_r (of_option (AuthError ''VALIDATION_ERROR'' 404 ''target quiz set not found'') (get_quiz_set d qid)) (\<lambda>quiz.
     let v = (if qs_version quiz = 0 then 1 else qs_version quiz) + 1 in
     Inr ([(''quiz_set_id'', JStr (int_str (qs_id quiz))), (''visibility'', JStr (visibility_value vis_private)),
           (''is_published'', JBool False), (''version'', JInt v)],
          d\<lparr>quiz_sets := upd_where (\<lambda>q. qs_id q = qid)
             (\<lambda>q. q\<lparr>qs_visibility := vis_private, qs_is_published := False, qs_version := v\<rparr>) (quiz_sets d)\<rparr>)))"

definition mute_matches :: "ModerationReport \<Rightarrow> db \<Rightarrow> RoomParticipant \<Rightarrow> bool" where
  "mute_matches report d p \<longleftrightarrow> rp_left_at p = None \<and> \<not> rp_is_kicked p \<and> get_room d (rp_room_id p) \<noteq> None \<and>
     (mr_room_id report = None \<or> mr_room_id report = Some (rp_room_id p)) \<and>
     (mr_target_user_id report = None \<or> rp_user_id p = mr_target_user_id report)"

definition mute_targets :: "ModerationReport \<Rightarrow> db \<Rightarrow> (string \<times> int) list" where
  "mute_targets report d =
     map (\<lambda>p. (case get_room d (rp_room_id p) of None \<Rightarrow> [] | Some r \<Rightarrow> rm_code r, rp_id p))
       (filter (mute_matches report d) (room_participants d))"

definition apply_mute :: "ModerationReport \<Rightarrow> db \<Rightarrow> (affected \<times> (string \<times> int) list \<times> db) result" where
  "apply_mute report d =
     bind_r (guard (mr_room_id report \<noteq> None \<or> mr_target_user_id report \<noteq> None)
       (AuthError ''VALIDATION_ERROR'' 422 ''mute requires room_id and/or target_user_id'')) (\<lambda>_.
     let ts = mute_targets report d in
     Inr ([(''muted_participants'', JArr (map (\<lambda>(code, pid). JObj [(''room_code'', JStr code), (''participant_id'', JStr (int_str pid))]) ts))],
          ts, d\<lparr>room_participants := upd_where (mute_matches report d) (\<lambda>p. p\<lparr>rp_is_kicked := True\<rparr>) (room_participants d)\<rparr>))"

definition apply_ban :: "ModerationReport \<Rightarrow> db \<Rightarrow> (affected \<times> db) result" where
  "apply_ban report d =
     bind_r (of_option (AuthError ''VALIDATION_ERROR'' 422 ''ban requires a target_user_id'') (mr_target_user_id report)) (\<lambda>uid.
     bind_r (of_option (AuthError ''VALIDATION_ERROR'' 404 ''target user not found'') (get_user d uid)) (\<lambda>user.
     Inr ([(''user_id'', JStr (int_str (u_id user))), (''is_active'', JBool False)],
          d\<lparr>users := upd_where (\<lambda>u. u_id u = uid) (\<lambda>u. u\<lparr>u_is_active := False\<rparr>) (users d)\<rparr>)))"

definition DECISIONS :: "string list" where "DECISIONS = [''dismiss'', ''hide'', ''mute'', ''ban'']"

definition apply_decision :: "string \<Rightarrow> ModerationReport \<Rightarrow> db \<Rightarrow> (affected \<times> (string \<times> int) list \<times> db) result" where
  "apply_decision decision report d =
     (if decision = ''hide'' then bind_r (apply_hide report d) (\<lambda>(a, d). Inr (a, [], d))
      else if decision = ''mute'' then apply_mute report d
      else if decision = ''ban'' then bind_r (apply_ban report d) (\<lambda>(a, d). Inr (a, [], d))
      else Inr ([], [], d))"

definition decide_check :: "db \<Rightarrow> int \<Rightarrow> string \<Rightarrow> ModerationReport result" where
  "decide_check d report_id decision =
     bind_r (guard (decision \<in> set DECISIONS) (AuthError ''VALIDATION_ERROR'' 422 (''unknown decision '' @ [CHR 0x27] @ decision @ [CHR 0x27]))) (\<lambda>_.
     bind_r (of_option (AuthError ''VALIDATION_ERROR'' 404 ''report not found'') (get_report d report_id)) (\<lambda>report.
     bind_r (guard (mr_status report = pending) (AuthError ''VALIDATION_ERROR'' 409 ''report already decided'')) (\<lambda>_.
     Inr report)))"

definition kicked_message :: "int \<Rightarrow> int \<Rightarrow> json" where
  "kicked_message participant_id report_id =
     JObj [(''participant_id'', JStr (int_str participant_id)), (''reason'', JStr ''muted''), (''report_id'', JStr (int_str report_id))]"

definition opt_str :: "string option \<Rightarrow> json" where
  "opt_str s = (case s of None \<Rightarrow> JNull | Some t \<Rightarrow> JStr t)"

definition decide :: "time \<Rightarrow> int \<Rightarrow> int \<Rightarrow> string \<Rightarrow> string option \<Rightarrow> ModerationReport handler" where
  "decide now moderator_id report_id decision reason w =
     (case bind_r (decide_check (wdb w) report_id decision) (\<lambda>report.
             bind_r (apply_decision decision report (wdb w)) (\<lambda>x. Inr (report, x))) of
        Inl e \<Rightarrow> (Inl e, w)
      | Inr (report, extra, kicks, d) \<Rightarrow>
        let new_status = (if decision = ''dismiss'' then dismissed else action_taken);
            affected = JObj ([(''decision'', JStr decision), (''reason'', opt_str reason)] @ extra);
            report' = report\<lparr>mr_status := new_status, mr_reviewed_by := Some moderator_id, mr_reviewed_at := Some now\<rparr>;
            d = d\<lparr>moderation_reports := upd_where (\<lambda>r. mr_id r = report_id)
                   (\<lambda>r. r\<lparr>mr_status := new_status, mr_reviewed_by := Some moderator_id, mr_reviewed_at := Some now\<rparr>)
                   (moderation_reports d)\<rparr>;
            (audit_id, w) = fresh_id w;
            d = d\<lparr>audit_logs := audit_logs d @ [\<lparr>al_id = audit_id, al_actor_user_id = Some moderator_id,
                   al_action = ''moderation.decide.'' @ decision, al_entity_type = ''moderation_report'',
                   al_entity_id = Some report_id, al_metadata = affected\<rparr>]\<rparr>;
            (d, w) = register EVT_MODERATION_DECISION AGG_MODERATION report_id
              (JObj [(''report_id'', JStr (int_str report_id)), (''decision'', JStr decision), (''reason'', opt_str reason),
                     (''moderator_user_id'', JStr (int_str moderator_id)), (''status'', JStr (moderation_status_value new_status)),
                     (''affected'', affected)]) now d w;
            w = w\<lparr>wdb := d\<rparr>
        in (Inr report', fold (\<lambda>(code, pid). broadcast code ''participant.kicked'' (kicked_message pid report_id)) kicks w))"

section \<open>Queue\<close>

definition list_by_status :: "db \<Rightarrow> ModerationStatus option \<Rightarrow> nat \<Rightarrow> nat \<Rightarrow> ModerationReport list" where
  "list_by_status d status limit offset =
     take limit (drop offset (sort_key mr_created_at
       (filter (\<lambda>r. case status of None \<Rightarrow> True | Some s \<Rightarrow> mr_status r = s) (moderation_reports d))))"

definition build_target_preview :: "db \<Rightarrow> ModerationReport \<Rightarrow> (string \<times> string \<times> string option) option" where
  "build_target_preview d report =
     (case mr_target_quiz_set_id report of
        Some i \<Rightarrow> Some (''quiz_set'', int_str i, map_option qs_title (get_quiz_set d i))
      | None \<Rightarrow> (case mr_target_user_id report of
          Some i \<Rightarrow> Some (''user'', int_str i, map_option u_display_name (get_user d i))
        | None \<Rightarrow> (case mr_room_id report of
            Some i \<Rightarrow> Some (''room'', int_str i, map_option rm_code (get_room d i))
          | None \<Rightarrow> None)))"

section \<open>Lemmas and properties\<close>

lemma contains_iff: "contains w t \<longleftrightarrow> (\<exists>i \<le> length t. take (length w) (drop i t) = w)"
  by (auto simp: contains_def list_ex_iff less_Suc_eq_le Bex_def simp del: upt_Suc)

lemma lower_take_drop: "lower (take n (drop i t)) = take n (drop i (lower t))"
  by (simp add: lower_def take_map drop_map)

text \<open>
  The scan ignores letter case.  A text in which a policy word (a non-blank string of the policy
  file, stripped) occurs in any mix of upper and lower case is flagged with that word in lower case,
  and every banned-word flag comes from such an occurrence.
\<close>
theorem scan_finds_words:
  assumes "parse_policy compile py_str data = Inr p" "json_get data ''words'' = JArr ws" "t \<noteq> []"
  shows "(\<exists>f \<in> set (scan_text p (Some t) ctx). flag_reason f = ''banned_word'' \<and> flag_matched f = m) \<longleftrightarrow>
    (\<exists>s i. JStr s \<in> set ws \<and> strip s \<noteq> [] \<and> m = lower (strip s) \<and> i \<le> length t \<and>
       lower (take (length (strip s)) (drop i t)) = lower (strip s))"
proof -
  have ws: "set (policy_words p) = {lower (strip s) | s. JStr s \<in> set ws \<and> strip s \<noteq> []}"
  proof -
    have "policy_items data ''words'' = Inr ws" using assms(2) by (cases ws) (simp_all add: policy_items_def)
    then have "policy_words p = List.map_filter load_word ws" using assms(1) by (auto simp: parse_policy_def result_iff split: json.splits)
    then show ?thesis by (auto simp: List.map_filter_def load_word_def image_iff split: json.splits if_splits) force
  qed
  have pat: "flag_reason f = ''banned_pattern''" if "f \<in> set (pattern_flags p t ctx)" for f
    using that by (auto simp: pattern_flags_def List.map_filter_def)
  have c: "contains (lower u) (lower t) \<longleftrightarrow> (\<exists>i \<le> length t. lower (take (length u) (drop i t)) = lower u)" for u
    unfolding contains_iff lower_take_drop by (simp add: lower_def)
  have word: "(\<exists>f \<in> set (word_flags p t ctx). flag_reason f = ''banned_word'' \<and> flag_matched f = m) \<longleftrightarrow>
      m \<in> set (policy_words p) \<and> m \<noteq> [] \<and> contains m (lower t)"
    by (auto simp: word_flags_def)
  have "(\<exists>f \<in> set (scan_text p (Some t) ctx). flag_reason f = ''banned_word'' \<and> flag_matched f = m) \<longleftrightarrow>
      (\<exists>f \<in> set (word_flags p t ctx). flag_reason f = ''banned_word'' \<and> flag_matched f = m)"
    using pat assms(3) by (fastforce simp: scan_text_def)
  also have "\<dots> \<longleftrightarrow> (\<exists>s. JStr s \<in> set ws \<and> strip s \<noteq> [] \<and> m = lower (strip s) \<and> contains m (lower t))"
    unfolding word ws by (auto simp: lower_def)
  also have "\<dots> \<longleftrightarrow> (\<exists>s i. JStr s \<in> set ws \<and> strip s \<noteq> [] \<and> m = lower (strip s) \<and> i \<le> length t \<and>
       lower (take (length (strip s)) (drop i t)) = lower (strip s))"
    by (rule iffI; elim exE conjE; use c in blast)
  finally show ?thesis .
qed

theorem scan_finds_words_witness:
  "let data = JObj [(''words'', JArr [JStr '' Bad '']), (''patterns'', JArr [])] in
   case parse_policy (\<lambda>_. None) (\<lambda>_. []) data of Inl _ \<Rightarrow> False | Inr p \<Rightarrow>
     (\<exists>f \<in> set (scan_text p (Some ''so BAD!'') ''nickname''). flag_reason f = ''banned_word'' \<and> flag_matched f = ''bad'')"
proof -
  let ?d = "JObj [(''words'', JArr [JStr '' Bad '']), (''patterns'', JArr [])]"
  have s: "strip '' Bad '' = ''Bad''" by (simp add: strip_def is_space_def)
  have l: "lower ''Bad'' = ''bad''" "lower ''BAD'' = ''bad''" by code_simp+
  obtain p where p: "parse_policy (\<lambda>_. None) (\<lambda>_. []) ?d = Inr p" by (simp add: parse_policy_def policy_items_def bind_r_def)
  have "\<exists>f \<in> set (scan_text p (Some ''so BAD!'') ''nickname''). flag_reason f = ''banned_word'' \<and> flag_matched f = ''bad''"
    unfolding scan_finds_words [OF p, of "[JStr '' Bad '']" "''so BAD!''", simplified]
    by (auto simp: s l intro!: exI [of _ 3])
  then show ?thesis by (simp add: p)
qed

text \<open>
  The policy file.  A file named by \<^verbatim>\<open>BANNED_WORDS_PATH\<close> is taken before the others; in the image, with the policy
  mounted under /app, that one is found; and without a readable file nothing is flagged.
\<close>
theorem policy_resolution:
  "exists p = Some True \<Longrightarrow> 4 \<le> length here \<Longrightarrow>
     bind_r (candidate_policy_paths (Some p) here) (\<lambda>ps. Inr (resolve_policy_path exists ps)) = Inr (Some p)"
  "bind_r (candidate_policy_paths None [''app'', ''app'', ''services'', ''moderation_service.py''])
     (\<lambda>ps. Inr (resolve_policy_path (\<lambda>p. Some (p = [''app'', ''ops'', ''moderation'', ''banned_words.json''])) ps)) =
   Inr (Some [''app'', ''ops'', ''moderation'', ''banned_words.json''])"
  by (simp_all add: candidate_policy_paths_def resolve_policy_path_def bind_r_def Let_def)

theorem policy_fails_open:
  assumes "4 \<le> length here" "\<And>p. exists p = Some True \<Longrightarrow> read p \<in> {Inl (PyError ''OSError''), Inl (PyError ''JSONDecodeError'')}"
  shows "\<exists>pol. load_policy compile py_str exists read override here = Inr pol \<and> (\<forall>t ctx. scan_text pol t ctx = [])"
proof -
  obtain paths where c: "candidate_policy_paths override here = Inr paths" using assms(1) by (simp add: candidate_policy_paths_def Let_def)
  have "load_policy compile py_str exists read override here = Inr no_policy"
  proof (cases "resolve_policy_path exists paths")
    case (Some p)
    then have "exists p = Some True" by (auto simp: resolve_policy_path_def dest!: find_Some_set)
    from assms(2) [OF this] show ?thesis by (auto simp: load_policy_def c bind_r_def Some)
  qed (simp add: load_policy_def c bind_r_def)
  moreover have "scan_text no_policy t ctx = []" for t ctx
    by (simp add: no_policy_def scan_text_def word_flags_def pattern_flags_def List.map_filter_def split: option.split)
  ultimately show ?thesis by blast
qed

lemma decide_check_Inr:
  "decide_check d i dec = Inr report \<longleftrightarrow> dec \<in> set DECISIONS \<and> get_report d i = Some report \<and> mr_status report = pending"
  by (auto simp: decide_check_def result_iff)

lemma fold_broadcast_frame [simp]:
  "wdb (fold (\<lambda>(c, p). broadcast c t (f p)) ks w) = wdb w"
  "wredis (fold (\<lambda>(c, p). broadcast c t (f p)) ks w) = wredis w"
  "tasks (fold (\<lambda>(c, p). broadcast c t (f p)) ks w) = tasks w"
  "next_task (fold (\<lambda>(c, p). broadcast c t (f p)) ks w) = next_task w"
  "active (fold (\<lambda>(c, p). broadcast c t (f p)) ks w) = active w"
  "running_task (fold (\<lambda>(c, p). broadcast c t (f p)) ks w) = running_task w"
  by (induction ks arbitrary: w) (simp_all add: split_beta)

lemma fold_broadcast_bus:
  "map (\<lambda>(c, m). (c, json_get m ''type'', json_get m ''payload'')) (bus (fold (\<lambda>(c, p). broadcast c t (f p)) ks w)) =
     map (\<lambda>(c, m). (c, json_get m ''type'', json_get m ''payload'')) (bus w) @ map (\<lambda>(c, p). (c, JStr t, f p)) ks"
  by (induction ks arbitrary: w) (simp_all add: split_beta broadcast_def Let_def)

lemma persist_flags_effect:
  assumes "persist_flags now flags t source d w = (rs, d', w')"
  shows "\<exists>es. d' = d\<lparr>moderation_reports := moderation_reports d @ rs, outbox_events := outbox_events d @ es\<rparr> \<and>
    (\<forall>e \<in> set es. ob_event_type e = EVT_CONTENT_FLAGGED) \<and> length rs = length flags \<and> length es = length flags \<and>
    wdb w' = wdb w \<and> wredis w' = wredis w \<and> tasks w' = tasks w \<and> next_task w' = next_task w \<and> active w' = active w \<and>
    running_task w' = running_task w \<and> bus w' = bus w"
  using assms
proof (induction flags arbitrary: d w rs d' w')
  case Nil
  then show ?case by (auto intro: exI [of _ "[]"])
next
  case (Cons cf flags)
  obtain ctx f where cf: "cf = (ctx, f)" by (cases cf)
  define i where "i = id_supply w (id_next w)"
  define rep where "rep = new_report i t (flag_reason f) (Some (flag_details_json ctx f source)) now"
  define ev where "ev = outbox_row (id_supply w (Suc (id_next w))) EVT_CONTENT_FLAGGED AGG_MODERATION i (flagged_event i t ctx f source) now"
  define d1 where "d1 = d\<lparr>moderation_reports := moderation_reports d @ [rep], outbox_events := outbox_events d @ [ev]\<rparr>"
  define w1 where "w1 = snd (fresh_id (snd (fresh_id w)))"
  obtain rs1 where rec: "persist_flags now flags t source d1 w1 = (rs1, d', w')" and rs: "rs = rep # rs1"
    using Cons.prems
    by (auto simp: cf Let_def register_eq split_beta d1_def w1_def rep_def ev_def i_def register_event_def prod_eq_iff)
  from Cons.IH [OF rec] obtain es where
    "d' = d1\<lparr>moderation_reports := moderation_reports d1 @ rs1, outbox_events := outbox_events d1 @ es\<rparr>"
    "\<forall>e \<in> set es. ob_event_type e = EVT_CONTENT_FLAGGED" "length rs1 = length flags" "length es = length flags"
    "wdb w' = wdb w1" "wredis w' = wredis w1" "tasks w' = tasks w1" "next_task w' = next_task w1" "active w' = active w1"
    "running_task w' = running_task w1" "bus w' = bus w1" by blast
  then show ?case
    by (intro exI [of _ "ev # es"]) (simp add: rs d1_def w1_def ev_def)
qed

lemma decide_Inl: "decide now mdr i dec reason w = (Inl e, w') \<Longrightarrow> w' = w"
  by (auto simp: decide_def Let_def split_beta split: sum.splits)

lemma decide_Inr:
  assumes "decide now mdr i dec reason w = (Inr r, w')"
  obtains report extra kicks d ob p audit where
    "decide_check (wdb w) i dec = Inr report" "apply_decision dec report (wdb w) = Inr (extra, kicks, d)"
    "r = report\<lparr>mr_status := (if dec = ''dismiss'' then dismissed else action_taken), mr_reviewed_by := Some mdr, mr_reviewed_at := Some now\<rparr>"
    "wdb w' = register_event ob EVT_MODERATION_DECISION AGG_MODERATION i p now
       (d\<lparr>moderation_reports := upd_where (\<lambda>r. mr_id r = i) (\<lambda>r. r\<lparr>mr_status := (if dec = ''dismiss'' then dismissed else action_taken),
            mr_reviewed_by := Some mdr, mr_reviewed_at := Some now\<rparr>) (moderation_reports d),
          audit_logs := audit_logs d @ [audit]\<rparr>)"
    "al_actor_user_id audit = Some mdr" "al_entity_id audit = Some i" "al_action audit = ''moderation.decide.'' @ dec"
    "\<exists>w0. w' = fold (\<lambda>(code, pid). broadcast code ''participant.kicked'' (kicked_message pid i)) kicks w0 \<and>
       bus w0 = bus w \<and> wredis w0 = wredis w \<and> tasks w0 = tasks w \<and> next_task w0 = next_task w \<and> active w0 = active w \<and>
       running_task w0 = running_task w"
proof (cases "bind_r (decide_check (wdb w) i dec) (\<lambda>report. bind_r (apply_decision dec report (wdb w)) (\<lambda>x. Inr (report, x)))")
  case Inl
  with assms show ?thesis by (simp add: decide_def)
next
  case (Inr y)
  obtain report extra kicks d where y: "y = (report, extra, kicks, d)" by (cases y)
  have ck: "decide_check (wdb w) i dec = Inr report" "apply_decision dec report (wdb w) = Inr (extra, kicks, d)"
    using Inr by (auto simp: y result_iff)
  define st where "st = (if dec = ''dismiss'' then dismissed else action_taken)"
  define aff where "aff = JObj ([(''decision'', JStr dec), (''reason'', opt_str reason)] @ extra)"
  define audit where "audit = \<lparr>al_id = id_supply w (id_next w), al_actor_user_id = Some mdr, al_action = ''moderation.decide.'' @ dec,
    al_entity_type = ''moderation_report'', al_entity_id = Some i, al_metadata = aff\<rparr>"
  define p where "p = JObj [(''report_id'', JStr (int_str i)), (''decision'', JStr dec), (''reason'', opt_str reason),
                     (''moderator_user_id'', JStr (int_str mdr)), (''status'', JStr (moderation_status_value st)), (''affected'', aff)]"
  define w0 where "w0 = (snd (fresh_id (snd (fresh_id w))))\<lparr>wdb :=
     register_event (id_supply w (Suc (id_next w))) EVT_MODERATION_DECISION AGG_MODERATION i p now
       (d\<lparr>moderation_reports := upd_where (\<lambda>r. mr_id r = i) (\<lambda>r. r\<lparr>mr_status := st, mr_reviewed_by := Some mdr,
            mr_reviewed_at := Some now\<rparr>) (moderation_reports d), audit_logs := audit_logs d @ [audit]\<rparr>)\<rparr>"
  have "decide now mdr i dec reason w = (Inr (report\<lparr>mr_status := st, mr_reviewed_by := Some mdr, mr_reviewed_at := Some now\<rparr>),
      fold (\<lambda>(code, pid). broadcast code ''participant.kicked'' (kicked_message pid i)) kicks w0)"
    by (simp add: decide_def Inr y Let_def register_eq split_beta w0_def p_def audit_def aff_def st_def)
  with assms have r: "r = report\<lparr>mr_status := st, mr_reviewed_by := Some mdr, mr_reviewed_at := Some now\<rparr>"
    and w': "w' = fold (\<lambda>(code, pid). broadcast code ''participant.kicked'' (kicked_message pid i)) kicks w0" by simp_all
  have "wdb w' = wdb w0" unfolding w' by (rule fold_broadcast_frame)
  moreover have "\<exists>w0. w' = fold (\<lambda>(code, pid). broadcast code ''participant.kicked'' (kicked_message pid i)) kicks w0 \<and>
       bus w0 = bus w \<and> wredis w0 = wredis w \<and> tasks w0 = tasks w \<and> next_task w0 = next_task w \<and> active w0 = active w \<and>
       running_task w0 = running_task w" by (rule exI [of _ w0]) (simp add: w' w0_def)
  ultimately show ?thesis
    by (intro that [OF ck, of "id_supply w (Suc (id_next w))" p audit]) (simp_all add: r w0_def st_def audit_def)
qed

lemma apply_decision_frame:
  assumes "apply_decision dec report d = Inr (extra, kicks, d')"
  shows "moderation_reports d' = moderation_reports d" "audit_logs d' = audit_logs d" "outbox_events d' = outbox_events d"
    "matches d' = matches d" "rooms d' = rooms d" "match_questions d' = match_questions d"
    "answer_submissions d' = answer_submissions d" "final_scores d' = final_scores d"
    "dec \<noteq> ''mute'' \<Longrightarrow> room_participants d' = room_participants d \<and> kicks = []"
    "dec \<noteq> ''ban'' \<Longrightarrow> users d' = users d" "dec \<noteq> ''hide'' \<Longrightarrow> quiz_sets d' = quiz_sets d"
  using assms
  by (auto simp: apply_decision_def apply_hide_def apply_mute_def apply_ban_def result_iff Let_def split: if_splits)

lemma find_upd_report:
  "find (\<lambda>r. mr_id r = i) (upd_where (\<lambda>r. mr_id r = i) (\<lambda>r. r\<lparr>mr_status := s, mr_reviewed_by := x, mr_reviewed_at := y\<rparr>) rows) =
     map_option (\<lambda>r. r\<lparr>mr_status := s, mr_reviewed_by := x, mr_reviewed_at := y\<rparr>) (find (\<lambda>r. mr_id r = i) rows)"
  by (induction rows) auto

text \<open>
  A report is decided once.  After a decision returned, any further decision of the same report
  is refused with 409 (422 for an unknown decision) and changes nothing; and the first one wrote exactly one audit row and
  one outbox event for the report, in the transaction that changed its status.
\<close>
theorem decide_once:
  assumes "decide now moderator i dec reason w = (Inr r, w')"
  shows "(\<exists>audit ev. audit_logs (wdb w') = audit_logs (wdb w) @ [audit] \<and> al_actor_user_id audit = Some moderator \<and> al_entity_id audit = Some i \<and>
      outbox_events (wdb w') = outbox_events (wdb w) @ [ev] \<and> ob_event_type ev = EVT_MODERATION_DECISION \<and> ob_aggregate_id ev = i) \<and>
    mr_status r = (if dec = ''dismiss'' then dismissed else action_taken) \<and> get_report (wdb w') i = Some r \<and>
    (\<exists>e. decide now2 moderator2 i dec2 reason2 w' = (Inl e, w') \<and>
       err_status e = (if dec2 \<in> {''dismiss'', ''hide'', ''mute'', ''ban''} then 409 else 422))"
proof -
  from decide_Inr [OF assms] obtain report extra kicks d ob p audit where
    ck: "decide_check (wdb w) i dec = Inr report" and ap: "apply_decision dec report (wdb w) = Inr (extra, kicks, d)"
    and r: "r = report\<lparr>mr_status := (if dec = ''dismiss'' then dismissed else action_taken), mr_reviewed_by := Some moderator, mr_reviewed_at := Some now\<rparr>"
    and d': "wdb w' = register_event ob EVT_MODERATION_DECISION AGG_MODERATION i p now
       (d\<lparr>moderation_reports := upd_where (\<lambda>r. mr_id r = i) (\<lambda>r. r\<lparr>mr_status := (if dec = ''dismiss'' then dismissed else action_taken),
            mr_reviewed_by := Some moderator, mr_reviewed_at := Some now\<rparr>) (moderation_reports d),
          audit_logs := audit_logs d @ [audit]\<rparr>)"
    and au: "al_actor_user_id audit = Some moderator" "al_entity_id audit = Some i" .
  note fr = apply_decision_frame(1-3) [OF ap]
  have g: "get_report (wdb w') i = Some r"
    using ck by (simp add: decide_check_Inr get_report_def d' find_upd_report fr r)
  have st: "mr_status r \<noteq> pending" by (simp add: r)
  have "\<exists>e. decide now2 moderator2 i dec2 reason2 w' = (Inl e, w') \<and>
      err_status e = (if dec2 \<in> {''dismiss'', ''hide'', ''mute'', ''ban''} then 409 else 422)"
    using g st by (auto simp: decide_def decide_check_def DECISIONS_def guard_def)
  moreover have "\<exists>audit ev. audit_logs (wdb w') = audit_logs (wdb w) @ [audit] \<and> al_actor_user_id audit = Some moderator \<and> al_entity_id audit = Some i \<and>
      outbox_events (wdb w') = outbox_events (wdb w) @ [ev] \<and> ob_event_type ev = EVT_MODERATION_DECISION \<and> ob_aggregate_id ev = i"
    using au by (simp add: d' fr)
  ultimately show ?thesis using g by (simp add: r)
qed

definition demo_report :: ModerationReport where
  "demo_report = new_report 70 \<lparr>t_reporter = None, t_room = Some 6, t_user = None, t_quiz = None\<rparr> ''banned_word'' None 0"

definition demo_moderation :: world where
  "demo_moderation = (empty_world (\<lambda>n. 100 + int n))\<lparr>wdb := empty_db\<lparr>moderation_reports := [demo_report],
     rooms := [\<lparr>rm_id = 6, rm_code = ''ROOM'', rm_host_id = 1, rm_quiz_set_id = 2, rm_status = lobby, rm_max_players = 10,
        rm_settings = JObj [], rm_started_at = None, rm_ended_at = None\<rparr>],
     room_participants := [\<lparr>rp_id = 10, rp_room_id = 6, rp_user_id = None, rp_nickname = ''ann'', rp_guest_token_hash = None,
          rp_joined_at = 0, rp_left_at = None, rp_is_kicked = False\<rparr>,
        \<lparr>rp_id = 11, rp_room_id = 6, rp_user_id = None, rp_nickname = ''bob'', rp_guest_token_hash = None,
          rp_joined_at = 0, rp_left_at = None, rp_is_kicked = False\<rparr>]\<rparr>\<rparr>"

lemma demo_decide: "\<exists>r w'. decide 5 9 70 ''mute'' None demo_moderation = (Inr r, w')"
  by (simp add: decide_def decide_check_def DECISIONS_def apply_decision_def apply_mute_def demo_moderation_def demo_report_def
      new_report_def get_report_def Let_def split_beta)

theorem decide_once_witness:
  "\<exists>r w' e. decide 5 9 70 ''mute'' None demo_moderation = (Inr r, w') \<and> mr_status r = action_taken \<and>
     decide 6 9 70 ''ban'' None w' = (Inl e, w') \<and> err_status e = 409"
proof -
  obtain r w' where e: "decide 5 9 70 ''mute'' None demo_moderation = (Inr r, w')" using demo_decide by blast
  from decide_once [OF e, of 6 9 "''ban''" None] e show ?thesis by auto
qed

text \<open>
  A mute kicks exactly the participants it matches.  The kicked participants after the decision are
  those kicked before and the ones present (not left, in an existing room) who match the report's room
  (when it names one) and its user (when it names one), so a report that names only a room kicks
  everyone in it; one \<^verbatim>\<open>participant.kicked\<close> message goes out per newly kicked participant, to its room.
\<close>
theorem mute_kicks_matching:
  assumes "decide now moderator i ''mute'' reason w = (Inr r, w')"
  shows "room_participants (wdb w') = map (\<lambda>p. if rp_left_at p = None \<and> get_room (wdb w) (rp_room_id p) \<noteq> None \<and>
        (mr_room_id r = None \<or> mr_room_id r = Some (rp_room_id p)) \<and>
        (mr_target_user_id r = None \<or> rp_user_id p = mr_target_user_id r)
      then p\<lparr>rp_is_kicked := True\<rparr> else p) (room_participants (wdb w)) \<and>
    (mr_room_id r \<noteq> None \<or> mr_target_user_id r \<noteq> None) \<and>
    map (\<lambda>(c, m). json_get m ''payload'') (bus w') = map (\<lambda>(c, m). json_get m ''payload'') (bus w) @
      map (\<lambda>p. kicked_message (rp_id p) i)
        (filter (\<lambda>p. \<not> rp_is_kicked p \<and> rp_left_at p = None \<and> get_room (wdb w) (rp_room_id p) \<noteq> None \<and>
          (mr_room_id r = None \<or> mr_room_id r = Some (rp_room_id p)) \<and>
          (mr_target_user_id r = None \<or> rp_user_id p = mr_target_user_id r)) (room_participants (wdb w)))"
proof -
  from decide_Inr [OF assms] obtain report extra kicks d ob p audit where
    ap: "apply_decision ''mute'' report (wdb w) = Inr (extra, kicks, d)"
    and r: "r = report\<lparr>mr_status := (if ''mute'' = ''dismiss'' then dismissed else action_taken), mr_reviewed_by := Some moderator, mr_reviewed_at := Some now\<rparr>"
    and d': "wdb w' = register_event ob EVT_MODERATION_DECISION AGG_MODERATION i p now
       (d\<lparr>moderation_reports := upd_where (\<lambda>r. mr_id r = i) (\<lambda>r. r\<lparr>mr_status := (if ''mute'' = ''dismiss'' then dismissed else action_taken),
            mr_reviewed_by := Some moderator, mr_reviewed_at := Some now\<rparr>) (moderation_reports d),
          audit_logs := audit_logs d @ [audit]\<rparr>)"
    and w0: "\<exists>w0. w' = fold (\<lambda>(code, pid). broadcast code ''participant.kicked'' (kicked_message pid i)) kicks w0 \<and>
       bus w0 = bus w \<and> wredis w0 = wredis w \<and> tasks w0 = tasks w \<and> next_task w0 = next_task w \<and> active w0 = active w \<and>
       running_task w0 = running_task w" .
  have k: "kicks = mute_targets report (wdb w)" and g: "mr_room_id report \<noteq> None \<or> mr_target_user_id report \<noteq> None"
    and d: "room_participants d = upd_where (mute_matches report (wdb w)) (\<lambda>p. p\<lparr>rp_is_kicked := True\<rparr>) (room_participants (wdb w))"
    using ap by (auto simp: apply_decision_def apply_mute_def result_iff Let_def)
  have sel: "mr_room_id r = mr_room_id report" "mr_target_user_id r = mr_target_user_id report" by (simp_all add: r)
  have idem: "p\<lparr>rp_is_kicked := True\<rparr> = p" if "rp_is_kicked p" for p using that by simp
  have "room_participants (wdb w') = map (\<lambda>p. if rp_left_at p = None \<and> get_room (wdb w) (rp_room_id p) \<noteq> None \<and>
        (mr_room_id r = None \<or> mr_room_id r = Some (rp_room_id p)) \<and>
        (mr_target_user_id r = None \<or> rp_user_id p = mr_target_user_id r)
      then p\<lparr>rp_is_kicked := True\<rparr> else p) (room_participants (wdb w))"
    using idem by (auto simp: d' d upd_where_def mute_matches_def sel)
  moreover have "map (\<lambda>(c, m). json_get m ''payload'') (bus w') = map (\<lambda>(c, m). json_get m ''payload'') (bus w) @
      map (\<lambda>(c, p). kicked_message p i) kicks"
    using w0 arg_cong [OF fold_broadcast_bus [of "''participant.kicked''" "\<lambda>pid. kicked_message pid i" kicks], of "map (\<lambda>(a, b, c). c)"]
    by (auto simp: comp_def case_prod_unfold)
  moreover have "map (\<lambda>(c, p). kicked_message p i) kicks = map (\<lambda>p. kicked_message (rp_id p) i)
      (filter (mute_matches report (wdb w)) (room_participants (wdb w)))"
    by (simp add: k mute_targets_def)
  moreover have "mute_matches report (wdb w) = (\<lambda>p. \<not> rp_is_kicked p \<and> rp_left_at p = None \<and> get_room (wdb w) (rp_room_id p) \<noteq> None \<and>
          (mr_room_id r = None \<or> mr_room_id r = Some (rp_room_id p)) \<and>
          (mr_target_user_id r = None \<or> rp_user_id p = mr_target_user_id r))"
    by (auto simp: fun_eq_iff mute_matches_def sel)
  ultimately show ?thesis using g by (simp add: sel)
qed

theorem mute_kicks_matching_witness:
  "\<exists>r w'. decide 5 9 70 ''mute'' None demo_moderation = (Inr r, w') \<and> map rp_is_kicked (room_participants (wdb w')) = [True, True]"
proof -
  obtain r w' where e: "decide 5 9 70 ''mute'' None demo_moderation = (Inr r, w')" using demo_decide by blast
  then have "mr_room_id r = Some 6" "mr_target_user_id r = None"
    by (auto simp: decide_def decide_check_def DECISIONS_def apply_decision_def apply_mute_def demo_moderation_def demo_report_def
      new_report_def get_report_def Let_def split_beta)
  with mute_kicks_matching [OF e] e show ?thesis by (simp add: demo_moderation_def get_room_def)
qed

end
