(* ===== verification/RoomService.thy ===== *)
theory RoomService
  imports Moderation
begin

text \<open>
  src/backend/app/services/room_service.py: room codes, creating a room, joining it, and the room
  snapshot.  The random choices behind a code and the token signer are arguments (\<^verbatim>\<open>secrets\<close> and the
  JWT library); \<open>draws k\<close> is what \<^verbatim>\<open>secrets.choice\<close> returns in attempt \<open>k\<close>, as indices.
\<close>

section \<open>Codes\<close>

definition CROCKFORD_ALPHABET :: string where "CROCKFORD_ALPHABET = ''0123456789ABCDEFGHJKMNPQRSTVWXYZ''"
definition CODE_LEN :: nat where "CODE_LEN = 6"
definition CODE_RETRIES :: nat where "CODE_RETRIES = 5"

definition generate_code :: "(nat \<Rightarrow> nat) \<Rightarrow> string" where
  "generate_code choice = map (\<lambda>k. CROCKFORD_ALPHABET ! (choice k mod length CROCKFORD_ALPHABET)) [0 ..< CODE_LEN]"

definition JOIN_CAPACITY :: int where "JOIN_CAPACITY = 10"
definition JOIN_REFILL_PER_SEC :: rat where "JOIN_REFILL_PER_SEC = fl64 (10 / 60)"

section \<open>Snapshot\<close>

definition participant_payload :: "RoomParticipant \<Rightarrow> json" where
  "participant_payload p = JObj [(''participant_id'', JStr (int_str (rp_id p))), (''nickname'', JStr (rp_nickname p)), (''online'', JBool False)]"

definition present :: "int \<Rightarrow> RoomParticipant \<Rightarrow> bool" where
  "present room_id p \<longleftrightarrow> rp_room_id p = room_id \<and> rp_left_at p = None \<and> \<not> rp_is_kicked p"

definition room_snapshot :: "db \<Rightarrow> Room \<Rightarrow> json \<times> int" where
  "room_snapshot d room =
     (let rows = sort_key rp_joined_at (filter (present (rm_id room)) (room_participants d))
      in (JObj [(''room'', JObj [(''code'', JStr (rm_code room)), (''status'', JStr (room_status_value (rm_status room))),
                                 (''player_count'', JInt (int (length rows)))]),
                (''participants'', JArr (map participant_payload rows)), (''match'', JNull), (''leaderboard'', JArr [])],
          int (length rows)))"

section \<open>create room\<close>

record room_create =
  rc_quiz_set_id :: int
  rc_max_players :: int
  rc_settings :: json

definition create_check :: "db \<Rightarrow> int \<Rightarrow> room_create \<Rightarrow> QuizSet result" where
  "create_check d host_id payload =
     bind_r (of_option (AuthError ''VALIDATION_ERROR'' 404 ''quiz set not found'') (get_quiz_set d (rc_quiz_set_id payload))) (\<lambda>quiz.
     bind_r (guard (qs_owner_id quiz = host_id) (AuthError ''FORBIDDEN'' 403 ''not the quiz owner'')) (\<lambda>_.
     bind_r (guard (qs_is_published quiz) (AuthError ''QUIZ_NOT_PUBLISHED'' 409 ''cannot create a room from a draft quiz'')) (\<lambda>_.
     Inr quiz)))"

definition insert_room :: "Room \<Rightarrow> db \<Rightarrow> db option" where
  "insert_room r d =
     (if rm_id r \<in> rm_id ` set (rooms d) \<or> rm_code r \<in> rm_code ` set (rooms d) then None
      else Some (d\<lparr>rooms := rooms d @ [r]\<rparr>))"

text \<open>The loop over \<^verbatim>\<open>_CODE_RETRIES\<close> attempts, each in its own savepoint.\<close>

fun allocate_room ::
  "nat \<Rightarrow> (nat \<Rightarrow> nat \<Rightarrow> nat) \<Rightarrow> int \<Rightarrow> int \<Rightarrow> room_create \<Rightarrow> db \<Rightarrow> world \<Rightarrow> (Room \<times> db) option \<times> world" where
  "allocate_room 0 draws host_id quiz_id payload d w = (None, w)"
| "allocate_room (Suc n) draws host_id quiz_id payload d w =
     (let candidate = generate_code (draws n);
          (i, w) = fresh_id w;
          new_room = \<lparr>rm_id = i, rm_code = candidate, rm_host_id = host_id, rm_quiz_set_id = quiz_id, rm_status = lobby,
            rm_max_players = rc_max_players payload, rm_settings = rc_settings payload, rm_started_at = None, rm_ended_at = None\<rparr>
      in case insert_room new_room d of
           None \<Rightarrow> allocate_room n draws host_id quiz_id payload d w
         | Some d \<Rightarrow> (Some (new_room, d), w))"

definition room_created_event :: "Room \<Rightarrow> json" where
  "room_created_event room =
     JObj [(''room_id'', JStr (int_str (rm_id room))), (''code'', JStr (rm_code room)), (''host_id'', JStr (int_str (rm_host_id room))),
           (''quiz_set_id'', JStr (int_str (rm_quiz_set_id room))), (''max_players'', JInt (rm_max_players room)),
           (''settings'', rm_settings room)]"

definition create_room ::
  "(string \<Rightarrow> int \<Rightarrow> string \<Rightarrow> string) \<Rightarrow> time \<Rightarrow> (nat \<Rightarrow> nat \<Rightarrow> nat) \<Rightarrow> User \<Rightarrow> room_create \<Rightarrow> (Room \<times> string) handler" where
  "create_room create_participant_token now draws host payload w =
     (case create_check (wdb w) (u_id host) payload of
        Inl e \<Rightarrow> (Inl e, w)
      | Inr quiz \<Rightarrow>
        (case allocate_room CODE_RETRIES draws (u_id host) (qs_id quiz) payload (wdb w) w of
           (None, w) \<Rightarrow> (Inl (AuthError ''INTERNAL_ERROR'' 500 ''failed to allocate room code''), w)
         | (Some (room, d), w) \<Rightarrow>
             let (d, w) = register ''RoomCreated'' ''room'' (rm_id room) (room_created_event room) now d w;
                 w = w\<lparr>wdb := d\<rparr>;
                 r = participants_count_init (rm_code room) 0 (wredis w);
                 r = snapshot_write now (rm_code room) (fst (room_snapshot d room)) (rm_status room) r;
                 host_token = create_participant_token (rm_code room) (u_id host) (u_display_name host)
             in (Inr (room, ''/ws/rooms/'' @ rm_code room @ ''?token='' @ host_token), w\<lparr>wredis := r\<rparr>)))"

section \<open>join room\<close>

record join_response =
  jr_participant_id :: int
  jr_room_id :: int
  jr_code :: string
  jr_nickname :: string
  jr_participant_token :: string
  jr_ws_url :: string

definition join_gate :: "db \<Rightarrow> string \<Rightarrow> Room result" where
  "join_gate d code =
     bind_r (of_option (AuthError ''ROOM_NOT_FOUND'' 404 ''room code not found'') (get_room_by_code d code)) (\<lambda>room.
     bind_r (guard (rm_status room = lobby) (AuthError ''ROOM_NOT_JOINABLE'' 409 ''room is not accepting joins'')) (\<lambda>_.
     Inr room))"

definition nickname_key :: "RoomParticipant \<Rightarrow> int \<times> string" where
  "nickname_key p = (rp_room_id p, lower (rp_nickname p))"

definition insert_participant :: "RoomParticipant \<Rightarrow> db \<Rightarrow> db option" where
  "insert_participant p d =
     (if rp_id p \<in> rp_id ` set (room_participants d) \<or> nickname_key p \<in> nickname_key ` set (room_participants d) then None
      else Some (d\<lparr>room_participants := room_participants d @ [p]\<rparr>))"

definition player_joined_event :: "Room \<Rightarrow> RoomParticipant \<Rightarrow> json" where
  "player_joined_event room p =
     JObj [(''room_id'', JStr (int_str (rm_id room))), (''participant_id'', JStr (int_str (rp_id p))),
           (''nickname'', JStr (rp_nickname p)), (''user_id'', opt_id (rp_user_id p))]"

definition join_admitted ::
  "(string \<Rightarrow> int \<Rightarrow> string \<Rightarrow> string) \<Rightarrow> policy \<Rightarrow> time \<Rightarrow> Room \<Rightarrow> string \<Rightarrow> string \<Rightarrow> int option \<Rightarrow> join_response handler" where
  "join_admitted create_participant_token pol now room code nickname user_id w =
     (let (i, w) = fresh_id w;
          participant = \<lparr>rp_id = i, rp_room_id = rm_id room, rp_user_id = user_id, rp_nickname = nickname,
            rp_guest_token_hash = None, rp_joined_at = now, rp_left_at = None, rp_is_kicked = False\<rparr>
      in case insert_participant participant (wdb w) of
           None \<Rightarrow> (Inl (AuthError ''DUPLICATE_NICKNAME'' 409 ''nickname is already taken in this room''),
                     w\<lparr>wredis := snd (participants_count_release code (wredis w))\<rparr>)
         | Some d \<Rightarrow>
           let (d, w) = register ''PlayerJoined'' ''room'' (rm_id room) (player_joined_event room participant) now d w;
               (reports, d, w) = auto_flag_on_join pol now room nickname user_id d w;
               w = w\<lparr>wdb := d\<rparr>;
               w = w\<lparr>wredis := snapshot_write now code (fst (room_snapshot d room)) (rm_status room) (wredis w)\<rparr>;
               token = create_participant_token (rm_code room) i nickname
           in (Inr \<lparr>jr_participant_id = i, jr_room_id = rm_id room, jr_code = rm_code room, jr_nickname = nickname,
                    jr_participant_token = token, jr_ws_url = ''/ws/rooms/'' @ rm_code room @ ''?token='' @ token\<rparr>, w))"

definition join_room ::
  "(string \<Rightarrow> int \<Rightarrow> string \<Rightarrow> string) \<Rightarrow> policy \<Rightarrow> time \<Rightarrow> string \<Rightarrow> string \<Rightarrow> string \<Rightarrow> int option \<Rightarrow> join_response handler" where
  "join_room create_participant_token pol now ip code nickname user_id w =
     (let ((allowed, remaining, retry_ms), bs) =
            acquire (rate_buckets (wredis w)) (join_rate_limit_key ip code) JOIN_CAPACITY JOIN_REFILL_PER_SEC 1 (now div 1000);
          w = w\<lparr>wredis := (wredis w)\<lparr>rate_buckets := bs\<rparr>\<rparr>
      in if \<not> allowed then (Inl (AuthError ''RATE_LIMITED'' 429 ''too many join attempts''), w)
         else case join_gate (wdb w) code of
           Inl e \<Rightarrow> (Inl e, w)
         | Inr room \<Rightarrow>
           let (new_count, r) = participants_count_admit code (rm_max_players room) (wredis w);
               w = w\<lparr>wredis := r\<rparr>
           in if new_count = -1 then (Inl (AuthError ''ROOM_FULL'' 409 ''room is at capacity''), w)
              else join_admitted create_participant_token pol now room code nickname user_id w)"

section \<open>get snapshot\<close>

definition build_snapshot :: "time \<Rightarrow> string \<Rightarrow> json handler" where
  "build_snapshot now code w =
     (case snapshot_read now code (wredis w) of
        Some cached \<Rightarrow> (Inr cached, w)
      | None \<Rightarrow>
        (case get_room_by_code (wdb w) code of
           None \<Rightarrow> (Inl (AuthError ''ROOM_NOT_FOUND'' 404 ''room code not found''), w)
         | Some room \<Rightarrow>
             let (snapshot, n) = room_snapshot (wdb w) room;
                 r = participants_count_init code n (wredis w);
                 r = snapshot_write now code snapshot (rm_status room) r
             in (Inr snapshot, w\<lparr>wredis := r\<rparr>)))"

section \<open>Lemmas\<close>

lemma snapshot_write_frame [simp]:
  "room_counts (snapshot_write t c s st r) = room_counts r" "leaderboards (snapshot_write t c s st r) = leaderboards r"
  "idem (snapshot_write t c s st r) = idem r"
  by (simp_all add: snapshot_write_def)

lemma count_of_frames [simp]:
  "count_of (snapshot_write t c s st r) = count_of r" "count_of (r\<lparr>rate_buckets := b\<rparr>) = count_of r"
  "count_of (participants_count_init c n r) c' = (if c' = c then n else count_of r c')"
  "leaderboards (participants_count_init c n r) = leaderboards r"
  "leaderboards (snd (participants_count_admit c m r)) = leaderboards r"
  "leaderboards (snd (participants_count_release c r)) = leaderboards r"
  by (auto simp: count_of_def fun_eq_iff participants_count_init_def participants_count_admit_def participants_count_release_def Let_def)

lemma join_gate_Inr: "join_gate d code = Inr room \<longleftrightarrow> get_room_by_code d code = Some room \<and> rm_status room = lobby"
  by (auto simp: join_gate_def result_iff)

lemma insert_participant_Some:
  "insert_participant p d = Some d' \<longleftrightarrow> rp_id p \<notin> rp_id ` set (room_participants d) \<and>
     nickname_key p \<notin> nickname_key ` set (room_participants d) \<and> d' = d\<lparr>room_participants := room_participants d @ [p]\<rparr>"
  by (auto simp: insert_participant_def)

lemma join_admitted_Inl:
  "join_admitted tok pol now room code nick uid w = (Inl e, w') \<Longrightarrow>
     w' = (snd (fresh_id w))\<lparr>wredis := snd (participants_count_release code (wredis w))\<rparr>"
  by (auto simp: join_admitted_def Let_def split_beta split: option.splits)

lemma join_admitted_Inr:
  assumes "join_admitted tok pol now room code nick uid w = (Inr j, w')"
  obtains p es rs ev where
    "p = \<lparr>rp_id = id_supply w (id_next w), rp_room_id = rm_id room, rp_user_id = uid, rp_nickname = nick,
          rp_guest_token_hash = None, rp_joined_at = now, rp_left_at = None, rp_is_kicked = False\<rparr>"
    "rp_id p \<notin> rp_id ` set (room_participants (wdb w))" "nickname_key p \<notin> nickname_key ` set (room_participants (wdb w))"
    "wdb w' = (wdb w)\<lparr>room_participants := room_participants (wdb w) @ [p], moderation_reports := moderation_reports (wdb w) @ rs,
       outbox_events := outbox_events (wdb w) @ ev # es\<rparr>"
    "ob_event_type ev = ''PlayerJoined''" "ob_aggregate_id ev = rm_id room" "\<forall>e \<in> set es. ob_event_type e = EVT_CONTENT_FLAGGED"
    "wredis w' = snapshot_write now code (fst (room_snapshot (wdb w') room)) (rm_status room) (wredis w)"
    "tasks w' = tasks w" "next_task w' = next_task w" "active w' = active w" "running_task w' = running_task w"
    "jr_participant_id j = rp_id p" "jr_room_id j = rm_id room" "jr_nickname j = nick"
proof -
  define p where "p = \<lparr>rp_id = id_supply w (id_next w), rp_room_id = rm_id room, rp_user_id = uid, rp_nickname = nick,
          rp_guest_token_hash = None, rp_joined_at = now, rp_left_at = None, rp_is_kicked = False\<rparr>"
  define w1 where "w1 = snd (fresh_id w)"
  define ev where "ev = outbox_row (id_supply w1 (id_next w1)) ''PlayerJoined'' ''room'' (rm_id room) (player_joined_event room p) now"
  define d0 where "d0 = (wdb w)\<lparr>room_participants := room_participants (wdb w) @ [p]\<rparr>"
  define d1 where "d1 = register_event (id_supply w1 (id_next w1)) ''PlayerJoined'' ''room'' (rm_id room) (player_joined_event room p) now d0"
  obtain rs d2 w2 where fl: "auto_flag_on_join pol now room nick uid d1 (snd (fresh_id w1)) = (rs, d2, w2)"
    by (cases "auto_flag_on_join pol now room nick uid d1 (snd (fresh_id w1))")
  have ins: "insert_participant p (wdb w) = Some d0"
    using assms by (auto simp: join_admitted_def Let_def split_beta p_def d0_def insert_participant_Some split: option.splits)
  have eq: "join_admitted tok pol now room code nick uid w =
      (Inr \<lparr>jr_participant_id = rp_id p, jr_room_id = rm_id room, jr_code = rm_code room, jr_nickname = nick,
          jr_participant_token = tok (rm_code room) (rp_id p) nick,
          jr_ws_url = ''/ws/rooms/'' @ rm_code room @ ''?token='' @ tok (rm_code room) (rp_id p) nick\<rparr>,
       w2\<lparr>wdb := d2, wredis := snapshot_write now code (fst (room_snapshot d2 room)) (rm_status room) (wredis w2)\<rparr>)"
    using ins fl by (simp add: join_admitted_def Let_def split_beta register_eq p_def w1_def d1_def)
  from persist_flags_effect [OF fl [unfolded auto_flag_on_join_def]] obtain es where
    f: "d2 = d1\<lparr>moderation_reports := moderation_reports d1 @ rs, outbox_events := outbox_events d1 @ es\<rparr>"
      "\<forall>e \<in> set es. ob_event_type e = EVT_CONTENT_FLAGGED"
      "wredis w2 = wredis w1" "tasks w2 = tasks w1" "next_task w2 = next_task w1" "active w2 = active w1"
      "running_task w2 = running_task w1" by auto
  have d2: "d2 = (wdb w)\<lparr>room_participants := room_participants (wdb w) @ [p], moderation_reports := moderation_reports (wdb w) @ rs,
       outbox_events := outbox_events (wdb w) @ ev # es\<rparr>"
    by (simp add: f(1) d1_def d0_def register_event_def ev_def)
  show ?thesis
    by (rule that [where p = p and rs = rs and ev = ev and es = es]) (use assms eq ins f d2 in \<open>auto simp: p_def insert_participant_Some ev_def w1_def\<close>)
qed

lemma join_room_cases:
  assumes "join_room tok pol now ip code nick uid w = (res, w')" "0 \<le> count_of (wredis w) code"
  obtains (refused) e bs where "res = Inl e" "w' = w\<lparr>wredis := (wredis w)\<lparr>rate_buckets := bs\<rparr>\<rparr>"
  | (admitted) bs room where "join_gate (wdb w) code = Inr room" "count_of (wredis w) code < rm_max_players room"
      "join_admitted tok pol now room code nick uid
        (w\<lparr>wredis := snd (participants_count_admit code (rm_max_players room) ((wredis w)\<lparr>rate_buckets := bs\<rparr>))\<rparr>) = (res, w')"
proof -
  obtain allowed a b bs where ac: "acquire (rate_buckets (wredis w)) (join_rate_limit_key ip code) JOIN_CAPACITY JOIN_REFILL_PER_SEC 1 (now div 1000) =
    ((allowed, a, b), bs)" by (metis prod_cases3 surj_pair)
  define w1 where "w1 = w\<lparr>wredis := (wredis w)\<lparr>rate_buckets := bs\<rparr>\<rparr>"
  show ?thesis
  proof (cases "allowed \<and> (\<exists>room. join_gate (wdb w) code = Inr room)")
    case False
    then have "\<exists>e. res = Inl e" "w' = w1"
      using assms(1) by (auto simp: join_room_def ac Let_def w1_def split: sum.splits if_splits)
    then show ?thesis using refused by (auto simp: w1_def)
  next
    case True
    then obtain room where g: "join_gate (wdb w) code = Inr room" and al: "allowed" by blast
    let ?adm = "participants_count_admit code (rm_max_players room) (wredis w1)"
    have j: "(if fst ?adm = - 1 then (Inl (AuthError ''ROOM_FULL'' 409 ''room is at capacity''), w1\<lparr>wredis := snd ?adm\<rparr>)
        else join_admitted tok pol now room code nick uid (w1\<lparr>wredis := snd ?adm\<rparr>)) = (res, w')"
      using assms(1) al g by (simp add: join_room_def ac Let_def w1_def split_beta cong: if_cong)
    have c: "count_of (wredis w1) code = count_of (wredis w) code" by (simp add: w1_def)
    show ?thesis
    proof (cases "rm_max_players room \<le> count_of (wredis w) code")
      case True
      then have "?adm = (- 1, wredis w1)" using seats.admit_full [of "rm_max_players room" "wredis w1" code] c by simp
      with j show ?thesis using refused by (auto simp: w1_def)
    next
      case False
      then have "fst ?adm = count_of (wredis w) code + 1" using seats.admit_free [of "wredis w1" code "rm_max_players room"] c by simp
      with assms(2) j False g show ?thesis using admitted by (simp add: w1_def)
    qed
  qed
qed

text \<open>
  C34: joining takes exactly one seat or nothing.  A join that is refused (rate limit, unknown or started
  room, full room, taken nickname) leaves the database and every seat counter as they were, the
  nickname collision included, whose seat is given back.  A join that succeeds found a free seat in a
  lobby, takes one seat of that room and no other, adds one participant with a nickname new in the
  room up to letter case, and writes its \<^verbatim>\<open>PlayerJoined\<close> event in the same transaction.
\<close>
theorem join_room_seat:
  assumes "0 \<le> count_of (wredis w) code"
  shows "case join_room tok pol now ip code nick uid w of
     (Inl e, w') \<Rightarrow> wdb w' = wdb w \<and> (\<forall>c. count_of (wredis w') c = count_of (wredis w) c)
   | (Inr j, w') \<Rightarrow> (\<exists>room p ev es. get_room_by_code (wdb w) code = Some room \<and> rm_status room = lobby \<and>
       count_of (wredis w) code < rm_max_players room \<and>
       (\<forall>c. count_of (wredis w') c = count_of (wredis w) c + (if c = code then 1 else 0)) \<and>
       room_participants (wdb w') = room_participants (wdb w) @ [p] \<and> rp_room_id p = rm_id room \<and> rp_nickname p = nick \<and>
       rp_id p = jr_participant_id j \<and> present (rm_id room) p \<and>
       (\<forall>q \<in> set (room_participants (wdb w)). rp_room_id q = rm_id room \<longrightarrow> lower (rp_nickname q) \<noteq> lower nick) \<and>
       outbox_events (wdb w') = outbox_events (wdb w) @ ev # es \<and> ob_event_type ev = ''PlayerJoined'')"
proof (cases "join_room tok pol now ip code nick uid w")
  case (Pair res w')
  show ?thesis
    using Pair assms
  proof (cases rule: join_room_cases)
    case (refused e bs)
    then show ?thesis by (simp add: Pair)
  next
    case (admitted bs room)
    let ?r = "(wredis w)\<lparr>rate_buckets := bs\<rparr>"
    let ?w1 = "w\<lparr>wredis := snd (participants_count_admit code (rm_max_players room) ?r)\<rparr>"
    have free: "count_of ?r code < rm_max_players room" "0 \<le> count_of ?r code" using admitted(2) assms by simp_all
    have g: "get_room_by_code (wdb w) code = Some room" "rm_status room = lobby" using admitted(1) by (simp_all add: join_gate_Inr)
    show ?thesis
    proof (cases res)
      case (Inl e)
      from join_admitted_Inl [OF admitted(3) [unfolded Inl]] seats.admit_release [OF free(2,1)] show ?thesis
        by (simp add: Pair Inl)
    next
      case (Inr j)
      from join_admitted_Inr [OF admitted(3) [unfolded Inr]] obtain p es rs ev where
        p: "p = \<lparr>rp_id = id_supply ?w1 (id_next ?w1), rp_room_id = rm_id room, rp_user_id = uid, rp_nickname = nick,
          rp_guest_token_hash = None, rp_joined_at = now, rp_left_at = None, rp_is_kicked = False\<rparr>"
        and nk: "nickname_key p \<notin> nickname_key ` set (room_participants (wdb ?w1))"
        and d: "wdb w' = (wdb ?w1)\<lparr>room_participants := room_participants (wdb ?w1) @ [p], moderation_reports := moderation_reports (wdb ?w1) @ rs,
           outbox_events := outbox_events (wdb ?w1) @ ev # es\<rparr>"
        and ev: "ob_event_type ev = ''PlayerJoined''"
        and r: "wredis w' = snapshot_write now code (fst (room_snapshot (wdb w') room)) (rm_status room) (wredis ?w1)"
        and j: "jr_participant_id j = rp_id p" .
      have "\<forall>q \<in> set (room_participants (wdb w)). rp_room_id q = rm_id room \<longrightarrow> lower (rp_nickname q) \<noteq> lower nick"
        using nk by (force simp: p nickname_key_def)
      moreover have "\<forall>c. count_of (wredis w') c = count_of (wredis w) c + (if c = code then 1 else 0)"
        using seats.count_admit [OF free(1)] by (simp add: r)
      moreover have "present (rm_id room) p" by (simp add: p present_def)
      ultimately show ?thesis using g admitted(2) d ev j by (simp add: Pair Inr p)
    qed
  qed
qed

definition demo_room :: world where
  "demo_room = (empty_world (\<lambda>n. 100 + int n))\<lparr>wdb := empty_db\<lparr>rooms := [\<lparr>rm_id = 6, rm_code = ''ROOM'', rm_host_id = 1,
     rm_quiz_set_id = 2, rm_status = lobby, rm_max_players = 2, rm_settings = JObj [], rm_started_at = None, rm_ended_at = None\<rparr>]\<rparr>\<rparr>"

theorem join_room_seat_witness:
  "\<exists>j w'. join_room (\<lambda>_ _ _. ''t'') \<lparr>policy_words = [], policy_patterns = []\<rparr> 0 ''ip'' ''ROOM'' ''ann'' None demo_room = (Inr j, w') \<and>
     count_of (wredis w') ''ROOM'' = 1 \<and> map rp_nickname (room_participants (wdb w')) = [''ann'']"
proof -
  let ?j = "join_room (\<lambda>_ _ _. ''t'') \<lparr>policy_words = [], policy_patterns = []\<rparr> 0 ''ip'' ''ROOM'' ''ann'' None demo_room"
  have c: "count_of (wredis demo_room) x = 0" for x by (simp add: demo_room_def count_of_def exec)
  have p: "room_participants (wdb demo_room) = []" by (simp add: demo_room_def exec)
  have "\<exists>j w'. ?j = (Inr j, w')"
    by (simp add: join_room_def acquire_def rate_limit_lua_def refill_def live_bucket_def JOIN_CAPACITY_def join_gate_def
        participants_count_admit_def count_of_def join_admitted_def insert_participant_def demo_room_def exec split_beta)
  then obtain j w' where j: "?j = (Inr j, w')" by blast
  from join_room_seat [where w = demo_room and code = "''ROOM''" and tok = "\<lambda>_ _ _. ''t''" and now = 0 and ip = "''ip''" and
      nick = "''ann''" and uid = None and pol = "\<lparr>policy_words = [], policy_patterns = []\<rparr>"] c p j
  show ?thesis by auto
qed

section \<open>create room\<close>

lemma allocate_room_Some:
  assumes "allocate_room n draws h q payload d w = (Some (room, d'), w')"
  shows "d' = d\<lparr>rooms := rooms d @ [room]\<rparr> \<and> rm_id room \<notin> rm_id ` set (rooms d) \<and> rm_code room \<notin> rm_code ` set (rooms d) \<and>
    rm_status room = lobby \<and> rm_host_id room = h \<and> rm_quiz_set_id room = q \<and> rm_max_players room = rc_max_players payload \<and>
    (\<exists>c. rm_code room = generate_code c)"
  using assms
  by (induction n arbitrary: w) (auto simp: Let_def split_beta insert_room_def split: option.splits if_splits)

lemma allocate_room_frame:
  "allocate_room n draws h q payload d w = (x, w') \<Longrightarrow>
     wdb w' = wdb w \<and> wredis w' = wredis w \<and> tasks w' = tasks w \<and> next_task w' = next_task w \<and> active w' = active w \<and>
     running_task w' = running_task w \<and> bus w' = bus w"
  by (induction n arbitrary: w) (fastforce simp: Let_def split_beta split: option.splits)+

lemma create_check_Inr:
  "create_check d h payload = Inr quiz \<longleftrightarrow> get_quiz_set d (rc_quiz_set_id payload) = Some quiz \<and> qs_owner_id quiz = h \<and> qs_is_published quiz"
  by (auto simp: create_check_def result_iff)

lemma generate_code_shape: "length (generate_code c) = 6 \<and> set (generate_code c) \<subseteq> set CROCKFORD_ALPHABET"
proof
  have "0 < length CROCKFORD_ALPHABET" by (simp add: CROCKFORD_ALPHABET_def)
  then show "set (generate_code c) \<subseteq> set CROCKFORD_ALPHABET" by (auto simp: generate_code_def)
qed (simp add: generate_code_def CODE_LEN_def)

lemma create_room_Inr:
  assumes "create_room tok now draws host payload w = (Inr (room, url), w')"
  obtains ob quiz where "create_check (wdb w) (u_id host) payload = Inr quiz"
    "rm_id room \<notin> rm_id ` set (rooms (wdb w))" "rm_code room \<notin> rm_code ` set (rooms (wdb w))" "rm_status room = lobby"
    "rm_host_id room = u_id host" "rm_max_players room = rc_max_players payload" "\<exists>c. rm_code room = generate_code c"
    "wdb w' = register_event ob ''RoomCreated'' ''room'' (rm_id room) (room_created_event room) now ((wdb w)\<lparr>rooms := rooms (wdb w) @ [room]\<rparr>)"
    "wredis w' = snapshot_write now (rm_code room) (fst (room_snapshot (wdb w') room)) (rm_status room) (participants_count_init (rm_code room) 0 (wredis w))"
    "tasks w' = tasks w" "next_task w' = next_task w" "active w' = active w" "running_task w' = running_task w"
proof (cases "create_check (wdb w) (u_id host) payload")
  case Inl
  with assms show ?thesis by (simp add: create_room_def)
next
  case (Inr quiz)
  obtain x w1 where al: "allocate_room CODE_RETRIES draws (u_id host) (qs_id quiz) payload (wdb w) w = (x, w1)"
    by (cases "allocate_room CODE_RETRIES draws (u_id host) (qs_id quiz) payload (wdb w) w")
  obtain room1 d where x: "x = Some (room1, d)" using assms by (cases x) (auto simp: create_room_def Inr al)
  have rm: "room1 = room" using assms by (simp add: create_room_def Inr al x Let_def split_beta)
  note a = allocate_room_Some [OF al [unfolded x rm]] allocate_room_frame [OF al]
  show ?thesis
    by (rule that [of quiz]) (use a assms in \<open>auto simp: create_room_def Inr al x Let_def register_eq rm\<close>)
qed

text \<open>
  A created room has a fresh code.  On success exactly one room is added, in the lobby, owned by the
  caller, whose quiz is published and the caller's own; its code has six letters of the Crockford
  alphabet and no other room has it; its seat counter is 0; one \<^verbatim>\<open>RoomCreated\<close> event is written in the
  same transaction.  An error changes neither the database nor Redis.
\<close>
theorem create_room_outcome:
  "case create_room tok now draws host payload w of
     (Inl e, w') \<Rightarrow> wdb w' = wdb w \<and> wredis w' = wredis w
   | (Inr (room, url), w') \<Rightarrow> rooms (wdb w') = rooms (wdb w) @ [room] \<and> rm_status room = lobby \<and> rm_host_id room = u_id host \<and>
       (\<exists>quiz. get_quiz_set (wdb w) (rc_quiz_set_id payload) = Some quiz \<and> qs_owner_id quiz = u_id host \<and> qs_is_published quiz) \<and>
       length (rm_code room) = 6 \<and> set (rm_code room) \<subseteq> set CROCKFORD_ALPHABET \<and> rm_code room \<notin> rm_code ` set (rooms (wdb w)) \<and>
       count_of (wredis w') (rm_code room) = 0 \<and>
       (\<exists>ev. outbox_events (wdb w') = outbox_events (wdb w) @ [ev] \<and> ob_event_type ev = ''RoomCreated'' \<and> ob_aggregate_id ev = rm_id room)"
proof (cases "create_room tok now draws host payload w")
  case (Pair res w')
  show ?thesis
  proof (cases res)
    case (Inl e)
    have "wdb w' = wdb w \<and> wredis w' = wredis w"
      using Pair Inl allocate_room_frame
      by (fastforce simp: create_room_def Let_def register_eq split: sum.splits prod.splits option.splits)
    then show ?thesis by (simp add: Pair Inl)
  next
    case (Inr y)
    obtain room url where y: "y = (room, url)" by (cases y)
    from create_room_Inr [OF Pair [unfolded Inr y]] obtain ob quiz where
      "create_check (wdb w) (u_id host) payload = Inr quiz" "rm_code room \<notin> rm_code ` set (rooms (wdb w))" "rm_status room = lobby"
      "rm_host_id room = u_id host" and c: "\<exists>c. rm_code room = generate_code c"
      and "wdb w' = register_event ob ''RoomCreated'' ''room'' (rm_id room) (room_created_event room) now ((wdb w)\<lparr>rooms := rooms (wdb w) @ [room]\<rparr>)"
      "wredis w' = snapshot_write now (rm_code room) (fst (room_snapshot (wdb w') room)) (rm_status room) (participants_count_init (rm_code room) 0 (wredis w))" .
    moreover have "length (rm_code room) = 6 \<and> set (rm_code room) \<subseteq> set CROCKFORD_ALPHABET" using c generate_code_shape by metis
    ultimately show ?thesis by (simp add: Pair Inr y create_check_Inr)
  qed
qed

end
