(* ===== verification/QuizService.thy ===== *)
theory QuizService
  imports Moderation
begin

text \<open>
  src/backend/app/services/quiz_service.py and src/backend/app/repositories/quiz_repo.py: quiz sets and
  their tags, questions and their positions, publishing.  The unique constraint on
  \<^verbatim>\<open>(quiz_set_id, position)\<close> is not deferrable, so a set-based \<^verbatim>\<open>UPDATE\<close> is modelled row by row
  (\<open>update_rows\<close>): each row is checked against the table as it is at that moment, and the first clash
  is \<^verbatim>\<open>IntegrityError\<close>.  The table order is arbitrary, so this covers every order in which the
  database may visit the rows.  Trigram similarity is a database function: an argument of the list query.
\<close>

section \<open>Row-by-row update\<close>

fun update_rows :: "('a \<Rightarrow> bool) \<Rightarrow> ('a \<Rightarrow> 'a) \<Rightarrow> ('a \<Rightarrow> 'k) \<Rightarrow> 'a list \<Rightarrow> 'a list \<Rightarrow> 'a list option" where
  "update_rows P f k seen [] = Some seen"
| "update_rows P f k seen (r # rs) =
     (if P r
      then (if k (f r) \<in> k ` set (seen @ rs) then None else update_rows P f k (seen @ [f r]) rs)
      else update_rows P f k (seen @ [r]) rs)"

definition question_key :: "Question \<Rightarrow> int \<times> int" where
  "question_key q = (q_quiz_set_id q, q_position q)"

definition update_questions :: "(Question \<Rightarrow> bool) \<Rightarrow> (int \<Rightarrow> int) \<Rightarrow> Question list \<Rightarrow> Question list option" where
  "update_questions P f = update_rows P (\<lambda>q. q\<lparr>q_position := f (q_position q)\<rparr>) question_key []"

section \<open>QuizRepo: positions\<close>

definition SHIFT_SENTINEL :: int where "SHIFT_SENTINEL = 1000000"
definition PARK_POSITION :: int where "PARK_POSITION = SHIFT_SENTINEL - 1"

definition max_question_position :: "int \<Rightarrow> Question list \<Rightarrow> int" where
  "max_question_position quiz_set_id qs =
     (case map q_position (filter (\<lambda>q. q_quiz_set_id q = quiz_set_id) qs) of [] \<Rightarrow> 0 | ps \<Rightarrow> fold max (tl ps) (hd ps))"

definition shift_question_positions :: "int \<Rightarrow> int \<Rightarrow> int \<Rightarrow> Question list \<Rightarrow> Question list option" where
  "shift_question_positions quiz_set_id from_position by qs =
     Option.bind (update_questions (\<lambda>q. q_quiz_set_id q = quiz_set_id \<and> from_position \<le> q_position q \<and> q_position q < SHIFT_SENTINEL)
         (\<lambda>p. p + SHIFT_SENTINEL) qs)
       (update_questions (\<lambda>q. q_quiz_set_id q = quiz_set_id \<and> SHIFT_SENTINEL \<le> q_position q) (\<lambda>p. p - SHIFT_SENTINEL + by))"

definition renumber_after_delete :: "int \<Rightarrow> int \<Rightarrow> Question list \<Rightarrow> Question list option" where
  "renumber_after_delete quiz_set_id deleted_position qs =
     Option.bind (update_questions (\<lambda>q. q_quiz_set_id q = quiz_set_id \<and> deleted_position < q_position q \<and> q_position q < SHIFT_SENTINEL)
         (\<lambda>p. p + SHIFT_SENTINEL) qs)
       (update_questions (\<lambda>q. q_quiz_set_id q = quiz_set_id \<and> SHIFT_SENTINEL \<le> q_position q) (\<lambda>p. p - SHIFT_SENTINEL - 1))"

definition move_question_to :: "Question \<Rightarrow> int \<Rightarrow> Question list \<Rightarrow> Question list option" where
  "move_question_to question new_position qs =
     (let old_position = q_position question; sid = q_quiz_set_id question; qid = q_id question in
      if new_position = old_position then Some qs
      else
        Option.bind (update_questions (\<lambda>q. q_id q = qid) (\<lambda>_. PARK_POSITION) qs) (\<lambda>qs.
        let (affected, delta) = (if new_position < old_position
              then (\<lambda>q. new_position \<le> q_position q \<and> q_position q < old_position, 1)
              else (\<lambda>q. old_position < q_position q \<and> q_position q \<le> new_position, -1)) in
        Option.bind (update_questions (\<lambda>q. q_quiz_set_id q = sid \<and> affected q \<and> q_id q \<noteq> qid \<and> q_position q < SHIFT_SENTINEL)
            (\<lambda>p. p + SHIFT_SENTINEL) qs) (\<lambda>qs.
        Option.bind (update_questions (\<lambda>q. q_quiz_set_id q = sid \<and> SHIFT_SENTINEL \<le> q_position q \<and> q_id q \<noteq> qid)
            (\<lambda>p. p - SHIFT_SENTINEL + delta) qs) (\<lambda>qs.
        update_questions (\<lambda>q. q_id q = qid) (\<lambda>_. new_position) qs))))"

section \<open>QuizRepo: tags, options, lists\<close>

definition upsert_tag :: "int \<Rightarrow> string \<Rightarrow> db \<Rightarrow> int \<times> db" where
  "upsert_tag tag_id name d =
     (case find (\<lambda>t. qt_name t = name) (quiz_tags d) of
        Some t \<Rightarrow> (qt_id t, d)
      | None \<Rightarrow> (tag_id, d\<lparr>quiz_tags := quiz_tags d @ [\<lparr>qt_id = tag_id, qt_name = name\<rparr>]\<rparr>))"

fun resolve_tags :: "string list \<Rightarrow> (string \<times> int) list \<Rightarrow> db \<Rightarrow> world \<Rightarrow> int list \<times> db \<times> world" where
  "resolve_tags [] seen d w = (map snd seen, d, w)"
| "resolve_tags (raw # names) seen d w =
     (let name = lower (strip raw) in
      if name = [] \<or> map_of seen name \<noteq> None then resolve_tags names seen d w
      else let (i, w) = fresh_id w; (tid, d) = upsert_tag i name d
           in resolve_tags names (seen @ [(name, tid)]) d w)"

definition replace_quiz_tags :: "int \<Rightarrow> int list \<Rightarrow> db \<Rightarrow> db" where
  "replace_quiz_tags quiz_set_id tag_ids d =
     d\<lparr>quiz_set_tags := filter (\<lambda>t. qst_quiz_set_id t \<noteq> quiz_set_id) (quiz_set_tags d) @
         map (\<lambda>t. \<lparr>qst_quiz_set_id = quiz_set_id, qst_tag_id = t\<rparr>) tag_ids\<rparr>"

definition option_key :: "AnswerOption \<Rightarrow> int \<times> int" where
  "option_key ao = (ao_question_id ao, ao_position ao)"

definition insert_options :: "AnswerOption list \<Rightarrow> db \<Rightarrow> db option" where
  "insert_options opts d =
     (if unique_by option_key (answer_options d @ opts) \<and> unique_by ao_id (answer_options d @ opts)
      then Some (d\<lparr>answer_options := answer_options d @ opts\<rparr>) else None)"

definition replace_options :: "int \<Rightarrow> AnswerOption list \<Rightarrow> db \<Rightarrow> db option" where
  "replace_options question_id opts d =
     insert_options opts (d\<lparr>answer_options := filter (\<lambda>ao. ao_question_id ao \<noteq> question_id) (answer_options d)\<rparr>)"

definition has_tag :: "db \<Rightarrow> string \<Rightarrow> int \<Rightarrow> bool" where
  "has_tag d tag quiz_set_id \<longleftrightarrow>
     (\<exists>x \<in> set (quiz_set_tags d). qst_quiz_set_id x = quiz_set_id \<and>
        (\<exists>t \<in> set (quiz_tags d). qt_id t = qst_tag_id x \<and> qt_name t = tag))"

definition visible_in_list :: "int option \<Rightarrow> QuizSet \<Rightarrow> bool" where
  "visible_in_list viewer_id s \<longleftrightarrow> qs_visibility s = vis_public \<and> qs_is_published s \<or> viewer_id = Some (qs_owner_id s)"

definition list_for_viewer ::
  "(string \<Rightarrow> string \<Rightarrow> rat) \<Rightarrow> rat \<Rightarrow> db \<Rightarrow> int option \<Rightarrow> string option \<Rightarrow> int option \<Rightarrow> string option \<Rightarrow> nat \<Rightarrow> nat \<Rightarrow> (QuizSet \<times> nat) list" where
  "list_for_viewer similarity threshold d viewer_id q owner_id tag limit offset =
     (let rows = filter (visible_in_list viewer_id) (quiz_sets d);
          rows = (case q of None \<Rightarrow> sort_key (\<lambda>s. - qs_created_at s) rows
            | Some t \<Rightarrow> if t = [] then sort_key (\<lambda>s. - qs_created_at s) rows
                else sort_key (\<lambda>s. (- similarity (qs_title s) t, - qs_created_at s))
                  (filter (\<lambda>s. threshold \<le> similarity (qs_title s) t) rows));
          rows = (case owner_id of None \<Rightarrow> rows | Some i \<Rightarrow> filter (\<lambda>s. qs_owner_id s = i) rows);
          rows = (case tag of None \<Rightarrow> rows | Some t \<Rightarrow> if t = [] then rows else filter (\<lambda>s. has_tag d t (qs_id s)) rows)
      in map (\<lambda>s. (s, length (filter (\<lambda>q. q_quiz_set_id q = qs_id s) (questions d)))) (take limit (drop offset rows)))"

section \<open>Quiz sets\<close>

definition load_owned_quiz :: "db \<Rightarrow> int \<Rightarrow> int \<Rightarrow> QuizSet result" where
  "load_owned_quiz d owner_id quiz_set_id =
     bind_r (of_option (AuthError ''VALIDATION_ERROR'' 404 ''quiz set not found'') (get_quiz_set d quiz_set_id)) (\<lambda>s.
     bind_r (guard (qs_owner_id s = owner_id) (AuthError ''FORBIDDEN'' 403 ''not the quiz owner'')) (\<lambda>_. Inr s))"

record quiz_create =
  qc_title :: string
  qc_description :: "string option"
  qc_visibility :: QuizVisibility
  qc_tags :: "string list"

definition create_quiz_set :: "time \<Rightarrow> int \<Rightarrow> quiz_create \<Rightarrow> QuizSet handler" where
  "create_quiz_set now owner_id payload w =
     (let (i, w) = fresh_id w;
          quiz = \<lparr>qs_id = i, qs_owner_id = owner_id, qs_title = qc_title payload, qs_description = qc_description payload,
            qs_visibility = qc_visibility payload, qs_is_published = False, qs_version = 1, qs_created_at = now\<rparr>;
          d = (wdb w)\<lparr>quiz_sets := quiz_sets (wdb w) @ [quiz]\<rparr>;
          (d, w) = (if qc_tags payload = [] then (d, w)
            else let (tag_ids, d, w) = resolve_tags (qc_tags payload) [] d w in (replace_quiz_tags i tag_ids d, w))
      in (Inr quiz, w\<lparr>wdb := d\<rparr>))"

record quiz_update =
  qu_title :: "string option"
  qu_description :: "string option"
  qu_visibility :: "QuizVisibility option"
  qu_tags :: "string list option"

definition apply_quiz_update :: "quiz_update \<Rightarrow> QuizSet \<Rightarrow> QuizSet" where
  "apply_quiz_update u s = s
     \<lparr>qs_title := (case qu_title u of None \<Rightarrow> qs_title s | Some t \<Rightarrow> t),
      qs_description := (case qu_description u of None \<Rightarrow> qs_description s | Some t \<Rightarrow> Some t),
      qs_visibility := (case qu_visibility u of None \<Rightarrow> qs_visibility s | Some v \<Rightarrow> v),
      qs_version := qs_version s + 1\<rparr>"

definition update_quiz_set :: "int \<Rightarrow> int \<Rightarrow> quiz_update \<Rightarrow> QuizSet handler" where
  "update_quiz_set owner_id quiz_set_id payload w =
     (case load_owned_quiz (wdb w) owner_id quiz_set_id of
        Inl e \<Rightarrow> (Inl e, w)
      | Inr quiz \<Rightarrow>
        let (d, w) = (case qu_tags payload of None \<Rightarrow> (wdb w, w)
              | Some names \<Rightarrow> let (tag_ids, d, w) = resolve_tags names [] (wdb w) w in (replace_quiz_tags (qs_id quiz) tag_ids d, w));
            d = d\<lparr>quiz_sets := upd_where (\<lambda>s. qs_id s = quiz_set_id) (apply_quiz_update payload) (quiz_sets d)\<rparr>
        in (Inr (apply_quiz_update payload quiz), w\<lparr>wdb := d\<rparr>))"

definition get_quiz_for_viewer :: "db \<Rightarrow> int option \<Rightarrow> int \<Rightarrow> (QuizSet \<times> bool) result" where
  "get_quiz_for_viewer d viewer_id quiz_set_id =
     bind_r (of_option (AuthError ''VALIDATION_ERROR'' 404 ''quiz set not found'') (get_quiz_set d quiz_set_id)) (\<lambda>quiz.
     if viewer_id = Some (qs_owner_id quiz) then Inr (quiz, True)
     else if \<not> qs_is_published quiz \<or> qs_visibility quiz = vis_private then Inl (AuthError ''FORBIDDEN'' 403 ''not visible'')
     else Inr (quiz, False))"

section \<open>Questions\<close>

record option_in =
  oi_position :: int
  oi_body :: string
  oi_is_correct :: bool

record question_create =
  cq_position :: "int option"
  cq_body :: string
  cq_type :: QuestionType
  cq_time_limit_seconds :: int
  cq_points :: int
  cq_explanation :: "string option"
  cq_options :: "option_in list"

definition new_options :: "int \<Rightarrow> int list \<Rightarrow> option_in list \<Rightarrow> AnswerOption list" where
  "new_options question_id ids opts =
     map (\<lambda>(i, x). \<lparr>ao_id = i, ao_question_id = question_id, ao_position = oi_position x, ao_body = oi_body x,
            ao_is_correct = oi_is_correct x\<rparr>) (zip ids opts)"

definition insert_question :: "Question \<Rightarrow> Question list \<Rightarrow> Question list option" where
  "insert_question q qs =
     (if q_id q \<in> q_id ` set qs \<or> question_key q \<in> question_key ` set qs then None else Some (qs @ [q]))"

text \<open>The slot of a new question: the position it gets and the siblings after the shift.\<close>

definition question_slot :: "int \<Rightarrow> int option \<Rightarrow> Question list \<Rightarrow> (int \<times> Question list) option" where
  "question_slot quiz_set_id position qs =
     (let existing_max = max_question_position quiz_set_id qs in
      case position of
        None \<Rightarrow> Some (existing_max + 1, qs)
      | Some p \<Rightarrow> if p \<le> existing_max then map_option (Pair p) (shift_question_positions quiz_set_id p 1 qs) else Some (p, qs))"

definition add_question :: "int \<Rightarrow> int \<Rightarrow> question_create \<Rightarrow> Question handler" where
  "add_question owner_id quiz_set_id payload w =
     (case load_owned_quiz (wdb w) owner_id quiz_set_id of
        Inl e \<Rightarrow> (Inl e, w)
      | Inr quiz \<Rightarrow>
        (case question_slot quiz_set_id (cq_position payload) (questions (wdb w)) of
           None \<Rightarrow> (Inl (PyError ''IntegrityError''), w)
         | Some (target_position, qs) \<Rightarrow>
           let (i, w) = fresh_id w;
               question = \<lparr>q_id = i, q_quiz_set_id = quiz_set_id, q_position = target_position, q_body = cq_body payload,
                 q_type = cq_type payload, q_time_limit_seconds = cq_time_limit_seconds payload, q_points = cq_points payload,
                 q_explanation = cq_explanation payload\<rparr>
           in case insert_question question qs of
                None \<Rightarrow> (Inl (PyError ''IntegrityError''), w)
              | Some qs \<Rightarrow>
                let (ids, w) = fresh_ids (length (cq_options payload)) w
                in case insert_options (new_options i ids (cq_options payload)) ((wdb w)\<lparr>questions := qs\<rparr>) of
                     None \<Rightarrow> (Inl (PyError ''IntegrityError''), w)
                   | Some d \<Rightarrow> (Inr question, w\<lparr>wdb := d\<rparr>)))"

record question_update =
  uq_position :: "int option"
  uq_body :: "string option"
  uq_type :: "QuestionType option"
  uq_time_limit_seconds :: "int option"
  uq_points :: "int option"
  uq_explanation :: "string option"
  uq_options :: "option_in list option"

definition owned_question :: "db \<Rightarrow> int \<Rightarrow> int \<Rightarrow> Question result" where
  "owned_question d owner_id question_id =
     bind_r (of_option (AuthError ''VALIDATION_ERROR'' 404 ''question not found'') (get_question d question_id)) (\<lambda>question.
     bind_r (of_option (AuthError ''FORBIDDEN'' 403 ''not the quiz owner'') (get_quiz_set d (q_quiz_set_id question))) (\<lambda>parent.
     bind_r (guard (qs_owner_id parent = owner_id) (AuthError ''FORBIDDEN'' 403 ''not the quiz owner'')) (\<lambda>_. Inr question)))"

definition apply_question_update :: "question_update \<Rightarrow> Question \<Rightarrow> Question" where
  "apply_question_update u q = q
     \<lparr>q_body := (case uq_body u of None \<Rightarrow> q_body q | Some x \<Rightarrow> x), q_type := (case uq_type u of None \<Rightarrow> q_type q | Some x \<Rightarrow> x),
      q_time_limit_seconds := (case uq_time_limit_seconds u of None \<Rightarrow> q_time_limit_seconds q | Some x \<Rightarrow> x),
      q_points := (case uq_points u of None \<Rightarrow> q_points q | Some x \<Rightarrow> x),
      q_explanation := (case uq_explanation u of None \<Rightarrow> q_explanation q | Some x \<Rightarrow> Some x)\<rparr>"

definition update_question :: "int \<Rightarrow> int \<Rightarrow> question_update \<Rightarrow> unit handler" where
  "update_question owner_id question_id payload w =
     (case owned_question (wdb w) owner_id question_id of
        Inl e \<Rightarrow> (Inl e, w)
      | Inr question \<Rightarrow>
        let qs = upd_where (\<lambda>q. q_id q = question_id) (apply_question_update payload) (questions (wdb w)) in
        (case (case uq_position payload of None \<Rightarrow> Some qs | Some p \<Rightarrow> move_question_to question p qs) of
           None \<Rightarrow> (Inl (PyError ''IntegrityError''), w)
         | Some qs \<Rightarrow>
           let d = (wdb w)\<lparr>questions := qs\<rparr> in
           (case uq_options payload of
              None \<Rightarrow> (Inr (), w\<lparr>wdb := d\<rparr>)
            | Some opts \<Rightarrow>
              let (ids, w) = fresh_ids (length opts) w
              in case replace_options question_id (new_options question_id ids opts) d of
                   None \<Rightarrow> (Inl (PyError ''IntegrityError''), w)
                 | Some d \<Rightarrow> (Inr (), w\<lparr>wdb := d\<rparr>))))"

definition delete_question :: "int \<Rightarrow> int \<Rightarrow> unit handler" where
  "delete_question owner_id question_id w =
     (case owned_question (wdb w) owner_id question_id of
        Inl e \<Rightarrow> (Inl e, w)
      | Inr question \<Rightarrow>
        if question_id \<in> mq_question_id ` set (match_questions (wdb w))
        then (Inl (PyError ''IntegrityError''), w)
        else
          (case renumber_after_delete (q_quiz_set_id question) (q_position question)
              (filter (\<lambda>q. q_id q \<noteq> question_id) (questions (wdb w))) of
             None \<Rightarrow> (Inl (PyError ''IntegrityError''), w)
           | Some qs \<Rightarrow> (Inr (), w\<lparr>wdb := (wdb w)\<lparr>questions := qs,
               answer_options := filter (\<lambda>ao. ao_question_id ao \<noteq> question_id) (answer_options (wdb w))\<rparr>\<rparr>)))"

section \<open>Publish\<close>

record publish_issue =
  pi_question_id :: "string option"
  pi_code :: string
  pi_message :: string

definition question_issues :: "Question \<times> AnswerOption list \<Rightarrow> publish_issue list" where
  "question_issues = (\<lambda>(q, opts).
     let qid = Some (int_str (q_id q)); n_options = length opts; n_correct = length (filter ao_is_correct opts) in
     case q_type q of
       single_choice \<Rightarrow>
         (if n_options < 2 then [\<lparr>pi_question_id = qid, pi_code = ''INSUFFICIENT_OPTIONS'',
             pi_message = ''single_choice requires at least 2 options.''\<rparr>] else []) @
         (if n_correct \<noteq> 1 then [\<lparr>pi_question_id = qid, pi_code = ''EXPECTED_ONE_CORRECT'',
             pi_message = ''single_choice requires exactly 1 correct option.''\<rparr>] else [])
     | multiple_choice \<Rightarrow>
         (if n_options < 2 then [\<lparr>pi_question_id = qid, pi_code = ''INSUFFICIENT_OPTIONS'',
             pi_message = ''multiple_choice requires at least 2 options.''\<rparr>] else []) @
         (if \<not> (1 \<le> n_correct \<and> n_correct < n_options) then [\<lparr>pi_question_id = qid, pi_code = ''EXPECTED_SOME_NOT_ALL_CORRECT'',
             pi_message = ''multiple_choice requires at least 1 correct option and not all options correct.''\<rparr>] else [])
     | true_false \<Rightarrow>
         (if n_options \<noteq> 2 then [\<lparr>pi_question_id = qid, pi_code = ''WRONG_TF_OPTION_COUNT'',
             pi_message = ''true_false requires exactly 2 options.''\<rparr>] else []) @
         (if n_correct \<noteq> 1 then [\<lparr>pi_question_id = qid, pi_code = ''EXPECTED_ONE_CORRECT'',
             pi_message = ''true_false requires exactly 1 correct option.''\<rparr>] else []))"

definition validate_publish :: "(Question \<times> AnswerOption list) list \<Rightarrow> publish_issue list" where
  "validate_publish qs =
     (if qs = [] then [\<lparr>pi_question_id = None, pi_code = ''EMPTY_QUIZ'', pi_message = ''Quiz must contain at least one question.''\<rparr>]
      else concat (map question_issues qs))"

definition with_options :: "db \<Rightarrow> int \<Rightarrow> (Question \<times> AnswerOption list) list" where
  "with_options d quiz_set_id = map (\<lambda>q. (q, options_of d (q_id q))) (questions_of d quiz_set_id)"

definition publish_quiz_set :: "policy \<Rightarrow> time \<Rightarrow> int \<Rightarrow> int \<Rightarrow> QuizSet handler" where
  "publish_quiz_set pol now owner_id quiz_set_id w =
     (case load_owned_quiz (wdb w) owner_id quiz_set_id of
        Inl e \<Rightarrow> (Inl e, w)
      | Inr quiz \<Rightarrow>
        let qs = with_options (wdb w) quiz_set_id;
            (reports, d, w) = auto_flag_on_publish pol now quiz qs (wdb w) w
        in if validate_publish qs \<noteq> [] then (Inl (AuthError ''VALIDATION_ERROR'' 422 ''quiz set failed publish validation''), w)
           else
             let d = d\<lparr>quiz_sets := upd_where (\<lambda>s. qs_id s = quiz_set_id)
                    (\<lambda>s. s\<lparr>qs_is_published := True, qs_version := qs_version quiz + 1\<rparr>) (quiz_sets d)\<rparr>;
                 (d, w) = register ''QuizPublished'' ''quiz_set'' (qs_id quiz)
                   (JObj [(''quiz_set_id'', JStr (int_str (qs_id quiz))), (''version'', JInt (qs_version quiz + 1)),
                          (''owner_id'', JStr (int_str owner_id)), (''title'', JStr (qs_title quiz))]) now d w
             in (Inr (quiz\<lparr>qs_is_published := True, qs_version := qs_version quiz + 1\<rparr>), w\<lparr>wdb := d\<rparr>))"

section \<open>Positions: the two-phase updates\<close>

lemma update_rows_Some:
  assumes "\<forall>r \<in> set rows. P r \<longrightarrow> k (f r) \<notin> k ` set (seen @ rows)"
    and "distinct (map (k \<circ> f) (filter P rows))"
  shows "update_rows P f k seen rows = Some (seen @ upd_where P f rows)"
  using assms
proof (induction rows arbitrary: seen)
  case (Cons r rows)
  show ?case
  proof (cases "P r")
    case True
    have "\<forall>x \<in> set rows. P x \<longrightarrow> k (f x) \<notin> k ` set ((seen @ [f r]) @ rows)"
      using Cons.prems True by (auto simp: image_iff)
    with Cons.IH [of "seen @ [f r]"] Cons.prems True show ?thesis by auto
  next
    case False
    with Cons.IH [of "seen @ [r]"] Cons.prems show ?thesis by auto
  qed
qed simp

abbreviation at_position :: "(int \<Rightarrow> int) \<Rightarrow> Question \<Rightarrow> Question" where
  "at_position f q \<equiv> q\<lparr>q_position := f (q_position q)\<rparr>"

lemma update_questions_Some:
  assumes "unique_by question_key qs"
    and "\<And>q r. q \<in> set qs \<Longrightarrow> r \<in> set qs \<Longrightarrow> P q \<Longrightarrow> q_quiz_set_id r = q_quiz_set_id q \<Longrightarrow> f (q_position q) \<noteq> q_position r"
    and "\<And>q r. q \<in> set qs \<Longrightarrow> r \<in> set qs \<Longrightarrow> P q \<Longrightarrow> P r \<Longrightarrow> q_quiz_set_id r = q_quiz_set_id q \<Longrightarrow>
          f (q_position q) = f (q_position r) \<Longrightarrow> q_position q = q_position r"
  shows "update_questions P f qs = Some (upd_where P (at_position f) qs)"
proof -
  have "distinct (map (question_key \<circ> at_position f) (filter P qs))"
  proof -
    have "distinct qs" using assms(1) by (auto simp: unique_by_def distinct_map)
    moreover have "inj_on (question_key \<circ> at_position f) (set (filter P qs))"
    proof (rule inj_onI)
      fix x y assume xy: "x \<in> set (filter P qs)" "y \<in> set (filter P qs)"
        and eq: "(question_key \<circ> at_position f) x = (question_key \<circ> at_position f) y"
      then have "question_key x = question_key y" using assms(3) [of x y] by (auto simp: question_key_def)
      with xy show "x = y" using unique_by_eq [OF assms(1)] by auto
    qed
    ultimately show ?thesis by (simp add: distinct_map)
  qed
  then show ?thesis
    unfolding update_questions_def using assms(2)
    by (subst update_rows_Some) (auto simp: question_key_def image_iff)
qed

lemma unique_by_key_upd:
  assumes "unique_by question_key qs"
    and "\<And>q r. q \<in> set qs \<Longrightarrow> r \<in> set qs \<Longrightarrow> P q \<Longrightarrow> \<not> P r \<Longrightarrow> q_quiz_set_id r = q_quiz_set_id q \<Longrightarrow> f (q_position q) \<noteq> q_position r"
    and "\<And>q r. q \<in> set qs \<Longrightarrow> r \<in> set qs \<Longrightarrow> P q \<Longrightarrow> P r \<Longrightarrow> q_quiz_set_id r = q_quiz_set_id q \<Longrightarrow>
          f (q_position q) = f (q_position r) \<Longrightarrow> q_position q = q_position r"
  shows "unique_by question_key (upd_where P (at_position f) qs)"
proof -
  have "distinct qs" using assms(1) by (auto simp: unique_by_def distinct_map)
  moreover have "inj_on (question_key \<circ> (\<lambda>q. if P q then at_position f q else q)) (set qs)"
  proof (rule inj_onI)
    fix x y assume xy: "x \<in> set qs" "y \<in> set qs"
      and eq: "(question_key \<circ> (\<lambda>q. if P q then at_position f q else q)) x = (question_key \<circ> (\<lambda>q. if P q then at_position f q else q)) y"
    then have "question_key x = question_key y"
      using assms(2) [of x y] assms(2) [of y x] assms(3) [of x y] by (auto simp: question_key_def split: if_splits)
    with xy show "x = y" using unique_by_eq [OF assms(1)] by auto
  qed
  ultimately show ?thesis by (simp add: unique_by_def upd_where_def distinct_map)
qed

text \<open>
  The scheme of the three renumbering statements: park the rows \<open>A\<close> above the sentinel, bring back
  what is above the sentinel by \<open>delta\<close>.
\<close>

lemma two_phase:
  fixes A C :: "Question \<Rightarrow> bool" and delta :: int
  assumes u: "unique_by question_key qs"
    and range: "\<And>q. q \<in> set qs \<Longrightarrow> q_quiz_set_id q = sid \<Longrightarrow> 0 \<le> q_position q \<and> q_position q < SHIFT_SENTINEL"
    and A: "\<And>q. A q \<Longrightarrow> q_quiz_set_id q = sid \<and> C q"
    and C: "\<And>q p. C (q\<lparr>q_position := p\<rparr>) = C q"
    and low: "\<And>q. q \<in> set qs \<Longrightarrow> A q \<Longrightarrow> q_position q + delta < SHIFT_SENTINEL"
    and free: "\<And>q r. q \<in> set qs \<Longrightarrow> r \<in> set qs \<Longrightarrow> A q \<Longrightarrow> \<not> A r \<Longrightarrow> q_quiz_set_id r = sid \<Longrightarrow> q_position q + delta \<noteq> q_position r"
  shows "Option.bind (update_questions (\<lambda>q. A q \<and> q_position q < SHIFT_SENTINEL) (\<lambda>p. p + SHIFT_SENTINEL) qs)
           (update_questions (\<lambda>q. q_quiz_set_id q = sid \<and> SHIFT_SENTINEL \<le> q_position q \<and> C q) (\<lambda>p. p - SHIFT_SENTINEL + delta))
         = Some (upd_where A (at_position (\<lambda>p. p + delta)) qs)"
proof -
  let ?qs1 = "upd_where A (at_position (\<lambda>p. p + SHIFT_SENTINEL)) qs"
  have park: "q_position q + SHIFT_SENTINEL \<noteq> q_position r"
    if "q \<in> set qs" "r \<in> set qs" "A q" "q_quiz_set_id r = q_quiz_set_id q" for q r
    using that A [of q] range [of q] range [of r] by auto
  have "update_questions (\<lambda>q. A q \<and> q_position q < SHIFT_SENTINEL) (\<lambda>p. p + SHIFT_SENTINEL) qs =
      Some (upd_where (\<lambda>q. A q \<and> q_position q < SHIFT_SENTINEL) (at_position (\<lambda>p. p + SHIFT_SENTINEL)) qs)"
    by (rule update_questions_Some [OF u]) (use park in auto)
  also have "upd_where (\<lambda>q. A q \<and> q_position q < SHIFT_SENTINEL) (at_position (\<lambda>p. p + SHIFT_SENTINEL)) qs = ?qs1"
    unfolding upd_where_def using A range by (intro map_cong) auto
  finally have 1: "update_questions (\<lambda>q. A q \<and> q_position q < SHIFT_SENTINEL) (\<lambda>p. p + SHIFT_SENTINEL) qs = Some ?qs1" .
  have u1: "unique_by question_key ?qs1"
    by (rule unique_by_key_upd [OF u]) (use park in auto)
  let ?P2 = "\<lambda>q. q_quiz_set_id q = sid \<and> SHIFT_SENTINEL \<le> q_position q \<and> C q"
  have P2: "?P2 q' \<longleftrightarrow> A q" if "q \<in> set qs" "q' = (if A q then at_position (\<lambda>p. p + SHIFT_SENTINEL) q else q)" for q q'
    using that A [of q] range [of q] C by (auto split: if_splits)
  have 2: "update_questions ?P2 (\<lambda>p. p - SHIFT_SENTINEL + delta) ?qs1 = Some (upd_where ?P2 (at_position (\<lambda>p. p - SHIFT_SENTINEL + delta)) ?qs1)"
  proof (rule update_questions_Some [OF u1])
    fix q' r' assume "q' \<in> set ?qs1" "r' \<in> set ?qs1" and P: "?P2 q'" and s: "q_quiz_set_id r' = q_quiz_set_id q'"
    then obtain q r where q: "q \<in> set qs" "q' = (if A q then at_position (\<lambda>p. p + SHIFT_SENTINEL) q else q)"
      and r: "r \<in> set qs" "r' = (if A r then at_position (\<lambda>p. p + SHIFT_SENTINEL) r else r)"
      by (auto simp: set_upd_where)
    with P have "A q" using P2 by blast
    with q r s low [of q] free [of q r] range [of r] A [of q] A [of r]
    show "q_position q' - SHIFT_SENTINEL + delta \<noteq> q_position r'" by (auto split: if_splits)
  qed simp
  have 3: "upd_where ?P2 (at_position (\<lambda>p. p - SHIFT_SENTINEL + delta)) ?qs1 = upd_where A (at_position (\<lambda>p. p + delta)) qs"
    using P2 [OF _ refl] by (auto simp: upd_where_def)
  show ?thesis using 1 2 3 by simp
qed

section \<open>Abstract order\<close>

text \<open>
  What a quiz author sees: the questions in \<^verbatim>\<open>ORDER BY position\<close>.  \<open>question_order\<close> is that list of
  ids, \<open>dense_quiz\<close> says that the positions are 1, 2, 3, ...
\<close>

definition quiz_rows :: "int \<Rightarrow> Question list \<Rightarrow> Question list" where
  "quiz_rows sid qs = sort_key q_position (filter (\<lambda>q. q_quiz_set_id q = sid) qs)"

definition question_order :: "int \<Rightarrow> Question list \<Rightarrow> int list" where
  "question_order sid qs = map q_id (quiz_rows sid qs)"

definition dense_quiz :: "int \<Rightarrow> Question list \<Rightarrow> bool" where
  "dense_quiz sid qs \<longleftrightarrow> map q_position (quiz_rows sid qs) = [1..int (length (quiz_rows sid qs))]"

definition insert_at :: "nat \<Rightarrow> 'a \<Rightarrow> 'a list \<Rightarrow> 'a list" where
  "insert_at k x xs = take k xs @ x # drop k xs"

definition slots :: "int \<Rightarrow> Question list \<Rightarrow> (int \<times> int) set" where
  "slots sid qs = (\<lambda>q. (q_position q, q_id q)) ` {q \<in> set qs. q_quiz_set_id q = sid}"

definition slots_of :: "int list \<Rightarrow> (int \<times> int) set" where
  "slots_of xs = (\<lambda>k. (int k + 1, xs ! k)) ` {..<length xs}"

lemma set_quiz_rows [simp]: "set (quiz_rows sid qs) = {q \<in> set qs. q_quiz_set_id q = sid}"
  by (auto simp: quiz_rows_def)

lemma length_question_order [simp]: "length (question_order sid qs) = length (quiz_rows sid qs)"
  by (simp add: question_order_def)

lemma dense_slots:
  assumes "dense_quiz sid qs"
  shows "slots sid qs = slots_of (question_order sid qs)"
proof -
  let ?L = "quiz_rows sid qs"
  have p: "q_position (?L ! k) = int k + 1" if "k < length ?L" for k
    using arg_cong [OF assms [unfolded dense_quiz_def], of "\<lambda>xs. xs ! k"] that by simp
  have "slots sid qs = (\<lambda>q. (q_position q, q_id q)) ` set ?L" by (simp add: slots_def)
  also have "\<dots> = (\<lambda>k. (q_position (?L ! k), q_id (?L ! k))) ` {..<length ?L}"
    by (auto simp: set_conv_nth image_iff)
  also have "\<dots> = slots_of (question_order sid qs)"
    by (auto simp: slots_of_def question_order_def p image_iff)
  finally show ?thesis .
qed

lemma unique_key_positions:
  assumes "unique_by question_key qs"
  shows "distinct (map q_position (quiz_rows sid qs))"
proof -
  have "distinct (quiz_rows sid qs)"
    using assms by (auto simp: quiz_rows_def unique_by_def distinct_map)
  moreover have "inj_on q_position (set (quiz_rows sid qs))"
    by (rule inj_onI) (use unique_by_eq [OF assms] in \<open>auto simp: question_key_def\<close>)
  ultimately show ?thesis by (simp add: distinct_map)
qed

lemma slots_order:
  assumes "unique_by question_key qs" "slots sid qs = slots_of xs"
  shows "dense_quiz sid qs" "question_order sid qs = xs"
proof -
  let ?L = "quiz_rows sid qs"
  have s: "slots sid qs = (\<lambda>q. (q_position q, q_id q)) ` set ?L" by (simp add: slots_def)
  have "set (map q_position ?L) = fst ` slots sid qs" by (simp add: s image_image)
  also have "\<dots> = set [1..int (length xs)]"
  proof -
    have "(\<exists>k < length xs. p = int k + 1) \<longleftrightarrow> 1 \<le> p \<and> p \<le> int (length xs)" for p
      by (auto intro!: exI [of _ "nat (p - 1)"])
    then show ?thesis by (auto simp: assms(2) slots_of_def image_iff Bex_def)
  qed
  finally have "set (map q_position ?L) = set [1..int (length xs)]" .
  moreover have "sorted (map q_position ?L)" by (simp add: quiz_rows_def)
  ultimately have m: "map q_position ?L = [1..int (length xs)]"
    using unique_key_positions [OF assms(1), of sid] by (intro sorted_distinct_set_unique) auto
  then have "length (map q_position ?L) = length [1..int (length xs)]" by (rule arg_cong)
  then have len: "length ?L = length xs" by simp
  with m show "dense_quiz sid qs" by (simp add: dense_quiz_def)
  show "question_order sid qs = xs"
  proof (rule nth_equalityI)
    fix k assume k: "k < length (question_order sid qs)"
    then have "q_position (?L ! k) = int k + 1"
      using arg_cong [OF m, of "\<lambda>xs. xs ! k"] len by simp
    moreover have "(q_position (?L ! k), q_id (?L ! k)) \<in> slots_of xs"
      unfolding assms(2) [symmetric] s by (rule imageI, rule nth_mem) (use k in simp)
    ultimately show "question_order sid qs ! k = xs ! k"
      using k by (auto simp: slots_of_def question_order_def)
  qed (simp add: len)
qed

lemma slots_of_insert:
  assumes "k \<le> length xs"
  shows "slots_of (insert_at k x xs) =
    insert (int k + 1, x) ((\<lambda>(p, i). (if int k + 1 \<le> p then p + 1 else p, i)) ` slots_of xs)" (is "?l = ?r")
proof (rule set_eqI)
  fix y
  have nth: "insert_at k x xs ! j = (if j < k then xs ! j else if j = k then x else xs ! (j - 1))" if "j \<le> length xs" for j
    using that assms by (auto simp: insert_at_def nth_append nth_Cons split: nat.splits intro: arg_cong [where f = "(!) xs"])
  have len: "length (insert_at k x xs) = Suc (length xs)" using assms by (simp add: insert_at_def)
  have "y \<in> ?l \<longleftrightarrow> (\<exists>j \<le> length xs. y = (int j + 1, if j < k then xs ! j else if j = k then x else xs ! (j - 1)))"
    unfolding slots_of_def len using nth by (auto simp: image_iff less_Suc_eq_le)
  also have "\<dots> \<longleftrightarrow> y = (int k + 1, x) \<or> (\<exists>j < length xs. y = ((if k \<le> j then int j + 2 else int j + 1), xs ! j))" (is "_ \<longleftrightarrow> ?m")
  proof
    assume "\<exists>j \<le> length xs. y = (int j + 1, if j < k then xs ! j else if j = k then x else xs ! (j - 1))"
    then obtain j where j: "j \<le> length xs" "y = (int j + 1, if j < k then xs ! j else if j = k then x else xs ! (j - 1))" by blast
    show ?m
    proof (cases "j \<le> k")
      case True with j assms show ?thesis by (cases "j = k") (auto intro!: exI [of _ j])
    next
      case False
      with j show ?thesis by (intro disjI2 exI [of _ "j - 1"]) (auto simp: of_nat_diff)
    qed
  next
    assume ?m
    then show "\<exists>j \<le> length xs. y = (int j + 1, if j < k then xs ! j else if j = k then x else xs ! (j - 1))"
    proof (elim disjE exE conjE)
      assume "y = (int k + 1, x)" then show ?thesis using assms by (intro exI [of _ k]) auto
    next
      fix j assume "j < length xs" "y = ((if k \<le> j then int j + 2 else int j + 1), xs ! j)"
      then show ?thesis by (intro exI [of _ "if k \<le> j then Suc j else j"]) auto
    qed
  qed
  also have "\<dots> \<longleftrightarrow> y \<in> ?r"
    by (auto simp: slots_of_def image_iff)
  finally show "y \<in> ?l \<longleftrightarrow> y \<in> ?r" .
qed

lemma insert_at_remove1:
  assumes "distinct xs" "k < length xs"
  shows "insert_at k (xs ! k) (remove1 (xs ! k) xs) = xs" "k \<le> length (remove1 (xs ! k) xs)"
proof -
  have "remove1 (xs ! k) xs = take k xs @ drop (Suc k) xs"
  proof -
    have "xs = take k xs @ xs ! k # drop (Suc k) xs" using assms(2) by (rule id_take_nth_drop)
    moreover have "xs ! k \<notin> set (take k xs)"
      using assms by (auto simp: in_set_conv_nth nth_eq_iff_index_eq)
    ultimately show ?thesis by (metis remove1_append remove1.simps(2))
  qed
  with assms(2) show "insert_at k (xs ! k) (remove1 (xs ! k) xs) = xs" "k \<le> length (remove1 (xs ! k) xs)"
    by (simp_all add: insert_at_def id_take_nth_drop [symmetric])
qed

lemma slots_of_remove:
  assumes "distinct xs" "k < length xs"
  shows "slots_of (remove1 (xs ! k) xs) =
    (\<lambda>(p, i). (if int k + 1 < p then p - 1 else p, i)) ` {y \<in> slots_of xs. snd y \<noteq> xs ! k}" (is "?l = ?r")
proof -
  let ?ys = "remove1 (xs ! k) xs" and ?up = "\<lambda>(p, i :: int). (if int k + 1 \<le> p then p + 1 else p, i)"
    and ?down = "\<lambda>(p, i :: int). (if int k + 1 < p then p - 1 else p, i)"
  have s: "slots_of xs = insert (int k + 1, xs ! k) (?up ` slots_of ?ys)"
    using slots_of_insert [of k ?ys "xs ! k"] insert_at_remove1 [OF assms] by simp
  have ids: "snd y \<in> set zs" if "y \<in> slots_of zs" for y zs
    using that by (auto simp: slots_of_def)
  have "{y \<in> slots_of xs. snd y \<noteq> xs ! k} = ?up ` slots_of ?ys"
  proof -
    have "snd y \<noteq> xs ! k" if "y \<in> ?up ` slots_of ?ys" for y
      using that ids [of _ ?ys] assms(1) by fastforce
    then have "y \<in> slots_of xs \<and> snd y \<noteq> xs ! k \<longleftrightarrow> y \<in> ?up ` slots_of ?ys" for y
      unfolding s by (cases "y \<in> ?up ` slots_of ?ys") auto
    then show ?thesis by auto
  qed
  moreover have "?down ` ?up ` slots_of ?ys = slots_of ?ys"
    unfolding image_image by (rule image_cong [where g = "\<lambda>x. x", simplified]) auto
  ultimately show ?thesis by simp
qed

section \<open>The renumbering operations against the abstract order\<close>

lemma dense_range:
  assumes "dense_quiz sid qs" "q \<in> set qs" "q_quiz_set_id q = sid"
  shows "1 \<le> q_position q" "q_position q \<le> int (length (quiz_rows sid qs))"
proof -
  have "q_position q \<in> set (map q_position (quiz_rows sid qs))" using assms by auto
  then show "1 \<le> q_position q" "q_position q \<le> int (length (quiz_rows sid qs))"
    unfolding assms(1) [unfolded dense_quiz_def] by auto
qed

lemma slots_upd_where:
  "slots sid (upd_where (\<lambda>q. q_quiz_set_id q = sid \<and> B (q_position q) (q_id q)) (at_position f) qs) =
     (\<lambda>(p, i). (if B p i then f p else p, i)) ` slots sid qs"
proof -
  let ?g = "\<lambda>q. if q_quiz_set_id q = sid \<and> B (q_position q) (q_id q) then at_position f q else q"
  have "{q \<in> ?g ` set qs. q_quiz_set_id q = sid} = ?g ` {q \<in> set qs. q_quiz_set_id q = sid}" by auto
  then show ?thesis
    unfolding slots_def set_upd_where image_image by (simp only: image_image) (rule image_cong, auto)
qed

lemma quiz_rows_upd_other:
  assumes "s \<noteq> sid" "\<And>q. A q \<Longrightarrow> q_quiz_set_id q = sid"
  shows "quiz_rows s (upd_where A (at_position f) qs) = quiz_rows s qs"
proof -
  have "filter (\<lambda>q. q_quiz_set_id q = s) (upd_where A (at_position f) qs) = upd_where A (at_position f) (filter (\<lambda>q. q_quiz_set_id q = s) qs)"
    by (rule filter_upd_where) simp
  also have "\<dots> = filter (\<lambda>q. q_quiz_set_id q = s) qs" by (rule upd_where_id) (use assms in auto)
  finally show ?thesis by (simp add: quiz_rows_def)
qed

lemma shift_Some:
  assumes "unique_by question_key qs"
    and "\<And>q. q \<in> set qs \<Longrightarrow> q_quiz_set_id q = sid \<Longrightarrow> 0 \<le> q_position q \<and> q_position q + 1 < SHIFT_SENTINEL"
  shows "shift_question_positions sid p 1 qs = Some (upd_where (\<lambda>q. q_quiz_set_id q = sid \<and> p \<le> q_position q) (at_position (\<lambda>x. x + 1)) qs)"
  unfolding shift_question_positions_def
  using two_phase [OF assms(1), of sid "\<lambda>q. q_quiz_set_id q = sid \<and> p \<le> q_position q" "\<lambda>_. True" 1] assms(2)
  by (force simp: conj_assoc)

lemma renumber_Some:
  assumes "unique_by question_key qs"
    and "\<And>q. q \<in> set qs \<Longrightarrow> q_quiz_set_id q = sid \<Longrightarrow> 0 \<le> q_position q \<and> q_position q < SHIFT_SENTINEL \<and> q_position q \<noteq> p"
  shows "renumber_after_delete sid p qs = Some (upd_where (\<lambda>q. q_quiz_set_id q = sid \<and> p < q_position q) (at_position (\<lambda>x. x - 1)) qs)"
  unfolding renumber_after_delete_def
  using two_phase [OF assms(1), of sid "\<lambda>q. q_quiz_set_id q = sid \<and> p < q_position q" "\<lambda>_. True" "-1"] assms(2)
  by (force simp: conj_assoc)

lemma unique_key_shift:
  assumes "unique_by question_key qs"
  shows "unique_by question_key (upd_where (\<lambda>q. q_quiz_set_id q = sid \<and> p \<le> q_position q) (at_position (\<lambda>x. x + 1)) qs)"
  by (rule unique_by_key_upd [OF assms]) auto

lemma max_question_position_eq:
  assumes "dense_quiz sid qs"
  shows "max_question_position sid qs = int (length (quiz_rows sid qs))"
proof -
  let ?ps = "map q_position (filter (\<lambda>q. q_quiz_set_id q = sid) qs)"
  have "set ?ps = set (map q_position (quiz_rows sid qs))" by simp
  also have "\<dots> = {1..int (length (quiz_rows sid qs))}"
    unfolding assms [unfolded dense_quiz_def] by simp
  finally have s: "set ?ps = {1..int (length (quiz_rows sid qs))}" .
  show ?thesis
  proof (cases ?ps)
    case Nil
    with s show ?thesis by (auto simp: max_question_position_def quiz_rows_def)
  next
    case (Cons a as)
    then have "max_question_position sid qs = Max (set ?ps)"
      using Max.set_eq_fold [of a as] by (simp add: max_question_position_def)
    moreover have "a \<in> set ?ps" unfolding Cons by simp
    then have "1 \<le> int (length (quiz_rows sid qs))" unfolding s by simp
    then have "Max {1..int (length (quiz_rows sid qs))} = int (length (quiz_rows sid qs))" by (intro Max_eqI) auto
    ultimately show ?thesis using s by simp
  qed
qed

lemma question_slot_Some:
  assumes "unique_by question_key qs" "dense_quiz sid qs"
    and "int (length (quiz_rows sid qs)) + 1 < SHIFT_SENTINEL"
    and "case position of None \<Rightarrow> p = int (length (quiz_rows sid qs)) + 1 | Some x \<Rightarrow> p = x \<and> 1 \<le> p \<and> p \<le> int (length (quiz_rows sid qs)) + 1"
  shows "question_slot sid position qs =
    Some (p, upd_where (\<lambda>q. q_quiz_set_id q = sid \<and> p \<le> q_position q) (at_position (\<lambda>x. x + 1)) qs)"
proof -
  have "shift_question_positions sid p 1 qs = Some (upd_where (\<lambda>q. q_quiz_set_id q = sid \<and> p \<le> q_position q) (at_position (\<lambda>x. x + 1)) qs)"
    by (rule shift_Some) (use assms(1,3) dense_range [OF assms(2)] in force)+
  moreover have "upd_where (\<lambda>q. q_quiz_set_id q = sid \<and> p \<le> q_position q) (at_position (\<lambda>x. x + 1)) qs = qs"
    if "\<not> p \<le> int (length (quiz_rows sid qs))"
    by (rule upd_where_id) (use that dense_range [OF assms(2)] in force)
  ultimately show ?thesis
    using assms(4) by (auto simp: question_slot_def max_question_position_eq [OF assms(2)] split: option.splits)
qed

lemma insert_question_order:
  assumes "unique_by question_key qs" "dense_quiz (q_quiz_set_id q) qs"
    and "1 \<le> q_position q" "q_position q \<le> int (length (quiz_rows (q_quiz_set_id q) qs)) + 1"
  defines "qs' \<equiv> upd_where (\<lambda>r. q_quiz_set_id r = q_quiz_set_id q \<and> q_position q \<le> q_position r) (at_position (\<lambda>x. x + 1)) qs"
  shows "question_key q \<notin> question_key ` set qs'"
    and "unique_by question_key (qs' @ [q])"
    and "dense_quiz (q_quiz_set_id q) (qs' @ [q])"
    and "question_order (q_quiz_set_id q) (qs' @ [q]) = insert_at (nat (q_position q) - 1) (q_id q) (question_order (q_quiz_set_id q) qs)"
proof -
  let ?sid = "q_quiz_set_id q" and ?k = "nat (q_position q) - 1"
  show k: "question_key q \<notin> question_key ` set qs'"
    by (auto simp: qs'_def set_upd_where question_key_def split: if_splits)
  show u: "unique_by question_key (qs' @ [q])"
    using k unique_key_shift [OF assms(1)] by (simp add: unique_by_append1 qs'_def)
  have len: "?k \<le> length (question_order ?sid qs)" "int ?k + 1 = q_position q"
    using assms(3,4) by auto
  have "slots ?sid (qs' @ [q]) = insert (q_position q, q_id q) (slots ?sid qs')"
    by (auto simp: slots_def)
  also have "slots ?sid qs' = (\<lambda>(p, i). (if int ?k + 1 \<le> p then p + 1 else p, i)) ` slots_of (question_order ?sid qs)"
    using slots_upd_where [of ?sid "\<lambda>p _. q_position q \<le> p" "\<lambda>x. x + 1" qs] dense_slots [OF assms(2)] len(2) by (simp add: qs'_def)
  finally have "slots ?sid (qs' @ [q]) = slots_of (insert_at ?k (q_id q) (question_order ?sid qs))"
    using slots_of_insert [OF len(1), of "q_id q"] len(2) by simp
  from slots_order [OF u this] show "dense_quiz ?sid (qs' @ [q])"
    "question_order ?sid (qs' @ [q]) = insert_at ?k (q_id q) (question_order ?sid qs)" .
qed

lemma quiz_rows_append_other: "q_quiz_set_id q \<noteq> s \<Longrightarrow> quiz_rows s (qs @ [q]) = quiz_rows s qs"
  by (simp add: quiz_rows_def)

lemma load_owned_quiz_Inr:
  "load_owned_quiz d owner_id sid = Inr s \<longleftrightarrow> get_quiz_set d sid = Some s \<and> qs_owner_id s = owner_id"
  by (auto simp: load_owned_quiz_def of_option_def guard_def split: option.splits)

lemma owned_question_Inr:
  "owned_question d owner_id qid = Inr q \<longleftrightarrow> get_question d qid = Some q \<and>
     (\<exists>s. get_quiz_set d (q_quiz_set_id q) = Some s \<and> qs_owner_id s = owner_id)"
  by (auto simp: owned_question_def of_option_def guard_def split: option.splits)

lemma new_options_maps:
  assumes "length ids = length opts"
  shows "map ao_id (new_options i ids opts) = ids"
    and "map option_key (new_options i ids opts) = map (\<lambda>x. (i, oi_position x)) opts"
  using assms by (induction ids opts rule: list_induct2) (simp_all add: new_options_def option_key_def)

lemma insert_options_new:
  assumes "unique_by ao_id (answer_options d)" "unique_by option_key (answer_options d)"
    and "unique_by oi_position opts" "distinct ids" "length ids = length opts"
    and "i \<notin> ao_question_id ` set (answer_options d)" "set ids \<inter> ao_id ` set (answer_options d) = {}"
  shows "insert_options (new_options i ids opts) d = Some (d\<lparr>answer_options := answer_options d @ new_options i ids opts\<rparr>)"
proof -
  note m = new_options_maps [OF assms(5), of i]
  have "set (map option_key (new_options i ids opts)) \<subseteq> {i} \<times> UNIV" unfolding m by auto
  moreover have "distinct (map option_key (new_options i ids opts))"
    unfolding m using assms(3) by (auto simp: unique_by_def distinct_map inj_on_def)
  ultimately have "unique_by option_key (answer_options d @ new_options i ids opts)"
    using assms(2,6) by (auto simp: unique_by_def option_key_def)
  moreover have "unique_by ao_id (answer_options d @ new_options i ids opts)"
    using assms(1,4,7) m(1) by (auto simp: unique_by_def simp flip: set_map)
  ultimately show ?thesis by (simp add: insert_options_def)
qed

lemma fresh_ids_distinct:
  "inj (id_supply w) \<Longrightarrow> distinct (fst (fresh_ids n w))"
  "set (fst (fresh_ids n w)) = id_supply w ` {id_next w ..< id_next w + n}"
  by (auto simp: fresh_ids_def distinct_map inj_on_def)


lemma unique_key_renumber:
  assumes "unique_by question_key qs" "\<And>q. q \<in> set qs \<Longrightarrow> q_quiz_set_id q = sid \<Longrightarrow> q_position q \<noteq> p"
  shows "unique_by question_key (upd_where (\<lambda>q. q_quiz_set_id q = sid \<and> p < q_position q) (at_position (\<lambda>x. x - 1)) qs)"
  by (rule unique_by_key_upd [OF assms(1)]) (use assms(2) in force)+

lemma unique_by_filter: "unique_by k rows \<Longrightarrow> unique_by k (filter P rows)"
  by (auto simp: unique_by_def distinct_map_filter)

lemma distinct_question_order: "unique_by q_id qs \<Longrightarrow> distinct (question_order sid qs)"
proof -
  assume u: "unique_by q_id qs"
  have "mset (question_order sid qs) = mset (map q_id (filter (\<lambda>q. q_quiz_set_id q = sid) qs))"
    by (simp add: question_order_def quiz_rows_def)
  then show ?thesis using unique_by_filter [OF u] by (metis mset_eq_imp_distinct_iff unique_by_def)
qed

text \<open>The place of a question in a densely numbered quiz.\<close>

lemma dense_nth:
  assumes "dense_quiz sid qs" "q \<in> set qs" "q_quiz_set_id q = sid"
  shows "nat (q_position q) - 1 < length (question_order sid qs)"
    and "question_order sid qs ! (nat (q_position q) - 1) = q_id q"
    and "int (nat (q_position q) - 1) + 1 = q_position q"
proof -
  have "(q_position q, q_id q) \<in> slots_of (question_order sid qs)"
    unfolding dense_slots [OF assms(1), symmetric] using assms(2,3) by (auto simp: slots_def)
  then show "nat (q_position q) - 1 < length (question_order sid qs)"
    "question_order sid qs ! (nat (q_position q) - 1) = q_id q" "int (nat (q_position q) - 1) + 1 = q_position q"
    by (auto simp: slots_of_def nat_add_distrib)
qed

lemma delete_question_slots:
  assumes "unique_by question_key qs" "unique_by q_id qs" "dense_quiz (q_quiz_set_id q) qs" "q \<in> set qs"
  defines "qs' \<equiv> upd_where (\<lambda>r. q_quiz_set_id r = q_quiz_set_id q \<and> q_position q < q_position r) (at_position (\<lambda>x. x - 1))
      (filter (\<lambda>r. q_id r \<noteq> q_id q) qs)"
  shows "unique_by question_key qs'"
    and "slots (q_quiz_set_id q) qs' = slots_of (remove1 (q_id q) (question_order (q_quiz_set_id q) qs))"
proof -
  let ?sid = "q_quiz_set_id q" and ?k = "nat (q_position q) - 1"
  have free: "q_position r \<noteq> q_position q" if "r \<in> set qs" "q_id r \<noteq> q_id q" "q_quiz_set_id r = ?sid" for r
    using unique_by_eq [OF assms(1) that(1) assms(4)] that by (auto simp: question_key_def)
  show "unique_by question_key qs'"
    unfolding qs'_def by (rule unique_key_renumber [OF unique_by_filter [OF assms(1)]]) (use free in auto)
  note n = dense_nth [OF assms(3,4) refl]
  have "slots ?sid qs' = (\<lambda>(p, i). (if q_position q < p then p - 1 else p, i)) ` slots ?sid (filter (\<lambda>r. q_id r \<noteq> q_id q) qs)"
    using slots_upd_where [of ?sid "\<lambda>p _. q_position q < p" "\<lambda>x. x - 1"] by (simp add: qs'_def)
  also have "slots ?sid (filter (\<lambda>r. q_id r \<noteq> q_id q) qs) = {y \<in> slots_of (question_order ?sid qs). snd y \<noteq> q_id q}"
    unfolding dense_slots [OF assms(3), symmetric] by (auto simp: slots_def)
  finally show "slots ?sid qs' = slots_of (remove1 (q_id q) (question_order ?sid qs))"
    using slots_of_remove [OF distinct_question_order [OF assms(2)] n(1)] n(2,3) by simp
qed

text \<open>
  Deleting a question.  On a quiz numbered 1..n, the owner's delete of a question no match has used
  always succeeds: the question leaves the order, the later ones close the gap, the numbering stays dense
  and no other quiz changes.
\<close>
theorem delete_question_order:
  assumes "owned_question (wdb w) owner_id question_id = Inr q"
    and "question_id \<notin> mq_question_id ` set (match_questions (wdb w))"
    and "unique_by question_key (questions (wdb w))" "unique_by q_id (questions (wdb w))"
    and "dense_quiz (q_quiz_set_id q) (questions (wdb w))"
    and "int (length (quiz_rows (q_quiz_set_id q) (questions (wdb w)))) < SHIFT_SENTINEL"
  shows "\<exists>w'. delete_question owner_id question_id w = (Inr (), w') \<and>
    question_order (q_quiz_set_id q) (questions (wdb w')) = remove1 question_id (question_order (q_quiz_set_id q) (questions (wdb w))) \<and>
    dense_quiz (q_quiz_set_id q) (questions (wdb w')) \<and> unique_by question_key (questions (wdb w')) \<and>
    (\<forall>s. s \<noteq> q_quiz_set_id q \<longrightarrow> quiz_rows s (questions (wdb w')) = quiz_rows s (questions (wdb w)))"
proof -
  let ?qs = "questions (wdb w)" and ?sid = "q_quiz_set_id q"
  let ?rest = "filter (\<lambda>r. q_id r \<noteq> question_id) ?qs"
  let ?qs' = "upd_where (\<lambda>r. q_quiz_set_id r = ?sid \<and> q_position q < q_position r) (at_position (\<lambda>x. x - 1)) ?rest"
  have q: "q \<in> set ?qs" "q_id q = question_id"
    using assms(1) find_Some_set by (fastforce simp: owned_question_Inr get_question_def)+
  have "renumber_after_delete ?sid (q_position q) ?rest = Some ?qs'"
  proof (rule renumber_Some [OF unique_by_filter [OF assms(3)]])
    fix r assume r: "r \<in> set ?rest" "q_quiz_set_id r = ?sid"
    then have "q_position r \<noteq> q_position q" using unique_by_eq [OF assms(3) _ q(1), of r] q(2) by (auto simp: question_key_def)
    with r dense_range [OF assms(5), of r] assms(6)
    show "0 \<le> q_position r \<and> q_position r < SHIFT_SENTINEL \<and> q_position r \<noteq> q_position q" by auto
  qed
  then have "delete_question owner_id question_id w = (Inr (), w\<lparr>wdb := (wdb w)\<lparr>questions := ?qs',
      answer_options := filter (\<lambda>ao. ao_question_id ao \<noteq> question_id) (answer_options (wdb w))\<rparr>\<rparr>)"
    using assms(1,2) by (simp add: delete_question_def)
  moreover note del = delete_question_slots [OF assms(3-5) q(1), unfolded q(2)]
  note slots_order [OF del]
  moreover have "quiz_rows s ?qs' = quiz_rows s ?qs" if "s \<noteq> ?sid" for s
  proof -
    have "filter (\<lambda>r. q_quiz_set_id r = s) ?rest = filter (\<lambda>r. q_quiz_set_id r = s) ?qs"
      using unique_by_eq [OF assms(4) _ q(1)] q(2) that by (auto simp: filter_filter intro!: filter_cong)
    then have "quiz_rows s ?rest = quiz_rows s ?qs" by (simp add: quiz_rows_def)
    then show ?thesis by (subst quiz_rows_upd_other [OF that]) simp_all
  qed
  ultimately show ?thesis using del(1) by simp
qed

section \<open>Moving a question\<close>

lemma update_rows_unique:
  assumes "update_rows P f k seen rows = Some out" "distinct (map k (seen @ rows))"
  shows "distinct (map k out)"
  using assms by (induction P f k seen rows rule: update_rows.induct) (auto simp: image_Un split: if_splits)

lemma update_questions_unique:
  "update_questions P f qs = Some out \<Longrightarrow> unique_by question_key qs \<Longrightarrow> unique_by question_key out"
  using update_rows_unique [of P "at_position f" question_key "[]" qs out] by (simp add: update_questions_def unique_by_def)

lemma upd_where_cong: "(\<And>r. r \<in> set rows \<Longrightarrow> P r = Q r) \<Longrightarrow> upd_where P f rows = upd_where Q f rows"
  by (auto simp: upd_where_def)

text \<open>Where a row at position \<open>p\<close> goes when another row moves from \<open>old\<close> to \<open>new\<close>.\<close>

definition moved :: "int \<Rightarrow> int \<Rightarrow> int \<Rightarrow> int" where
  "moved old new p = (if new \<le> p \<and> p < old then p + 1 else if old < p \<and> p \<le> new then p - 1 else p)"

lemma slots_of_move:
  assumes "distinct xs" "k < length xs" "1 \<le> new" "new \<le> int (length xs)"
  shows "slots_of (insert_at (nat new - 1) (xs ! k) (remove1 (xs ! k) xs)) =
    (\<lambda>(p, i). (if i = xs ! k then new else moved (int k + 1) new p, i)) ` slots_of xs" (is "?l = ?g ` _")
proof -
  let ?ys = "remove1 (xs ! k) xs"
  let ?up = "\<lambda>(p, i :: int). (if new \<le> p then p + 1 else p, i)" and ?down = "\<lambda>(p, i :: int). (if int k + 1 < p then p - 1 else p, i)"
  have len: "nat new - 1 \<le> length ?ys" "int (nat new - 1) + 1 = new"
    using assms by (auto simp: length_remove1)
  have "?l = insert (new, xs ! k) (?up ` ?down ` {y \<in> slots_of xs. snd y \<noteq> xs ! k})"
    using slots_of_insert [OF len(1), of "xs ! k"] slots_of_remove [OF assms(1,2)] len(2) by simp
  moreover have "?up (?down y) = ?g y" if y: "y \<in> slots_of xs" "snd y \<noteq> xs ! k" for y
  proof -
    obtain j where "j < length xs" "y = (int j + 1, xs ! j)" using y(1) by (auto simp: slots_of_def)
    moreover from this y(2) have "j \<noteq> k" by auto
    ultimately show ?thesis using y(2) by (auto simp: moved_def)
  qed
  moreover have "slots_of xs = insert (int k + 1, xs ! k) {y \<in> slots_of xs. snd y \<noteq> xs ! k}"
    using assms(1,2) by (auto simp: slots_of_def nth_eq_iff_index_eq)
  then have "?g ` slots_of xs = ?g ` insert (int k + 1, xs ! k) {y \<in> slots_of xs. snd y \<noteq> xs ! k}"
    by (rule arg_cong)
  then have "?g ` slots_of xs = insert (new, xs ! k) (?g ` {y \<in> slots_of xs. snd y \<noteq> xs ! k})" by simp
  ultimately show ?thesis unfolding image_image by (simp cong: image_cong_simp)
qed

lemma slots_upd_ids:
  assumes "\<And>r. r \<in> set qs \<Longrightarrow> q_id r = qid \<Longrightarrow> q_quiz_set_id r = sid"
  shows "slots sid (upd_where (\<lambda>r. q_id r = qid) (at_position (\<lambda>_. p')) qs) = (\<lambda>(p, i). (if i = qid then p' else p, i)) ` slots sid qs"
proof -
  have "upd_where (\<lambda>r. q_id r = qid) (at_position (\<lambda>_. p')) qs =
      upd_where (\<lambda>r. q_quiz_set_id r = sid \<and> q_id r = qid) (at_position (\<lambda>_. p')) qs"
    by (rule upd_where_cong) (use assms in auto)
  then show ?thesis using slots_upd_where [of sid "\<lambda>_ i. i = qid" "\<lambda>_. p'" qs] by simp
qed

lemma update_one:
  assumes "unique_by question_key qs" "unique_by q_id qs" "q \<in> set qs"
    and "\<And>r. r \<in> set qs \<Longrightarrow> q_quiz_set_id r = q_quiz_set_id q \<Longrightarrow> q_position r \<noteq> p"
  shows "update_questions (\<lambda>r. q_id r = q_id q) (\<lambda>_. p) qs = Some (upd_where (\<lambda>r. q_id r = q_id q) (at_position (\<lambda>_. p)) qs)"
proof -
  have one: "r = q" if "r \<in> set qs" "q_id r = q_id q" for r
    using unique_by_eq [OF assms(2) that(1) assms(3) that(2)] .
  show ?thesis by (rule update_questions_Some [OF assms(1)]) (use one assms(4) in blast)+
qed

lemma park_phases:
  fixes old new sid qid :: int
  defines "A \<equiv> \<lambda>r. q_quiz_set_id r = sid \<and> moved old new (q_position r) \<noteq> q_position r \<and> q_id r \<noteq> qid"
    and "delta \<equiv> if new < old then 1 else - 1"
  assumes "unique_by question_key qs" "new \<noteq> old" "1 \<le> old" "1 \<le> new" "old + 1 < SHIFT_SENTINEL" "new + 1 < SHIFT_SENTINEL"
    and rng: "\<And>r. r \<in> set qs \<Longrightarrow> q_quiz_set_id r = sid \<Longrightarrow> if q_id r = qid then q_position r = PARK_POSITION
        else 1 \<le> q_position r \<and> q_position r < PARK_POSITION \<and> q_position r \<noteq> old"
  shows "Option.bind (update_questions (\<lambda>r. A r \<and> q_position r < SHIFT_SENTINEL) (\<lambda>p. p + SHIFT_SENTINEL) qs)
           (update_questions (\<lambda>r. q_quiz_set_id r = sid \<and> SHIFT_SENTINEL \<le> q_position r \<and> q_id r \<noteq> qid) (\<lambda>p. p - SHIFT_SENTINEL + delta))
         = Some (upd_where A (at_position (\<lambda>p. p + delta)) qs)"
proof (rule two_phase [OF assms(3)])
  fix q r assume qr: "q \<in> set qs" "r \<in> set qs" "A q" "\<not> A r" "q_quiz_set_id r = sid"
  with rng [of q] rng [of r] assms(4-8) show "q_position q + delta \<noteq> q_position r"
    by (auto simp: A_def delta_def moved_def PARK_POSITION_def split: if_splits)
next
  fix q assume "q \<in> set qs" "A q"
  with rng [of q] show "q_position q + delta < SHIFT_SENTINEL"
    by (auto simp: A_def delta_def PARK_POSITION_def)
qed (use rng in \<open>force simp: A_def PARK_POSITION_def SHIFT_SENTINEL_def split: if_splits\<close>)+

lemma move_question_slots:
  assumes u: "unique_by question_key qs" "unique_by q_id qs" and q: "q \<in> set qs" and d: "dense_quiz (q_quiz_set_id q) qs"
    and n: "int (length (quiz_rows (q_quiz_set_id q) qs)) + 1 < SHIFT_SENTINEL"
    and new: "1 \<le> new" "new \<le> int (length (quiz_rows (q_quiz_set_id q) qs))"
  shows "\<exists>qs'. move_question_to q new qs = Some qs' \<and> unique_by question_key qs' \<and>
    slots (q_quiz_set_id q) qs' = (\<lambda>(p, i). (if i = q_id q then new else moved (q_position q) new p, i)) ` slots (q_quiz_set_id q) qs \<and>
    (\<forall>s. s \<noteq> q_quiz_set_id q \<longrightarrow> quiz_rows s qs' = quiz_rows s qs)"
proof (cases "new = q_position q")
  case True
  have "q_id r = q_id q \<Longrightarrow> q_position r = q_position q" if "r \<in> set qs" for r
    using unique_by_eq [OF u(2) that q] by auto
  then have "slots (q_quiz_set_id q) qs = (\<lambda>(p, i). (if i = q_id q then new else moved (q_position q) new p, i)) ` slots (q_quiz_set_id q) qs"
    unfolding slots_def image_image using True by (intro image_cong) (auto simp: moved_def)
  with True u show ?thesis by (auto simp: move_question_to_def)
next
  case False
  let ?sid = "q_quiz_set_id q" and ?qid = "q_id q" and ?old = "q_position q"
  let ?delta = "if new < ?old then 1 else - 1 :: int"
  let ?A = "\<lambda>r. q_quiz_set_id r = ?sid \<and> moved ?old new (q_position r) \<noteq> q_position r \<and> q_id r \<noteq> ?qid"
  let ?qs1 = "upd_where (\<lambda>r. q_id r = ?qid) (at_position (\<lambda>_. PARK_POSITION)) qs"
  let ?qs2 = "upd_where ?A (at_position (\<lambda>p. p + ?delta)) ?qs1"
  let ?qs3 = "upd_where (\<lambda>r. q_id r = ?qid) (at_position (\<lambda>_. new)) ?qs2"
  have one: "r = q" if "r \<in> set qs" "q_id r = ?qid" for r using unique_by_eq [OF u(2) that(1) q that(2)] .
  have rng: "1 \<le> q_position r \<and> q_position r < PARK_POSITION \<and> (q_id r \<noteq> ?qid \<longrightarrow> q_position r \<noteq> ?old)"
    if r: "r \<in> set qs" "q_quiz_set_id r = ?sid" for r
    using dense_range [OF d r] n unique_by_eq [OF u(1) r(1) q] r by (auto simp: question_key_def PARK_POSITION_def)
  have old: "1 \<le> ?old" "?old + 1 < SHIFT_SENTINEL" using rng [OF q refl] by (auto simp: PARK_POSITION_def)
  have 1: "update_questions (\<lambda>r. q_id r = ?qid) (\<lambda>_. PARK_POSITION) qs = Some ?qs1"
    by (rule update_one [OF u q]) (use rng in force)
  have 2: "Option.bind (update_questions (\<lambda>r. ?A r \<and> q_position r < SHIFT_SENTINEL) (\<lambda>p. p + SHIFT_SENTINEL) ?qs1)
      (update_questions (\<lambda>r. q_quiz_set_id r = ?sid \<and> SHIFT_SENTINEL \<le> q_position r \<and> q_id r \<noteq> ?qid) (\<lambda>p. p - SHIFT_SENTINEL + ?delta))
      = Some ?qs2"
    by (rule park_phases [OF update_questions_unique [OF 1 u(1)] False old(1) new(1) old(2)])
      (use new n rng in \<open>auto simp: set_upd_where\<close>)
  have m1: "map q_id ?qs1 = map q_id qs" and m2: "map q_id ?qs2 = map q_id qs"
    by (simp_all add: map_upd_where)
  have q2: "q\<lparr>q_position := PARK_POSITION\<rparr> \<in> set ?qs2"
    using q by (force simp: set_upd_where image_iff)
  have u2: "unique_by question_key ?qs2" "unique_by q_id ?qs2"
  proof -
    from 2 [unfolded bind_eq_Some_conv] show "unique_by question_key ?qs2"
      using update_questions_unique [OF _ update_questions_unique [OF _ update_questions_unique [OF 1 u(1)]]] by (elim exE conjE)
    show "unique_by q_id ?qs2" using u(2) m2 by (simp only: unique_by_def)
  qed
  have 3: "update_questions (\<lambda>r. q_id r = ?qid) (\<lambda>_. new) ?qs2 = Some ?qs3"
  proof (rule update_one [OF u2 q2, simplified])
    fix r assume "r \<in> set ?qs2" "q_quiz_set_id r = ?sid"
    then show "q_position r \<noteq> new"
      using False rng new n by (auto simp: set_upd_where moved_def PARK_POSITION_def split: if_splits)
  qed
  have A: "(\<lambda>r. q_quiz_set_id r = ?sid \<and> (new \<le> q_position r \<and> q_position r < ?old) \<and> q_id r \<noteq> ?qid \<and> q_position r < SHIFT_SENTINEL) =
      (\<lambda>r. ?A r \<and> q_position r < SHIFT_SENTINEL)" if "new < ?old"
    using that by (auto simp: moved_def fun_eq_iff)
  have B: "(\<lambda>r. q_quiz_set_id r = ?sid \<and> (?old < q_position r \<and> q_position r \<le> new) \<and> q_id r \<noteq> ?qid \<and> q_position r < SHIFT_SENTINEL) =
      (\<lambda>r. ?A r \<and> q_position r < SHIFT_SENTINEL)" if "\<not> new < ?old"
    using that by (auto simp: moved_def fun_eq_iff)
  have "move_question_to q new qs = Option.bind (update_questions (\<lambda>r. q_id r = ?qid) (\<lambda>_. PARK_POSITION) qs) (\<lambda>qs.
      Option.bind (update_questions (\<lambda>r. ?A r \<and> q_position r < SHIFT_SENTINEL) (\<lambda>p. p + SHIFT_SENTINEL) qs) (\<lambda>qs.
      Option.bind (update_questions (\<lambda>r. q_quiz_set_id r = ?sid \<and> SHIFT_SENTINEL \<le> q_position r \<and> q_id r \<noteq> ?qid)
        (\<lambda>p. p - SHIFT_SENTINEL + ?delta) qs) (update_questions (\<lambda>r. q_id r = ?qid) (\<lambda>_. new))))"
    by (cases "new < ?old") (simp_all only: move_question_to_def Let_def if_True if_False False prod.case A B not_False_eq_True)
  also have "\<dots> = Some ?qs3"
    by (simp only: 1 2 3 Option.bind.simps Option.bind_assoc [symmetric])
  finally have "move_question_to q new qs = Some ?qs3" .
  moreover have "unique_by question_key ?qs3" using update_questions_unique [OF 3 u2(1)] .
  moreover have "slots ?sid ?qs3 = (\<lambda>(p, i). (if i = ?qid then new else moved ?old new p, i)) ` slots ?sid qs"
  proof -
    have "slots ?sid ?qs3 = (\<lambda>(p, i). (if i = ?qid then new else p, i)) ` slots ?sid ?qs2"
      by (rule slots_upd_ids) (auto simp: set_upd_where dest: one split: if_splits)
    also have "slots ?sid ?qs2 = (\<lambda>(p, i). (if moved ?old new p \<noteq> p \<and> i \<noteq> ?qid then p + ?delta else p, i)) ` slots ?sid ?qs1"
      by (rule slots_upd_where)
    also have "slots ?sid ?qs1 = (\<lambda>(p, i). (if i = ?qid then PARK_POSITION else p, i)) ` slots ?sid qs"
      by (rule slots_upd_ids) (auto dest: one)
    finally show ?thesis unfolding image_image using False by (auto simp: moved_def intro!: image_cong)
  qed
  moreover have "quiz_rows s ?qs3 = quiz_rows s qs" if "s \<noteq> ?sid" for s
  proof -
    have id: "quiz_rows s (upd_where (\<lambda>r. q_id r = ?qid) (at_position f) ys) = quiz_rows s ys"
      if "\<And>r. r \<in> set ys \<Longrightarrow> q_id r = ?qid \<Longrightarrow> q_quiz_set_id r = ?sid" for ys f
    proof -
      have "upd_where (\<lambda>r. q_id r = ?qid) (at_position f) ys = upd_where (\<lambda>r. q_quiz_set_id r = ?sid \<and> q_id r = ?qid) (at_position f) ys"
        by (rule upd_where_cong) (use that in auto)
      then show ?thesis using quiz_rows_upd_other [OF \<open>s \<noteq> ?sid\<close>, of "\<lambda>r. q_quiz_set_id r = ?sid \<and> q_id r = ?qid" f ys] by simp
    qed
    have "quiz_rows s ?qs3 = quiz_rows s ?qs2" by (rule id) (auto simp: set_upd_where dest: one split: if_splits)
    also have "\<dots> = quiz_rows s ?qs1" using that by (subst quiz_rows_upd_other [of s ?sid]) simp_all
    also have "\<dots> = quiz_rows s qs" by (rule id) (auto dest: one)
    finally show ?thesis .
  qed
  ultimately show ?thesis by blast
qed

lemma move_question_to_apply [simp]: "move_question_to (apply_question_update u q) = move_question_to q"
  by (simp add: fun_eq_iff move_question_to_def apply_question_update_def)

lemma apply_question_update_simps [simp]:
  "q_id (apply_question_update u q) = q_id q" "q_position (apply_question_update u q) = q_position q"
  "q_quiz_set_id (apply_question_update u q) = q_quiz_set_id q" "question_key (apply_question_update u q) = question_key q"
  by (simp_all add: apply_question_update_def question_key_def)

lemma slots_apply:
  "slots sid (upd_where P (apply_question_update u) qs) = slots sid qs"
proof -
  let ?g = "\<lambda>q. if P q then apply_question_update u q else q"
  have "{q \<in> ?g ` set qs. q_quiz_set_id q = sid} = ?g ` {q \<in> set qs. q_quiz_set_id q = sid}" by auto
  then show ?thesis unfolding slots_def set_upd_where by (simp only: image_image) (rule image_cong, auto)
qed

text \<open>
  Moving a question.  On a quiz numbered 1..n the owner's move to a place in 1..n never meets the unique
  index: the question is taken out and put in at the requested place, the others keep their order, the
  numbering stays 1..n and no other quiz changes.
\<close>
theorem update_question_moves:
  assumes "owned_question (wdb w) owner_id question_id = Inr q"
    and "uq_position payload = Some new" "uq_options payload = None"
    and "unique_by question_key (questions (wdb w))" "unique_by q_id (questions (wdb w))"
    and "dense_quiz (q_quiz_set_id q) (questions (wdb w))"
    and "int (length (quiz_rows (q_quiz_set_id q) (questions (wdb w)))) + 1 < SHIFT_SENTINEL"
    and "1 \<le> new" "new \<le> int (length (quiz_rows (q_quiz_set_id q) (questions (wdb w))))"
  shows "\<exists>w'. update_question owner_id question_id payload w = (Inr (), w') \<and>
    question_order (q_quiz_set_id q) (questions (wdb w')) =
      insert_at (nat new - 1) question_id (remove1 question_id (question_order (q_quiz_set_id q) (questions (wdb w)))) \<and>
    dense_quiz (q_quiz_set_id q) (questions (wdb w')) \<and> unique_by question_key (questions (wdb w')) \<and>
    (\<forall>s. s \<noteq> q_quiz_set_id q \<longrightarrow> quiz_rows s (questions (wdb w')) = quiz_rows s (questions (wdb w)))"
proof -
  let ?qs = "questions (wdb w)" and ?sid = "q_quiz_set_id q" and ?q = "apply_question_update payload q"
  let ?upd = "upd_where (\<lambda>r. q_id r = question_id) (apply_question_update payload) ?qs"
  have q: "q \<in> set ?qs" "q_id q = question_id"
    using assms(1) find_Some_set by (fastforce simp: owned_question_Inr get_question_def)+
  have u0: "unique_by question_key ?upd" "unique_by q_id ?upd"
    using assms(4,5) by (simp_all add: unique_by_upd_where)
  have s0: "slots ?sid ?upd = slots_of (question_order ?sid ?qs)"
    unfolding dense_slots [OF assms(6), symmetric] by (rule slots_apply)
  note o0 = slots_order [OF u0(1) s0]
  then have len: "length (quiz_rows ?sid ?upd) = length (quiz_rows ?sid ?qs)" by (metis length_question_order)
  have "?q \<in> set ?upd" using q by (auto simp: set_upd_where)
  have "\<exists>qs'. move_question_to q new ?upd = Some qs' \<and> unique_by question_key qs' \<and>
      slots ?sid qs' = (\<lambda>(p, i). (if i = question_id then new else moved (q_position q) new p, i)) ` slots ?sid ?upd \<and>
      (\<forall>s. s \<noteq> ?sid \<longrightarrow> quiz_rows s qs' = quiz_rows s ?upd)"
    using move_question_slots [OF u0 \<open>?q \<in> set ?upd\<close>, of new] o0(1) len assms(7-9) by (simp add: q(2) cong: if_cong)
  then obtain qs' where
    mv: "move_question_to q new ?upd = Some qs'" and u': "unique_by question_key qs'"
    and sl: "slots ?sid qs' = (\<lambda>(p, i). (if i = question_id then new else moved (q_position q) new p, i)) ` slots ?sid ?upd"
    and oth: "\<And>s. s \<noteq> ?sid \<Longrightarrow> quiz_rows s qs' = quiz_rows s ?upd"
    by blast
  note n = dense_nth [OF assms(6) q(1) refl, unfolded q(2)]
  have "slots ?sid qs' = slots_of (insert_at (nat new - 1) question_id (remove1 question_id (question_order ?sid ?qs)))"
    using slots_of_move [OF distinct_question_order [OF assms(5)] n(1) assms(8), unfolded n(2,3)] assms(9) sl s0 by simp
  from slots_order [OF u' this] have "question_order ?sid qs' = insert_at (nat new - 1) question_id (remove1 question_id (question_order ?sid ?qs))"
    "dense_quiz ?sid qs'" by simp_all
  moreover have "quiz_rows s ?upd = quiz_rows s ?qs" if "s \<noteq> ?sid" for s
  proof -
    have "r = q" if "r \<in> set ?qs" "q_id r = question_id" for r using unique_by_eq [OF assms(5) that(1) q(1)] that q(2) by simp
    then have "upd_where (\<lambda>r. q_id r = question_id) (apply_question_update payload) (filter (\<lambda>r. q_quiz_set_id r = s) ?qs) = filter (\<lambda>r. q_quiz_set_id r = s) ?qs"
      using that by (intro upd_where_id) auto
    then show ?thesis by (simp add: quiz_rows_def filter_upd_where)
  qed
  moreover have "update_question owner_id question_id payload w = (Inr (), w\<lparr>wdb := (wdb w)\<lparr>questions := qs'\<rparr>\<rparr>)"
    using assms(1-3) mv by (simp add: update_question_def Let_def)
  ultimately show ?thesis using u' oth by simp
qed

section \<open>Example quiz\<close>

definition demo_quiz :: world where
  "demo_quiz = (empty_world (\<lambda>n. 100 + int n))\<lparr>wdb := empty_db
     \<lparr>quiz_sets := [\<lparr>qs_id = 2, qs_owner_id = 1, qs_title = ''T'', qs_description = None, qs_visibility = vis_private,
        qs_is_published = False, qs_version = 1, qs_created_at = 0\<rparr>],
      questions := [\<lparr>q_id = 4, q_quiz_set_id = 2, q_position = 2, q_body = ''b'', q_type = true_false,
          q_time_limit_seconds = 20, q_points = 500, q_explanation = None\<rparr>,
        \<lparr>q_id = 3, q_quiz_set_id = 2, q_position = 1, q_body = ''a'', q_type = single_choice,
          q_time_limit_seconds = 10, q_points = 1000, q_explanation = None\<rparr>,
        \<lparr>q_id = 5, q_quiz_set_id = 2, q_position = 3, q_body = ''c'', q_type = single_choice,
          q_time_limit_seconds = 10, q_points = 1000, q_explanation = None\<rparr>],
      answer_options := [\<lparr>ao_id = 41, ao_question_id = 4, ao_position = 1, ao_body = ''T'', ao_is_correct = True\<rparr>]\<rparr>\<rparr>"

declare demo_quiz_def [exec] load_owned_quiz_def [exec] owned_question_def [exec] quiz_rows_def [exec]
  dense_quiz_def [exec] question_key_def [exec] SHIFT_SENTINEL_def [exec] option_key_def [exec] unique_by_def [exec]

definition demo_new_question :: question_create where
  "demo_new_question = \<lparr>cq_position = Some 2, cq_body = ''n'', cq_type = true_false, cq_time_limit_seconds = 10, cq_points = 100,
     cq_explanation = None, cq_options = []\<rparr>"

definition demo_move :: question_update where
  "demo_move = \<lparr>uq_position = Some 1, uq_body = None, uq_type = None, uq_time_limit_seconds = None, uq_points = None,
     uq_explanation = None, uq_options = None\<rparr>"

lemma demo_quiz_facts:
  "load_owned_quiz (wdb demo_quiz) 1 2 = Inr (hd (quiz_sets (wdb demo_quiz)))"
  "owned_question (wdb demo_quiz) 1 5 = Inr (questions (wdb demo_quiz) ! 2)"
  "unique_by question_key (questions (wdb demo_quiz))" "unique_by q_id (questions (wdb demo_quiz))"
  "dense_quiz 2 (questions (wdb demo_quiz))" "length (quiz_rows 2 (questions (wdb demo_quiz))) = 3"
  "unique_by ao_id (answer_options (wdb demo_quiz))" "unique_by option_key (answer_options (wdb demo_quiz))"
  "q_quiz_set_id (questions (wdb demo_quiz) ! 2) = 2" "match_questions (wdb demo_quiz) = []"
  "question_order 2 (questions (wdb demo_quiz)) = [3, 4, 5]"
  by (simp_all add: exec upto.simps question_order_def)


theorem delete_question_order_witness:
  "\<exists>w'. delete_question 1 5 demo_quiz = (Inr (), w') \<and> question_order 2 (questions (wdb w')) = [3, 4]"
  using delete_question_order [OF demo_quiz_facts(2), unfolded demo_quiz_facts]
    demo_quiz_facts by (auto simp: SHIFT_SENTINEL_def)

theorem update_question_moves_witness:
  "\<exists>w'. update_question 1 5 demo_move demo_quiz = (Inr (), w') \<and> question_order 2 (questions (wdb w')) = [5, 3, 4]"
  using update_question_moves [OF demo_quiz_facts(2), of demo_move 1, unfolded demo_quiz_facts]
    demo_quiz_facts by (auto simp: SHIFT_SENTINEL_def demo_move_def insert_at_def)

section \<open>Publishing\<close>

definition playable :: "Question \<times> AnswerOption list \<Rightarrow> bool" where
  "playable = (\<lambda>(q, opts). let n = length opts; c = length (filter ao_is_correct opts) in
     2 \<le> n \<and> 1 \<le> c \<and> c < n \<and> (q_type q \<noteq> multiple_choice \<longrightarrow> c = 1) \<and> (q_type q = true_false \<longrightarrow> n = 2))"

lemma question_issues_Nil: "question_issues x = [] \<longleftrightarrow> playable x"
  by (cases x) (auto simp: question_issues_def playable_def Let_def split: QuestionType.splits)

lemma validate_publish_Nil: "validate_publish qs = [] \<longleftrightarrow> qs \<noteq> [] \<and> list_all playable qs"
  by (auto simp: validate_publish_def list_all_iff question_issues_Nil)

lemma get_quiz_set_upd:
  assumes "\<And>s. qs_id (f s) = qs_id s"
  shows "find (\<lambda>s. qs_id s = i) (upd_where (\<lambda>s. qs_id s = i) f rows) = map_option f (find (\<lambda>s. qs_id s = i) rows)"
  using assms by (induction rows) auto

lemma load_owned_quiz_cases:
  "load_owned_quiz d owner_id sid = (case get_quiz_set d sid of None \<Rightarrow> Inl (AuthError ''VALIDATION_ERROR'' 404 ''quiz set not found'')
     | Some s \<Rightarrow> if qs_owner_id s = owner_id then Inr s else Inl (AuthError ''FORBIDDEN'' 403 ''not the quiz owner''))"
  by (auto simp: load_owned_quiz_def of_option_def guard_def split: option.splits)

text \<open>
  Publishing.  A quiz is published exactly when it exists, the caller owns it, it has questions and
  every question is playable: at least two options, a right one and a wrong one, one right answer only unless
  it is multiple choice, two options if it is true/false.  Then the quiz is stored as published with its
  version raised, and one \<^verbatim>\<open>QuizPublished\<close> event follows the moderation flags.  Otherwise the caller gets the
  404, 403 or 422 and nothing is stored, the automatic moderation reports included.
\<close>
theorem publish_quiz_set_outcome:
  "case get_quiz_set (wdb w) sid of
     None \<Rightarrow> publish_quiz_set pol now owner_id sid w = (Inl (AuthError ''VALIDATION_ERROR'' 404 ''quiz set not found''), w)
   | Some quiz \<Rightarrow>
     if qs_owner_id quiz \<noteq> owner_id then publish_quiz_set pol now owner_id sid w = (Inl (AuthError ''FORBIDDEN'' 403 ''not the quiz owner''), w)
     else if with_options (wdb w) sid = [] \<or> \<not> list_all playable (with_options (wdb w) sid)
     then fst (publish_quiz_set pol now owner_id sid w) = Inl (AuthError ''VALIDATION_ERROR'' 422 ''quiz set failed publish validation'') \<and>
       wdb (snd (publish_quiz_set pol now owner_id sid w)) = wdb w
     else \<exists>w' flags i. publish_quiz_set pol now owner_id sid w = (Inr (quiz\<lparr>qs_is_published := True, qs_version := qs_version quiz + 1\<rparr>), w') \<and>
       get_quiz_set (wdb w') sid = Some (quiz\<lparr>qs_is_published := True, qs_version := qs_version quiz + 1\<rparr>) \<and>
       outbox_events (wdb w') = outbox_events (wdb w) @ flags @
         [outbox_row i ''QuizPublished'' ''quiz_set'' (qs_id quiz)
           (JObj [(''quiz_set_id'', JStr (int_str (qs_id quiz))), (''version'', JInt (qs_version quiz + 1)),
                  (''owner_id'', JStr (int_str owner_id)), (''title'', JStr (qs_title quiz))]) now] \<and>
       list_all (\<lambda>e. ob_event_type e = EVT_CONTENT_FLAGGED) flags \<and>
       length (moderation_reports (wdb w')) = length (moderation_reports (wdb w)) + length flags"
proof -
  have ok: "\<exists>w' flags i. publish_quiz_set pol now owner_id sid w = (Inr (quiz\<lparr>qs_is_published := True, qs_version := qs_version quiz + 1\<rparr>), w') \<and>
       get_quiz_set (wdb w') sid = Some (quiz\<lparr>qs_is_published := True, qs_version := qs_version quiz + 1\<rparr>) \<and>
       outbox_events (wdb w') = outbox_events (wdb w) @ flags @
         [outbox_row i ''QuizPublished'' ''quiz_set'' (qs_id quiz)
           (JObj [(''quiz_set_id'', JStr (int_str (qs_id quiz))), (''version'', JInt (qs_version quiz + 1)),
                  (''owner_id'', JStr (int_str owner_id)), (''title'', JStr (qs_title quiz))]) now] \<and>
       list_all (\<lambda>e. ob_event_type e = EVT_CONTENT_FLAGGED) flags \<and>
       length (moderation_reports (wdb w')) = length (moderation_reports (wdb w)) + length flags"
    if q: "get_quiz_set (wdb w) sid = Some quiz" "qs_owner_id quiz = owner_id" and v: "validate_publish (with_options (wdb w) sid) = []" for quiz
  proof -
    obtain rs d1 w1 where fl: "auto_flag_on_publish pol now quiz (with_options (wdb w) sid) (wdb w) w = (rs, d1, w1)"
      by (metis prod_cases3)
    from persist_flags_effect [OF fl [unfolded auto_flag_on_publish_def]] obtain es where
      es: "d1 = (wdb w)\<lparr>moderation_reports := moderation_reports (wdb w) @ rs, outbox_events := outbox_events (wdb w) @ es\<rparr>"
        "list_all (\<lambda>e. ob_event_type e = EVT_CONTENT_FLAGGED) es" "length rs = length es" by (auto simp: list_all_iff)
    have "quiz \<in> set (quiz_sets (wdb w))" "qs_id quiz = sid"
      using find_Some_set q(1) by (fastforce simp: get_quiz_set_def)+
    then show ?thesis
      using q v es by (intro exI [of _ "snd (publish_quiz_set pol now owner_id sid w)"] exI [of _ es] exI [of _ "id_supply w1 (id_next w1)"])
        (simp add: publish_quiz_set_def load_owned_quiz_cases fl register_eq register_event_def get_quiz_set_def get_quiz_set_upd Let_def)
  qed
  have bad: "fst (publish_quiz_set pol now owner_id sid w) = Inl (AuthError ''VALIDATION_ERROR'' 422 ''quiz set failed publish validation'') \<and>
       wdb (snd (publish_quiz_set pol now owner_id sid w)) = wdb w"
    if q: "get_quiz_set (wdb w) sid = Some quiz" "qs_owner_id quiz = owner_id" and v: "validate_publish (with_options (wdb w) sid) \<noteq> []" for quiz
  proof -
    obtain rs d1 w1 where fl: "auto_flag_on_publish pol now quiz (with_options (wdb w) sid) (wdb w) w = (rs, d1, w1)"
      by (metis prod_cases3)
    have "wdb w1 = wdb w" using persist_flags_effect [OF fl [unfolded auto_flag_on_publish_def]] by blast
    with q v show ?thesis by (simp add: publish_quiz_set_def load_owned_quiz_cases fl Let_def)
  qed
  show ?thesis
    using ok bad by (auto simp: validate_publish_Nil publish_quiz_set_def load_owned_quiz_cases split: option.splits)
qed

section \<open>Positions above the sentinel\<close>

lemma update_rows_result:
  "update_rows P f k seen rows = Some out \<Longrightarrow> out = seen @ upd_where P f rows"
  by (induction P f k seen rows rule: update_rows.induct) (auto split: if_splits)

lemma update_questions_result: "update_questions P f qs = Some out \<Longrightarrow> out = upd_where P (at_position f) qs"
  using update_rows_result [of P "at_position f" question_key "[]" qs out] by (simp add: update_questions_def)

text \<open>
  The request schema bounds a question's position from below only.  A question at or above the
  sentinel is taken for a parked one: every insertion in its quiz, wherever it is, pulls that question
  down by the sentinel.  (The hypothesis holds after one request with a position of one million.)
\<close>
theorem shift_pulls_distant_question:
  assumes "q \<in> set qs" "q_quiz_set_id q = sid" "SHIFT_SENTINEL \<le> q_position q"
    and "shift_question_positions sid from_position by qs = Some qs'"
  shows "q\<lparr>q_position := q_position q - SHIFT_SENTINEL + by\<rparr> \<in> set qs'"
proof -
  obtain qs1 where qs1: "qs1 = upd_where (\<lambda>q. q_quiz_set_id q = sid \<and> from_position \<le> q_position q \<and> q_position q < SHIFT_SENTINEL)
      (at_position (\<lambda>p. p + SHIFT_SENTINEL)) qs"
    and qs': "qs' = upd_where (\<lambda>q. q_quiz_set_id q = sid \<and> SHIFT_SENTINEL \<le> q_position q) (at_position (\<lambda>p. p - SHIFT_SENTINEL + by)) qs1"
    using assms(4) by (auto simp: shift_question_positions_def bind_eq_Some_conv dest!: update_questions_result)
  have "q \<in> set qs1" unfolding qs1 set_upd_where using assms(1,3) by (intro image_eqI [of _ _ q]) auto
  then show ?thesis unfolding qs' set_upd_where using assms(2,3) by (intro image_eqI [of _ _ q]) auto
qed

definition demo_distant :: "Question list" where
  "demo_distant = [\<lparr>q_id = 3, q_quiz_set_id = 2, q_position = 1, q_body = ''a'', q_type = single_choice,
      q_time_limit_seconds = 10, q_points = 1000, q_explanation = None\<rparr>,
    \<lparr>q_id = 4, q_quiz_set_id = 2, q_position = 1000005, q_body = ''b'', q_type = single_choice,
      q_time_limit_seconds = 10, q_points = 1000, q_explanation = None\<rparr>]"

theorem shift_pulls_distant_question_witness:
  "\<exists>qs'. shift_question_positions 2 1 1 demo_distant = Some qs' \<and> (demo_distant ! 1)\<lparr>q_position := 6\<rparr> \<in> set qs'"
proof -
  have "\<exists>qs'. shift_question_positions 2 1 1 demo_distant = Some qs'"
    by (simp add: shift_question_positions_def update_questions_def demo_distant_def exec)
  then obtain qs' where qs': "shift_question_positions 2 1 1 demo_distant = Some qs'" by blast
  with shift_pulls_distant_question [of "demo_distant ! 1" demo_distant 2 1 1 qs'] show ?thesis
    by (auto simp: demo_distant_def exec)
qed

definition demo_draft :: QuizSet where
  "demo_draft = \<lparr>qs_id = 2, qs_owner_id = 1, qs_title = ''T'', qs_description = None, qs_visibility = vis_public,
     qs_is_published = False, qs_version = 1, qs_created_at = 0\<rparr>"

definition demo_publish :: world where
  "demo_publish = (empty_world (\<lambda>n. 100 + int n))\<lparr>wdb := empty_db
     \<lparr>quiz_sets := [demo_draft],
      questions := [\<lparr>q_id = 3, q_quiz_set_id = 2, q_position = 1, q_body = ''a'', q_type = single_choice,
          q_time_limit_seconds = 10, q_points = 1000, q_explanation = None\<rparr>],
      answer_options := [\<lparr>ao_id = 31, ao_question_id = 3, ao_position = 1, ao_body = ''x'', ao_is_correct = True\<rparr>,
        \<lparr>ao_id = 32, ao_question_id = 3, ao_position = 2, ao_body = ''y'', ao_is_correct = False\<rparr>]\<rparr>\<rparr>"

theorem publish_quiz_set_outcome_witness:
  "\<exists>w'. publish_quiz_set \<lparr>policy_words = [], policy_patterns = []\<rparr> 5 1 2 demo_publish = (Inr (demo_draft\<lparr>qs_is_published := True, qs_version := 2\<rparr>), w') \<and>
     get_quiz_set (wdb w') 2 = Some (demo_draft\<lparr>qs_is_published := True, qs_version := 2\<rparr>)"
proof -
  have "get_quiz_set (wdb demo_publish) 2 = Some demo_draft" "qs_owner_id demo_draft = 1" "qs_version demo_draft = 1"
    by (simp_all add: exec demo_publish_def demo_draft_def)
  moreover have "with_options (wdb demo_publish) 2 \<noteq> []" "list_all playable (with_options (wdb demo_publish) 2)"
    by (simp_all add: exec demo_publish_def with_options_def playable_def)
  ultimately show ?thesis
    using publish_quiz_set_outcome [of "\<lparr>policy_words = [], policy_patterns = []\<rparr>" 5 1 2 demo_publish] by auto
qed

lemma resolve_tags_frame:
  "resolve_tags names seen d w = (ids, d', w') \<Longrightarrow>
     (\<exists>ts. d' = d\<lparr>quiz_tags := ts\<rparr>) \<and> (\<exists>n \<ge> id_next w. w' = w\<lparr>id_next := n\<rparr>)"
proof (induction names arbitrary: seen d w)
  case Nil
  then show ?case by (auto intro: exI [of _ "quiz_tags d"] exI [of _ "id_next w"])
next
  case (Cons raw names)
  let ?name = "lower (strip raw)"
  show ?case
  proof (cases "?name = [] \<or> map_of seen ?name \<noteq> None")
    case True
    then have "resolve_tags names seen d w = (ids, d', w')" using Cons.prems by (simp add: Let_def)
    then show ?thesis by (rule Cons.IH)
  next
    case False
    define w1 where "w1 = snd (fresh_id w)"
    obtain tid d1 where u: "upsert_tag (id_supply w (id_next w)) ?name d = (tid, d1)" by fastforce
    from False u have "resolve_tags names (seen @ [(?name, tid)]) d1 w1 = (ids, d', w')"
      using Cons.prems by (simp add: Let_def w1_def split_beta)
    from Cons.IH [OF this] obtain ts n where "d' = d1\<lparr>quiz_tags := ts\<rparr>" "id_next w1 \<le> n" "w' = w1\<lparr>id_next := n\<rparr>" by blast
    moreover have "\<exists>ts. d1 = d\<lparr>quiz_tags := ts\<rparr>"
      using u by (auto simp: upsert_tag_def split: option.splits intro: exI [of _ "quiz_tags d"])
    ultimately show ?thesis by (auto simp: w1_def fresh_id_def intro: exI [of _ n])
  qed
qed

end
