(* ===== verification/Seeds.thy ===== *)
theory Seeds
  imports Auth QuizService
begin

text \<open>
  The seed script: src/backend/app/db/seed.py with src/migrations/seeds.  It runs in one transaction: the tables \<open>d\<close> are
  passed along and committed at the end, an exception leaves the database as it was.  Each part first looks for
  the row with its natural key (\<^verbatim>\<open>scalar_one_or_none\<close>, which raises when there are several).  The argon2 hasher of passlib
  is an argument.  A character beyond ASCII is written as its UTF-8 bytes.
\<close>

section \<open>The transaction\<close>

type_synonym 'a seeding = "db \<Rightarrow> world \<Rightarrow> ('a \<times> db) result \<times> world"

definition scalar_one_or_none :: "'a list \<Rightarrow> 'a option result" where
  "scalar_one_or_none rows = (case rows of [] \<Rightarrow> Inr None | [x] \<Rightarrow> Inr (Some x) | _ \<Rightarrow> Inl (PyError ''MultipleResultsFound''))"

definition seed_bind :: "'a seeding \<Rightarrow> ('a \<Rightarrow> 'b seeding) \<Rightarrow> 'b seeding" where
  "seed_bind m k d w = (case m d w of (Inl e, w) \<Rightarrow> (Inl e, w) | (Inr (x, d), w) \<Rightarrow> k x d w)"

definition seed_return :: "'a \<Rightarrow> 'a seeding" where
  "seed_return x d w = (Inr (x, d), w)"

text \<open>The existing row, or the one \<open>create\<close> makes.\<close>

definition ensure :: "(db \<Rightarrow> 'a list) \<Rightarrow> 'a seeding \<Rightarrow> 'a seeding" where
  "ensure rows create d w =
     (case scalar_one_or_none (rows d) of
        Inl e \<Rightarrow> (Inl e, w)
      | Inr (Some x) \<Rightarrow> (Inr (x, d), w)
      | Inr None \<Rightarrow> create d w)"

section \<open>seed_users.py\<close>

record user_spec =
  su_email :: string
  su_password :: string
  su_display_name :: string
  su_role :: UserRole

definition SEED_USERS :: "user_spec list" where
  "SEED_USERS =
     [\<lparr>su_email = ''admin@livequiz.local'', su_password = ''admin'', su_display_name = ''Admin'', su_role = role_admin\<rparr>,
      \<lparr>su_email = ''host@livequiz.local'', su_password = ''host'', su_display_name = ''Host'', su_role = role_host\<rparr>,
      \<lparr>su_email = ''player1@livequiz.local'', su_password = ''player'', su_display_name = ''Player One'', su_role = role_player\<rparr>,
      \<lparr>su_email = ''player2@livequiz.local'', su_password = ''player'', su_display_name = ''Player Two'', su_role = role_player\<rparr>]"

definition new_seed_user :: "(string \<Rightarrow> string) \<Rightarrow> user_spec \<Rightarrow> User seeding" where
  "new_seed_user argon2 spec d w =
     (let (i, w) = fresh_id w;
          user = \<lparr>u_id = i, u_email = su_email spec, u_password_hash = argon2 (su_password spec),
            u_display_name = su_display_name spec, u_role = su_role spec, u_is_active = True\<rparr>
      in case insert_user user d of
           None \<Rightarrow> (Inl (PyError ''IntegrityError''), w)
         | Some d \<Rightarrow> (Inr (user, d), w))"

definition users_with_email :: "string \<Rightarrow> db \<Rightarrow> User list" where
  "users_with_email email d = filter (\<lambda>u. u_email u = email) (users d)"

definition seed_user :: "(string \<Rightarrow> string) \<Rightarrow> user_spec \<Rightarrow> User seeding" where
  "seed_user argon2 spec = ensure (users_with_email (su_email spec)) (new_seed_user argon2 spec)"

fun seed_users :: "(string \<Rightarrow> string) \<Rightarrow> user_spec list \<Rightarrow> (string \<times> User) list seeding" where
  "seed_users argon2 [] = seed_return []"
| "seed_users argon2 (spec # specs) =
     seed_bind (seed_user argon2 spec) (\<lambda>u. seed_bind (seed_users argon2 specs) (\<lambda>out. seed_return ((su_email spec, u) # out)))"

section \<open>seed_quizzes.py\<close>

type_synonym QuestionSpec = "string \<times> QuestionType \<times> (string \<times> bool) list \<times> string option"

definition NETWORKS :: "QuestionSpec list" where
  "NETWORKS =
    [
     (''Which OSI layer is responsible for end-to-end delivery?'', single_choice,
      [(''Network'', False), (''Transport'', True), (''Session'', False), (''Data Link'', False)], Some ''TCP/UDP live at the transport layer.''),
     (''TCP is connection-oriented.'', true_false,
      [(''True'', True), (''False'', False)], None),
     (''Which protocols operate primarily over UDP? (choose all)'', multiple_choice,
      [(''DNS'', True), (''HTTP/1.1'', False), (''QUIC'', True), (''FTP'', False)], Some ''DNS uses UDP/53 by default; QUIC is built on UDP.''),
     (''What is the default TLS port for HTTPS?'', single_choice,
      [(''80'', False), (''8080'', False), (''443'', True), (''21'', False)], None),
     (''An IPv4 address is how many bits wide?'', single_choice,
      [(''16'', False), (''32'', True), (''64'', False), (''128'', False)], None),
     (''ARP resolves IPv4 addresses to MAC addresses.'', true_false,
      [(''True'', True), (''False'', False)], None),
     (''Which fields appear in a TCP header? (choose all)'', multiple_choice,
      [(''Source port'', True), (''Sequence number'', True), (''TTL'', False), (''Window size'', True)], Some ''TTL is in the IP header, not TCP.''),
     (''CIDR /24 covers how many host addresses (excluding network/broadcast)?'', single_choice,
      [(''254'', True), (''256'', False), (''510'', False), (''128'', False)], None),
     ((''DNS records that map a name to an IPv6 address are called'' @ [CHR 0xE2, CHR 0x80, CHR 0xA6]), single_choice,
      [(''A'', False), (''AAAA'', True), (''CNAME'', False), (''MX'', False)], None),
     (''BGP is an interior gateway protocol.'', true_false,
      [(''True'', False), (''False'', True)], Some ''BGP is exterior; OSPF and RIP are interior.'')]"

definition DATABASES :: "QuestionSpec list" where
  "DATABASES =
    [
     (''Which property of ACID guarantees that committed data survives crashes?'', single_choice,
      [(''Atomicity'', False), (''Consistency'', False), (''Isolation'', False), (''Durability'', True)], None),
     (''A B+ tree index is typically used for range scans.'', true_false,
      [(''True'', True), (''False'', False)], None),
     (''Which isolation levels prevent dirty reads? (choose all)'', multiple_choice,
      [(''Read uncommitted'', False), (''Read committed'', True), (''Repeatable read'', True), (''Serializable'', True)], None),
     (''In Postgres, which command rebuilds index statistics?'', single_choice,
      [(''VACUUM'', False), (''ANALYZE'', True), (''REINDEX'', False), (''CLUSTER'', False)], None),
     (''A foreign key always implies an index on the referencing column.'', true_false,
      [(''True'', False), (''False'', True)], Some ''Postgres does not auto-create an index for the referencing side.''),
     (''Which normal form removes transitive dependencies?'', single_choice,
      [(''1NF'', False), (''2NF'', False), (''3NF'', True), (''BCNF'', False)], None),
     (''Which of these are valid index types in Postgres? (choose all)'', multiple_choice,
      [(''B-tree'', True), (''GIN'', True), (''BRIN'', True), (''R-tree'', False)], None),
     (''A composite primary key counts as one constraint at the table level.'', true_false,
      [(''True'', True), (''False'', False)], None),
     ((''What does the SQL '' @ [CHR 0x60] @ ''EXPLAIN ANALYZE'' @ [CHR 0x60] @ '' clause add over plain '' @ [CHR 0x60] @ ''EXPLAIN'' @ [CHR 0x60] @ ''?''), single_choice,
      [(''Pretty-print only'', False), (''Actual run timings'', True), (''Schema validation'', False), (''Locks'', False)], None)]"

definition GENERAL :: "QuestionSpec list" where
  "GENERAL =
    [
     (''Which planet is the largest in our solar system?'', single_choice,
      [(''Earth'', False), (''Saturn'', False), (''Jupiter'', True), (''Neptune'', False)], None),
     (''The Pacific Ocean is larger than all land combined.'', true_false,
      [(''True'', True), (''False'', False)], None),
     (''Which of these are programming languages? (choose all)'', multiple_choice,
      [(''Rust'', True), (''Markdown'', False), (''Python'', True), (''Kotlin'', True)], None),
     ((''Who wrote the play '' @ [CHR 0x27] @ ''Hamlet'' @ [CHR 0x27] @ ''?''), single_choice,
      [(''Shakespeare'', True), (''Tolstoy'', False), (''Dostoevsky'', False), (''Marlowe'', False)], None),
     (''Mount Everest is the tallest mountain measured from sea level.'', true_false,
      [(''True'', True), (''False'', False)], None),
     (''Which gas do plants primarily absorb during photosynthesis?'', single_choice,
      [(''Oxygen'', False), (''Carbon dioxide'', True), (''Nitrogen'', False), (''Methane'', False)], None),
     (''Which of these countries border France? (choose all)'', multiple_choice,
      [(''Spain'', True), (''Italy'', True), (''Portugal'', False), (''Belgium'', True)], None),
     (''How many bits are in a byte?'', single_choice,
      [(''4'', False), (''8'', True), (''16'', False), (''32'', False)], None)]"

type_synonym quiz_spec = "string \<times> string \<times> string list \<times> QuestionSpec list"

definition QUIZZES :: "quiz_spec list" where
  "QUIZZES =
     [(''Computer Networks basics'', ''Foundational questions on TCP/IP, DNS, and routing.'', [''networks''], NETWORKS),
      (''Database design fundamentals'', ''Indexes, transactions, normalization, query plans.'', [''database''], DATABASES),
      (''General knowledge demo'', ''A grab-bag for the live demo recording.'', [''general''], GENERAL)]"

definition ensure_tag :: "string \<Rightarrow> QuizTag seeding" where
  "ensure_tag name =
     ensure (\<lambda>d. filter (\<lambda>t. qt_name t = name) (quiz_tags d))
       (\<lambda>d w. let (i, w) = fresh_id w; tag = \<lparr>qt_id = i, qt_name = name\<rparr>
              in if i \<in> qt_id ` set (quiz_tags d) then (Inl (PyError ''IntegrityError''), w)
                 else (Inr (tag, d\<lparr>quiz_tags := quiz_tags d @ [tag]\<rparr>), w))"

definition link_tag :: "int \<Rightarrow> QuizTag \<Rightarrow> unit seeding" where
  "link_tag quiz_id tag d w =
     (let link = \<lparr>qst_quiz_set_id = quiz_id, qst_tag_id = qt_id tag\<rparr>
      in if link \<in> set (quiz_set_tags d) then (Inl (PyError ''IntegrityError''), w)
         else (Inr ((), d\<lparr>quiz_set_tags := quiz_set_tags d @ [link]\<rparr>), w))"

fun seed_tags :: "int \<Rightarrow> string list \<Rightarrow> unit seeding" where
  "seed_tags quiz_id [] = seed_return ()"
| "seed_tags quiz_id (name # names) =
     seed_bind (ensure_tag name) (\<lambda>tag. seed_bind (link_tag quiz_id tag) (\<lambda>_. seed_tags quiz_id names))"

text \<open>\<^verbatim>\<open>enumerate(options, start=1)\<close>\<close>

definition seed_options :: "(string \<times> bool) list \<Rightarrow> option_in list" where
  "seed_options opts = map (\<lambda>(n, body, correct). \<lparr>oi_position = int n, oi_body = body, oi_is_correct = correct\<rparr>) (enumerate 1 opts)"

definition question_row :: "int \<Rightarrow> nat \<Rightarrow> QuestionSpec \<Rightarrow> int \<Rightarrow> Question" where
  "question_row quiz_id position = (\<lambda>(body, qtype, opts, explanation) i.
     \<lparr>q_id = i, q_quiz_set_id = quiz_id, q_position = int position, q_body = body, q_type = qtype,
      q_time_limit_seconds = 20, q_points = 1000, q_explanation = explanation\<rparr>)"

definition spec_options :: "QuestionSpec \<Rightarrow> option_in list" where
  "spec_options = (\<lambda>(body, qtype, opts, explanation). seed_options opts)"

definition seed_question :: "int \<Rightarrow> nat \<Rightarrow> QuestionSpec \<Rightarrow> unit seeding" where
  "seed_question quiz_id position spec d w =
     (let (i, w) = fresh_id w
      in case insert_question (question_row quiz_id position spec i) (questions d) of
           None \<Rightarrow> (Inl (PyError ''IntegrityError''), w)
         | Some qs \<Rightarrow>
           let (ids, w) = fresh_ids (length (spec_options spec)) w
           in case insert_options (new_options i ids (spec_options spec)) (d\<lparr>questions := qs\<rparr>) of
                None \<Rightarrow> (Inl (PyError ''IntegrityError''), w)
              | Some d \<Rightarrow> (Inr ((), d), w))"

fun seed_questions :: "int \<Rightarrow> nat \<Rightarrow> QuestionSpec list \<Rightarrow> unit seeding" where
  "seed_questions quiz_id position [] = seed_return ()"
| "seed_questions quiz_id position (spec # specs) =
     seed_bind (seed_question quiz_id position spec) (\<lambda>_. seed_questions quiz_id (Suc position) specs)"

definition quizzes_titled :: "int \<Rightarrow> string \<Rightarrow> db \<Rightarrow> QuizSet list" where
  "quizzes_titled owner_id title d = filter (\<lambda>s. qs_owner_id s = owner_id \<and> qs_title s = title) (quiz_sets d)"

definition quiz_row :: "time \<Rightarrow> int \<Rightarrow> string \<Rightarrow> string \<Rightarrow> int \<Rightarrow> QuizSet" where
  "quiz_row now owner_id title description i =
     \<lparr>qs_id = i, qs_owner_id = owner_id, qs_title = title, qs_description = Some description,
      qs_visibility = vis_public, qs_is_published = True, qs_version = 1, qs_created_at = now\<rparr>"

definition add_quiz_row :: "time \<Rightarrow> int \<Rightarrow> string \<Rightarrow> string \<Rightarrow> QuizSet seeding" where
  "add_quiz_row now owner_id title description d w =
     (let (i, w) = fresh_id w; quiz = quiz_row now owner_id title description i
      in if i \<in> qs_id ` set (quiz_sets d) then (Inl (PyError ''IntegrityError''), w)
         else (Inr (quiz, d\<lparr>quiz_sets := quiz_sets d @ [quiz]\<rparr>), w))"

definition new_seed_quiz :: "time \<Rightarrow> int \<Rightarrow> quiz_spec \<Rightarrow> QuizSet seeding" where
  "new_seed_quiz now owner_id = (\<lambda>(title, description, tag_names, qspecs).
     seed_bind (add_quiz_row now owner_id title description) (\<lambda>quiz.
     seed_bind (seed_tags (qs_id quiz) tag_names) (\<lambda>_.
     seed_bind (seed_questions (qs_id quiz) 1 qspecs) (\<lambda>_. seed_return quiz))))"

definition seed_quiz :: "time \<Rightarrow> int \<Rightarrow> quiz_spec \<Rightarrow> QuizSet seeding" where
  "seed_quiz now owner_id spec = ensure (quizzes_titled owner_id (fst spec)) (new_seed_quiz now owner_id spec)"

fun seed_quizzes :: "time \<Rightarrow> int \<Rightarrow> quiz_spec list \<Rightarrow> (string \<times> QuizSet) list seeding" where
  "seed_quizzes now owner_id [] = seed_return []"
| "seed_quizzes now owner_id (spec # specs) =
     seed_bind (seed_quiz now owner_id spec) (\<lambda>quiz. seed_bind (seed_quizzes now owner_id specs) (\<lambda>out. seed_return ((fst spec, quiz) # out)))"

section \<open>seed_demo_room.py and seed.py\<close>

definition DEMO_CODE :: string where "DEMO_CODE = ''DEMO01''"

definition new_demo_room :: "int \<Rightarrow> int \<Rightarrow> Room seeding" where
  "new_demo_room host_id quiz_id d w =
     (let (i, w) = fresh_id w;
          room = \<lparr>rm_id = i, rm_code = DEMO_CODE, rm_host_id = host_id, rm_quiz_set_id = quiz_id, rm_status = lobby,
            rm_max_players = 50, rm_settings = JObj [], rm_started_at = None, rm_ended_at = None\<rparr>
      in if i \<in> rm_id ` set (rooms d) then (Inl (PyError ''IntegrityError''), w)
         else (Inr (room, d\<lparr>rooms := rooms d @ [room]\<rparr>), w))"

definition seed_demo_room :: "int \<Rightarrow> int \<Rightarrow> Room seeding" where
  "seed_demo_room host_id quiz_id = ensure (\<lambda>d. filter (\<lambda>r. rm_code r = DEMO_CODE) (rooms d)) (new_demo_room host_id quiz_id)"

definition lookup_seed :: "string \<Rightarrow> (string \<times> 'a) list \<Rightarrow> 'a seeding" where
  "lookup_seed key out d w = (case map_of out key of None \<Rightarrow> (Inl (PyError ''KeyError''), w) | Some x \<Rightarrow> (Inr (x, d), w))"

definition seed_steps :: "(string \<Rightarrow> string) \<Rightarrow> time \<Rightarrow> Room seeding" where
  "seed_steps argon2 now =
     seed_bind (seed_users argon2 SEED_USERS) (\<lambda>users.
     seed_bind (lookup_seed ''host@livequiz.local'' users) (\<lambda>host.
     seed_bind (seed_quizzes now (u_id host) QUIZZES) (\<lambda>quizzes.
     seed_bind (lookup_seed ''Computer Networks basics'' quizzes) (\<lambda>quiz.
     seed_demo_room (u_id host) (qs_id quiz)))))"

definition seed_main :: "(string \<Rightarrow> string) \<Rightarrow> time \<Rightarrow> Room handler" where
  "seed_main argon2 now w =
     (case seed_steps argon2 now (wdb w) w of
        (Inl e, w) \<Rightarrow> (Inl e, w)
      | (Inr (room, d), w) \<Rightarrow> (Inr room, w\<lparr>wdb := d\<rparr>))"

section \<open>Running the script again\<close>

text \<open>
  A part of the script has a natural key: \<open>rows\<close> are the rows that carry it, and what creates the row leaves exactly one.
\<close>

locale natural_key =
  fixes rows :: "db \<Rightarrow> 'a list" and create :: "'a seeding"
  assumes created: "rows d = [] \<Longrightarrow> create d w = (Inr (x, d'), w') \<Longrightarrow> rows d' = [x]"
begin

lemma ensured: "ensure rows create d w = (Inr (x, d'), w') \<Longrightarrow> rows d' = [x]"
  using created by (auto simp: ensure_def scalar_one_or_none_def split: list.splits)

lemma again: "rows d = [x] \<Longrightarrow> ensure rows create d w = (Inr (x, d), w)"
  by (simp add: ensure_def scalar_one_or_none_def)

end

text \<open>What a part leaves alone, in terms of a relation between the tables and ids before and after.\<close>

locale seed_relation =
  fixes R :: "db \<Rightarrow> world \<Rightarrow> db \<Rightarrow> world \<Rightarrow> bool"
  assumes same: "R d w d w" and chain: "R a u b v \<Longrightarrow> R b v c x \<Longrightarrow> R a u c x"
begin

definition keeps :: "'a seeding \<Rightarrow> bool" where
  "keeps m \<longleftrightarrow> (\<forall>d w x d' w'. m d w = (Inr (x, d'), w') \<longrightarrow> R d w d' w')"

lemma keepsD: "keeps m \<Longrightarrow> m d w = (Inr (x, d'), w') \<Longrightarrow> R d w d' w'"
  by (simp add: keeps_def)

lemma keeps_return [simp]: "keeps (seed_return x)"
  by (simp add: keeps_def seed_return_def same)

lemma keeps_lookup [simp]: "keeps (lookup_seed k out)"
  by (simp add: keeps_def lookup_seed_def same split: option.splits)

lemma keeps_bind [intro]: "keeps m \<Longrightarrow> (\<And>x. keeps (k x)) \<Longrightarrow> keeps (seed_bind m k)"
  by (fastforce simp: keeps_def seed_bind_def intro: chain split: prod.splits sum.splits)

lemma keeps_ensure [intro]: "keeps create \<Longrightarrow> keeps (ensure rows create)"
  by (auto simp: keeps_def ensure_def same split: option.splits sum.splits)

lemma keeps_users: "(\<And>spec. spec \<in> set specs \<Longrightarrow> keeps (new_seed_user argon2 spec)) \<Longrightarrow> keeps (seed_users argon2 specs)"
  by (induction specs) (auto simp: seed_user_def intro!: keeps_bind keeps_ensure)

lemma keeps_tags:
  "(\<And>name. keeps (ensure_tag name)) \<Longrightarrow> (\<And>tag. keeps (link_tag quiz_id tag)) \<Longrightarrow> keeps (seed_tags quiz_id names)"
  by (induction names) (auto intro!: keeps_bind)

lemma keeps_questions: "(\<And>n spec. keeps (seed_question quiz_id n spec)) \<Longrightarrow> keeps (seed_questions quiz_id n specs)"
  by (induction specs arbitrary: n) (auto intro!: keeps_bind)

lemma keeps_quizzes: "(\<And>spec. spec \<in> set specs \<Longrightarrow> keeps (new_seed_quiz now owner_id spec)) \<Longrightarrow> keeps (seed_quizzes now owner_id specs)"
  by (induction specs) (auto simp: seed_quiz_def intro!: keeps_bind keeps_ensure)

end

text \<open>The rows of a part are appended; tags and questions leave users, quizzes and rooms alone.\<close>

definition appended :: "db \<Rightarrow> db \<Rightarrow> bool" where
  "appended d d' \<longleftrightarrow> (\<exists>us qss qs aos qts qsts. d' = d\<lparr>users := users d @ us, quiz_sets := quiz_sets d @ qss, questions := questions d @ qs,
     answer_options := answer_options d @ aos, quiz_tags := quiz_tags d @ qts, quiz_set_tags := quiz_set_tags d @ qsts\<rparr>)"

interpretation appends: seed_relation "\<lambda>d w d' w'. appended d d'"
proof
  show "appended d d" for d unfolding appended_def by (intro exI [of _ "[]"]) simp
  show "appended a c" if "appended a b" "appended b c" for a b c
  proof -
    from that obtain us qss qs aos qts qsts us' qss' qs' aos' qts' qsts' where
      b: "b = a\<lparr>users := users a @ us, quiz_sets := quiz_sets a @ qss, questions := questions a @ qs,
        answer_options := answer_options a @ aos, quiz_tags := quiz_tags a @ qts, quiz_set_tags := quiz_set_tags a @ qsts\<rparr>"
      and c: "c = b\<lparr>users := users b @ us', quiz_sets := quiz_sets b @ qss', questions := questions b @ qs',
        answer_options := answer_options b @ aos', quiz_tags := quiz_tags b @ qts', quiz_set_tags := quiz_set_tags b @ qsts'\<rparr>"
      unfolding appended_def by blast
    show ?thesis unfolding appended_def
      by (rule exI [of _ "us @ us'"], rule exI [of _ "qss @ qss'"], rule exI [of _ "qs @ qs'"], rule exI [of _ "aos @ aos'"],
          rule exI [of _ "qts @ qts'"], rule exI [of _ "qsts @ qsts'"]) (simp add: b c)
  qed
qed

interpretation around: seed_relation "\<lambda>d w d' w'. users d' = users d \<and> quiz_sets d' = quiz_sets d"
  by unfold_locales simp_all

lemma ensure_tag_cases:
  assumes "ensure_tag name d w = (Inr (tag, d'), w')"
  shows "qt_name tag = name \<and> (tag \<in> set (quiz_tags d) \<and> d' = d \<and> w' = w \<or>
    name \<notin> qt_name ` set (quiz_tags d) \<and> qt_id tag = id_supply w (id_next w) \<and> qt_id tag \<notin> qt_id ` set (quiz_tags d) \<and>
      d' = d\<lparr>quiz_tags := quiz_tags d @ [tag]\<rparr> \<and> w' = w\<lparr>id_next := Suc (id_next w)\<rparr>)"
  using assms
  by (auto simp: ensure_tag_def ensure_def scalar_one_or_none_def fresh_id_def Let_def filter_empty_conv
      split: list.splits option.splits if_splits dest!: filter_eq_ConsD)

lemma seed_question_cases:
  assumes "seed_question quiz_id position spec d w = (Inr (x, d'), w')"
  shows "\<exists>ids. let q = question_row quiz_id position spec (id_supply w (id_next w)) in
    q_id q \<notin> q_id ` set (questions d) \<and> question_key q \<notin> question_key ` set (questions d) \<and>
    fresh_ids (length (spec_options spec)) (w\<lparr>id_next := Suc (id_next w)\<rparr>) = (ids, w') \<and>
    d' = d\<lparr>questions := questions d @ [q],
      answer_options := answer_options d @ new_options (id_supply w (id_next w)) ids (spec_options spec)\<rparr> \<and>
    unique_by option_key (answer_options d') \<and> unique_by ao_id (answer_options d')"
  using assms by (auto simp: seed_question_def fresh_id_def Let_def insert_question_def insert_options_def split: if_splits prod.splits option.splits)

lemma appendedI: "d' = d\<lparr>users := users d @ us, quiz_sets := quiz_sets d @ qss, questions := questions d @ qs,
     answer_options := answer_options d @ aos, quiz_tags := quiz_tags d @ qts, quiz_set_tags := quiz_set_tags d @ qsts\<rparr> \<Longrightarrow> appended d d'"
  unfolding appended_def by blast

lemma steps_append:
  "appends.keeps (ensure_tag name)" "appends.keeps (link_tag quiz_id tag)" "appends.keeps (seed_question quiz_id position spec)"
  "appends.keeps (add_quiz_row now owner_id title description)" "appends.keeps (new_seed_user argon2 uspec)"
proof -
  show "appends.keeps (ensure_tag name)"
    unfolding appends.keeps_def
    by (auto dest!: ensure_tag_cases intro: appends.same appendedI [where us = "[]" and qss = "[]" and qs = "[]" and aos = "[]" and qsts = "[]"])
  show "appends.keeps (link_tag quiz_id tag)"
    unfolding appends.keeps_def
    by (auto simp: link_tag_def Let_def split: if_splits intro: appendedI [where us = "[]" and qss = "[]" and qs = "[]" and aos = "[]" and qts = "[]"])
  show "appends.keeps (seed_question quiz_id position spec)"
    unfolding appends.keeps_def
    by (auto dest!: seed_question_cases simp: Let_def intro: appendedI [where us = "[]" and qss = "[]" and qsts = "[]" and qts = "[]"])
  show "appends.keeps (add_quiz_row now owner_id title description)"
    unfolding appends.keeps_def
    by (auto simp: add_quiz_row_def fresh_id_def Let_def split: if_splits intro: appendedI [where us = "[]" and qs = "[]" and aos = "[]" and qsts = "[]" and qts = "[]"])
  show "appends.keeps (new_seed_user argon2 uspec)"
    unfolding appends.keeps_def
    by (auto simp: new_seed_user_def fresh_id_def insert_user_def Let_def split: if_splits intro: appendedI [where qss = "[]" and qs = "[]" and aos = "[]" and qsts = "[]" and qts = "[]"])
qed

lemma steps_around:
  "around.keeps (ensure_tag name)" "around.keeps (link_tag quiz_id tag)" "around.keeps (seed_question quiz_id position spec)"
  unfolding around.keeps_def
  by (auto dest!: ensure_tag_cases seed_question_cases simp: link_tag_def Let_def split: if_splits)

lemmas tags_around = around.keeps_tags [OF steps_around(1,2)] around.keeps_questions [OF steps_around(3)]

lemma new_seed_quiz_cases:
  assumes "new_seed_quiz now owner_id spec d w = (Inr (x, d'), w')"
  shows "x = quiz_row now owner_id (fst spec) (fst (snd spec)) (id_supply w (id_next w)) \<and> users d' = users d \<and>
    quiz_sets d' = quiz_sets d @ [x]"
proof -
  obtain title description tags qspecs where spec: "spec = (title, description, tags, qspecs)" by (cases spec)
  from assms obtain d1 w1 d2 w2 where
    q: "add_quiz_row now owner_id title description d w = (Inr (x, d1), w1)" and
    t: "seed_tags (qs_id x) tags d1 w1 = (Inr ((), d2), w2)" and qs: "seed_questions (qs_id x) 1 qspecs d2 w2 = (Inr ((), d'), w')"
    by (auto simp: new_seed_quiz_def spec seed_bind_def seed_return_def split: prod.splits sum.splits)
  then show ?thesis using around.keepsD [OF tags_around(1) t] around.keepsD [OF tags_around(2) qs]
    by (auto simp: add_quiz_row_def fresh_id_def Let_def spec split: if_splits)
qed

interpretation user_key: natural_key "users_with_email (su_email spec)" "new_seed_user argon2 spec" for argon2 spec
  by unfold_locales (auto simp: users_with_email_def new_seed_user_def fresh_id_def Let_def insert_user_def split: if_splits)

interpretation quiz_key: natural_key "quizzes_titled owner_id (fst spec)" "new_seed_quiz now owner_id spec" for now owner_id spec
  by unfold_locales (auto simp: quizzes_titled_def quiz_row_def dest!: new_seed_quiz_cases)

interpretation room_key: natural_key "\<lambda>d. filter (\<lambda>r. rm_code r = DEMO_CODE) (rooms d)" "new_demo_room host_id quiz_id" for host_id quiz_id
  by unfold_locales (auto simp: new_demo_room_def fresh_id_def Let_def split: if_splits)

interpretation emails: seed_relation "\<lambda>d w d' w'. users_with_email email d' = users_with_email email d" for email
  by unfold_locales simp_all

interpretation titles: seed_relation "\<lambda>d w d' w'. users d' = users d \<and> quizzes_titled owner_id title d' = quizzes_titled owner_id title d" for owner_id title
  by unfold_locales simp_all

lemma other_emails: "email \<notin> su_email ` set specs \<Longrightarrow> emails.keeps email (seed_users argon2 specs)"
  by (rule emails.keeps_users) (unfold emails.keeps_def,
      auto simp: users_with_email_def new_seed_user_def fresh_id_def Let_def insert_user_def split: if_splits)

lemma other_titles: "title \<notin> fst ` set specs \<Longrightarrow> titles.keeps owner_id title (seed_quizzes now owner_id specs)"
  by (rule titles.keeps_quizzes) (unfold titles.keeps_def, force simp: quizzes_titled_def quiz_row_def dest!: new_seed_quiz_cases)

lemma seed_bind_Inr:
  "seed_bind m k d w = (Inr (y, d'), w') \<longleftrightarrow> (\<exists>x d1 w1. m d w = (Inr (x, d1), w1) \<and> k x d1 w1 = (Inr (y, d'), w'))"
  by (auto simp: seed_bind_def split: prod.splits sum.splits)

text \<open>After a run every natural key has one row, and a run that finds them all changes nothing.\<close>

lemma seed_users_rows:
  assumes "seed_users argon2 specs d w = (Inr (out, d'), w')" "distinct (map su_email specs)"
  shows "map fst out = map su_email specs \<and> (\<forall>(e, u) \<in> set out. users_with_email e d' = [u])"
  using assms
proof (induction specs arbitrary: d w out)
  case (Cons spec specs)
  from Cons.prems(1) obtain u d1 w1 out' where u: "seed_user argon2 spec d w = (Inr (u, d1), w1)"
    and rest: "seed_users argon2 specs d1 w1 = (Inr (out', d'), w')" and out: "out = (su_email spec, u) # out'"
    by (auto simp: seed_bind_Inr seed_return_def)
  have "users_with_email (su_email spec) d1 = [u]" using user_key.ensured u by (auto simp: seed_user_def)
  then have "users_with_email (su_email spec) d' = [u]" using emails.keepsD [OF other_emails rest] Cons.prems(2) by auto
  then show ?case using Cons.IH [OF rest] Cons.prems(2) by (simp add: out)
qed (simp add: seed_return_def)

lemma seed_users_found:
  assumes "map fst out = map su_email specs" "\<forall>(e, u) \<in> set out. users_with_email e d = [u]"
  shows "seed_users argon2 specs d w = (Inr (out, d), w)"
  using assms
proof (induction specs arbitrary: out)
  case (Cons spec specs)
  then show ?case by (cases out) (auto simp: seed_bind_def seed_return_def seed_user_def user_key.again)
qed (simp add: seed_return_def)

lemma seed_quizzes_rows:
  assumes "seed_quizzes now owner_id specs d w = (Inr (out, d'), w')" "distinct (map fst specs)"
  shows "map fst out = map fst specs \<and> (\<forall>(t, x) \<in> set out. quizzes_titled owner_id t d' = [x])"
  using assms
proof (induction specs arbitrary: d w out)
  case (Cons spec specs)
  from Cons.prems(1) obtain x d1 w1 out' where x: "seed_quiz now owner_id spec d w = (Inr (x, d1), w1)"
    and rest: "seed_quizzes now owner_id specs d1 w1 = (Inr (out', d'), w')" and out: "out = (fst spec, x) # out'"
    by (auto simp: seed_bind_Inr seed_return_def)
  have "quizzes_titled owner_id (fst spec) d1 = [x]" using quiz_key.ensured x by (auto simp: seed_quiz_def)
  then have "quizzes_titled owner_id (fst spec) d' = [x]" using titles.keepsD [OF other_titles rest] Cons.prems(2) by auto
  then show ?case using Cons.IH [OF rest] Cons.prems(2) by (simp add: out)
qed (simp add: seed_return_def)

lemma seed_quizzes_found:
  assumes "map fst out = map fst specs" "\<forall>(t, x) \<in> set out. quizzes_titled owner_id t d = [x]"
  shows "seed_quizzes now owner_id specs d w = (Inr (out, d), w)"
  using assms
proof (induction specs arbitrary: out)
  case (Cons spec specs)
  then show ?case by (cases out) (auto simp: seed_bind_def seed_return_def seed_quiz_def quiz_key.again)
qed (simp add: seed_return_def)

lemma seed_quizzes_users: "seed_quizzes now owner_id specs d w = (Inr (out, d'), w') \<Longrightarrow> users d' = users d"
proof -
  obtain title where "title \<notin> fst ` set specs" using ex_new_if_finite [OF infinite_UNIV_listI] by (metis List.finite_set finite_imageI)
  then show "users d' = users d" if "seed_quizzes now owner_id specs d w = (Inr (out, d'), w')"
    using titles.keepsD [OF other_titles that] by blast
qed

lemma seed_specs_distinct: "distinct (map su_email SEED_USERS)" "distinct (map fst QUIZZES)"
  by (simp_all add: SEED_USERS_def QUIZZES_def)

lemma seed_steps_Inr:
  assumes "seed_steps argon2 now d w = (Inr (room, d'), w')"
  obtains us d1 w1 host qs d2 w2 quiz where "seed_users argon2 SEED_USERS d w = (Inr (us, d1), w1)" "map_of us ''host@livequiz.local'' = Some host"
    "seed_quizzes now (u_id host) QUIZZES d1 w1 = (Inr (qs, d2), w2)" "map_of qs ''Computer Networks basics'' = Some quiz"
    "seed_demo_room (u_id host) (qs_id quiz) d2 w2 = (Inr (room, d'), w')"
  using assms by (auto simp: seed_steps_def seed_bind_Inr lookup_seed_def split: option.splits)

lemma seed_main_Inr:
  assumes "seed_main argon2 now w = (Inr room, w')"
  obtains us host qs quiz where "map fst us = map su_email SEED_USERS" "\<forall>(e, u) \<in> set us. users_with_email e (wdb w') = [u]"
    "map_of us ''host@livequiz.local'' = Some host" "map fst qs = map fst QUIZZES"
    "\<forall>(t, x) \<in> set qs. quizzes_titled (u_id host) t (wdb w') = [x]" "map_of qs ''Computer Networks basics'' = Some quiz"
    "filter (\<lambda>r. rm_code r = DEMO_CODE) (rooms (wdb w')) = [room]"
proof -
  from assms obtain d' w0 where "seed_steps argon2 now (wdb w) w = (Inr (room, d'), w0)" and w': "w' = w0\<lparr>wdb := d'\<rparr>"
    by (auto simp: seed_main_def split: prod.splits sum.splits)
  from this(1) obtain us d1 w1 host qs d2 w2 quiz where u: "seed_users argon2 SEED_USERS (wdb w) w = (Inr (us, d1), w1)"
    and h: "map_of us ''host@livequiz.local'' = Some host" and q: "seed_quizzes now (u_id host) QUIZZES d1 w1 = (Inr (qs, d2), w2)"
    and c: "map_of qs ''Computer Networks basics'' = Some quiz" and r: "seed_demo_room (u_id host) (qs_id quiz) d2 w2 = (Inr (room, d'), w0)"
    by (rule seed_steps_Inr)
  have d': "users d' = users d1" "quiz_sets d' = quiz_sets d2"
    using r seed_quizzes_users [OF q]
    by (auto simp: seed_demo_room_def ensure_def new_demo_room_def fresh_id_def Let_def split: sum.splits option.splits if_splits)
  have "filter (\<lambda>r. rm_code r = DEMO_CODE) (rooms d') = [room]"
    by (rule room_key.ensured [OF r [unfolded seed_demo_room_def]])
  with that [of us host qs quiz] h c show ?thesis
    using seed_users_rows [OF u seed_specs_distinct(1)] seed_quizzes_rows [OF q seed_specs_distinct(2)] d'
    by (simp add: w' users_with_email_def quizzes_titled_def)
qed

text \<open>
  C36: seeding converges.  After a run of the seed script that succeeded, on whatever database, running it again finds every
  row it wants: it returns the same demo room, takes no id and leaves the tables as they are.
\<close>
theorem seed_idempotent:
  assumes "seed_main argon2 now w = (Inr room, w')"
  shows "seed_main argon2 now2 w' = (Inr room, w')"
proof (rule seed_main_Inr [OF assms])
  fix us host qs quiz
  assume us: "map fst us = map su_email SEED_USERS" "\<forall>(e, u) \<in> set us. users_with_email e (wdb w') = [u]"
    and h: "map_of us ''host@livequiz.local'' = Some host" and qs: "map fst qs = map fst QUIZZES"
      "\<forall>(t, x) \<in> set qs. quizzes_titled (u_id host) t (wdb w') = [x]" and c: "map_of qs ''Computer Networks basics'' = Some quiz"
    and r: "filter (\<lambda>r. rm_code r = DEMO_CODE) (rooms (wdb w')) = [room]"
  then show ?thesis
    using room_key.again [OF r]
    by (simp add: seed_main_def seed_steps_def seed_bind_def lookup_seed_def seed_users_found seed_quizzes_found seed_demo_room_def)
qed

lemma demo_seed: "(case seed_main (\<lambda>p. p) 0 (empty_world int) of (Inr room, w) \<Rightarrow> rm_id room = 129 \<and> rm_code room = DEMO_CODE | _ \<Rightarrow> False)"
  by code_simp

theorem seed_idempotent_witness:
  "seed_main (\<lambda>p. p) 5 (snd (seed_main (\<lambda>p. p) 0 (empty_world int))) = seed_main (\<lambda>p. p) 0 (empty_world int)"
proof -
  obtain room w' where "seed_main (\<lambda>p. p) 0 (empty_world int) = (Inr room, w')"
    using demo_seed by (auto split: prod.splits sum.splits)
  with seed_idempotent [OF this] show ?thesis by simp
qed

text \<open>
  The key of a quiz is not one the service keeps unique: when the demo host has written another quiz with the title of
  a seeded one, the script fails from then on.
\<close>
theorem seed_duplicate_title:
  assumes "seed_main argon2 now w = (Inr room, w1)" "users_with_email ''host@livequiz.local'' (wdb w1) = [host]"
    and "create_quiz_set now2 (u_id host) payload w1 = (Inr quiz, w2)" "qc_title payload = ''Computer Networks basics''"
  shows "seed_main argon2 now3 w2 = (Inl (PyError ''MultipleResultsFound''), w2)"
proof (rule seed_main_Inr [OF assms(1)])
  fix us h qs quiz'
  assume us: "map fst us = map su_email SEED_USERS" "\<forall>(e, u) \<in> set us. users_with_email e (wdb w1) = [u]"
    and h: "map_of us ''host@livequiz.local'' = Some h" and qs: "\<forall>(t, x) \<in> set qs. quizzes_titled (u_id h) t (wdb w1) = [x]"
    and c: "map_of qs ''Computer Networks basics'' = Some quiz'"
  have hh: "h = host" using us(2) map_of_SomeD [OF h] assms(2) by auto
  have w2: "users (wdb w2) = users (wdb w1)" "quiz_sets (wdb w2) = quiz_sets (wdb w1) @ [quiz]" "qs_owner_id quiz = u_id host"
    "qs_title quiz = ''Computer Networks basics''"
    using assms(3,4) resolve_tags_frame
    by (fastforce simp: create_quiz_set_def fresh_id_def Let_def replace_quiz_tags_def split: if_splits prod.splits)+
  have "seed_users argon2 SEED_USERS (wdb w2) w2 = (Inr (us, wdb w2), w2)"
    using us w2(1) by (intro seed_users_found) (simp_all add: users_with_email_def)
  moreover have "quizzes_titled (u_id host) ''Computer Networks basics'' (wdb w2) = [quiz', quiz]"
    using qs map_of_SomeD [OF c] w2(2-) by (auto simp: quizzes_titled_def hh)
  ultimately show ?thesis
    by (simp add: seed_main_def seed_steps_def seed_bind_def lookup_seed_def h hh QUIZZES_def seed_quiz_def ensure_def scalar_one_or_none_def)
qed

section \<open>What the script does to the world\<close>

definition ids_grow :: "world \<Rightarrow> world \<Rightarrow> bool" where
  "ids_grow w w' \<longleftrightarrow> (\<exists>n \<ge> id_next w. w' = w\<lparr>id_next := n\<rparr>)"

lemma ids_growI: "id_next w \<le> n \<Longrightarrow> ids_grow w (w\<lparr>id_next := n\<rparr>)"
  by (auto simp: ids_grow_def)

lemma ids_grow_refl [simp]: "ids_grow w w"
  using ids_growI [of w "id_next w"] by simp

lemma ids_grow_trans: "ids_grow u v \<Longrightarrow> ids_grow v w \<Longrightarrow> ids_grow u w"
  by (auto simp: ids_grow_def) (metis order_trans)

definition takes_ids :: "'a seeding \<Rightarrow> bool" where
  "takes_ids m \<longleftrightarrow> (\<forall>d w. ids_grow w (snd (m d w)))"

lemma takes_ids_basic [simp]: "takes_ids (seed_return x)" "takes_ids (lookup_seed k out)"
  by (simp_all add: takes_ids_def seed_return_def lookup_seed_def split: option.splits)

lemma takes_ids_bind:
  assumes "takes_ids m" "\<And>x. takes_ids (k x)"
  shows "takes_ids (seed_bind m k)"
  using assms unfolding takes_ids_def seed_bind_def
  by (auto split: prod.splits sum.splits intro: ids_grow_trans) (metis snd_conv ids_grow_trans)+

lemma takes_ids_ensure: "takes_ids create \<Longrightarrow> takes_ids (ensure rows create)"
  by (simp add: takes_ids_def ensure_def split: sum.splits option.splits)

lemma takes_ids_rows:
  "takes_ids (new_seed_user argon2 uspec)" "takes_ids (ensure_tag name)" "takes_ids (link_tag quiz_id tag)"
  "takes_ids (seed_question quiz_id position spec)" "takes_ids (add_quiz_row now owner_id title description)" "takes_ids (new_demo_room host_id quiz_id)"
  by (auto simp: takes_ids_def new_seed_user_def ensure_tag_def ensure_def link_tag_def seed_question_def add_quiz_row_def new_demo_room_def
      fresh_id_def fresh_ids_def Let_def split_beta intro!: ids_growI split: option.splits sum.splits)

lemma takes_ids_lists:
  "takes_ids (seed_users argon2 uspecs)" "takes_ids (seed_tags quiz_id names)" "takes_ids (seed_questions quiz_id position specs)"
  by (induction uspecs, simp_all add: seed_user_def takes_ids_bind takes_ids_ensure takes_ids_rows)
    (induction names, simp_all add: takes_ids_bind takes_ids_rows, induction specs arbitrary: position, simp_all add: takes_ids_bind takes_ids_rows)

lemma takes_ids_quizzes: "takes_ids (seed_quizzes now owner_id specs)"
  by (induction specs) (auto simp: seed_quiz_def new_seed_quiz_def split_beta intro!: takes_ids_bind takes_ids_ensure takes_ids_rows takes_ids_lists)

lemma takes_ids_steps: "takes_ids (seed_steps argon2 now)"
  unfolding seed_steps_def seed_demo_room_def
  by (intro takes_ids_bind takes_ids_lists takes_ids_quizzes takes_ids_ensure takes_ids_rows takes_ids_basic)

lemma new_seed_quiz_appends: "appends.keeps (new_seed_quiz now owner_id spec)"
  unfolding new_seed_quiz_def
  by (cases spec) (auto intro!: appends.keeps_bind appends.keeps_tags appends.keeps_questions steps_append)

lemma seed_main_effect:
  obtains d n d1 where "snd (seed_main argon2 now w) = w\<lparr>wdb := d, id_next := n\<rparr>" "id_next w \<le> n" "appended (wdb w) d1"
    "d = d1 \<or> (\<exists>room. rm_status room = lobby \<and> rm_id room \<notin> rm_id ` set (rooms (wdb w)) \<and> rm_code room \<notin> rm_code ` set (rooms (wdb w)) \<and>
       d = d1\<lparr>rooms := rooms d1 @ [room]\<rparr>)"
proof -
  obtain res w1 where s: "seed_steps argon2 now (wdb w) w = (res, w1)" by fastforce
  then have "ids_grow w w1" using takes_ids_steps [unfolded takes_ids_def] by (metis snd_conv)
  then obtain n where n: "id_next w \<le> n" "w1 = w\<lparr>id_next := n\<rparr>" by (auto simp: ids_grow_def)
  show ?thesis
  proof (cases res)
    case (Inl e)
    then show ?thesis using that [of n "wdb w" "wdb w"] s n appends.same by (simp add: seed_main_def)
  next
    case (Inr rd)
    then obtain room d where res: "res = Inr (room, d)" by (cases rd) auto
    from s [unfolded res] obtain us d1 w2 host qs d2 w3 quiz where u: "seed_users argon2 SEED_USERS (wdb w) w = (Inr (us, d1), w2)"
      and "map_of us ''host@livequiz.local'' = Some host" and q: "seed_quizzes now (u_id host) QUIZZES d1 w2 = (Inr (qs, d2), w3)"
      and "map_of qs ''Computer Networks basics'' = Some quiz" and r: "seed_demo_room (u_id host) (qs_id quiz) d2 w3 = (Inr (room, d), w1)"
      by (rule seed_steps_Inr)
    have a: "appended (wdb w) d2"
      using appends.chain [OF appends.keepsD [OF appends.keeps_users u] appends.keepsD [OF appends.keeps_quizzes q]]
        steps_append(5) new_seed_quiz_appends by blast
    then have rm: "rooms d2 = rooms (wdb w)" by (auto simp: appended_def)
    have "d = d2 \<or> (rm_status room = lobby \<and> rm_id room \<notin> rm_id ` set (rooms d2) \<and> rm_code room \<notin> rm_code ` set (rooms d2) \<and>
       d = d2\<lparr>rooms := rooms d2 @ [room]\<rparr>)"
      using r by (auto simp: seed_demo_room_def ensure_def scalar_one_or_none_def new_demo_room_def fresh_id_def Let_def filter_empty_conv
          split: list.splits sum.splits option.splits if_splits)
    then show ?thesis using that [of n d d2] a s n rm by (auto simp: seed_main_def res)
  qed
qed

end
