(* ===== verification/OutboxPublisher.thy ===== *)
theory OutboxPublisher
  imports World
begin

text \<open>
  src/workers/outbox_publisher/app: the worker that moves outbox rows to the broker.  \<open>publisher\<close> is what
  survives a batch: the table, the broker's log, the per-event backoff and the number of sends so far.
  The broker is an argument: \<open>net n\<close> is the outcome of the n-th send, an acknowledgement or a
  \<^verbatim>\<open>KafkaError\<close>, and after an error the record may or may not have been written.  A batch is one database
  transaction: it commits, or it is rolled back (\<open>process_batch_aborted\<close>) and the sends stay sent.
  A record on the wire is the JSON value its bytes encode.
\<close>

section \<open>Topics\<close>

definition TOPIC_ROOM :: string where "TOPIC_ROOM = ''livequiz.events.room''"
definition TOPIC_MATCH :: string where "TOPIC_MATCH = ''livequiz.events.match''"
definition TOPIC_ANSWER :: string where "TOPIC_ANSWER = ''livequiz.events.answer''"
definition TOPIC_MODERATION :: string where "TOPIC_MODERATION = ''livequiz.events.moderation''"
definition TOPIC_DEAD_LETTER :: string where "TOPIC_DEAD_LETTER = ''livequiz.events.dead_letter''"

definition EVENT_TO_TOPIC :: "(string \<times> string) list" where
  "EVENT_TO_TOPIC =
     [(''RoomCreated'', TOPIC_ROOM), (''PlayerJoined'', TOPIC_ROOM), (''PlayerLeft'', TOPIC_ROOM),
      (''MatchStarted'', TOPIC_MATCH), (''QuestionStarted'', TOPIC_MATCH), (''QuestionClosed'', TOPIC_MATCH),
      (''MatchFinished'', TOPIC_MATCH), (''AnswerSubmitted'', TOPIC_ANSWER), (''ContentReported'', TOPIC_MODERATION),
      (''ContentFlagged'', TOPIC_MODERATION), (''ModerationDecisionMade'', TOPIC_MODERATION)]"

definition topic_for :: "string \<Rightarrow> string" where
  "topic_for event_type = (case map_of EVENT_TO_TOPIC event_type of None \<Rightarrow> TOPIC_DEAD_LETTER | Some t \<Rightarrow> t)"

section \<open>Envelope\<close>

definition PRODUCER_NAME :: string where "PRODUCER_NAME = ''livequiz-outbox-publisher''"
definition SCHEMA_VERSION :: int where "SCHEMA_VERSION = 1"

definition build_envelope :: "OutboxEvent \<Rightarrow> json" where
  "build_envelope row =
     JObj [(''event_id'', JStr (int_str (ob_id row))), (''event_type'', JStr (ob_event_type row)),
           (''aggregate_type'', JStr (ob_aggregate_type row)), (''aggregate_id'', JStr (int_str (ob_aggregate_id row))),
           (''occurred_at'', JTime (ob_occurred_at row)), (''producer'', JStr PRODUCER_NAME),
           (''schema_version'', JInt SCHEMA_VERSION), (''payload'', ob_payload row)]"

section \<open>Batch\<close>

definition POLL_BATCH :: nat where "POLL_BATCH = 100"
definition IDLE_SLEEP_S :: rat where "IDLE_SLEEP_S = 1 / 2"
definition MAX_PUBLISH_ATTEMPTS :: int where "MAX_PUBLISH_ATTEMPTS = 10"
definition BACKOFF_BASE_S :: rat where "BACKOFF_BASE_S = 1 / 4"
definition BACKOFF_MAX_S :: rat where "BACKOFF_MAX_S = 30"

datatype send_result = Acked | FailedWritten | FailedLost

type_synonym broker_record = "string \<times> string \<times> json"

record publisher =
  outbox :: "OutboxEvent list"
  broker_log :: "broker_record list"
  backoff :: "(int \<times> rat) list"
  sends :: nat

definition SELECT_BATCH :: "(int \<Rightarrow> bool) \<Rightarrow> nat \<Rightarrow> OutboxEvent list \<Rightarrow> OutboxEvent list" where
  "SELECT_BATCH locked limit rows =
     take limit (sort_key ob_occurred_at (filter (\<lambda>e. ob_published_at e = None \<and> \<not> locked (ob_id e)) rows))"

definition MARK_PUBLISHED :: "time \<Rightarrow> int list \<Rightarrow> OutboxEvent list \<Rightarrow> OutboxEvent list" where
  "MARK_PUBLISHED now ids = upd_where (\<lambda>e. ob_id e \<in> set ids) (\<lambda>e. e\<lparr>ob_published_at := Some now\<rparr>)"

definition INCREMENT_ATTEMPTS :: "int \<Rightarrow> OutboxEvent list \<Rightarrow> OutboxEvent list" where
  "INCREMENT_ATTEMPTS i = upd_where (\<lambda>e. ob_id e = i) (\<lambda>e. e\<lparr>ob_publish_attempts := ob_publish_attempts e + 1\<rparr>)"

definition target_topic :: "OutboxEvent \<Rightarrow> string" where
  "target_topic row = (if MAX_PUBLISH_ATTEMPTS \<le> ob_publish_attempts row then TOPIC_DEAD_LETTER else topic_for (ob_event_type row))"

definition record_of :: "OutboxEvent \<Rightarrow> broker_record" where
  "record_of row = (target_topic row, int_str (ob_aggregate_id row), build_envelope row)"

text \<open>\<^verbatim>\<open>send_and_wait\<close>: what the broker keeps, and whether the call returned.\<close>

definition send_and_wait :: "(nat \<Rightarrow> send_result) \<Rightarrow> OutboxEvent \<Rightarrow> publisher \<Rightarrow> bool \<times> publisher" where
  "send_and_wait net row s =
     (net (sends s) = Acked,
      s\<lparr>sends := Suc (sends s), broker_log := broker_log s @ (if net (sends s) = FailedLost then [] else [record_of row])\<rparr>)"

definition process_row :: "(nat \<Rightarrow> send_result) \<Rightarrow> OutboxEvent \<Rightarrow> int list \<times> publisher \<Rightarrow> int list \<times> publisher" where
  "process_row net row = (\<lambda>(published_ids, s).
     let (ok, s) = send_and_wait net row s in
     if ok then (published_ids @ [ob_id row], s\<lparr>backoff := AList.delete (ob_id row) (backoff s)\<rparr>)
     else if MAX_PUBLISH_ATTEMPTS \<le> ob_publish_attempts row then (published_ids, s)
     else (published_ids,
       s\<lparr>outbox := INCREMENT_ATTEMPTS (ob_id row) (outbox s),
         backoff := (let prior = (case map_of (backoff s) (ob_id row) of None \<Rightarrow> BACKOFF_BASE_S | Some b \<Rightarrow> b)
                     in AList.update (ob_id row) (min (prior * 2) BACKOFF_MAX_S) (backoff s))\<rparr>))"

definition process_batch :: "(nat \<Rightarrow> send_result) \<Rightarrow> (int \<Rightarrow> bool) \<Rightarrow> time \<Rightarrow> publisher \<Rightarrow> nat \<times> publisher" where
  "process_batch net locked now s =
     (let (published_ids, s') = fold (process_row net) (SELECT_BATCH locked POLL_BATCH (outbox s)) ([], s)
      in (length published_ids, s'\<lparr>outbox := MARK_PUBLISHED now published_ids (outbox s')\<rparr>))"

text \<open>
  The \<^verbatim>\<open>except\<close> branch of the polling loop: the transaction fails after \<open>k\<close> rows, or (\<open>mid\<close>) between the
  send of the next row and its database statement.  The table is rolled back.
\<close>

definition process_batch_aborted :: "(nat \<Rightarrow> send_result) \<Rightarrow> (int \<Rightarrow> bool) \<Rightarrow> nat \<Rightarrow> bool \<Rightarrow> publisher \<Rightarrow> publisher" where
  "process_batch_aborted net locked k mid s =
     (let rows = SELECT_BATCH locked POLL_BATCH (outbox s);
          s' = snd (fold (process_row net) (take k rows) ([], s));
          s' = (if mid \<and> k < length rows then snd (send_and_wait net (rows ! k) s') else s')
      in s'\<lparr>outbox := outbox s\<rparr>)"

definition next_sleep :: "nat \<Rightarrow> publisher \<Rightarrow> rat option" where
  "next_sleep published s =
     (if published \<noteq> 0 then None
      else case map snd (backoff s) of [] \<Rightarrow> Some IDLE_SLEEP_S | b # bs \<Rightarrow> Some (max IDLE_SLEEP_S (fold min bs b)))"

definition unpublished_count :: "publisher \<Rightarrow> nat" where
  "unpublished_count s = length (filter (\<lambda>e. ob_published_at e = None) (outbox s))"

section \<open>One batch\<close>

lemma envelope_frame [simp]:
  "build_envelope (e\<lparr>ob_published_at := p\<rparr>) = build_envelope e"
  "build_envelope (e\<lparr>ob_publish_attempts := n\<rparr>) = build_envelope e"
  by (simp_all add: build_envelope_def)

lemma SELECT_BATCH_set: "set (SELECT_BATCH locked n rows) \<subseteq> {e \<in> set rows. ob_published_at e = None \<and> \<not> locked (ob_id e)}"
  by (auto simp: SELECT_BATCH_def dest: in_set_takeD)

lemma SELECT_BATCH_distinct:
  assumes "unique_by ob_id rows"
  shows "distinct (map ob_id (SELECT_BATCH locked n rows))"
proof -
  let ?F = "filter (\<lambda>e. ob_published_at e = None \<and> \<not> locked (ob_id e)) rows"
  have "distinct (map ob_id ?F)" using assms by (simp add: unique_by_def distinct_map_filter)
  moreover have "mset (map ob_id (sort_key ob_occurred_at ?F)) = mset (map ob_id ?F)" by simp
  ultimately have "distinct (map ob_id (sort_key ob_occurred_at ?F))" using mset_eq_imp_distinct_iff by blast
  then show ?thesis unfolding SELECT_BATCH_def take_map [symmetric] by (rule distinct_take)
qed

text \<open>What a batch has done after the rows \<open>rows\<close>, the first of them being send number \<open>n\<close>.\<close>

definition acked_ids :: "(nat \<Rightarrow> send_result) \<Rightarrow> nat \<Rightarrow> OutboxEvent list \<Rightarrow> int list" where
  "acked_ids net n rows = map (ob_id \<circ> snd) (filter (\<lambda>(k, e). net k = Acked) (enumerate n rows))"

definition retried_ids :: "(nat \<Rightarrow> send_result) \<Rightarrow> nat \<Rightarrow> OutboxEvent list \<Rightarrow> int list" where
  "retried_ids net n rows = map (ob_id \<circ> snd)
     (filter (\<lambda>(k, e). net k \<noteq> Acked \<and> ob_publish_attempts e < MAX_PUBLISH_ATTEMPTS) (enumerate n rows))"

definition written :: "(nat \<Rightarrow> send_result) \<Rightarrow> nat \<Rightarrow> OutboxEvent list \<Rightarrow> broker_record list" where
  "written net n rows = map (record_of \<circ> snd) (filter (\<lambda>(k, e). net k \<noteq> FailedLost) (enumerate n rows))"

lemma INCREMENT_many:
  "fold INCREMENT_ATTEMPTS ids rows =
     map (\<lambda>e. e\<lparr>ob_publish_attempts := ob_publish_attempts e + int (count_list ids (ob_id e))\<rparr>) rows"
  by (induction ids arbitrary: rows) (auto simp: INCREMENT_ATTEMPTS_def upd_where_def intro!: map_idI)

lemma fold_process_row:
  "fst (fold (process_row net) rows (ids, s)) = ids @ acked_ids net (sends s) rows \<and>
   outbox (snd (fold (process_row net) rows (ids, s))) = fold INCREMENT_ATTEMPTS (retried_ids net (sends s) rows) (outbox s) \<and>
   broker_log (snd (fold (process_row net) rows (ids, s))) = broker_log s @ written net (sends s) rows \<and>
   sends (snd (fold (process_row net) rows (ids, s))) = sends s + length rows"
proof (induction rows arbitrary: ids s)
  case (Cons e rows)
  obtain ids1 s1 where st: "process_row net e (ids, s) = (ids1, s1)" by (cases "process_row net e (ids, s)")
  then have "sends s1 = Suc (sends s)" "ids1 = ids @ (if net (sends s) = Acked then [ob_id e] else [])"
    "broker_log s1 = broker_log s @ (if net (sends s) = FailedLost then [] else [record_of e])"
    "outbox s1 = (if net (sends s) \<noteq> Acked \<and> ob_publish_attempts e < MAX_PUBLISH_ATTEMPTS
       then INCREMENT_ATTEMPTS (ob_id e) (outbox s) else outbox s)"
    by (auto simp: process_row_def send_and_wait_def Let_def split: if_splits)
  then show ?case
    using Cons.IH [of ids1 s1] by (simp add: st acked_ids_def retried_ids_def written_def)
qed (simp add: acked_ids_def retried_ids_def written_def)

lemma id_sent:
  assumes "distinct (map ob_id rows)" "k < length rows"
  shows "ob_id (rows ! k) \<in> (ob_id \<circ> snd) ` {x \<in> set (enumerate n rows). P x} \<longleftrightarrow> P (n + k, rows ! k)"
proof
  assume "ob_id (rows ! k) \<in> (ob_id \<circ> snd) ` {x \<in> set (enumerate n rows). P x}"
  then obtain j where j: "j < length rows" "P (n + j, rows ! j)" "ob_id (rows ! k) = ob_id (rows ! j)"
    by (auto simp: in_set_enumerate_eq) (metis add_diff_inverse_nat add.commute less_diff_conv2 not_less)
  then have "j = k" using assms by (auto simp: distinct_conv_nth)
  with j show "P (n + k, rows ! k)" by simp
next
  assume "P (n + k, rows ! k)"
  then show "ob_id (rows ! k) \<in> (ob_id \<circ> snd) ` {x \<in> set (enumerate n rows). P x}"
    using assms(2) by (intro image_eqI [of _ _ "(n + k, rows ! k)"]) (auto simp: in_set_enumerate_eq)
qed

lemma acked_ids_nth:
  assumes "distinct (map ob_id rows)" "k < length rows"
  shows "ob_id (rows ! k) \<in> set (acked_ids net n rows) \<longleftrightarrow> net (n + k) = Acked"
  using id_sent [OF assms, of n "\<lambda>(k, e). net k = Acked"] by (simp add: acked_ids_def)

lemma distinct_count_list: "distinct xs \<Longrightarrow> count_list xs x = (if x \<in> set xs then 1 else 0)"
  by (induction xs) auto

lemma retried_ids_nth:
  assumes "distinct (map ob_id rows)" "k < length rows"
  shows "count_list (retried_ids net n rows) (ob_id (rows ! k)) =
    (if net (n + k) \<noteq> Acked \<and> ob_publish_attempts (rows ! k) < MAX_PUBLISH_ATTEMPTS then 1 else 0)"
proof -
  have "map (ob_id \<circ> snd) (enumerate n rows) = map ob_id rows"
    by (metis map_map map_snd_enumerate)
  then have "distinct (retried_ids net n rows)"
    using assms(1) unfolding retried_ids_def by (metis (no_types, lifting) distinct_map_filter)
  then show ?thesis
    using id_sent [OF assms, of n "\<lambda>(k, e). net k \<noteq> Acked \<and> ob_publish_attempts e < MAX_PUBLISH_ATTEMPTS"]
    by (simp add: distinct_count_list retried_ids_def)
qed

lemma sent_ids_subset:
  "set (acked_ids net n rows) \<subseteq> ob_id ` set rows" "set (retried_ids net n rows) \<subseteq> ob_id ` set rows"
  by (auto simp: acked_ids_def retried_ids_def in_set_enumerate_eq)

text \<open>The table after a committed batch, row by row.\<close>

lemma process_batch_table:
  "outbox (snd (process_batch net locked now s)) =
     (let rows = SELECT_BATCH locked POLL_BATCH (outbox s) in
      map (\<lambda>e. e\<lparr>ob_publish_attempts := ob_publish_attempts e + int (count_list (retried_ids net (sends s) rows) (ob_id e)),
                ob_published_at := (if ob_id e \<in> set (acked_ids net (sends s) rows) then Some now else ob_published_at e)\<rparr>) (outbox s))"
  using fold_process_row [of net "SELECT_BATCH locked POLL_BATCH (outbox s)" "[]" s]
  by (auto simp: process_batch_def Let_def split_beta MARK_PUBLISHED_def upd_where_def INCREMENT_many)

lemma process_batch_rest:
  "fst (process_batch net locked now s) = length (acked_ids net (sends s) (SELECT_BATCH locked POLL_BATCH (outbox s)))"
  "broker_log (snd (process_batch net locked now s)) = broker_log s @ written net (sends s) (SELECT_BATCH locked POLL_BATCH (outbox s))"
  "sends (snd (process_batch net locked now s)) = sends s + length (SELECT_BATCH locked POLL_BATCH (outbox s))"
  using fold_process_row [of net "SELECT_BATCH locked POLL_BATCH (outbox s)" "[]" s]
  by (auto simp: process_batch_def Let_def split_beta)

text \<open>
  One committed batch.  The k-th selected row (the oldest unpublished first) is marked published exactly when
  its send was acknowledged; a failed send adds one attempt until the limit, beyond which the row keeps
  its count and goes to the dead-letter topic; rows outside the batch are untouched; the broker has got the
  selected rows in order, less those that were lost.
\<close>
theorem process_batch_outcome:
  assumes "unique_by ob_id (outbox s)" "rows = SELECT_BATCH locked POLL_BATCH (outbox s)"
    and "process_batch net locked now s = (published, s')"
  shows "broker_log s' = broker_log s @ written net (sends s) rows \<and> map ob_id (outbox s') = map ob_id (outbox s) \<and>
    (\<forall>k < length rows. (rows ! k)\<lparr>
        ob_published_at := (if net (sends s + k) = Acked then Some now else None),
        ob_publish_attempts := ob_publish_attempts (rows ! k) +
          (if net (sends s + k) \<noteq> Acked \<and> ob_publish_attempts (rows ! k) < MAX_PUBLISH_ATTEMPTS then 1 else 0)\<rparr> \<in> set (outbox s')) \<and>
    (\<forall>e \<in> set (outbox s). e \<notin> set rows \<longrightarrow> e \<in> set (outbox s'))"
proof -
  note d = SELECT_BATCH_distinct [OF assms(1), of locked POLL_BATCH, folded assms(2)]
  have t: "outbox s' = map (\<lambda>e. e\<lparr>ob_publish_attempts := ob_publish_attempts e + int (count_list (retried_ids net (sends s) rows) (ob_id e)),
                ob_published_at := (if ob_id e \<in> set (acked_ids net (sends s) rows) then Some now else ob_published_at e)\<rparr>) (outbox s)"
    using process_batch_table [of net locked now s] assms(2,3) by (simp add: Let_def)
  have sub: "e \<in> set (outbox s)" "ob_published_at e = None" if "e \<in> set rows" for e
    using that SELECT_BATCH_set assms(2) by blast+
  have "(rows ! k)\<lparr>ob_published_at := (if net (sends s + k) = Acked then Some now else None),
        ob_publish_attempts := ob_publish_attempts (rows ! k) +
          (if net (sends s + k) \<noteq> Acked \<and> ob_publish_attempts (rows ! k) < MAX_PUBLISH_ATTEMPTS then 1 else 0)\<rparr> \<in> set (outbox s')"
    if k: "k < length rows" for k
    unfolding t set_map
    by (rule image_eqI [of _ _ "rows ! k"])
      (use k sub [of "rows ! k"] in \<open>auto simp: acked_ids_nth [OF d k] retried_ids_nth [OF d k]\<close>)
  moreover have "e \<in> set (outbox s')" if e: "e \<in> set (outbox s)" "e \<notin> set rows" for e
  proof -
    have "ob_id e \<notin> ob_id ` set rows" using e sub unique_by_eq [OF assms(1)] by blast
    then have "ob_id e \<notin> set (acked_ids net (sends s) rows)" "count_list (retried_ids net (sends s) rows) (ob_id e) = 0"
      using sent_ids_subset [of net "sends s" rows] by (auto simp: count_list_0_iff)
    with e(1) show ?thesis unfolding t set_map by (intro image_eqI [of _ _ e]) auto
  qed
  moreover have "map ob_id (outbox s') = map ob_id (outbox s)" by (simp add: t)
  ultimately show ?thesis using process_batch_rest(2) [of net locked now s] assms(2,3) by simp
qed

section \<open>All runs of the publisher\<close>

inductive publisher_step :: "publisher \<Rightarrow> publisher \<Rightarrow> bool" where
  emitted: "i \<notin> ob_id ` set (outbox s) \<Longrightarrow> publisher_step s (s\<lparr>outbox := outbox s @ [outbox_row i ety aty ai p now]\<rparr>)"
| committed: "publisher_step s (snd (process_batch net locked now s))"
| aborted: "publisher_step s (process_batch_aborted net locked k mid s)"
| restarted: "publisher_step s (s\<lparr>backoff := []\<rparr>)"

inductive publisher_reachable :: "publisher \<Rightarrow> bool" where
  start: "publisher_reachable \<lparr>outbox = [], broker_log = [], backoff = [], sends = 0\<rparr>"
| step: "publisher_reachable s \<Longrightarrow> publisher_step s s' \<Longrightarrow> publisher_reachable s'"

definition deliveries :: "OutboxEvent \<Rightarrow> broker_record set" where
  "deliveries e = {(t, int_str (ob_aggregate_id e), build_envelope e) | t. t \<in> {topic_for (ob_event_type e), TOPIC_DEAD_LETTER}}"

definition publisher_ok :: "publisher \<Rightarrow> bool" where
  "publisher_ok s \<longleftrightarrow> unique_by ob_id (outbox s) \<and>
     (\<forall>e \<in> set (outbox s). 0 \<le> ob_publish_attempts e \<and> ob_publish_attempts e \<le> MAX_PUBLISH_ATTEMPTS) \<and>
     (\<forall>e \<in> set (outbox s). ob_published_at e \<noteq> None \<longrightarrow> deliveries e \<inter> set (broker_log s) \<noteq> {}) \<and>
     (\<forall>r \<in> set (broker_log s). \<exists>e \<in> set (outbox s). r \<in> deliveries e)"

lemma deliveries_frame [simp]:
  "deliveries (e\<lparr>ob_published_at := p\<rparr>) = deliveries e" "deliveries (e\<lparr>ob_publish_attempts := n\<rparr>) = deliveries e"
  by (simp_all add: deliveries_def)

lemma record_of_delivers: "record_of e \<in> deliveries e"
  by (auto simp: record_of_def deliveries_def target_topic_def)

lemma written_subset: "set (written net n rows) \<subseteq> record_of ` set rows"
  by (auto simp: written_def in_set_enumerate_eq)

lemma acked_written:
  assumes "i \<in> set (acked_ids net n rows)"
  shows "\<exists>e \<in> set rows. ob_id e = i \<and> record_of e \<in> set (written net n rows)"
  using assms by (force simp: acked_ids_def written_def in_set_enumerate_eq image_iff)

lemma publisher_ok_log:
  assumes "publisher_ok s" "set l \<subseteq> record_of ` set (outbox s)" "broker_log s' = broker_log s @ l" "outbox s' = outbox s"
  shows "publisher_ok s'"
proof -
  have "\<exists>e \<in> set (outbox s). r \<in> deliveries e" if "r \<in> set l" for r
    using that assms(2) record_of_delivers by blast
  moreover have "deliveries e \<inter> set (broker_log s') \<noteq> {}" if "deliveries e \<inter> set (broker_log s) \<noteq> {}" for e
    using that assms(3) by auto
  ultimately show ?thesis using assms(1,3,4) unfolding publisher_ok_def by (simp add: ball_Un)
qed

lemma publisher_ok_committed:
  assumes "publisher_ok s"
  shows "publisher_ok (snd (process_batch net locked now s))"
proof -
  let ?s' = "snd (process_batch net locked now s)"
  define rows where "rows = SELECT_BATCH locked POLL_BATCH (outbox s)"
  let ?ack = "set (acked_ids net (sends s) rows)" and ?c = "\<lambda>e. count_list (retried_ids net (sends s) rows) (ob_id e)"
  have u: "unique_by ob_id (outbox s)" using assms by (simp add: publisher_ok_def)
  have d: "distinct (map ob_id rows)" unfolding rows_def by (rule SELECT_BATCH_distinct [OF u])
  have sub: "set rows \<subseteq> set (outbox s)" using SELECT_BATCH_set by (auto simp: rows_def)
  have t: "outbox ?s' = map (\<lambda>e. e\<lparr>ob_publish_attempts := ob_publish_attempts e + int (?c e),
      ob_published_at := (if ob_id e \<in> ?ack then Some now else ob_published_at e)\<rparr>) (outbox s)"
    using process_batch_table [of net locked now s] by (simp add: Let_def rows_def)
  have l: "broker_log ?s' = broker_log s @ written net (sends s) rows" by (simp add: process_batch_rest rows_def)
  have att: "0 \<le> ob_publish_attempts e + int (?c e) \<and> ob_publish_attempts e + int (?c e) \<le> MAX_PUBLISH_ATTEMPTS"
    if e: "e \<in> set (outbox s)" for e
  proof (cases "ob_id e \<in> ob_id ` set rows")
    case True
    then have "e \<in> set rows" using e sub unique_by_eq [OF u] by blast
    then obtain k where "k < length rows" "e = rows ! k" by (auto simp: in_set_conv_nth)
    with retried_ids_nth [OF d, of k net "sends s"] e assms show ?thesis by (auto simp: publisher_ok_def)
  next
    case False
    then have "?c e = 0" using sent_ids_subset(2) [of net "sends s" rows] by (auto simp: count_list_0_iff)
    with e assms show ?thesis by (auto simp: publisher_ok_def)
  qed
  have del: "deliveries e \<inter> set (broker_log ?s') \<noteq> {}" if e: "e \<in> set (outbox s)" "ob_id e \<in> ?ack \<or> ob_published_at e \<noteq> None" for e
  proof (cases "ob_id e \<in> ?ack")
    case True
    then obtain e' where "e' \<in> set rows" "ob_id e' = ob_id e" "record_of e' \<in> set (written net (sends s) rows)"
      using acked_written by metis
    moreover from this have "e' = e" using e(1) sub unique_by_eq [OF u] by blast
    ultimately show ?thesis using record_of_delivers [of e] by (auto simp: l)
  next
    case False
    with e assms show ?thesis by (auto simp: l publisher_ok_def)
  qed
  have snd: "\<exists>e \<in> set (outbox s). r \<in> deliveries e" if "r \<in> set (broker_log ?s')" for r
  proof (cases "r \<in> set (broker_log s)")
    case True
    with assms show ?thesis by (simp add: publisher_ok_def)
  next
    case False
    with that written_subset [of net "sends s" rows] sub record_of_delivers show ?thesis unfolding l by fastforce
  qed
  show ?thesis
    unfolding publisher_ok_def t using u att del snd
    by (auto simp: unique_by_def t comp_def split: if_splits)
qed

lemma publisher_ok_aborted:
  assumes "publisher_ok s"
  shows "publisher_ok (process_batch_aborted net locked k mid s)"
proof -
  let ?rows = "SELECT_BATCH locked POLL_BATCH (outbox s)"
  let ?s1 = "snd (fold (process_row net) (take k ?rows) ([], s))"
  define l where "l = written net (sends s) (take k ?rows) @
    (if mid \<and> k < length ?rows \<and> net (sends ?s1) \<noteq> FailedLost then [record_of (?rows ! k)] else [])"
  have "broker_log (process_batch_aborted net locked k mid s) = broker_log s @ l"
    using fold_process_row [of net "take k ?rows" "[]" s] by (auto simp: process_batch_aborted_def Let_def l_def send_and_wait_def)
  moreover have "set l \<subseteq> record_of ` set ?rows"
  proof -
    have "set (written net (sends s) (take k ?rows)) \<subseteq> record_of ` set ?rows"
      using written_subset set_take_subset by (metis (no_types) image_mono subset_trans)
    then show ?thesis by (auto simp: l_def)
  qed
  then have "set l \<subseteq> record_of ` set (outbox s)" using SELECT_BATCH_set by fastforce
  moreover have "outbox (process_batch_aborted net locked k mid s) = outbox s" by (simp add: process_batch_aborted_def Let_def)
  ultimately show ?thesis using publisher_ok_log [OF assms] by blast
qed

lemma publisher_invariant: "publisher_reachable s \<Longrightarrow> publisher_ok s"
proof (induction rule: publisher_reachable.induct)
  case start
  show ?case by (simp add: publisher_ok_def unique_by_def)
next
  case (step s s')
  from step.hyps(2) step.IH show ?case
  proof (cases rule: publisher_step.cases)
    case (emitted i ety aty ai p now)
    with step.IH show ?thesis by (auto simp: publisher_ok_def unique_by_append1 outbox_row_def MAX_PUBLISH_ATTEMPTS_def)
  next
    case restarted
    with step.IH show ?thesis by (simp add: publisher_ok_def)
  qed (simp_all add: publisher_ok_committed publisher_ok_aborted step.IH)
qed

text \<open>
  C28: no event is lost, whatever the broker and the database do.  In every state reachable by emitted events, committed
  batches, batches aborted anywhere, and restarts: an event marked published has been written to its topic
  or to the dead-letter topic under its aggregate's key; every record on the broker is the envelope of an
  event in the table; and no event has more than ten attempts.
\<close>
theorem publisher_loses_nothing:
  assumes "publisher_reachable s"
  shows "(\<forall>e \<in> set (outbox s). ob_published_at e \<noteq> None \<longrightarrow>
      (\<exists>t \<in> {topic_for (ob_event_type e), TOPIC_DEAD_LETTER}. (t, int_str (ob_aggregate_id e), build_envelope e) \<in> set (broker_log s))) \<and>
    (\<forall>r \<in> set (broker_log s). \<exists>e \<in> set (outbox s). snd r = (int_str (ob_aggregate_id e), build_envelope e)) \<and>
    (\<forall>e \<in> set (outbox s). 0 \<le> ob_publish_attempts e \<and> ob_publish_attempts e \<le> 10)"
  using publisher_invariant [OF assms] unfolding publisher_ok_def deliveries_def MAX_PUBLISH_ATTEMPTS_def
  by (intro conjI ballI impI) fastforce+

section \<open>Draining\<close>

definition healthy_batch :: "time \<Rightarrow> publisher \<Rightarrow> publisher" where
  "healthy_batch now s = snd (process_batch (\<lambda>_. Acked) (\<lambda>_. False) now s)"

lemma acked_all: "acked_ids (\<lambda>_. Acked) n rows = map ob_id rows"
  by (simp add: acked_ids_def) (metis map_map map_snd_enumerate)

lemma healthy_batch_ids: "map ob_id (outbox (healthy_batch now s)) = map ob_id (outbox s)"
  by (simp add: healthy_batch_def process_batch_table Let_def)

lemma filter_out_length:
  assumes "distinct xs" "distinct ys" "set ys \<subseteq> set xs"
  shows "length (filter (\<lambda>x. x \<notin> set ys) xs) = length xs - length ys"
proof -
  have "length (filter (\<lambda>x. x \<notin> set ys) xs) = card (set xs - set ys)"
    using assms(1) by (simp add: distinct_card [symmetric] set_diff_eq)
  also have "\<dots> = length xs - length ys"
    using assms by (simp add: card_Diff_subset distinct_card)
  finally show ?thesis .
qed

lemma healthy_batch_count:
  assumes "unique_by ob_id (outbox s)"
  shows "unpublished_count (healthy_batch now s) = unpublished_count s - POLL_BATCH"
proof -
  let ?F = "filter (\<lambda>e. ob_published_at e = None) (outbox s)"
  define rows where "rows = SELECT_BATCH (\<lambda>_. False) POLL_BATCH (outbox s)"
  have r: "rows = take POLL_BATCH (sort_key ob_occurred_at ?F)" by (simp add: rows_def SELECT_BATCH_def)
  have d: "distinct (outbox s)" "distinct rows"
    using assms SELECT_BATCH_distinct [OF assms] by (auto simp: unique_by_def rows_def distinct_map)
  have sub: "set rows \<subseteq> set ?F" unfolding r by (auto dest!: in_set_takeD)
  have eq: "ob_id e \<in> ob_id ` set rows \<longleftrightarrow> e \<in> set rows" if "e \<in> set (outbox s)" for e
    using that sub unique_by_eq [OF assms that] by auto
  have "unpublished_count (healthy_batch now s) = length (filter (\<lambda>e. ob_published_at e = None \<and> ob_id e \<notin> ob_id ` set rows) (outbox s))"
    by (simp add: unpublished_count_def healthy_batch_def process_batch_table Let_def rows_def [symmetric] acked_all filter_map comp_def conj_commute cong: conj_cong)
  also have "filter (\<lambda>e. ob_published_at e = None \<and> ob_id e \<notin> ob_id ` set rows) (outbox s) = filter (\<lambda>e. e \<notin> set rows) ?F"
    unfolding filter_filter by (rule filter_cong) (auto simp: eq)
  also have "length \<dots> = length ?F - length rows"
    using d sub by (intro filter_out_length) simp_all
  also have "\<dots> = unpublished_count s - POLL_BATCH" by (simp add: unpublished_count_def r)
  finally show ?thesis .
qed

section \<open>Example\<close>

definition demo_publisher :: publisher where
  "demo_publisher = \<lparr>outbox = [outbox_row 7 ''MatchStarted'' ''match'' 5 JNull 20, outbox_row 8 ''QuizPublished'' ''quiz_set'' 2 JNull 10],
     broker_log = [], backoff = [], sends = 0\<rparr>"

lemma demo_publisher_facts:
  "unique_by ob_id (outbox demo_publisher)" "unpublished_count demo_publisher = 2"
  "SELECT_BATCH (\<lambda>_. False) POLL_BATCH (outbox demo_publisher) =
     [outbox_row 8 ''QuizPublished'' ''quiz_set'' 2 JNull 10, outbox_row 7 ''MatchStarted'' ''match'' 5 JNull 20]"
  by (simp_all add: demo_publisher_def unique_by_def outbox_row_def unpublished_count_def SELECT_BATCH_def POLL_BATCH_def)

theorem process_batch_outcome_witness:
  "\<exists>published s'. process_batch (\<lambda>n. if n = 0 then Acked else FailedLost) (\<lambda>_. False) 99 demo_publisher = (published, s') \<and>
     (outbox_row 8 ''QuizPublished'' ''quiz_set'' 2 JNull 10)\<lparr>ob_published_at := Some 99\<rparr> \<in> set (outbox s') \<and>
     (outbox_row 7 ''MatchStarted'' ''match'' 5 JNull 20)\<lparr>ob_publish_attempts := 1\<rparr> \<in> set (outbox s')"
proof -
  let ?net = "\<lambda>n :: nat. if n = 0 then Acked else FailedLost"
  obtain published s' where b: "process_batch ?net (\<lambda>_. False) 99 demo_publisher = (published, s')"
    by (cases "process_batch ?net (\<lambda>_. False) 99 demo_publisher")
  note o = process_batch_outcome [OF demo_publisher_facts(1) demo_publisher_facts(3) [symmetric] b]
  then have "\<forall>k < 2. ([outbox_row 8 ''QuizPublished'' ''quiz_set'' 2 JNull 10, outbox_row 7 ''MatchStarted'' ''match'' 5 JNull 20] ! k)
      \<lparr>ob_published_at := (if ?net (sends demo_publisher + k) = Acked then Some 99 else None),
        ob_publish_attempts := ob_publish_attempts ([outbox_row 8 ''QuizPublished'' ''quiz_set'' 2 JNull 10, outbox_row 7 ''MatchStarted'' ''match'' 5 JNull 20] ! k) +
          (if ?net (sends demo_publisher + k) \<noteq> Acked \<and>
              ob_publish_attempts ([outbox_row 8 ''QuizPublished'' ''quiz_set'' 2 JNull 10, outbox_row 7 ''MatchStarted'' ''match'' 5 JNull 20] ! k) < MAX_PUBLISH_ATTEMPTS
           then 1 else 0)\<rparr> \<in> set (outbox s')"
    by simp
  from spec [OF this, of 0] spec [OF this, of 1] b show ?thesis
    by (simp add: demo_publisher_def outbox_row_def MAX_PUBLISH_ATTEMPTS_def)
qed

theorem publisher_loses_nothing_witness:
  "\<exists>s. publisher_reachable s \<and> (\<exists>e \<in> set (outbox s). ob_published_at e \<noteq> None) \<and>
     (\<forall>e \<in> set (outbox s). 0 \<le> ob_publish_attempts e \<and> ob_publish_attempts e \<le> 10)"
proof -
  define s0 where "s0 = \<lparr>outbox = [outbox_row 7 ''MatchStarted'' ''match'' 5 JNull 20], broker_log = [], backoff = [], sends = 0\<rparr>"
  have "publisher_step \<lparr>outbox = [], broker_log = [], backoff = [], sends = 0\<rparr> s0"
    using publisher_step.emitted [of 7 "\<lparr>outbox = [], broker_log = [], backoff = [], sends = 0\<rparr>" "''MatchStarted''" "''match''" 5 JNull 20]
    by (simp add: s0_def)
  then have r0: "publisher_reachable s0" using publisher_reachable.intros by blast
  let ?s = "snd (process_batch (\<lambda>_. Acked) (\<lambda>_. False) 99 s0)"
  have r: "publisher_reachable ?s" using publisher_reachable.step [OF r0 publisher_step.committed] .
  moreover have "\<exists>e \<in> set (outbox ?s). ob_published_at e \<noteq> None"
    by (simp add: process_batch_table Let_def acked_all) (simp add: s0_def SELECT_BATCH_def POLL_BATCH_def outbox_row_def)
  ultimately show ?thesis using publisher_loses_nothing [OF r] by blast
qed

end
