(* ===== verification/Protocol.thy ===== *)
theory Protocol
  imports World
begin

text \<open>
  The WebSocket protocol of src/backend/app/ws/messages.py.  The client messages are a datatype, one constructor per
  class of the discriminated union.  The server messages are JSON values; each class is a \<open>schema\<close>, and \<open>valid\<close> is
  what a model accepts without coercing anything: the declared fields with values of the declared types and,
  under \<^verbatim>\<open>extra="forbid"\<close>, no other field.  A time stands for its ISO text, so it is a string.
\<close>

section \<open>Client to server\<close>

record AnswerSubmitPayload =
  p_match_id :: string
  p_match_question_id :: string
  p_selected_option_ids :: "string list"
  p_client_sent_at :: "string option"

datatype ClientMessage =
    HeartbeatMessage "string option" "string option"
  | AnswerSubmitMessage string AnswerSubmitPayload
  | HostQuestionNextMessage "string option" int
  | HostMatchPauseMessage "string option" "string option"

section \<open>Schemas\<close>

datatype schema =
    SStr | SInt | SBool | SFloat | SDict
  | SLit string
  | SOpt schema
  | SList schema
  | SModel bool "(string \<times> bool \<times> schema) list"

fun valid :: "schema \<Rightarrow> json \<Rightarrow> bool" where
  "valid SStr j = (case j of JStr _ \<Rightarrow> True | JTime _ \<Rightarrow> True | _ \<Rightarrow> False)"
| "valid SInt j = (case j of JInt _ \<Rightarrow> True | _ \<Rightarrow> False)"
| "valid SBool j = (case j of JBool _ \<Rightarrow> True | _ \<Rightarrow> False)"
| "valid SFloat j = (case j of JFloat _ \<Rightarrow> True | JInt _ \<Rightarrow> True | _ \<Rightarrow> False)"
| "valid SDict j = (case j of JObj _ \<Rightarrow> True | _ \<Rightarrow> False)"
| "valid (SLit s) j = (j = JStr s)"
| "valid (SOpt s) j = (j = JNull \<or> valid s j)"
| "valid (SList s) j = (case j of JArr xs \<Rightarrow> list_all (valid s) xs | _ \<Rightarrow> False)"
| "valid (SModel forbid fs) j =
     (case j of
        JObj kvs \<Rightarrow>
          list_all (\<lambda>(name, required, s). case map_of kvs name of None \<Rightarrow> \<not> required | Some v \<Rightarrow> valid s v) fs \<and>
          (forbid \<longrightarrow> list_all (\<lambda>(k, v). k \<in> fst ` set fs) kvs)
      | _ \<Rightarrow> False)"

text \<open>A class with \<^verbatim>\<open>extra="forbid"\<close>, and the envelope every server message shares.\<close>

definition strict_model :: "(string \<times> bool \<times> schema) list \<Rightarrow> schema" where
  "strict_model fs = SModel True fs"

definition message_model :: "string \<Rightarrow> bool \<Rightarrow> schema \<Rightarrow> schema" where
  "message_model msg_type id_required payload =
     strict_model [(''type'', True, SLit msg_type), (''message_id'', id_required, if id_required then SStr else SOpt SStr),
       (''payload'', True, payload)]"

section \<open>Server to client\<close>

definition RoomSnapshotRoom :: schema where
  "RoomSnapshotRoom = strict_model [(''code'', True, SStr), (''status'', True, SStr), (''player_count'', True, SInt)]"

definition RoomSnapshotParticipant :: schema where
  "RoomSnapshotParticipant = strict_model [(''participant_id'', True, SStr), (''nickname'', True, SStr), (''online'', True, SBool)]"

definition RoomSnapshotPayload :: schema where
  "RoomSnapshotPayload = SModel False [(''room'', True, RoomSnapshotRoom), (''participants'', False, SList RoomSnapshotParticipant),
     (''match'', False, SOpt SDict), (''leaderboard'', False, SList SDict)]"

definition RoomSnapshotMessage :: schema where
  "RoomSnapshotMessage = message_model ''room.snapshot'' True RoomSnapshotPayload"

definition HeartbeatAckPayload :: schema where
  "HeartbeatAckPayload = strict_model [(''server_now'', True, SStr), (''last_seen_event_id'', False, SOpt SStr)]"

definition HeartbeatAckMessage :: schema where
  "HeartbeatAckMessage = message_model ''room.heartbeat.ack'' False HeartbeatAckPayload"

definition ParticipantJoinedPayload :: schema where
  "ParticipantJoinedPayload = strict_model [(''participant_id'', True, SStr), (''nickname'', True, SStr), (''player_count'', True, SInt)]"

definition ParticipantJoinedMessage :: schema where
  "ParticipantJoinedMessage = message_model ''participant.joined'' False ParticipantJoinedPayload"

definition ParticipantLeftPayload :: schema where
  "ParticipantLeftPayload = strict_model [(''participant_id'', True, SStr), (''nickname'', True, SStr), (''player_count'', True, SInt)]"

definition ParticipantLeftMessage :: schema where
  "ParticipantLeftMessage = message_model ''participant.left'' False ParticipantLeftPayload"

definition MatchStartedPayload :: schema where
  "MatchStartedPayload = strict_model [(''match_id'', True, SStr), (''question_count'', True, SInt), (''server_now'', True, SStr)]"

definition MatchStartedMessage :: schema where
  "MatchStartedMessage = message_model ''match.started'' False MatchStartedPayload"

definition QuestionStartedOption :: schema where
  "QuestionStartedOption = strict_model [(''id'', True, SStr), (''body'', True, SStr)]"

definition QuestionStartedQuestion :: schema where
  "QuestionStartedQuestion = strict_model [(''body'', True, SStr), (''type'', True, SStr), (''options'', True, SList QuestionStartedOption)]"

definition QuestionStartedPayload :: schema where
  "QuestionStartedPayload = strict_model [(''match_question_id'', True, SStr), (''position'', True, SInt),
     (''question'', True, QuestionStartedQuestion), (''started_at'', True, SStr), (''deadline_at'', True, SStr), (''server_now'', True, SStr)]"

definition QuestionStartedMessage :: schema where
  "QuestionStartedMessage = message_model ''question.started'' False QuestionStartedPayload"

definition AnswerAcceptedPayload :: schema where
  "AnswerAcceptedPayload = strict_model [(''submission_id'', True, SStr), (''accepted'', True, SBool), (''score_awarded'', False, SInt),
     (''response_time_ms'', False, SInt)]"

definition AnswerAcceptedMessage :: schema where
  "AnswerAcceptedMessage = message_model ''answer.accepted'' False AnswerAcceptedPayload"

definition LeaderboardEntry :: schema where
  "LeaderboardEntry = strict_model [(''rank'', True, SInt), (''participant_id'', True, SStr), (''nickname'', True, SStr), (''score'', True, SInt)]"

definition LeaderboardUpdatedPayload :: schema where
  "LeaderboardUpdatedPayload = strict_model [(''version'', True, SInt), (''top'', False, SList LeaderboardEntry)]"

definition LeaderboardUpdatedMessage :: schema where
  "LeaderboardUpdatedMessage = message_model ''leaderboard.updated'' False LeaderboardUpdatedPayload"

definition QuestionClosedPayload :: schema where
  "QuestionClosedPayload = strict_model [(''match_question_id'', True, SStr), (''correct_option_ids'', False, SList SStr),
     (''explanation'', False, SOpt SStr), (''accuracy_percent'', False, SOpt SFloat)]"

definition QuestionClosedMessage :: schema where
  "QuestionClosedMessage = message_model ''question.closed'' False QuestionClosedPayload"

definition MatchFinishedPayload :: schema where
  "MatchFinishedPayload = strict_model [(''match_id'', True, SStr), (''final_leaderboard_url'', True, SStr), (''analytics_url'', False, SOpt SStr)]"

definition MatchFinishedMessage :: schema where
  "MatchFinishedMessage = message_model ''match.finished'' False MatchFinishedPayload"

definition ErrorPayload :: schema where
  "ErrorPayload = strict_model [(''code'', True, SStr), (''message'', False, SOpt SStr), (''retry_after_ms'', False, SOpt SInt)]"

definition ErrorMessage :: schema where
  "ErrorMessage = message_model ''error'' False ErrorPayload"

definition ServerMessage :: "schema list" where
  "ServerMessage = [RoomSnapshotMessage, HeartbeatAckMessage, ParticipantJoinedMessage, ParticipantLeftMessage, MatchStartedMessage,
     QuestionStartedMessage, AnswerAcceptedMessage, LeaderboardUpdatedMessage, QuestionClosedMessage, MatchFinishedMessage, ErrorMessage]"

text \<open>The discriminated union: the literals of \<^verbatim>\<open>type\<close> differ, so at most one member accepts.\<close>

definition server_message :: "json \<Rightarrow> bool" where
  "server_message j \<longleftrightarrow> list_ex (\<lambda>s. valid s j) ServerMessage"

section \<open>Lemmas\<close>

lemmas message_schemas = RoomSnapshotMessage_def HeartbeatAckMessage_def ParticipantJoinedMessage_def ParticipantLeftMessage_def
  MatchStartedMessage_def QuestionStartedMessage_def AnswerAcceptedMessage_def LeaderboardUpdatedMessage_def QuestionClosedMessage_def
  MatchFinishedMessage_def ErrorMessage_def

lemmas payload_schemas = RoomSnapshotRoom_def RoomSnapshotParticipant_def RoomSnapshotPayload_def HeartbeatAckPayload_def
  ParticipantJoinedPayload_def ParticipantLeftPayload_def MatchStartedPayload_def QuestionStartedOption_def QuestionStartedQuestion_def
  QuestionStartedPayload_def AnswerAcceptedPayload_def LeaderboardEntry_def LeaderboardUpdatedPayload_def QuestionClosedPayload_def
  MatchFinishedPayload_def ErrorPayload_def

lemma valid_message_model:
  "valid (message_model ty req p) (JObj [(''type'', JStr ty'), (''message_id'', i), (''payload'', j)]) \<longleftrightarrow>
     ty' = ty \<and> valid (if req then SStr else SOpt SStr) i \<and> valid p j"
  by (auto simp: message_model_def strict_model_def)

text \<open>What a \<^verbatim>\<open>question.started\<close> payload can tell of an option: its id and its text.\<close>

lemma question_started_option:
  assumes "valid QuestionStartedOption (JObj kvs)" "(k, v) \<in> set kvs"
  shows "k = ''id'' \<or> k = ''body''"
  using assms by (auto simp: QuestionStartedOption_def strict_model_def list_all_iff)

section \<open>What goes on the bus\<close>

text \<open>
  \<open>contract\<close>: a server message or the kick notice of the moderation service.  \<open>speaks w w'\<close>: the bus only grew, and by such
  messages.
\<close>

definition contract :: "json \<Rightarrow> bool" where
  "contract j \<longleftrightarrow> server_message j \<or> json_get j ''type'' = JStr ''participant.kicked''"

definition speaks :: "world \<Rightarrow> world \<Rightarrow> bool" where
  "speaks w w' \<longleftrightarrow> (\<exists>ms. bus w' = bus w @ ms \<and> (\<forall>m \<in> set ms. contract (snd m)))"

lemma speaks_none [intro]: "bus w' = bus w \<Longrightarrow> speaks w w'"
  by (simp add: speaks_def)

lemma speaks_one: "\<exists>m. bus w' = bus w @ [m] \<and> contract (snd m) \<Longrightarrow> speaks w w'"
  unfolding speaks_def by (metis list.set_intros(1) set_ConsD empty_iff list.set(1))

lemma speaks_trans: "speaks w1 w2 \<Longrightarrow> speaks w2 w3 \<Longrightarrow> speaks w1 w3"
  unfolding speaks_def by (metis Un_iff append.assoc set_append)

lemma speaks_cong: "bus w1 = bus w2 \<Longrightarrow> bus w1' = bus w2' \<Longrightarrow> speaks w1 w1' = speaks w2 w2'"
  by (simp add: speaks_def)

lemma broadcast_bus:
  "bus (broadcast c ty p w) = bus w @ [(c, JObj [(''type'', JStr ty), (''message_id'', JStr (int_str (id_supply w (id_next w)))), (''payload'', p)])]"
  by (simp add: broadcast_def fresh_id_def)

lemma contract_message:
  "contract (JObj [(''type'', JStr ty), (''message_id'', JStr i), (''payload'', p)]) \<longleftrightarrow>
     (ty = ''room.snapshot'' \<and> valid RoomSnapshotPayload p) \<or> (ty = ''room.heartbeat.ack'' \<and> valid HeartbeatAckPayload p) \<or>
     (ty = ''participant.joined'' \<and> valid ParticipantJoinedPayload p) \<or> (ty = ''participant.left'' \<and> valid ParticipantLeftPayload p) \<or>
     (ty = ''match.started'' \<and> valid MatchStartedPayload p) \<or> (ty = ''question.started'' \<and> valid QuestionStartedPayload p) \<or>
     (ty = ''answer.accepted'' \<and> valid AnswerAcceptedPayload p) \<or> (ty = ''leaderboard.updated'' \<and> valid LeaderboardUpdatedPayload p) \<or>
     (ty = ''question.closed'' \<and> valid QuestionClosedPayload p) \<or> (ty = ''match.finished'' \<and> valid MatchFinishedPayload p) \<or>
     (ty = ''error'' \<and> valid ErrorPayload p) \<or> ty = ''participant.kicked''"
  by (simp add: contract_def server_message_def ServerMessage_def message_schemas valid_message_model)

end
