(* ===== verification/System.thy ===== *)
theory System
  imports AnswerSubmit RoomService Seeds OutboxPublisher Protocol
begin

text \<open>
  The backend as one transition system: every service call, every wake-up of a scheduled task, the
  restart of the process and the publisher's committed batches are steps on the world of theory World,
  in any order and with any clock readings.  A call is one step: the transaction and what follows its
  commit are not split by another call.  The invariants of the reachable states are those that no
  single call can promise: the live leaderboard is the sum of the submissions, the final scores agree
  with it, no room is over its capacity, one timer per match, one event per submission.
\<close>

section \<open>Steps\<close>

text \<open>
  What accounts, token revocation, rate limits, the caches of lists and analytics and the presence notices of the WebSocket
  endpoint may change: users, audit rows, ids, those Redis entries, and messages of the protocol on the bus.
\<close>

definition beside :: "world \<Rightarrow> world \<Rightarrow> bool" where
  "beside w w' \<longleftrightarrow> speaks w w' \<and> id_next w \<le> id_next w' \<and>
     (\<exists>us al n b rb rv ac ma ql. w' = w\<lparr>wdb := (wdb w)\<lparr>users := us, audit_logs := al\<rparr>,
        wredis := (wredis w)\<lparr>rate_buckets := rb, revoked_jtis := rv, attempt_counts := ac, match_analytics := ma, quiz_lists := ql\<rparr>,
        id_next := n, bus := b\<rparr>)"

inductive backend_step :: "world \<Rightarrow> world \<Rightarrow> bool" where
  started: "backend_step w (snd (start_match now now2 host_id code w))"
| paused_by_host: "backend_step w (snd (pause_match now host_id code w))"
| resumed: "backend_step w (snd (resume_match now now2 host_id code w))"
| ended: "backend_step w (snd (end_match now now2 match_id (Some host_id) w))"
| submitted: "backend_step w (snd (submit_answer now now2 match_id participant_id payload request_id w))"
| task_run: "(tid, t) \<in> set (tasks w) \<Longrightarrow> backend_step w (run_task inter_question_seconds now now2 now3 tid w)"
| restarted_backend: "backend_step w (snd (recover_running_matches now (w\<lparr>tasks := [], registry := [], runtimes := []\<rparr>)))"
| room_created: "backend_step w (snd (create_room sign_token now draws host room w))"
| joined: "backend_step w (snd (join_room sign_token pol now ip code nickname user_id w))"
| snapshot_built: "backend_step w (snd (build_snapshot now code w))"
| reported: "backend_step w (snd (create_report now targets reason details w))"
| decided: "backend_step w (snd (decide now moderator_id report_id decision reason' w))"
| quiz_created: "backend_step w (snd (create_quiz_set now owner_id quiz w))"
| quiz_updated: "backend_step w (snd (update_quiz_set owner_id quiz_set_id quiz_changes w))"
| question_added: "backend_step w (snd (add_question owner_id quiz_set_id question w))"
| question_updated: "backend_step w (snd (update_question owner_id question_id question_changes w))"
| question_deleted: "backend_step w (snd (delete_question owner_id question_id w))"
| quiz_published: "backend_step w (snd (publish_quiz_set pol now owner_id quiz_set_id w))"
| seeded: "backend_step w (snd (seed_main argon2 now w))"
| batch_published: "outbox s = outbox_events (wdb w) \<Longrightarrow>
    backend_step w (w\<lparr>wdb := (wdb w)\<lparr>outbox_events := outbox (snd (process_batch net locked now s))\<rparr>\<rparr>)"
| beside_matches: "beside w w' \<Longrightarrow> backend_step w w'"

inductive backend_reachable :: "world \<Rightarrow> bool" where
  boot: "inj ids \<Longrightarrow> backend_reachable (empty_world ids)"
| step: "backend_reachable w \<Longrightarrow> backend_step w w' \<Longrightarrow> backend_reachable w'"

section \<open>Steps beside the match\<close>

text \<open>
  Rooms, joining, moderation, authoring and publishing leave matches, submissions, scores, the live
  leaderboard and the timers alone; rooms may be added in the lobby.
\<close>

definition side_step :: "world \<Rightarrow> world \<Rightarrow> bool" where
  "side_step w w' \<longleftrightarrow>
     matches (wdb w') = matches (wdb w) \<and> match_questions (wdb w') = match_questions (wdb w) \<and>
     answer_submissions (wdb w') = answer_submissions (wdb w) \<and> final_scores (wdb w') = final_scores (wdb w) \<and>
     leaderboards (wredis w') = leaderboards (wredis w) \<and> tasks w' = tasks w \<and> next_task w' = next_task w \<and>
     active w' = active w \<and> running_task w' = running_task w \<and>
     (\<exists>rs. rooms (wdb w') = rooms (wdb w) @ rs \<and> unique_by rm_id rs \<and> rm_id ` set rs \<inter> rm_id ` set (rooms (wdb w)) = {} \<and>
        unique_by rm_code rs \<and> rm_code ` set rs \<inter> rm_code ` set (rooms (wdb w)) = {} \<and> (\<forall>r \<in> set rs. rm_status r = lobby))"

definition same_rooms :: "world \<Rightarrow> world \<Rightarrow> bool" where
  "same_rooms w w' \<longleftrightarrow> side_step w w' \<and> rooms (wdb w') = rooms (wdb w) \<and>
     room_participants (wdb w') = room_participants (wdb w) \<and> room_counts (wredis w') = room_counts (wredis w)"

lemma same_roomsI:
  assumes "wredis w' = wredis w" "tasks w' = tasks w" "next_task w' = next_task w" "active w' = active w" "running_task w' = running_task w"
    "matches (wdb w') = matches (wdb w)" "match_questions (wdb w') = match_questions (wdb w)"
    "answer_submissions (wdb w') = answer_submissions (wdb w)" "final_scores (wdb w') = final_scores (wdb w)"
    "rooms (wdb w') = rooms (wdb w)" "room_participants (wdb w') = room_participants (wdb w)"
  shows "same_rooms w w'"
  using assms by (simp add: same_rooms_def side_step_def unique_by_def)

lemma update_questions_only: "same_rooms w (w\<lparr>wdb := (wdb w)\<lparr>questions := qs, answer_options := aos\<rparr>\<rparr>)"
  by (rule same_roomsI) simp_all

lemma create_quiz_set_side: "same_rooms w (snd (create_quiz_set now oid quiz w))"
  by (rule same_roomsI)
    (auto simp: create_quiz_set_def fresh_id_def Let_def replace_quiz_tags_def split: prod.splits dest!: resolve_tags_frame)

lemma update_quiz_set_side: "same_rooms w (snd (update_quiz_set oid qid u w))"
  by (rule same_roomsI)
    (auto simp: update_quiz_set_def Let_def replace_quiz_tags_def split: prod.splits sum.splits option.splits dest!: resolve_tags_frame)

lemma insert_options_frame:
  "insert_options opts d = Some d' \<Longrightarrow> \<exists>aos. d' = d\<lparr>answer_options := aos\<rparr>"
  by (auto simp: insert_options_def split: if_splits)

lemma replace_options_frame:
  "replace_options qid opts d = Some d' \<Longrightarrow> \<exists>aos. d' = d\<lparr>answer_options := aos\<rparr>"
  by (auto simp: replace_options_def dest!: insert_options_frame)

lemma add_question_side: "same_rooms w (snd (add_question oid qid q w))"
  by (rule same_roomsI)
    (auto simp: add_question_def Let_def split_beta split: sum.splits option.splits dest!: insert_options_frame)

lemma update_question_side: "same_rooms w (snd (update_question oid qid u w))"
  by (rule same_roomsI)
    (auto simp: update_question_def Let_def split_beta split: sum.splits option.splits dest!: replace_options_frame)

lemma delete_question_side: "same_rooms w (snd (delete_question oid qid w))"
  by (rule same_roomsI) (auto simp: delete_question_def split: sum.splits option.splits)

lemma publish_quiz_set_side: "same_rooms w (snd (publish_quiz_set pol now oid qid w))"
proof (cases "load_owned_quiz (wdb w) oid qid")
  case (Inr quiz)
  obtain rs d w1 where fl: "auto_flag_on_publish pol now quiz (with_options (wdb w) qid) (wdb w) w = (rs, d, w1)"
    by (cases "auto_flag_on_publish pol now quiz (with_options (wdb w) qid) (wdb w) w")
  from persist_flags_effect [OF fl [unfolded auto_flag_on_publish_def]] show ?thesis
    by (intro same_roomsI) (auto simp: publish_quiz_set_def Inr fl Let_def register_eq)
qed (auto intro: same_roomsI simp: publish_quiz_set_def)

lemma create_report_side: "same_rooms w (snd (create_report now t reason details w))"
  by (rule same_roomsI) (auto simp: create_report_def Let_def register_eq split_beta)

text \<open>Moderation kicks participants; joining and creating rooms change the rooms.\<close>

lemma decide_side:
  assumes "decide now mdr i dec reason w = (res, w')"
  shows "side_step w w' \<and> rooms (wdb w') = rooms (wdb w) \<and> wredis w' = wredis w \<and>
    (\<exists>f. room_participants (wdb w') = map f (room_participants (wdb w)) \<and>
       (\<forall>p. f p = p \<or> f p = p\<lparr>rp_is_kicked := True\<rparr>))"
proof (cases res)
  case (Inl e)
  then have "w' = w" using decide_Inl assms by blast
  then show ?thesis by (auto simp: side_step_def unique_by_def intro: exI [of _ id])
next
  case (Inr r)
  from decide_Inr [OF assms [unfolded Inr]] obtain report extra kicks d ob p audit where
    ad: "apply_decision dec report (wdb w) = Inr (extra, kicks, d)" and
    d': "wdb w' = register_event ob EVT_MODERATION_DECISION AGG_MODERATION i p now
       (d\<lparr>moderation_reports := upd_where (\<lambda>r. mr_id r = i) (\<lambda>r. r\<lparr>mr_status := (if dec = ''dismiss'' then dismissed else action_taken),
            mr_reviewed_by := Some mdr, mr_reviewed_at := Some now\<rparr>) (moderation_reports d),
          audit_logs := audit_logs d @ [audit]\<rparr>)" and
    f: "wredis w' = wredis w" "tasks w' = tasks w" "next_task w' = next_task w" "active w' = active w" "running_task w' = running_task w"
    by (metis fold_broadcast_frame(2-6))
  have "\<exists>f. room_participants d = map f (room_participants (wdb w)) \<and> (\<forall>p. f p = p \<or> f p = p\<lparr>rp_is_kicked := True\<rparr>)"
  proof (cases "dec = ''mute''")
    case True
    then show ?thesis using ad
      by (auto simp: apply_decision_def apply_mute_def result_iff Let_def upd_where_def split: if_splits
          intro!: exI [of _ "\<lambda>p. if mute_matches report (wdb w) p then p\<lparr>rp_is_kicked := True\<rparr> else p"])
  next
    case False
    then show ?thesis using apply_decision_frame(9) [OF ad] by (auto intro: exI [of _ id])
  qed
  then show ?thesis using d' f apply_decision_frame [OF ad] by (simp add: side_step_def unique_by_def)
qed

section \<open>Seats\<close>

abbreviation present_count :: "db \<Rightarrow> Room \<Rightarrow> int" where
  "present_count d r \<equiv> int (length (filter (present (rm_id r)) (room_participants d)))"

definition seats_ok :: "world \<Rightarrow> bool" where
  "seats_ok w \<longleftrightarrow> unique_by rm_id (rooms (wdb w)) \<and> unique_by rm_code (rooms (wdb w)) \<and>
     unique_by nickname_key (room_participants (wdb w)) \<and> rp_room_id ` set (room_participants (wdb w)) \<subseteq> rm_id ` set (rooms (wdb w)) \<and>
     (\<forall>c. 0 \<le> count_of (wredis w) c) \<and> (\<forall>r \<in> set (rooms (wdb w)). present_count (wdb w) r \<le> count_of (wredis w) (rm_code r) \<and>
        present_count (wdb w) r \<le> max 0 (rm_max_players r))"

lemma seats_room:
  "seats_ok w \<Longrightarrow> r \<in> set (rooms (wdb w)) \<Longrightarrow> present_count (wdb w) r \<le> count_of (wredis w) (rm_code r)"
  "seats_ok w \<Longrightarrow> r \<in> set (rooms (wdb w)) \<Longrightarrow> present_count (wdb w) r \<le> max 0 (rm_max_players r)"
  by (simp_all add: seats_ok_def)

definition room_view :: "Room \<Rightarrow> int \<times> string \<times> int" where
  "room_view r = (rm_id r, rm_code r, rm_max_players r)"

lemma unique_by_view:
  assumes "map g xs = map g ys" "\<And>x. k x = h (g x)"
  shows "unique_by k xs = unique_by k ys"
proof -
  have "map k zs = map h (map g zs)" for zs using assms(2) by simp
  then show ?thesis using assms(1) by (simp add: unique_by_def del: map_map)
qed

lemma seats_ok_cong:
  assumes "map room_view (rooms (wdb w')) = map room_view (rooms (wdb w))" "room_participants (wdb w') = room_participants (wdb w)"
    "room_counts (wredis w') = room_counts (wredis w)" "seats_ok w"
  shows "seats_ok w'"
proof -
  have u: "unique_by rm_id (rooms (wdb w'))" "unique_by rm_code (rooms (wdb w'))"
    using assms(4) unique_by_view [OF assms(1), of rm_id fst] unique_by_view [OF assms(1), of rm_code "fst \<circ> snd"]
    by (simp_all add: seats_ok_def room_view_def)
  have s: "room_view ` set (rooms (wdb w')) = room_view ` set (rooms (wdb w))" using assms(1) by (metis list.set_map)
  have c: "count_of (wredis w') = count_of (wredis w)" using assms(3) by (simp add: count_of_def fun_eq_iff)
  have ids: "rm_id ` set (rooms (wdb w')) = rm_id ` set (rooms (wdb w))"
    using arg_cong [OF s, of "image fst"] by (simp add: image_image room_view_def)
  have "present_count (wdb w') r \<le> count_of (wredis w') (rm_code r) \<and> present_count (wdb w') r \<le> max 0 (rm_max_players r)"
    if "r \<in> set (rooms (wdb w'))" for r
  proof -
    have "room_view r \<in> room_view ` set (rooms (wdb w))" unfolding s [symmetric] using that by (rule imageI)
    then obtain r0 where "r0 \<in> set (rooms (wdb w))" "room_view r0 = room_view r" by (metis imageE)
    then show ?thesis using seats_room [OF assms(4), of r0] by (simp add: room_view_def assms(2) c)
  qed
  then show ?thesis using u ids c assms(2,4) by (simp add: seats_ok_def)
qed

lemma same_rooms_seats: "same_rooms w w' \<Longrightarrow> seats_ok w \<Longrightarrow> seats_ok w'"
  by (rule seats_ok_cong) (auto simp: same_rooms_def)

lemma present_kick:
  assumes "\<forall>p. f p = p \<or> f p = p\<lparr>rp_is_kicked := True\<rparr>"
  shows "length (filter (present i) (map f ps)) \<le> length (filter (present i) ps)"
  using assms
proof (induction ps)
  case (Cons p ps)
  then have "present i (f p) \<Longrightarrow> present i p" by (metis present_def RoomParticipant.select_convs(8) RoomParticipant.surjective RoomParticipant.update_convs(8))
  with Cons show ?case by auto
qed simp

lemma decide_seats:
  assumes "seats_ok w" "decide now mdr i dec reason w = (res, w')"
  shows "seats_ok w'"
proof -
  from decide_side [OF assms(2)] obtain f where r: "rooms (wdb w') = rooms (wdb w)" "wredis w' = wredis w"
    and ps: "room_participants (wdb w') = map f (room_participants (wdb w))" and f: "\<forall>p. f p = p \<or> f p = p\<lparr>rp_is_kicked := True\<rparr>"
    by blast
  have k: "nickname_key (f p) = nickname_key p \<and> rp_room_id (f p) = rp_room_id p" for p
    using f [rule_format, of p] by (auto simp: nickname_key_def)
  then have "map nickname_key (room_participants (wdb w')) = map nickname_key (room_participants (wdb w))"
    "rp_room_id ` set (room_participants (wdb w')) = rp_room_id ` set (room_participants (wdb w))"
    by (simp_all add: ps image_image)
  moreover have "present_count (wdb w') r \<le> present_count (wdb w) r" for r using present_kick [OF f] by (simp add: ps)
  then have "present_count (wdb w') r \<le> count_of (wredis w) (rm_code r)" "present_count (wdb w') r \<le> max 0 (rm_max_players r)"
    if "r \<in> set (rooms (wdb w))" for r
    using seats_room [OF assms(1) that] by (meson order_trans)+
  ultimately show ?thesis using assms(1) by (simp add: seats_ok_def unique_by_def r)
qed

lemma build_snapshot_seats:
  assumes "seats_ok w"
  shows "seats_ok (snd (build_snapshot now code w)) \<and> side_step w (snd (build_snapshot now code w))"
proof (cases "snapshot_read now code (wredis w) = None \<and> (\<exists>room. get_room_by_code (wdb w) code = Some room)")
  case True
  then obtain room where room: "snapshot_read now code (wredis w) = None" "get_room_by_code (wdb w) code = Some room" by blast
  let ?w = "snd (build_snapshot now code w)"
  have w': "?w = w\<lparr>wredis := snapshot_write now code (fst (room_snapshot (wdb w) room)) (rm_status room)
      (participants_count_init code (present_count (wdb w) room) (wredis w))\<rparr>"
    by (simp add: build_snapshot_def room Let_def split_beta) (simp add: room_snapshot_def Let_def)
  have c: "rm_code room = code" "room \<in> set (rooms (wdb w))" using find_Some_simps(1) [OF room(2)] by simp_all
  have "present_count (wdb w) r \<le> count_of (wredis ?w) (rm_code r) \<and> present_count (wdb w) r \<le> max 0 (rm_max_players r)"
    if "r \<in> set (rooms (wdb w))" for r
  proof (cases "rm_code r = code")
    case True
    then have "r = room" using assms that c unique_by_eq by (fastforce simp: seats_ok_def)
    moreover have "present_count (wdb w) room \<le> max 0 (rm_max_players room)" by (rule seats_room(2) [OF assms c(2)])
    ultimately show ?thesis using c by (simp add: w')
  next
    case False
    then show ?thesis using assms that by (simp add: w' seats_ok_def)
  qed
  then have "seats_ok ?w" using assms by (simp add: seats_ok_def w')
  then show ?thesis by (simp add: w' side_step_def unique_by_def)
next
  case False
  then have "snd (build_snapshot now code w) = w" by (auto simp: build_snapshot_def split: option.splits)
  then show ?thesis using assms by (simp add: side_step_def unique_by_def)
qed

lemma create_room_seats:
  assumes "seats_ok w" "create_room tok now draws host payload w = (res, w')"
  shows "seats_ok w' \<and> side_step w w'"
proof (cases res)
  case (Inl e)
  have "wdb w' = wdb w \<and> wredis w' = wredis w \<and> tasks w' = tasks w \<and> next_task w' = next_task w \<and> active w' = active w \<and> running_task w' = running_task w"
    using assms(2) Inl allocate_room_frame
    by (fastforce simp: create_room_def Let_def register_eq split: sum.splits prod.splits option.splits)
  then show ?thesis using assms(1) seats_ok_cong [of w' w] by (simp add: side_step_def unique_by_def)
next
  case (Inr y)
  obtain room url where y: "y = (room, url)" by (cases y)
  from create_room_Inr [OF assms(2) [unfolded Inr y]] obtain ob where
    new: "rm_id room \<notin> rm_id ` set (rooms (wdb w))" "rm_code room \<notin> rm_code ` set (rooms (wdb w))" "rm_status room = lobby"
    and d: "wdb w' = register_event ob ''RoomCreated'' ''room'' (rm_id room) (room_created_event room) now ((wdb w)\<lparr>rooms := rooms (wdb w) @ [room]\<rparr>)"
    and r: "wredis w' = snapshot_write now (rm_code room) (fst (room_snapshot (wdb w') room)) (rm_status room) (participants_count_init (rm_code room) 0 (wredis w))"
    and f: "tasks w' = tasks w" "next_task w' = next_task w" "active w' = active w" "running_task w' = running_task w" .
  have "present_count (wdb w) room = 0"
  proof -
    have "rp_room_id p \<noteq> rm_id room" if "p \<in> set (room_participants (wdb w))" for p
      using assms(1) new(1) that unfolding seats_ok_def by (metis imageI subsetD)
    then show ?thesis by (simp add: present_def filter_empty_conv)
  qed
  moreover have "rm_code r \<noteq> rm_code room" if "r \<in> set (rooms (wdb w))" for r using that new(2) by (metis imageI)
  ultimately have "seats_ok w'" using assms(1) new by (auto simp: seats_ok_def d r unique_by_append1)
  then show ?thesis using new f by (simp add: side_step_def d r unique_by_def)
qed

lemma seed_main_seats:
  assumes "seats_ok w"
  shows "seats_ok (snd (seed_main argon2 now w)) \<and> side_step w (snd (seed_main argon2 now w))"
proof -
  obtain d n d1 where s: "snd (seed_main argon2 now w) = w\<lparr>wdb := d, id_next := n\<rparr>" and a: "appended (wdb w) d1"
    and r: "d = d1 \<or> (\<exists>room. rm_status room = lobby \<and> rm_id room \<notin> rm_id ` set (rooms (wdb w)) \<and> rm_code room \<notin> rm_code ` set (rooms (wdb w)) \<and>
       d = d1\<lparr>rooms := rooms d1 @ [room]\<rparr>)" by (rule seed_main_effect)
  from a have "same_rooms w (w\<lparr>wdb := d1, id_next := n\<rparr>)" by (auto simp: appended_def intro!: same_roomsI)
  then have d1: "seats_ok (w\<lparr>wdb := d1, id_next := n\<rparr>)" "side_step w (w\<lparr>wdb := d1, id_next := n\<rparr>)" "rooms d1 = rooms (wdb w)"
    using same_rooms_seats assms by (auto simp: same_rooms_def)
  from r show ?thesis
  proof (elim disjE exE conjE)
    fix room assume new: "rm_status room = lobby" "rm_id room \<notin> rm_id ` set (rooms (wdb w))" "rm_code room \<notin> rm_code ` set (rooms (wdb w))"
      and d: "d = d1\<lparr>rooms := rooms d1 @ [room]\<rparr>"
    have "rp_room_id ` set (room_participants d1) \<subseteq> rm_id ` set (rooms d1)" using d1(1) by (simp add: seats_ok_def)
    then have "rp_room_id p \<noteq> rm_id room" if "p \<in> set (room_participants d1)" for p using that new(2) d1(3) by (metis imageI subsetD)
    then have "present_count d1 room = 0" by (simp add: present_def filter_empty_conv)
    then have "seats_ok (snd (seed_main argon2 now w))" using d1(1,3) new unfolding s d by (auto simp: seats_ok_def unique_by_append1)
    moreover have "side_step w (snd (seed_main argon2 now w))" using d1(2,3) new unfolding s d by (simp add: side_step_def unique_by_def)
    ultimately show ?thesis by blast
  qed (use s d1 in simp)
qed

lemma join_room_seats:
  assumes "seats_ok w" "join_room tok pol now ip code nick uid w = (res, w')"
  shows "seats_ok w' \<and> side_step w w' \<and> rooms (wdb w') = rooms (wdb w)"
proof -
  have c0: "0 \<le> count_of (wredis w) code" using assms(1) by (simp add: seats_ok_def)
  from assms(2) c0 show ?thesis
  proof (cases rule: join_room_cases)
    case (refused e bs)
    then show ?thesis using assms(1) seats_ok_cong [of w' w] by (simp add: side_step_def unique_by_def)
  next
    case (admitted bs room)
    let ?r = "(wredis w)\<lparr>rate_buckets := bs\<rparr>"
    let ?w1 = "w\<lparr>wredis := snd (participants_count_admit code (rm_max_players room) ?r)\<rparr>"
    have free: "count_of ?r code < rm_max_players room" "0 \<le> count_of ?r code" using admitted(2) c0 by simp_all
    have g: "room \<in> set (rooms (wdb w))" "rm_code room = code" "rm_status room = lobby"
      using admitted(1) find_Some_simps(1) by (auto simp: join_gate_Inr)
    show ?thesis
    proof (cases res)
      case (Inl e)
      note j = join_admitted_Inl [OF admitted(3) [unfolded Inl]]
      have "count_of (wredis w') c = count_of (wredis w) c" for c using seats.admit_release [OF free(2,1)] by (simp add: j)
      then show ?thesis using assms(1) by (simp add: seats_ok_def j side_step_def unique_by_def)
    next
      case (Inr j)
      from join_admitted_Inr [OF admitted(3) [unfolded Inr]] obtain p es rs ev where
        p: "p = \<lparr>rp_id = id_supply ?w1 (id_next ?w1), rp_room_id = rm_id room, rp_user_id = uid, rp_nickname = nick,
          rp_guest_token_hash = None, rp_joined_at = now, rp_left_at = None, rp_is_kicked = False\<rparr>"
        and nk: "nickname_key p \<notin> nickname_key ` set (room_participants (wdb ?w1))"
        and d: "wdb w' = (wdb ?w1)\<lparr>room_participants := room_participants (wdb ?w1) @ [p], moderation_reports := moderation_reports (wdb ?w1) @ rs,
           outbox_events := outbox_events (wdb ?w1) @ ev # es\<rparr>"
        and r: "wredis w' = snapshot_write now code (fst (room_snapshot (wdb w') room)) (rm_status room) (wredis ?w1)"
        and f: "tasks w' = tasks ?w1" "next_task w' = next_task ?w1" "active w' = active ?w1" "running_task w' = running_task ?w1" .
      have cnt: "count_of (wredis w') c = count_of (wredis w) c + (if c = code then 1 else 0)" for c
        using seats.count_admit [OF free(1)] by (simp add: r)
      have "present_count (wdb w') q \<le> count_of (wredis w') (rm_code q) \<and> present_count (wdb w') q \<le> max 0 (rm_max_players q)"
        if q: "q \<in> set (rooms (wdb w))" for q
      proof (cases "q = room")
        case True
        then show ?thesis using seats_room [OF assms(1) q] free g by (simp add: cnt d p present_def)
      next
        case False
        then have "rm_code q \<noteq> code" "rm_id q \<noteq> rm_id room"
          using assms(1) q g unique_by_eq by (metis seats_ok_def)+
        then show ?thesis using seats_room [OF assms(1) q] by (simp add: cnt d p present_def)
      qed
      moreover have "0 \<le> count_of (wredis w') c" for c using assms(1) by (simp add: cnt seats_ok_def)
      ultimately have "seats_ok w'"
        using assms(1) nk g(1) by (simp add: seats_ok_def d unique_by_append1 p)
      then show ?thesis by (simp add: side_step_def d f unique_by_def r)
    qed
  qed
qed

text \<open>The match's own steps change of a room only its status and times.\<close>

definition room_frame :: "world \<Rightarrow> world \<Rightarrow> bool" where
  "room_frame w w' \<longleftrightarrow> map room_view (rooms (wdb w')) = map room_view (rooms (wdb w)) \<and>
     room_participants (wdb w') = room_participants (wdb w) \<and> room_counts (wredis w') = room_counts (wredis w)"

lemma room_frame_seats: "room_frame w w' \<Longrightarrow> seats_ok w \<Longrightarrow> seats_ok w'"
  by (rule seats_ok_cong) (auto simp: room_frame_def)

lemma room_frame_trans: "room_frame w1 w2 \<Longrightarrow> room_frame w2 w3 \<Longrightarrow> room_frame w1 w3"
  by (simp add: room_frame_def)

lemma map_view_set_room [simp]:
  assumes "\<And>r. room_view (f r) = room_view r"
  shows "map room_view (rooms (set_room i f d)) = map room_view (rooms d)"
  using assms by (simp add: upd_where_def)

lemma room_view_status [simp]:
  "room_view (r\<lparr>rm_status := s\<rparr>) = room_view r" "room_view (r\<lparr>rm_started_at := a\<rparr>) = room_view r" "room_view (r\<lparr>rm_ended_at := b\<rparr>) = room_view r"
  by (simp_all add: room_view_def)

lemma map_view_upd [simp]:
  "map room_view (upd_where P (\<lambda>r. r\<lparr>rm_status := s, rm_started_at := a\<rparr>) rs) = map room_view rs"
  "map room_view (upd_where P (\<lambda>r. r\<lparr>rm_status := s, rm_ended_at := a\<rparr>) rs) = map room_view rs"
  "map room_view (upd_where P (\<lambda>r. r\<lparr>rm_status := s\<rparr>) rs) = map room_view rs"
  by (simp_all add: upd_where_def)

lemma redis_counts [simp]:
  "room_counts (start_match_redis now m room n parts r) = room_counts r" "room_counts (end_match_redis now c r) = room_counts r"
  by (simp_all add: start_match_redis_def end_match_redis_def set_nicknames_def reset_def Let_def split: option.splits)

lemma start_match_rooms: "room_frame w (snd (start_match now now2 h c w))"
  by (auto simp: room_frame_def start_match_def Let_def register_eq split_beta start_post_def insert_match_Some insert_match_questions_Some
      split: sum.splits option.splits)

lemma end_match_rooms: "room_frame w (snd (end_match now now2 i h w))"
  by (auto simp: room_frame_def end_match_def Let_def register_eq split: sum.splits prod.splits)

lemma pause_match_rooms: "room_frame w (snd (pause_match now h c w))"
  by (auto simp: room_frame_def pause_match_def set_statuses_def Let_def split: sum.splits)

lemma arm_next_wredis [simp]: "wredis (arm_next i w) = wredis w"
  by (simp add: arm_next_def split: option.splits)

lemma resume_match_rooms: "room_frame w (snd (resume_match now now2 h c w))"
proof -
  have "wredis (snd (resume_match now now2 h c w)) = wredis w"
    by (auto simp: resume_match_def Let_def split_beta split: sum.splits option.splits)
  then show ?thesis by (auto simp: room_frame_def resume_match_db set_statuses_def split: sum.splits)
qed

lemma arm_question_rooms: "room_frame w (arm_question now now2 now3 i p w)"
  by (auto simp: room_frame_def arm_question_def Let_def register_eq split_beta split: option.splits)

lemma close_question_rooms: "room_frame w (snd (close_question k now now2 i p w))"
proof -
  have "room_frame w (close_commit now i p mq room (runtime_state_for i w))" for mq room
    by (auto simp: room_frame_def close_commit_def Let_def register_eq)
  from room_frame_trans [OF this end_match_rooms] this show ?thesis
    by (auto simp: close_question_snd Let_def split: option.splits) (simp_all add: room_frame_def)
qed

lemma run_task_rooms: "room_frame w (run_task k now now2 now3 tid w)"
proof (cases "map_of (tasks w) tid")
  case (Some t)
  let ?w0 = "w\<lparr>running_task := Some tid, must_cancel := False\<rparr>"
  have "room_frame ?w0 (task_body k now now2 now3 t ?w0)"
    by (simp add: task_body_def arm_question_rooms close_question_rooms split: task.splits)
  then show ?thesis by (simp add: run_task_def Some Let_def room_frame_def)
qed (simp add: run_task_def room_frame_def)

lemma recover_wredis [simp]: "wredis (snd (recover_running_matches now w)) = wredis w"
proof -
  have "wredis (snd (recover_match now m x)) = wredis (snd x)" for m x
    by (cases x) (simp add: recover_match_def Let_def split_beta split: option.splits)
  then have "wredis (snd (fold (recover_match now) ms x)) = wredis (snd x)" for ms x
    by (induction ms arbitrary: x) simp_all
  then show ?thesis by (simp add: recover_running_matches_def)
qed

lemma recover_rooms: "room_frame w (snd (recover_running_matches now (w\<lparr>tasks := ts, registry := rg, runtimes := rt\<rparr>)))"
  by (simp add: room_frame_def)

lemma submit_post_counts [simp]: "room_counts (wredis (snd (submit_post s a w))) = room_counts (wredis w)"
  by (simp add: submit_post_def Let_def mark_answered_def set_nicknames_def zadd_total_def split: option.splits)

lemma submit_answer_rooms:
  assumes "submit_answer now now2 mid pid payload rid w = (res, w')"
  shows "room_frame w w'"
  using assms
proof (cases rule: submit_answer_cases)
  case (rejected e)
  then show ?thesis using submit_tx_Inl [OF rejected(3)] by (auto simp: room_frame_def)
next
  case (duplicate s w1)
  then show ?thesis using submit_tx_Duplicate [OF duplicate(3)] by (auto simp: room_frame_def idem_set_def split: option.splits)
next
  case (inserted s a w1 rank w2)
  then have "w2 = snd (submit_post s a w1)" by simp
  then show ?thesis using inserted(6) submit_tx_Inserted [OF inserted(3)]
    by (auto simp: room_frame_def idem_set_def split: option.splits)
qed (auto simp: room_frame_def)

section \<open>Scores\<close>

text \<open>What the live leaderboard should hold for a participant: nothing before the first answer, then the sum.\<close>

definition live_total :: "db \<Rightarrow> int \<Rightarrow> int \<Rightarrow> int option" where
  "live_total d i p =
     (if subs_by (match_subs d i) p = [] then None else Some (sum_list (map as_score_awarded (subs_by (match_subs d i) p))))"

definition final_ok :: "db \<Rightarrow> FinalScore \<Rightarrow> bool" where
  "final_ok d f \<longleftrightarrow> fs_total_score f = sum_list (map as_score_awarded (subs_by (match_subs d (fs_match_id f)) (fs_participant_id f))) \<and>
     (\<exists>m \<in> set (matches d). m_id m = fs_match_id f \<and> m_status m = completed)"

definition scores_ok :: "world \<Rightarrow> bool" where
  "scores_ok w \<longleftrightarrow> subs_unique (answer_submissions (wdb w)) \<and>
     as_match_id ` set (answer_submissions (wdb w)) \<subseteq> m_id ` set (matches (wdb w)) \<and>
     (\<forall>i p. map_of (leaderboards (wredis w) i) p = live_total (wdb w) i p) \<and>
     (\<forall>f \<in> set (final_scores (wdb w)). final_ok (wdb w) f)"

text \<open>A completed match is frozen: its row, its submissions and its final scores.\<close>

definition frozen_kept :: "db \<Rightarrow> db \<Rightarrow> bool" where
  "frozen_kept d d' \<longleftrightarrow> m_id ` set (matches d) \<subseteq> m_id ` set (matches d') \<and>
     (\<forall>m \<in> set (matches d). m_status m = completed \<longrightarrow> m \<in> set (matches d') \<and>
        match_subs d' (m_id m) = match_subs d (m_id m) \<and>
        filter (\<lambda>f. fs_match_id f = m_id m) (final_scores d') = filter (\<lambda>f. fs_match_id f = m_id m) (final_scores d))"

lemma frozen_kept_trans:
  assumes "frozen_kept d1 d2" "frozen_kept d2 d3"
  shows "frozen_kept d1 d3"
  unfolding frozen_kept_def
proof (intro conjI ballI impI)
  show "m_id ` set (matches d1) \<subseteq> m_id ` set (matches d3)" using assms unfolding frozen_kept_def by (meson order_trans)
  fix m assume m: "m \<in> set (matches d1)" "m_status m = completed"
  then have 2: "m \<in> set (matches d2)" "match_subs d2 (m_id m) = match_subs d1 (m_id m)"
    "filter (\<lambda>f. fs_match_id f = m_id m) (final_scores d2) = filter (\<lambda>f. fs_match_id f = m_id m) (final_scores d1)"
    using assms(1) by (simp_all add: frozen_kept_def)
  with m(2) show "m \<in> set (matches d3)" "match_subs d3 (m_id m) = match_subs d1 (m_id m)"
    "filter (\<lambda>f. fs_match_id f = m_id m) (final_scores d3) = filter (\<lambda>f. fs_match_id f = m_id m) (final_scores d1)"
    using assms(2) by (simp_all add: frozen_kept_def)
qed

lemma frozen_kept_same:
  assumes "matches d' = matches d" "answer_submissions d' = answer_submissions d" "final_scores d' = final_scores d"
  shows "frozen_kept d d'"
  using assms by (simp add: frozen_kept_def match_subs_def)

text \<open>Updates of one match that is not completed.\<close>

lemma frozen_kept_upd:
  assumes "unique_by m_id (matches d)" "get_match d i = Some m" "m_status m \<noteq> completed" "\<And>x. m_id (f x) = m_id x"
    and "matches d' = upd_where (\<lambda>m. m_id m = i) f (matches d)" "answer_submissions d' = answer_submissions d"
    and "\<exists>fs. final_scores d' = final_scores d @ fs \<and> (\<forall>x \<in> set fs. fs_match_id x = i)"
  shows "frozen_kept d d'"
  unfolding frozen_kept_def
proof (intro conjI ballI impI)
  have "map m_id (matches d') = map m_id (matches d)" unfolding assms(5) by (rule map_upd_where) (rule assms(4))
  from arg_cong [OF this, of set] show "m_id ` set (matches d) \<subseteq> m_id ` set (matches d')" by simp
  fix x assume x: "x \<in> set (matches d)" "m_status x = completed"
  have "m_id x \<noteq> i"
    using unique_by_eq [OF assms(1) x(1)] find_Some_simps(3) [OF assms(2)] x(2) assms(3) by auto
  then show "x \<in> set (matches d')" "match_subs d' (m_id x) = match_subs d (m_id x)"
    "filter (\<lambda>f. fs_match_id f = m_id x) (final_scores d') = filter (\<lambda>f. fs_match_id f = m_id x) (final_scores d)"
    using x(1) assms(6,7) by (auto simp: assms(5) upd_where_def match_subs_def filter_empty_conv intro!: image_eqI [of _ _ x])
qed

lemma scores_ok_frame:
  assumes "scores_ok w" "frozen_kept (wdb w) (wdb w')" "answer_submissions (wdb w') = answer_submissions (wdb w)"
    "final_scores (wdb w') = final_scores (wdb w)" "leaderboards (wredis w') = leaderboards (wredis w)"
  shows "scores_ok w'"
proof -
  have s: "match_subs (wdb w') = match_subs (wdb w)" "live_total (wdb w') = live_total (wdb w)"
    using assms(3) by (simp_all add: match_subs_def live_total_def fun_eq_iff)
  have "final_ok (wdb w') f" if "final_ok (wdb w) f" for f
    using that assms(2) by (auto simp: final_ok_def s frozen_kept_def)
  moreover have "as_match_id ` set (answer_submissions (wdb w)) \<subseteq> m_id ` set (matches (wdb w'))"
    using assms(1,2) unfolding scores_ok_def frozen_kept_def by (meson order_trans)
  ultimately show ?thesis using assms(1,3-5) by (simp add: scores_ok_def s)
qed

lemma side_step_frozen: "side_step w w' \<Longrightarrow> frozen_kept (wdb w) (wdb w')"
  by (rule frozen_kept_same) (auto simp: side_step_def)

lemma side_step_scores: "side_step w w' \<Longrightarrow> scores_ok w \<Longrightarrow> scores_ok w'"
  by (rule scores_ok_frame) (auto simp: side_step_frozen side_step_def)

lemma control_frozen:
  assumes "lifecycle_ok d" "control_check d h c st msg = Inr (room, match)" "st \<noteq> completed"
    and "matches d' = matches d" "answer_submissions d' = answer_submissions d" "final_scores d' = final_scores d"
  shows "frozen_kept d (set_statuses (m_id match) (rm_id room) st' d')"
proof -
  have u: "unique_by m_id (matches d)" using assms(1) by (simp add: lifecycle_ok_def)
  have m: "match \<in> set (matches d)" "m_status match = st" using assms(2) find_Some_simps(4) by (auto simp: control_check_Inr)
  then have "get_match d (m_id match) = Some match" using find_unique [OF u] by (simp add: get_match_def)
  from frozen_kept_upd [OF u this, of "\<lambda>m. m\<lparr>m_status := st'\<rparr>"] m(2) assms(3-6) show ?thesis
    by (auto simp: set_statuses_def)
qed

lemma pause_match_scores:
  assumes "lifecycle_ok (wdb w)"
  shows "frozen_kept (wdb w) (wdb (snd (pause_match now h c w))) \<and> (scores_ok w \<longrightarrow> scores_ok (snd (pause_match now h c w)))"
proof -
  let ?w = "snd (pause_match now h c w)"
  have k: "frozen_kept (wdb w) (wdb ?w)"
    using control_frozen [OF assms] by (auto simp: pause_match_db frozen_kept_same split: sum.splits)
  moreover have "leaderboards (wredis ?w) = leaderboards (wredis w)" by (auto simp: pause_match_def Let_def split: sum.splits)
  ultimately show ?thesis using scores_ok_frame [OF _ k] by (auto simp: pause_match_db split: sum.splits)
qed

lemma resume_match_scores:
  assumes "lifecycle_ok (wdb w)"
  shows "frozen_kept (wdb w) (wdb (snd (resume_match now now2 h c w))) \<and> (scores_ok w \<longrightarrow> scores_ok (snd (resume_match now now2 h c w)))"
proof -
  let ?w = "snd (resume_match now now2 h c w)"
  have k: "frozen_kept (wdb w) (wdb ?w)"
    using control_frozen [OF assms] by (auto simp: resume_match_db frozen_kept_same split: sum.splits)
  moreover have "leaderboards (wredis ?w) = leaderboards (wredis w)"
    by (auto simp: resume_match_def Let_def split_beta split: sum.splits option.splits)
  ultimately show ?thesis using scores_ok_frame [OF _ k] by (auto simp: resume_match_db split: sum.splits)
qed

lemma arm_question_scores:
  "frozen_kept (wdb w) (wdb (arm_question now now2 now3 i p w)) \<and> (scores_ok w \<longrightarrow> scores_ok (arm_question now now2 now3 i p w))"
proof -
  let ?w = "arm_question now now2 now3 i p w"
  have k: "frozen_kept (wdb w) (wdb ?w)"
    by (rule frozen_kept_same) (auto simp: arm_question_db split: option.splits)
  moreover have "leaderboards (wredis ?w) = leaderboards (wredis w)"
    by (auto simp: arm_question_def Let_def register_eq split_beta split: option.splits)
  ultimately show ?thesis using scores_ok_frame [OF _ k] by (auto simp: arm_question_db split: option.splits)
qed

lemma redis_leaderboards [simp]:
  "leaderboards (end_match_redis now c r) = leaderboards r"
  "leaderboards (start_match_redis now m room n parts r) = (leaderboards r)(m_id m := [])"
  by (simp_all add: start_match_redis_def end_match_redis_def set_nicknames_def reset_def Let_def split: option.splits)

lemma final_rows_totals:
  assumes "f \<in> set (final_rows i (match_ranking d i room_id))"
  shows "fs_match_id f = i \<and> fs_total_score f = sum_list (map as_score_awarded (subs_by (match_subs d i) (fs_participant_id f)))"
proof -
  let ?rows = "match_ranking d i room_id"
  have "(fs_participant_id f, fs_total_score f, fs_correct_count f, fs_average_response_ms f) \<in> set ?rows"
    using imageI [OF assms, of "\<lambda>f. (fs_participant_id f, fs_total_score f, fs_correct_count f, fs_average_response_ms f)"]
    unfolding set_map [symmetric] final_rows_simps(2) .
  then show ?thesis using assms by (simp add: match_ranking_def ranking_rows final_rows_simps(4))
qed

lemma end_match_scores:
  assumes "lifecycle_ok (wdb w)"
  shows "frozen_kept (wdb w) (wdb (snd (end_match now now2 i h w))) \<and> (scores_ok w \<longrightarrow> scores_ok (snd (end_match now now2 i h w)))"
proof -
  let ?w = "snd (end_match now now2 i h w)"
  have lb: "leaderboards (wredis ?w) = leaderboards (wredis w)"
    by (auto simp: end_match_def Let_def register_eq split: sum.splits prod.splits)
  show ?thesis
    using end_match_db [of now now2 i h w]
  proof (elim disjE exE conjE)
    assume "wdb ?w = wdb w"
    then show ?thesis using scores_ok_frame [of w ?w] lb by (simp add: frozen_kept_same)
  next
    fix match room
    assume ck: "end_check (wdb w) i h = Inr (match, room)" "m_status match \<noteq> completed" and d': "wdb ?w = end_commit now i room w"
    let ?new = "final_rows i (match_ranking (wdb w) i (rm_id room))"
    have gm: "get_match (wdb w) i = Some match" using ck(1) by (simp add: end_check_Inr)
    have d: "matches (wdb ?w) = upd_where (\<lambda>m. m_id m = i) (\<lambda>m. m\<lparr>m_status := completed, m_ended_at := Some now\<rparr>) (matches (wdb w))"
      "answer_submissions (wdb ?w) = answer_submissions (wdb w)" "final_scores (wdb ?w) = final_scores (wdb w) @ ?new"
      by (simp_all add: d' end_commit_def ended_db_def)
    have k: "frozen_kept (wdb w) (wdb ?w)"
    proof (rule frozen_kept_upd [OF _ gm ck(2) _ d(1,2)])
      show "unique_by m_id (matches (wdb w))" using assms by (simp add: lifecycle_ok_def)
      show "\<exists>fs. final_scores (wdb ?w) = final_scores (wdb w) @ fs \<and> (\<forall>x \<in> set fs. fs_match_id x = i)"
        using final_rows_totals by (intro exI [of _ ?new] conjI d(3)) blast
    qed simp
    have s: "match_subs (wdb ?w) = match_subs (wdb w)" "live_total (wdb ?w) = live_total (wdb w)"
      by (simp_all add: match_subs_def live_total_def fun_eq_iff d(2))
    have "\<exists>m \<in> set (matches (wdb ?w)). m_id m = i \<and> m_status m = completed"
      using find_Some_simps(3) [OF gm]
      by (intro bexI [of _ "match\<lparr>m_status := completed, m_ended_at := Some now\<rparr>"]) (auto simp: d(1) upd_where_def)
    then have new: "final_ok (wdb ?w) f" if "f \<in> set ?new" for f
      using final_rows_totals [OF that] by (simp add: final_ok_def s)
    have "final_ok (wdb ?w) f" if "final_ok (wdb w) f" for f
      using that k by (auto simp: final_ok_def s frozen_kept_def)
    moreover have "as_match_id ` set (answer_submissions (wdb w)) \<subseteq> m_id ` set (matches (wdb ?w))" if "scores_ok w"
      using that k unfolding scores_ok_def frozen_kept_def by (meson order_trans)
    ultimately have "scores_ok w \<longrightarrow> scores_ok ?w" using new by (auto simp: scores_ok_def d(2,3) s lb)
    with k show ?thesis ..
  qed
qed

lemma close_question_scores:
  assumes "lifecycle_ok (wdb w)"
  shows "frozen_kept (wdb w) (wdb (snd (close_question k now now2 i p w))) \<and> (scores_ok w \<longrightarrow> scores_ok (snd (close_question k now now2 i p w)))"
proof (cases "close_check (wdb w) i p")
  case None
  have "scores_ok w \<Longrightarrow> scores_ok (runtime_state_for i w)" by (simp add: scores_ok_def)
  then show ?thesis by (simp add: close_question_snd None frozen_kept_same)
next
  case (Some x)
  obtain mq room where x: "x = (mq, room)" by (cases x)
  define w1 where "w1 = close_commit now i p mq room (runtime_state_for i w)"
  obtain ob e where d: "wdb w1 = register_event ob EVT_QUESTION_CLOSED AGG_MATCH i e now (set_mq (mq_id mq) (\<lambda>q. q\<lparr>mq_closed_at := Some now\<rparr>) (wdb w))"
    using close_commit_db [of now i p mq room "runtime_state_for i w"] by (auto simp: w1_def)
  have k1: "frozen_kept (wdb w) (wdb w1)" by (rule frozen_kept_same) (simp_all add: d)
  have s1: "scores_ok w \<Longrightarrow> scores_ok w1" by (rule scores_ok_frame [OF _ k1]) (simp_all add: d, simp add: w1_def)
  have l1: "lifecycle_ok (wdb w1)" using assms by (simp add: d lifecycle_ok_def)
  let ?w2 = "set_active i (next_task w) (snd (create_task (GapThenArm i (p + 1) (now2 + max 0 k * 1000000)) w1))"
  have "frozen_kept (wdb w) (wdb ?w2)" using k1 by simp
  moreover have "scores_ok w \<Longrightarrow> scores_ok ?w2" using s1 by (simp add: scores_ok_def)
  moreover note frozen_kept_trans [OF k1] end_match_scores [OF l1, of now2 now2 i None] s1
  ultimately show ?thesis by (auto simp: close_question_snd Some x Let_def w1_def [symmetric])
qed

lemma run_task_scores:
  assumes "lifecycle_ok (wdb w)"
  shows "frozen_kept (wdb w) (wdb (run_task k now now2 now3 tid w)) \<and> (scores_ok w \<longrightarrow> scores_ok (run_task k now now2 now3 tid w))"
proof (cases "map_of (tasks w) tid")
  case (Some t)
  let ?w0 = "w\<lparr>running_task := Some tid, must_cancel := False\<rparr>"
  have "frozen_kept (wdb ?w0) (wdb (task_body k now now2 now3 t ?w0)) \<and> (scores_ok ?w0 \<longrightarrow> scores_ok (task_body k now now2 now3 t ?w0))"
    using assms arm_question_scores [of ?w0 now now2 now3] close_question_scores [of ?w0 k now now2]
    by (auto simp: task_body_def split: task.splits)
  then show ?thesis by (simp add: run_task_def Some Let_def scores_ok_def)
qed (simp add: run_task_def frozen_kept_same)

lemma start_match_scores:
  assumes "lifecycle_ok (wdb w)"
  shows "frozen_kept (wdb w) (wdb (snd (start_match now now2 h c w))) \<and> (scores_ok w \<longrightarrow> scores_ok (snd (start_match now now2 h c w)))"
proof (cases "start_match now now2 h c w")
  case (Pair res w')
  show ?thesis
  proof (cases res)
    case (Inl e)
    then obtain n where "w' = w\<lparr>id_next := n\<rparr>" using start_match_Inl Pair by blast
    then show ?thesis by (simp add: Pair frozen_kept_same scores_ok_def)
  next
    case (Inr m)
    obtain room ob p and mqs :: "MatchQuestion list" where
      u: "unique_by m_id (matches (wdb w) @ [m])" and
      d: "wdb w' = register_event ob EVT_MATCH_STARTED AGG_MATCH (m_id m) p now
          (set_room (rm_id room) (\<lambda>r. r\<lparr>rm_status := running, rm_started_at := Some now\<rparr>)
            ((wdb w)\<lparr>matches := matches (wdb w) @ [m], match_questions := match_questions (wdb w) @ mqs\<rparr>))" and
      r: "\<exists>w0. w' = start_post now2 m room (length mqs) w0 \<and> wredis w0 = wredis w"
      by (rule start_match_Inr [OF Pair [unfolded Inr]]) blast
    have k: "frozen_kept (wdb w) (wdb w')" by (auto simp: frozen_kept_def d match_subs_def)
    have lb: "leaderboards (wredis w') = (leaderboards (wredis w))(m_id m := [])"
      using r by (auto simp: start_post_def Let_def)
    have s: "match_subs (wdb w') = match_subs (wdb w)" "live_total (wdb w') = live_total (wdb w)"
      by (simp_all add: match_subs_def live_total_def fun_eq_iff d)
    have "scores_ok w'" if ok: "scores_ok w"
    proof -
      have "as_match_id s \<noteq> m_id m" if "s \<in> set (answer_submissions (wdb w))" for s
        using ok u that unfolding scores_ok_def unique_by_append1 by (metis imageI subsetD)
      then have "live_total (wdb w) (m_id m) q = None" for q by (simp add: live_total_def match_subs_def filter_empty_conv)
      then have "map_of (leaderboards (wredis w') i) q = live_total (wdb w') i q" for i q
        using ok by (simp add: lb s scores_ok_def)
      moreover have "final_ok (wdb w') f" if "final_ok (wdb w) f" for f using that k by (auto simp: final_ok_def s frozen_kept_def)
      ultimately show ?thesis using ok by (auto simp: scores_ok_def d)
    qed
    with k show ?thesis by (simp add: Pair)
  qed
qed

lemma recover_scores:
  "frozen_kept (wdb w) (wdb (snd (recover_running_matches now (w\<lparr>tasks := ts, registry := rg, runtimes := rt\<rparr>)))) \<and>
   (scores_ok w \<longrightarrow> scores_ok (snd (recover_running_matches now (w\<lparr>tasks := ts, registry := rg, runtimes := rt\<rparr>))))"
  by (simp add: frozen_kept_same scores_ok_def)

lemma subs_unique_append: "subs_unique (ss @ [s]) \<longleftrightarrow> subs_unique ss \<and> \<not> conflicts s ss"
  by (auto simp: subs_unique_def conflicts_def unique_by_append1)

lemma match_subs_append:
  "answer_submissions d' = answer_submissions d @ [s] \<Longrightarrow>
     match_subs d' i = match_subs d i @ (if as_match_id s = i then [s] else [])"
  by (simp add: match_subs_def)

lemma subs_by_append [simp]: "subs_by (xs @ ys) p = subs_by xs p @ subs_by ys p"
  by (simp add: subs_by_def)

lemma live_total_append:
  assumes "answer_submissions d' = answer_submissions d @ [s]"
  shows "live_total d' i p =
    (if i = as_match_id s \<and> p = as_participant_id s
     then Some ((case live_total d i p of None \<Rightarrow> 0 | Some t \<Rightarrow> t) + as_score_awarded s) else live_total d i p)"
  using match_subs_append [OF assms, of i] by (auto simp: live_total_def)

lemma idem_set_leaderboards [simp]: "leaderboards (snd (idem_set r now k v)) = leaderboards r"
  by (simp add: idem_set_def split: option.splits)

lemma submit_answer_effect:
  assumes "submit_answer now now2 mid pid payload rid w = (res, w')"
  obtains (same) "wdb w' = wdb w" "leaderboards (wredis w') = leaderboards (wredis w)" "id_supply w' = id_supply w" "id_next w \<le> id_next w'"
  | (recorded) s a where "submit_check (wdb w) now mid pid payload = Inr a" "\<not> conflicts s (answer_submissions (wdb w))"
      "as_match_id s = mid" "as_participant_id s = pid"
      "wdb w' = register_event (id_supply w (Suc (id_next w))) EVT_ANSWER_SUBMITTED AGG_ANSWER (as_id s)
         (answer_submitted_event (aa_match a) (aa_mq a) s now) now ((wdb w)\<lparr>answer_submissions := answer_submissions (wdb w) @ [s]\<rparr>)"
      "leaderboards (wredis w') = leaderboards (zadd_total mid pid (as_score_awarded s) (wredis w))"
      "id_supply w' = id_supply w" "Suc (Suc (id_next w)) \<le> id_next w'"
  using assms
proof (cases rule: submit_answer_cases)
  case (rejected e)
  then show ?thesis using submit_tx_Inl [OF rejected(3)] same by auto
next
  case (duplicate s w1)
  then show ?thesis using submit_tx_Duplicate [OF duplicate(3)] same by (auto simp: idem_set_def split: option.splits)
next
  case (inserted s a w1 rank w2)
  note tx = submit_tx_Inserted [OF inserted(3)]
  have w2: "w2 = snd (submit_post s a w1)" using inserted(4) by simp
  have ids: "as_match_id s = mid" "as_participant_id s = pid" using submit_check_ids tx by auto
  have post: "id_supply w2 = id_supply w1" "id_next w1 \<le> id_next w2"
    by (simp_all add: w2 submit_post_def Let_def split: option.splits)
  show ?thesis
  proof (rule recorded)
    show "leaderboards (wredis w') = leaderboards (zadd_total mid pid (as_score_awarded s) (wredis w))"
    proof -
      have "wredis w1 = wredis w" using tx by simp
      then have "leaderboards (wredis w2) = leaderboards (zadd_total mid pid (as_score_awarded s) (wredis w))"
        unfolding w2 by (simp add: ids)
      then show ?thesis using inserted(6) by simp
    qed
    show "Suc (Suc (id_next w)) \<le> id_next w'" using inserted(6) tx post by (simp add: w2)
    show "id_supply w' = id_supply w" using inserted(6) tx post by simp
    show "wdb w' = register_event (id_supply w (Suc (id_next w))) EVT_ANSWER_SUBMITTED AGG_ANSWER (as_id s)
         (answer_submitted_event (aa_match a) (aa_mq a) s now) now ((wdb w)\<lparr>answer_submissions := answer_submissions (wdb w) @ [s]\<rparr>)"
      using inserted(6) tx by (simp add: w2)
  qed (use tx ids in auto)
qed (use same in auto)

lemma submit_answer_scores:
  assumes "lifecycle_ok (wdb w)" "submit_answer now now2 mid pid payload rid w = (res, w')"
  shows "frozen_kept (wdb w) (wdb w') \<and> (scores_ok w \<longrightarrow> scores_ok w')"
  using assms(2)
proof (cases rule: submit_answer_effect)
  case same
  then show ?thesis using scores_ok_frame [of w w'] by (simp add: frozen_kept_same)
next
  case (recorded s a)
  have subs: "answer_submissions (wdb w') = answer_submissions (wdb w) @ [s]" by (simp add: recorded(5))
  have m: "get_match (wdb w) mid = Some (aa_match a)" "m_status (aa_match a) = running"
    using recorded(1) by (auto simp: submit_check_Inr deadline_check_Inr)
  have run: "m_id m \<noteq> mid" if "m \<in> set (matches (wdb w))" "m_status m = completed" for m
  proof -
    have "unique_by m_id (matches (wdb w))" using assms(1) by (simp add: lifecycle_ok_def)
    from unique_by_eq [OF this that(1)] find_Some_simps(3) [OF m(1)] show ?thesis using that(2) m(2) by auto
  qed
  have k: "frozen_kept (wdb w) (wdb w')"
    unfolding frozen_kept_def
  proof (intro conjI ballI impI)
    fix m assume "m \<in> set (matches (wdb w))" "m_status m = completed"
    then show "match_subs (wdb w') (m_id m) = match_subs (wdb w) (m_id m)"
      using run [of m] recorded(3) by (simp add: match_subs_append [OF subs])
  qed (simp_all add: recorded(5))
  have "scores_ok w'" if ok: "scores_ok w"
  proof -
    have "map_of (leaderboards (wredis w') i) p = live_total (wdb w') i p" for i p
      using ok by (simp add: recorded(6) zadd_total_score live_total_append [OF subs] recorded(3,4) scores_ok_def)
    moreover have "final_ok (wdb w') f" if f: "final_ok (wdb w) f" for f
    proof -
      from f have "fs_match_id f \<noteq> mid" using run by (auto simp: final_ok_def)
      with f show ?thesis by (simp add: final_ok_def match_subs_append [OF subs] recorded(3)) (simp add: recorded(5))
    qed
    moreover have "subs_unique (answer_submissions (wdb w'))" using ok recorded(2) by (simp add: subs subs_unique_append scores_ok_def)
    moreover have "mid \<in> m_id ` set (matches (wdb w))" using find_Some_simps(3) [OF m(1)] by blast
    ultimately show ?thesis using ok recorded(3) unfolding scores_ok_def by (simp add: subs) (simp add: recorded(5))
  qed
  with k show ?thesis by blast
qed

section \<open>Events\<close>

text \<open>
  \<open>emits P d w d' w'\<close>: between the two, the outbox has only grown, by rows that satisfy \<open>P\<close>, whose ids were
  drawn from the generator in between, in order.
\<close>

definition emits :: "(OutboxEvent \<Rightarrow> bool) \<Rightarrow> db \<Rightarrow> world \<Rightarrow> db \<Rightarrow> world \<Rightarrow> bool" where
  "emits P d w d' w' \<longleftrightarrow> id_supply w' = id_supply w \<and> id_next w \<le> id_next w' \<and>
     (\<exists>ns es. outbox_events d' = outbox_events d @ es \<and> map ob_id es = map (id_supply w) ns \<and> sorted_wrt (<) ns \<and>
        set ns \<subseteq> {id_next w ..< id_next w'} \<and> list_all P es)"

lemma emits_none:
  "id_supply w' = id_supply w \<Longrightarrow> id_next w \<le> id_next w' \<Longrightarrow> outbox_events d' = outbox_events d \<Longrightarrow> emits P d w d' w'"
  by (simp add: emits_def)

lemma emits_one:
  assumes "id_supply w' = id_supply w" "id_next w \<le> n" "n < id_next w'"
    and e: "\<exists>e. outbox_events d' = outbox_events d @ [e] \<and> ob_id e = id_supply w n \<and> P e"
  shows "emits P d w d' w'"
proof -
  from e obtain e where "outbox_events d' = outbox_events d @ [e]" "ob_id e = id_supply w n" "P e" by blast
  then show ?thesis unfolding emits_def using assms(1-3) by (intro conjI exI [of _ "[n]"] exI [of _ "[e]"]) auto
qed

lemma emits_trans:
  assumes "emits P d1 w1 d2 w2" "emits P d2 w2 d3 w3"
  shows "emits P d1 w1 d3 w3"
proof -
  from assms(1) obtain ns es where 1: "outbox_events d2 = outbox_events d1 @ es" "map ob_id es = map (id_supply w1) ns"
    "sorted_wrt (<) ns" "set ns \<subseteq> {id_next w1 ..< id_next w2}" "list_all P es" "id_supply w2 = id_supply w1" "id_next w1 \<le> id_next w2"
    by (auto simp: emits_def)
  from assms(2) obtain ns' es' where 2: "outbox_events d3 = outbox_events d2 @ es'" "map ob_id es' = map (id_supply w2) ns'"
    "sorted_wrt (<) ns'" "set ns' \<subseteq> {id_next w2 ..< id_next w3}" "list_all P es'" "id_supply w3 = id_supply w2" "id_next w2 \<le> id_next w3"
    by (auto simp: emits_def)
  have "sorted_wrt (<) (ns @ ns')" using 1(3,4) 2(3,4) by (fastforce simp: sorted_wrt_append)
  then show ?thesis
    unfolding emits_def using 1 2 by (intro conjI exI [of _ "ns @ ns'"] exI [of _ "es @ es'"]) auto
qed

definition background :: "OutboxEvent \<Rightarrow> bool" where
  "background e \<longleftrightarrow> ob_event_type e \<noteq> EVT_ANSWER_SUBMITTED \<and> (\<exists>kvs. ob_payload e = JObj kvs)"

abbreviation emits_background :: "world \<Rightarrow> world \<Rightarrow> bool" where
  "emits_background w w' \<equiv> emits background (wdb w) w (wdb w') w'"

lemmas event_types = EVT_MATCH_STARTED_def EVT_QUESTION_STARTED_def EVT_QUESTION_CLOSED_def EVT_MATCH_FINISHED_def
  EVT_ANSWER_SUBMITTED_def EVT_CONTENT_REPORTED_def EVT_CONTENT_FLAGGED_def EVT_MODERATION_DECISION_def

lemmas event_payloads = match_started_payload_def question_started_event_def question_closed_event_def match_finished_event_def
  room_created_event_def player_joined_event_def flagged_event_def reported_event_def

lemma fold_broadcast_ids [simp]:
  "id_supply (fold (\<lambda>(c, p). broadcast c t (f p)) ks w) = id_supply w"
  "id_next (fold (\<lambda>(c, p). broadcast c t (f p)) ks w) = id_next w + length ks"
  by (induction ks arbitrary: w) (simp_all add: split_beta)

lemma start_post_ids [simp]:
  "id_supply (start_post now2 m room n w) = id_supply w" "id_next (start_post now2 m room n w) = Suc (id_next w)"
  by (simp_all add: start_post_def Let_def)

lemma start_match_emits: "emits_background w (snd (start_match now now2 h c w))"
proof (cases "\<exists>m w'. start_match now now2 h c w = (Inr m, w')")
  case True
  then obtain m w' where s: "start_match now now2 h c w = (Inr m, w')" by blast
  let ?n = "Suc (id_next w) + length (questions_of (wdb w) (rm_quiz_set_id (the (get_room_by_code (wdb w) c))))"
  show ?thesis
    by (rule emits_one [where n = ?n])
      (use s in \<open>auto simp: start_match_def start_check_Inr Let_def register_eq split_beta insert_match_Some insert_match_questions_Some
        background_def event_types event_payloads split: sum.splits option.splits\<close>)
next
  case False
  then obtain e w' where s: "start_match now now2 h c w = (Inl e, w')" by (metis obj_sumE surj_pair)
  from start_match_Inl [OF this] have "wdb w' = wdb w" "id_supply w' = id_supply w" by auto
  moreover have "id_next w \<le> id_next w'"
    using s by (auto simp: start_match_def Let_def register_eq split_beta split: sum.splits option.splits)
  ultimately show ?thesis by (simp add: s emits_none)
qed

lemma cancel_ids: "id_supply (snd (cancel i w)) = id_supply w" "id_next (snd (cancel i w)) = id_next w"
  by simp_all

lemma end_match_emits: "emits_background w (snd (end_match now now2 i h w))"
proof (cases "wdb (snd (end_match now now2 i h w)) = wdb w")
  case True
  then show ?thesis
    by (intro emits_none) (auto simp: end_match_def Let_def register_eq split: sum.splits prod.splits)
next
  case False
  then show ?thesis
    by (intro emits_one [where n = "id_next w"])
      (auto simp: end_match_def Let_def register_eq background_def event_types event_payloads split: sum.splits prod.splits)
qed

lemma pause_match_emits: "emits_background w (snd (pause_match now h c w))"
  by (rule emits_none) (auto simp: pause_match_def Let_def split: sum.splits)

lemma arm_next_ids [simp]: "id_supply (arm_next i w) = id_supply w" "id_next (arm_next i w) = id_next w"
  by (simp_all add: arm_next_def split: option.splits)

lemma resume_match_emits: "emits_background w (snd (resume_match now now2 h c w))"
  by (rule emits_none) (auto simp: resume_match_def Let_def split_beta split: sum.splits option.splits)

lemma arm_question_emits: "emits_background w (arm_question now now2 now3 i p w)"
proof (cases "arm_check (wdb w) i p")
  case None
  then show ?thesis by (intro emits_none) (simp_all add: arm_question_def Let_def)
next
  case (Some x)
  then show ?thesis
    by (intro emits_one [where n = "id_next w"])
      (auto simp: arm_question_def Let_def register_eq split_beta background_def event_types event_payloads split: prod.splits)
qed

lemma close_question_emits: "emits_background w (snd (close_question k now now2 i p w))"
proof (cases "close_check (wdb w) i p")
  case None
  then show ?thesis by (intro emits_none) (simp_all add: close_question_snd)
next
  case (Some x)
  obtain mq room where x: "x = (mq, room)" by (cases x)
  define w1 where "w1 = close_commit now i p mq room (runtime_state_for i w)"
  have 1: "emits_background w w1"
    by (rule emits_one [where n = "id_next w"])
      (simp_all add: w1_def close_commit_def Let_def register_eq background_def event_types event_payloads)
  have "emits_background w (set_active i (next_task w) (snd (create_task t w1)))" for t using 1 by (simp add: emits_def)
  with emits_trans [OF 1 end_match_emits] show ?thesis
    by (simp add: close_question_snd Some x Let_def w1_def [symmetric])
qed

lemma run_task_emits: "emits_background w (run_task k now now2 now3 tid w)"
proof (cases "map_of (tasks w) tid")
  case (Some t)
  let ?w0 = "w\<lparr>running_task := Some tid, must_cancel := False\<rparr>"
  have "emits_background ?w0 (task_body k now now2 now3 t ?w0)"
    by (cases t) (simp_all only: task_body_def task.case arm_question_emits close_question_emits)
  then show ?thesis by (simp add: run_task_def Some Let_def emits_def)
qed (simp add: run_task_def emits_none)

lemma recover_ids [simp]:
  "id_supply (snd (recover_running_matches now w)) = id_supply w" "id_next (snd (recover_running_matches now w)) = id_next w"
proof -
  have "id_supply (snd (recover_match now m x)) = id_supply (snd x) \<and> id_next (snd (recover_match now m x)) = id_next (snd x)" for m x
    by (cases x) (simp add: recover_match_def Let_def split_beta split: option.splits)
  then have "id_supply (snd (fold (recover_match now) ms x)) = id_supply (snd x) \<and> id_next (snd (fold (recover_match now) ms x)) = id_next (snd x)" for ms x
    by (induction ms arbitrary: x) simp_all
  then show "id_supply (snd (recover_running_matches now w)) = id_supply w" "id_next (snd (recover_running_matches now w)) = id_next w"
    by (simp_all add: recover_running_matches_def)
qed

lemma recover_emits: "emits_background w (snd (recover_running_matches now (w\<lparr>tasks := ts, registry := rg, runtimes := rt\<rparr>)))"
  by (rule emits_none) simp_all

lemma resolve_tags_ids:
  "resolve_tags names seen d w = (ids, d', w') \<Longrightarrow> id_supply w' = id_supply w \<and> id_next w \<le> id_next w' \<and> outbox_events d' = outbox_events d"
  by (drule resolve_tags_frame) auto

lemma create_quiz_set_emits: "emits_background w (snd (create_quiz_set now oid quiz w))"
  by (rule emits_none)
    (auto simp: create_quiz_set_def fresh_id_def Let_def replace_quiz_tags_def split: prod.splits dest!: resolve_tags_ids)

lemma update_quiz_set_emits: "emits_background w (snd (update_quiz_set oid qid u w))"
  by (rule emits_none)
    (auto simp: update_quiz_set_def Let_def replace_quiz_tags_def split: prod.splits sum.splits option.splits dest!: resolve_tags_ids)

lemma add_question_emits: "emits_background w (snd (add_question oid qid q w))"
  by (rule emits_none)
    (auto simp: add_question_def Let_def split_beta split: sum.splits option.splits dest!: insert_options_frame)

lemma update_question_emits: "emits_background w (snd (update_question oid qid u w))"
  by (rule emits_none)
    (auto simp: update_question_def Let_def split_beta split: sum.splits option.splits dest!: replace_options_frame)

lemma delete_question_emits: "emits_background w (snd (delete_question oid qid w))"
  by (rule emits_none) (auto simp: delete_question_def split: sum.splits option.splits)

lemma persist_flags_emits:
  assumes "persist_flags now flags t source d w = (rs, d', w')"
  shows "emits background d w d' w'"
  using assms
proof (induction flags arbitrary: d w rs)
  case Nil
  then show ?case by (simp add: emits_none)
next
  case (Cons cf flags)
  obtain ctx f where cf: "cf = (ctx, f)" by (cases cf)
  define i where "i = id_supply w (id_next w)"
  define w1 where "w1 = snd (fresh_id w)"
  define d1 where "d1 = register_event (id_supply w1 (id_next w1)) EVT_CONTENT_FLAGGED AGG_MODERATION i (flagged_event i t ctx f source) now
    (d\<lparr>moderation_reports := moderation_reports d @ [new_report i t (flag_reason f) (Some (flag_details_json ctx f source)) now]\<rparr>)"
  obtain rs1 where rec: "persist_flags now flags t source d1 (snd (fresh_id w1)) = (rs1, d', w')"
    using Cons.prems by (auto simp: cf Let_def register_eq split_beta d1_def w1_def i_def prod_eq_iff)
  have "emits background d w d1 (snd (fresh_id w1))"
    by (rule emits_one [where n = "id_next w1"]) (simp_all add: w1_def d1_def background_def event_types event_payloads)
  then show ?case using Cons.IH [OF rec] emits_trans by blast
qed

lemma publish_quiz_set_emits: "emits_background w (snd (publish_quiz_set pol now oid qid w))"
proof (cases "load_owned_quiz (wdb w) oid qid")
  case (Inr quiz)
  obtain rs d w1 where fl: "auto_flag_on_publish pol now quiz (with_options (wdb w) qid) (wdb w) w = (rs, d, w1)"
    by (cases "auto_flag_on_publish pol now quiz (with_options (wdb w) qid) (wdb w) w")
  note e1 = persist_flags_emits [OF fl [unfolded auto_flag_on_publish_def]]
  have id: "id_supply w1 = id_supply w" "id_next w \<le> id_next w1" "wdb w1 = wdb w"
    using e1 persist_flags_effect [OF fl [unfolded auto_flag_on_publish_def]] by (auto simp: emits_def)
  let ?w = "snd (publish_quiz_set pol now oid qid w)"
  show ?thesis
  proof (cases "validate_publish (with_options (wdb w) qid) = []")
    case True
    have "emits background d w1 (wdb ?w) ?w"
      by (rule emits_one [where n = "id_next w1"])
        (simp_all add: publish_quiz_set_def Inr fl Let_def register_eq True background_def event_types)
    then show ?thesis using emits_trans [OF e1] by blast
  next
    case False
    then have "?w = w1" by (simp add: publish_quiz_set_def Inr fl Let_def)
    then show ?thesis using id by (simp add: emits_none)
  qed
qed (simp add: publish_quiz_set_def emits_none)

lemma create_report_emits: "emits_background w (snd (create_report now t reason details w))"
proof (cases "set_count t = 1 \<and> targets_exist (wdb w) t")
  case True
  then show ?thesis
    by (intro emits_one [where n = "Suc (id_next w)"])
      (simp_all add: create_report_def Let_def register_eq split_beta background_def event_types event_payloads)
qed (auto simp: create_report_def Let_def split_beta intro: emits_none)

lemma decide_emits:
  assumes "decide now mdr i dec reason w = (res, w')"
  shows "emits_background w w'"
proof (cases res)
  case (Inl e)
  then show ?thesis using decide_Inl assms by (metis emits_none order_refl)
next
  case (Inr r)
  show ?thesis
    by (rule emits_one [where n = "Suc (id_next w)"])
      (use assms Inr in \<open>auto simp: decide_def Let_def register_eq split_beta background_def event_types apply_decision_frame(3)
        result_iff split: sum.splits\<close>)
qed

lemma build_snapshot_emits: "emits_background w (snd (build_snapshot now code w))"
  by (rule emits_none) (auto simp: build_snapshot_def Let_def split_beta split: option.splits)

lemma allocate_room_ids:
  "allocate_room n draws h q payload d w = (x, w') \<Longrightarrow> id_supply w' = id_supply w \<and> id_next w \<le> id_next w'"
  by (induction n arbitrary: w) (fastforce simp: Let_def split_beta split: option.splits)+

lemma create_room_emits:
  assumes "create_room tok now draws host payload w = (res, w')"
  shows "emits_background w w'"
proof (cases "create_check (wdb w) (u_id host) payload")
  case (Inr quiz)
  obtain x w1 where al: "allocate_room CODE_RETRIES draws (u_id host) (qs_id quiz) payload (wdb w) w = (x, w1)"
    by (cases "allocate_room CODE_RETRIES draws (u_id host) (qs_id quiz) payload (wdb w) w")
  note a = allocate_room_ids [OF al] allocate_room_frame [OF al]
  show ?thesis
  proof (cases x)
    case None
    then show ?thesis using assms a by (intro emits_none) (auto simp: create_room_def Inr al)
  next
    case (Some y)
    obtain room d where y: "y = (room, d)" by (cases y)
    note s = allocate_room_Some [OF al [unfolded Some y]]
    show ?thesis
      by (rule emits_one [where n = "id_next w1"])
        (use assms a s in \<open>auto simp: create_room_def Inr al Some y Let_def register_eq background_def event_types event_payloads\<close>)
  qed
qed (use assms in \<open>auto simp: create_room_def emits_none\<close>)

lemma join_admitted_emits:
  assumes "join_admitted tok pol now room code nick uid w = (res, w')"
  shows "emits_background w w'"
proof (cases res)
  case (Inl e)
  with join_admitted_Inl [OF assms [unfolded Inl]] show ?thesis by (simp add: emits_none)
next
  case (Inr j)
  define p where "p = \<lparr>rp_id = id_supply w (id_next w), rp_room_id = rm_id room, rp_user_id = uid, rp_nickname = nick,
          rp_guest_token_hash = None, rp_joined_at = now, rp_left_at = None, rp_is_kicked = False\<rparr>"
  define w1 where "w1 = snd (fresh_id w)"
  define d1 where "d1 = register_event (id_supply w1 (id_next w1)) ''PlayerJoined'' ''room'' (rm_id room) (player_joined_event room p) now
    ((wdb w)\<lparr>room_participants := room_participants (wdb w) @ [p]\<rparr>)"
  obtain rs d2 w2 where fl: "auto_flag_on_join pol now room nick uid d1 (snd (fresh_id w1)) = (rs, d2, w2)"
    by (cases "auto_flag_on_join pol now room nick uid d1 (snd (fresh_id w1))")
  have w': "wdb w' = d2" "id_supply w' = id_supply w2" "id_next w' = id_next w2"
    using assms fl by (auto simp: Inr join_admitted_def Let_def split_beta register_eq insert_participant_Some p_def [symmetric] w1_def d1_def
        split: option.splits)
  have "emits background (wdb w) w d1 (snd (fresh_id w1))"
    by (rule emits_one [where n = "id_next w1"]) (simp_all add: w1_def d1_def background_def event_types event_payloads)
  from emits_trans [OF this persist_flags_emits [OF fl [unfolded auto_flag_on_join_def]]] show ?thesis
    by (simp add: emits_def w')
qed

lemma join_room_emits:
  assumes "seats_ok w" "join_room tok pol now ip code nick uid w = (res, w')"
  shows "emits_background w w'"
proof -
  have "0 \<le> count_of (wredis w) code" using assms(1) by (simp add: seats_ok_def)
  from assms(2) this show ?thesis
  proof (cases rule: join_room_cases)
    case (refused e bs)
    then show ?thesis by (simp add: emits_none)
  next
    case (admitted bs room)
    from join_admitted_emits [OF admitted(3)] show ?thesis by (simp add: emits_def)
  qed
qed

text \<open>One event per submission, carrying it, and ids that are all different.\<close>

definition event_for :: "AnswerSubmission \<Rightarrow> OutboxEvent \<Rightarrow> bool" where
  "event_for s e \<longleftrightarrow> ob_event_type e = EVT_ANSWER_SUBMITTED \<and> ob_aggregate_id e = as_id s \<and>
     (\<exists>match mq t. ob_payload e = answer_submitted_event match mq s t \<and> m_id match = as_match_id s)"

definition answer_events :: "db \<Rightarrow> OutboxEvent list" where
  "answer_events d = filter (\<lambda>e. ob_event_type e = EVT_ANSWER_SUBMITTED) (outbox_events d)"

definition events_ok :: "world \<Rightarrow> bool" where
  "events_ok w \<longleftrightarrow> inj (id_supply w) \<and>
     (\<exists>ns. map ob_id (outbox_events (wdb w)) = map (id_supply w) ns \<and> sorted_wrt (<) ns \<and> set ns \<subseteq> {..< id_next w}) \<and>
     (\<forall>e \<in> set (outbox_events (wdb w)). \<exists>kvs. ob_payload e = JObj kvs) \<and>
     list_all2 event_for (answer_submissions (wdb w)) (answer_events (wdb w))"

lemma events_ok_unique:
  assumes "events_ok w"
  shows "unique_by ob_id (outbox_events (wdb w))"
proof -
  from assms obtain ns where "inj (id_supply w)" "map ob_id (outbox_events (wdb w)) = map (id_supply w) ns" "sorted_wrt (<) ns"
    by (auto simp: events_ok_def)
  then show ?thesis by (auto simp: unique_by_def distinct_map [of "id_supply w"] strict_sorted_iff intro: inj_on_subset)
qed

lemma events_ok_grow:
  assumes "events_ok w" "emits P (wdb w) w (wdb w') w'" "\<And>e. P e \<Longrightarrow> \<exists>kvs. ob_payload e = JObj kvs"
    and "list_all2 event_for (answer_submissions (wdb w')) (answer_events (wdb w'))"
  shows "events_ok w'"
proof -
  from assms(1) obtain ns where 1: "map ob_id (outbox_events (wdb w)) = map (id_supply w) ns" "sorted_wrt (<) ns" "set ns \<subseteq> {..< id_next w}"
    by (auto simp: events_ok_def)
  from assms(2) obtain ns' es where 2: "outbox_events (wdb w') = outbox_events (wdb w) @ es" "map ob_id es = map (id_supply w) ns'"
    "sorted_wrt (<) ns'" "set ns' \<subseteq> {id_next w ..< id_next w'}" "list_all P es" "id_supply w' = id_supply w" "id_next w \<le> id_next w'"
    by (auto simp: emits_def)
  have "sorted_wrt (<) (ns @ ns')" using 1(2,3) 2(3,4) by (fastforce simp: sorted_wrt_append)
  moreover have "set (ns @ ns') \<subseteq> {..< id_next w'}" using 1(3) 2(4,7) by fastforce
  moreover have "map ob_id (outbox_events (wdb w')) = map (id_supply w') (ns @ ns')" using 1(1) 2(1,2,6) by simp
  moreover have "\<forall>e \<in> set (outbox_events (wdb w')). \<exists>kvs. ob_payload e = JObj kvs"
    using assms(1,3) 2(1,5) by (auto simp: events_ok_def list_all_iff)
  ultimately show ?thesis using assms(1,4) 2(6) unfolding events_ok_def by (intro conjI exI [of _ "ns @ ns'"]) simp_all
qed

lemma answer_events_background:
  "emits background d w d' w' \<Longrightarrow> answer_events d' = answer_events d"
  by (auto simp: emits_def answer_events_def background_def list_all_iff filter_empty_conv)

lemma events_ok_background:
  assumes "events_ok w" "emits_background w w'" "answer_submissions (wdb w') = answer_submissions (wdb w)"
  shows "events_ok w'"
  by (rule events_ok_grow [OF assms(1,2)])
    (use assms(1,3) answer_events_background [OF assms(2)] in \<open>auto simp: background_def events_ok_def\<close>)

lemma submit_answer_events:
  assumes "events_ok w" "submit_answer now now2 mid pid payload rid w = (res, w')"
  shows "events_ok w'"
  using assms(2)
proof (cases rule: submit_answer_effect)
  case same
  then show ?thesis using events_ok_background [OF assms(1)] by (simp add: emits_none)
next
  case (recorded s a)
  have "m_id (aa_match a) = as_match_id s" using submit_check_ids [OF recorded(1)] recorded(3) by simp
  then have ev: "event_for s (outbox_row (id_supply w (Suc (id_next w))) EVT_ANSWER_SUBMITTED AGG_ANSWER (as_id s)
         (answer_submitted_event (aa_match a) (aa_mq a) s now) now)" by (auto simp: event_for_def)
  show ?thesis
  proof (rule events_ok_grow [OF assms(1), where P = "\<lambda>e. \<exists>kvs. ob_payload e = JObj kvs"])
    show "emits (\<lambda>e. \<exists>kvs. ob_payload e = JObj kvs) (wdb w) w (wdb w') w'"
      by (rule emits_one [where n = "Suc (id_next w)"]) (use recorded(7,8) in \<open>simp_all add: recorded(5) answer_submitted_event_def\<close>)
    show "list_all2 event_for (answer_submissions (wdb w')) (answer_events (wdb w'))"
      using assms(1) ev by (simp add: recorded(5) events_ok_def answer_events_def list_all2_appendI)
  qed
qed

lemma process_batch_events:
  assumes "events_ok w" "outbox s = outbox_events (wdb w)"
  shows "events_ok (w\<lparr>wdb := (wdb w)\<lparr>outbox_events := outbox (snd (process_batch net locked now s))\<rparr>\<rparr>)"
proof -
  obtain f where o: "outbox (snd (process_batch net locked now s)) = map f (outbox s)"
    and f: "\<And>e. ob_id (f e) = ob_id e \<and> ob_event_type (f e) = ob_event_type e \<and> ob_aggregate_id (f e) = ob_aggregate_id e \<and> ob_payload (f e) = ob_payload e"
    by (rule that [OF process_batch_table [unfolded Let_def]]) simp
  have "event_for x (f e) = event_for x e" for x e using f by (simp add: event_for_def)
  then have "list_all2 event_for xs (map f es) = list_all2 event_for xs es" for xs es by (simp add: list_all2_map2)
  then show ?thesis using assms(1) f by (simp add: events_ok_def answer_events_def o assms(2) filter_map comp_def)
qed

section \<open>The invariant\<close>

definition backend_ok :: "world \<Rightarrow> bool" where
  "backend_ok w \<longleftrightarrow> lifecycle_ok (wdb w) \<and> mq_unique (wdb w) \<and> timers_ok w \<and> running_task w = None \<and> seats_ok w \<and> scores_ok w \<and> events_ok w"

lemma side_step_lifecycle:
  assumes "side_step w w'" "lifecycle_ok (wdb w)"
  shows "lifecycle_ok (wdb w')"
proof -
  from assms(1) obtain rs where r: "rooms (wdb w') = rooms (wdb w) @ rs" "unique_by rm_id rs" "rm_id ` set rs \<inter> rm_id ` set (rooms (wdb w)) = {}"
    "\<forall>r \<in> set rs. rm_status r = lobby" and m: "matches (wdb w') = matches (wdb w)" by (auto simp: side_step_def)
  have "m_room_id x \<noteq> rm_id r" if "r \<in> set rs" "x \<in> set (matches (wdb w))" for r x
  proof -
    have "m_room_id x \<in> rm_id ` set (rooms (wdb w))" using assms(2) that(2) unfolding lifecycle_ok_def by (metis imageI)
    with r(3) that(1) show ?thesis by blast
  qed
  with assms(2) r show ?thesis by (auto simp: lifecycle_ok_def m unique_by_def)
qed

lemma backend_ok_side:
  assumes "backend_ok w" "side_step w w'" "seats_ok w'" "emits_background w w'"
  shows "backend_ok w'"
proof -
  have "timers_ok w'" using assms(1,2) timers_ok_cong [of w' w] by (simp add: backend_ok_def side_step_def)
  moreover have "events_ok w'" using assms by (auto simp: backend_ok_def side_step_def intro: events_ok_background)
  moreover have "lifecycle_ok (wdb w')" "scores_ok w'"
    using assms(1) side_step_lifecycle [OF assms(2)] side_step_scores [OF assms(2)] by (simp_all add: backend_ok_def)
  ultimately show ?thesis using assms(1-3) by (simp add: backend_ok_def side_step_def mq_unique_def)
qed

lemma backend_ok_same_rooms:
  assumes "backend_ok w" "same_rooms w w'" "emits_background w w'"
  shows "backend_ok w'"
proof (rule backend_ok_side [OF assms(1) _ _ assms(3)])
  show "side_step w w'" using assms(2) by (simp add: same_rooms_def)
  show "seats_ok w'" using assms(1) same_rooms_seats [OF assms(2)] by (simp add: backend_ok_def)
qed

lemma mq_unique_set_mq:
  assumes "match_questions d' = upd_where P f (match_questions d)"
    and "\<And>q. mq_id (f q) = mq_id q \<and> mq_match_id (f q) = mq_match_id q \<and> mq_position (f q) = mq_position q"
  shows "mq_unique d' = mq_unique d"
  using assms by (simp add: mq_unique_def unique_by_upd_where)

lemma resume_deadline_mq: "mq_unique (resume_deadline d i p n t) = mq_unique d"
  by (simp add: resume_deadline_def mq_unique_def unique_by_upd_where split: option.splits)

lemma close_commit_mq: "mq_unique (wdb (close_commit now i p mq room w)) = mq_unique (wdb w)"
  using close_commit_db [of now i p mq room w] by (auto intro!: mq_unique_set_mq)

lemma end_match_mq: "match_questions (wdb (snd (end_match now now2 i h w))) = match_questions (wdb w)"
  using end_match_db [of now now2 i h w] by (auto simp: end_commit_def ended_db_def)

lemma mq_unique_steps:
  assumes "mq_unique (wdb w)"
  shows "mq_unique (wdb (snd (start_match now now2 h c w)))" "mq_unique (wdb (snd (pause_match now h c w)))"
    "mq_unique (wdb (snd (resume_match now now2 h c w)))" "mq_unique (wdb (snd (end_match now now2 i host w)))"
    "mq_unique (wdb (arm_question now now2 now3 i p w))" "mq_unique (wdb (snd (close_question k now now2 i p w)))"
proof -
  show "mq_unique (wdb (snd (start_match now now2 h c w)))"
  proof (cases "start_match now now2 h c w")
    case (Pair res w')
    show ?thesis
    proof (cases res)
      case (Inl e)
      then obtain n where "w' = w\<lparr>id_next := n\<rparr>" using start_match_Inl Pair by blast
      then show ?thesis using assms by (simp add: Pair)
    next
      case (Inr m)
      show ?thesis by (rule start_match_Inr [OF Pair [unfolded Inr]]) (simp add: Pair mq_unique_def)
    qed
  qed
  show "mq_unique (wdb (snd (pause_match now h c w)))" using assms by (auto simp: pause_match_db mq_unique_def split: sum.splits)
  show "mq_unique (wdb (snd (resume_match now now2 h c w)))"
    using assms resume_deadline_mq by (auto simp: resume_match_db mq_unique_def split: sum.splits)
  show e: "mq_unique (wdb (snd (end_match now now2 i host w)))" using assms by (simp add: mq_unique_def end_match_mq)
  show "mq_unique (wdb (arm_question now now2 now3 i p w))"
    using assms by (auto simp: arm_question_db mq_unique_def unique_by_upd_where split: option.splits)
  show "mq_unique (wdb (snd (close_question k now now2 i p w)))"
    using assms close_commit_mq by (auto simp: close_question_snd Let_def mq_unique_def end_match_mq split: option.splits)
qed

lemma run_task_mq: "mq_unique (wdb w) \<Longrightarrow> mq_unique (wdb (run_task k now now2 now3 tid w))"
  by (auto simp: run_task_def task_body_def Let_def mq_unique_steps split: option.splits task.splits)

lemma idle_steps:
  "running_task (snd (start_match now now2 h c w)) = running_task w" "running_task (snd (pause_match now h c w)) = running_task w"
  "running_task (snd (resume_match now now2 h c w)) = running_task w"
  "running_task (snd (recover_running_matches now w)) = running_task w"
proof -
  have "running_task (start_post t m r n w) = running_task w" for t m r n w by (simp add: start_post_def Let_def)
  then show "running_task (snd (start_match now now2 h c w)) = running_task w"
    by (auto simp: start_match_def Let_def register_eq split_beta split: sum.splits option.splits)
  show "running_task (snd (pause_match now h c w)) = running_task w" by (auto simp: pause_match_def Let_def split: sum.splits)
  have a: "running_task (arm_next i w) = running_task w" for i w by (simp add: arm_next_def split: option.splits)
  show "running_task (snd (resume_match now now2 h c w)) = running_task w"
    by (auto simp: resume_match_def Let_def split_beta a split: sum.splits option.splits)
  have "running_task (snd (recover_match now m x)) = running_task (snd x)" for m x
    by (cases x) (simp add: recover_match_def Let_def split_beta split: option.splits)
  then have "running_task (snd (fold (recover_match now) ms x)) = running_task (snd x)" for ms x
    by (induction ms arbitrary: x) simp_all
  then show "running_task (snd (recover_running_matches now w)) = running_task w" by (simp add: recover_running_matches_def)
qed

lemma subs_kept:
  "answer_submissions (wdb (snd (start_match now now2 h c w))) = answer_submissions (wdb w)"
  "answer_submissions (wdb (snd (pause_match now h c w))) = answer_submissions (wdb w)"
  "answer_submissions (wdb (snd (resume_match now now2 h c w))) = answer_submissions (wdb w)"
  "answer_submissions (wdb (snd (end_match now now2 i host w))) = answer_submissions (wdb w)"
  "answer_submissions (wdb (run_task k now now2 now3 tid w)) = answer_submissions (wdb w)"
proof -
  show "answer_submissions (wdb (snd (start_match now now2 h c w))) = answer_submissions (wdb w)"
    by (auto simp: start_match_def Let_def register_eq split_beta insert_match_Some insert_match_questions_Some split: sum.splits option.splits)
  show "answer_submissions (wdb (snd (pause_match now h c w))) = answer_submissions (wdb w)" by (auto simp: pause_match_db split: sum.splits)
  show "answer_submissions (wdb (snd (resume_match now now2 h c w))) = answer_submissions (wdb w)" by (auto simp: resume_match_db split: sum.splits)
  show e: "answer_submissions (wdb (snd (end_match now now2 i host w))) = answer_submissions (wdb w)" for now now2 i host w
    using end_match_db [of now now2 i host w] by (auto simp: end_commit_def ended_db_def)
  have "answer_submissions (wdb (close_commit now i p mq room w)) = answer_submissions (wdb w)" for i p mq room w
    using close_commit_db [of now i p mq room w] by auto
  then have "answer_submissions (wdb (snd (close_question k now now2 i p w))) = answer_submissions (wdb w)" for i p w
    by (simp add: close_question_snd Let_def e split: option.splits)
  moreover have "answer_submissions (wdb (arm_question now now2 now3 i p w)) = answer_submissions (wdb w)" for i p w
    by (simp add: arm_question_db split: option.splits)
  ultimately show "answer_submissions (wdb (run_task k now now2 now3 tid w)) = answer_submissions (wdb w)"
    by (simp add: run_task_def task_body_def Let_def split: option.splits task.splits)
qed

lemma submit_answer_match:
  assumes "submit_answer now now2 mid pid payload rid w = (res, w')"
  shows "matches (wdb w') = matches (wdb w) \<and> rooms (wdb w') = rooms (wdb w) \<and> match_questions (wdb w') = match_questions (wdb w) \<and>
    tasks w' = tasks w \<and> next_task w' = next_task w \<and> active w' = active w \<and> running_task w' = running_task w"
  using assms
proof (cases rule: submit_answer_cases)
  case (rejected e)
  then show ?thesis using submit_tx_Inl [OF rejected(3)] by auto
next
  case (duplicate s w1)
  then show ?thesis using submit_tx_Duplicate [OF duplicate(3)] by auto
next
  case (inserted s a w1 rank w2)
  then have "w2 = snd (submit_post s a w1)" by simp
  then show ?thesis using inserted(6) submit_tx_Inserted [OF inserted(3)] by auto
qed auto

lemma backend_ok_match:
  assumes "backend_ok w" "lifecycle_ok (wdb w')" "mq_unique (wdb w')" "timers_ok w'" "running_task w' = None" "room_frame w w'"
    "frozen_kept (wdb w) (wdb w') \<and> (scores_ok w \<longrightarrow> scores_ok w')" "events_ok w'"
  shows "backend_ok w' \<and> frozen_kept (wdb w) (wdb w')"
  using assms room_frame_seats [OF assms(6)] by (simp add: backend_ok_def)

lemma restart_timers: "timers_ok (w\<lparr>tasks := [], registry := [], runtimes := rt\<rparr>)"
  by (simp add: timers_ok_def active_def)

lemma publish_step:
  assumes "backend_ok w" "outbox s = outbox_events (wdb w)"
  shows "backend_ok (w\<lparr>wdb := (wdb w)\<lparr>outbox_events := outbox (snd (process_batch net locked now s))\<rparr>\<rparr>)" (is "backend_ok ?w")
proof -
  have "timers_ok ?w" using assms(1) timers_ok_cong [of ?w w] by (simp add: backend_ok_def)
  moreover have "seats_ok ?w" using assms(1) seats_ok_cong [of ?w w] by (simp add: backend_ok_def)
  moreover have "scores_ok ?w" using assms(1) scores_ok_frame [of w ?w] by (simp add: backend_ok_def frozen_kept_same)
  moreover have "lifecycle_ok (wdb ?w)" using assms(1) lifecycle_ok_cong [of "wdb ?w" "wdb w"] by (simp add: backend_ok_def)
  moreover have "events_ok ?w" using assms process_batch_events by (simp add: backend_ok_def)
  ultimately show ?thesis using assms(1) by (simp add: backend_ok_def mq_unique_def)
qed

text \<open>Each step keeps the invariant and freezes completed matches.\<close>

abbreviation keeps_ok :: "world \<Rightarrow> world \<Rightarrow> bool" where
  "keeps_ok w w' \<equiv> backend_ok w' \<and> frozen_kept (wdb w) (wdb w')"

lemma backend_okD:
  assumes "backend_ok w"
  shows "lifecycle_ok (wdb w)" "mq_unique (wdb w)" "timers_ok w" "running_task w = None" "seats_ok w" "scores_ok w" "events_ok w"
  using assms by (simp_all add: backend_ok_def)

lemma side_ok:
  assumes "backend_ok w" "side_step w w'" "seats_ok w'" "emits_background w w'"
  shows "keeps_ok w w'"
  using backend_ok_side [OF assms] side_step_frozen [OF assms(2)] by blast

lemma same_rooms_ok:
  assumes "backend_ok w" "same_rooms w w'" "emits_background w w'"
  shows "keeps_ok w w'"
  using backend_ok_same_rooms [OF assms] side_step_frozen assms(2) by (simp add: same_rooms_def)

lemma match_steps_ok:
  assumes "backend_ok w"
  shows "keeps_ok w (snd (start_match now now2 h c w))" "keeps_ok w (snd (pause_match now h c w))"
    "keeps_ok w (snd (resume_match now now2 h c w))" "keeps_ok w (snd (end_match now now2 i host w))"
    "keeps_ok w (run_task k now now2 now3 tid w)"
    "keeps_ok w (snd (recover_running_matches now (w\<lparr>tasks := [], registry := [], runtimes := []\<rparr>)))"
proof -
  note l = backend_okD(1) [OF assms] and mq = backend_okD(2) [OF assms] and t = backend_okD(3) [OF assms]
    and idle = backend_okD(4) [OF assms] and ev = backend_okD(7) [OF assms]
  show "keeps_ok w (snd (start_match now now2 h c w))"
    by (rule backend_ok_match [OF assms start_match_lifecycle [OF l] mq_unique_steps(1) [OF mq] start_match_timers [OF t] _
          start_match_rooms start_match_scores [OF l] events_ok_background [OF ev start_match_emits subs_kept(1)]])
      (simp add: idle_steps idle)
  show "keeps_ok w (snd (pause_match now h c w))"
    by (rule backend_ok_match [OF assms pause_match_lifecycle [OF l] mq_unique_steps(2) [OF mq] pause_match_timers [OF t] _
          pause_match_rooms pause_match_scores [OF l] events_ok_background [OF ev pause_match_emits subs_kept(2)]])
      (simp add: idle_steps idle)
  show "keeps_ok w (snd (resume_match now now2 h c w))"
    by (rule backend_ok_match [OF assms resume_match_lifecycle [OF l] mq_unique_steps(3) [OF mq] resume_match_timers [OF t] _
          resume_match_rooms resume_match_scores [OF l] events_ok_background [OF ev resume_match_emits subs_kept(3)]])
      (simp add: idle_steps idle)
  show "keeps_ok w (snd (end_match now now2 i host w))"
    by (rule backend_ok_match [OF assms end_match_lifecycle [OF l] mq_unique_steps(4) [OF mq] end_match_timers [OF t] _
          end_match_rooms end_match_scores [OF l] events_ok_background [OF ev end_match_emits subs_kept(4)]])
      (simp add: idle)
  show "keeps_ok w (run_task k now now2 now3 tid w)"
    by (rule backend_ok_match [OF assms run_task_lifecycle [OF l] run_task_mq [OF mq] run_task_timers [OF t idle] _
          run_task_rooms run_task_scores [OF l] events_ok_background [OF ev run_task_emits subs_kept(5)]])
      (simp add: idle_frames idle)
  show "keeps_ok w (snd (recover_running_matches now (w\<lparr>tasks := [], registry := [], runtimes := []\<rparr>)))"
    by (rule backend_ok_match [OF assms _ _ recover_timers [OF restart_timers] _ recover_rooms recover_scores
          events_ok_background [OF ev recover_emits]])
      (simp_all add: idle_steps idle l mq)
qed

lemma submit_answer_ok:
  assumes "backend_ok w"
  shows "keeps_ok w (snd (submit_answer now now2 mid pid payload rid w))"
proof -
  note l = backend_okD(1) [OF assms] and ev = backend_okD(7) [OF assms]
  obtain res w1 where s: "submit_answer now now2 mid pid payload rid w = (res, w1)" by fastforce
  note m = submit_answer_match [OF s]
  have "timers_ok w1" "running_task w1 = None" using m timers_ok_cong [of w1 w] backend_okD(3,4) [OF assms] by simp_all
  moreover have "lifecycle_ok (wdb w1)" using m l lifecycle_ok_cong [of "wdb w1" "wdb w"] by simp
  moreover have "mq_unique (wdb w1)" using m backend_okD(2) [OF assms] by (simp add: mq_unique_def)
  ultimately show ?thesis
    using backend_ok_match [OF assms _ _ _ _ submit_answer_rooms [OF s] submit_answer_scores [OF l s] submit_answer_events [OF ev s]]
    by (simp add: s)
qed

lemma seed_main_ok: "backend_ok w \<Longrightarrow> keeps_ok w (snd (seed_main argon2 now w))"
proof (rule side_ok)
  obtain d n d1 where "snd (seed_main argon2 now w) = w\<lparr>wdb := d, id_next := n\<rparr>" "id_next w \<le> n" "appended (wdb w) d1"
    "d = d1 \<or> (\<exists>room. rm_status room = lobby \<and> rm_id room \<notin> rm_id ` set (rooms (wdb w)) \<and> rm_code room \<notin> rm_code ` set (rooms (wdb w)) \<and>
       d = d1\<lparr>rooms := rooms d1 @ [room]\<rparr>)" by (rule seed_main_effect)
  then show "emits_background w (snd (seed_main argon2 now w))" by (intro emits_none) (auto simp: appended_def)
qed (use seed_main_seats backend_okD(5) in blast)+

lemma room_steps_ok:
  assumes "backend_ok w"
  shows "keeps_ok w (snd (create_room tok now draws host payload w))"
    "keeps_ok w (snd (join_room tok pol now ip code nick uid w))"
    "keeps_ok w (snd (build_snapshot now code w))" "keeps_ok w (snd (decide now mdr i dec reason w))"
proof -
  note seats = backend_okD(5) [OF assms]
  have "seats_ok (snd (create_room tok now draws host payload w)) \<and> side_step w (snd (create_room tok now draws host payload w))"
    "emits_background w (snd (create_room tok now draws host payload w))"
    using create_room_seats [OF seats] create_room_emits by (metis surjective_pairing)+
  then show "keeps_ok w (snd (create_room tok now draws host payload w))" using side_ok [OF assms] by blast
  have "seats_ok (snd (join_room tok pol now ip code nick uid w)) \<and> side_step w (snd (join_room tok pol now ip code nick uid w))"
    "emits_background w (snd (join_room tok pol now ip code nick uid w))"
    using join_room_seats [OF seats] join_room_emits [OF seats] by (metis surjective_pairing)+
  then show "keeps_ok w (snd (join_room tok pol now ip code nick uid w))" using side_ok [OF assms] by blast
  show "keeps_ok w (snd (build_snapshot now code w))"
    using side_ok [OF assms _ _ build_snapshot_emits] build_snapshot_seats [OF seats] by blast
  have "side_step w (snd (decide now mdr i dec reason w))" "seats_ok (snd (decide now mdr i dec reason w))"
    "emits_background w (snd (decide now mdr i dec reason w))"
    using decide_side decide_seats [OF seats] decide_emits by (metis surjective_pairing)+
  then show "keeps_ok w (snd (decide now mdr i dec reason w))" using side_ok [OF assms] by blast
qed

lemmas authoring_ok = same_rooms_ok [OF _ create_report_side create_report_emits]
  same_rooms_ok [OF _ create_quiz_set_side create_quiz_set_emits] same_rooms_ok [OF _ update_quiz_set_side update_quiz_set_emits]
  same_rooms_ok [OF _ add_question_side add_question_emits] same_rooms_ok [OF _ update_question_side update_question_emits]
  same_rooms_ok [OF _ delete_question_side delete_question_emits] same_rooms_ok [OF _ publish_quiz_set_side publish_quiz_set_emits]

lemma beside_same_rooms: "beside w w' \<Longrightarrow> same_rooms w w'"
  by (auto simp: beside_def same_rooms_def side_step_def unique_by_def active_def)

lemma beside_emits: "beside w w' \<Longrightarrow> emits_background w w'"
  by (rule emits_none) (auto simp: beside_def)

lemma backend_step_ok: "backend_step w w' \<Longrightarrow> backend_ok w \<Longrightarrow> keeps_ok w w'"
proof (induction rule: backend_step.induct)
  case (batch_published s w net locked now)
  then show ?case using publish_step by (simp add: frozen_kept_same)
next
  case (beside_matches w w')
  then show ?case by (intro same_rooms_ok beside_same_rooms beside_emits)
qed (rule match_steps_ok submit_answer_ok room_steps_ok authoring_ok seed_main_ok, assumption)+

lemma backend_boot: "inj ids \<Longrightarrow> backend_ok (empty_world ids)"
  by (simp add: backend_ok_def empty_world_def empty_db_def empty_rstate_def lifecycle_ok_def mq_unique_def timers_ok_def active_def
      seats_ok_def scores_ok_def events_ok_def unique_by_def subs_unique_def live_total_def match_subs_def count_of_def answer_events_def)

lemma backend_invariant: "backend_reachable w \<Longrightarrow> backend_ok w"
  by (induction rule: backend_reachable.induct) (simp_all add: backend_boot backend_step_ok)

end
