(* ===== verification/Scenario.thy ===== *)
theory Scenario
  imports System
begin

text \<open>
  A concrete run of the backend from the empty database: a host writes and publishes a quiz of one
  question, opens a room for two, a player joins, the match starts, the question is armed, the player
  answers after five of twenty seconds, the host ends the match.  The states are computed by
  simplification; they instantiate the theorems about reachable states.
\<close>

section \<open>The calls\<close>

definition demo_policy :: policy where
  "demo_policy = \<lparr>policy_words = [], policy_patterns = []\<rparr>"

definition demo_host :: User where
  "demo_host = \<lparr>u_id = 1, u_email = ''h'', u_password_hash = ''x'', u_display_name = ''H'', u_role = role_host, u_is_active = True\<rparr>"

definition run1 :: world where
  "run1 = snd (create_quiz_set 0 1 \<lparr>qc_title = ''T'', qc_description = None, qc_visibility = vis_public, qc_tags = []\<rparr>
     (empty_world (\<lambda>n. 1 + int n)))"
definition run2 :: world where
  "run2 = snd (add_question 1 1 \<lparr>cq_position = None, cq_body = ''b'', cq_type = true_false, cq_time_limit_seconds = 20, cq_points = 500,
     cq_explanation = None, cq_options = [\<lparr>oi_position = 1, oi_body = ''T'', oi_is_correct = True\<rparr>,
       \<lparr>oi_position = 2, oi_body = ''F'', oi_is_correct = False\<rparr>]\<rparr> run1)"
definition run3 :: world where "run3 = snd (publish_quiz_set demo_policy 1 1 1 run2)"
definition run4 :: world where
  "run4 = snd (create_room (\<lambda>_ _ _. ''t'') 2 (\<lambda>_ _. 0) demo_host \<lparr>rc_quiz_set_id = 1, rc_max_players = 2, rc_settings = JObj []\<rparr> run3)"
definition run5 :: world where "run5 = snd (join_room (\<lambda>_ _ _. ''t'') demo_policy 3 ''ip'' ''000000'' ''ann'' None run4)"
definition run6 :: world where "run6 = snd (start_match 4 4 1 ''000000'' run5)"
definition run7 :: world where "run7 = run_task 3 5 5 5 0 run6"

definition run8 :: world where
  "run8 = snd (submit_answer 5000005 5000005 10 8 \<lparr>req_match_question_id = 11, req_selected_option_ids = [3]\<rparr> ''r1'' run7)"
definition run9 :: world where "run9 = snd (end_match 6000000 6000000 10 (Some 1) run8)"


section \<open>The states\<close>

lemma run1_eq: "run1 = (empty_world (\<lambda>n. 1 + int n))\<lparr>id_next := 1, wdb := empty_db\<lparr>quiz_sets := [\<lparr>qs_id = 1, qs_owner_id = 1,
    qs_title = ''T'', qs_description = None, qs_visibility = vis_public, qs_is_published = False, qs_version = 1, qs_created_at = 0\<rparr>]\<rparr>\<rparr>"
  by (simp add: run1_def create_quiz_set_def exec)

definition run2_db :: db where
  "run2_db = empty_db\<lparr>quiz_sets := [\<lparr>qs_id = 1, qs_owner_id = 1,
    qs_title = ''T'', qs_description = None, qs_visibility = vis_public, qs_is_published = False, qs_version = 1, qs_created_at = 0\<rparr>],
    questions := [\<lparr>q_id = 2, q_quiz_set_id = 1, q_position = 1, q_body = ''b'', q_type = true_false, q_time_limit_seconds = 20, q_points = 500,
      q_explanation = None\<rparr>],
    answer_options := [\<lparr>ao_id = 3, ao_question_id = 2, ao_position = 1, ao_body = ''T'', ao_is_correct = True\<rparr>,
      \<lparr>ao_id = 4, ao_question_id = 2, ao_position = 2, ao_body = ''F'', ao_is_correct = False\<rparr>]\<rparr>"

lemma run2_eq: "run2 = (empty_world (\<lambda>n. 1 + int n))\<lparr>id_next := 4, wdb := run2_db\<rparr>"
  by (simp add: run2_def run1_eq add_question_def load_owned_quiz_def question_slot_def max_question_position_def insert_question_def
      insert_options_def new_options_def option_key_def question_key_def run2_db_def exec)

lemma scan_none: "scan_text demo_policy t ctx = []"
  by (simp add: scan_text_def demo_policy_def word_flags_def pattern_flags_def split: option.splits)

lemma no_flags: "auto_flag_on_publish demo_policy now quiz qs d w = ([], d, w)" "auto_flag_on_join demo_policy now room nick uid d w = ([], d, w)"
proof -
  have "concat (map (\<lambda>(ctx, t). map (Pair ctx) (scan_text demo_policy t ctx)) xs) = []" for xs by (auto simp: scan_none)
  then show "auto_flag_on_publish demo_policy now quiz qs d w = ([], d, w)" by (simp only: auto_flag_on_publish_def persist_flags.simps)
qed (simp add: auto_flag_on_join_def scan_none)

definition run3_db :: db where
  "run3_db = run2_db\<lparr>quiz_sets := [\<lparr>qs_id = 1, qs_owner_id = 1, qs_title = ''T'', qs_description = None, qs_visibility = vis_public,
      qs_is_published = True, qs_version = 2, qs_created_at = 0\<rparr>],
    outbox_events := [outbox_row 5 ''QuizPublished'' ''quiz_set'' 1 (JObj [(''quiz_set_id'', JStr (int_str 1)), (''version'', JInt 2),
      (''owner_id'', JStr (int_str 1)), (''title'', JStr ''T'')]) 1]\<rparr>"

lemma run3_eq: "run3 = (empty_world (\<lambda>n. 1 + int n))\<lparr>id_next := 5, wdb := run3_db\<rparr>"
  by (simp add: run3_def run2_eq publish_quiz_set_def load_owned_quiz_def with_options_def no_flags validate_publish_def question_issues_def run2_db_def run3_db_def exec)

definition run4_db :: db where
  "run4_db = run3_db\<lparr>rooms := [\<lparr>rm_id = 6, rm_code = ''000000'', rm_host_id = 1, rm_quiz_set_id = 1, rm_status = lobby, rm_max_players = 2,
      rm_settings = JObj [], rm_started_at = None, rm_ended_at = None\<rparr>],
    outbox_events := outbox_events run3_db @ [outbox_row 7 ''RoomCreated'' ''room'' 6 (JObj [(''room_id'', JStr (int_str 6)), (''code'', JStr ''000000''),
      (''host_id'', JStr (int_str 1)), (''quiz_set_id'', JStr (int_str 1)), (''max_players'', JInt 2), (''settings'', JObj [])]) 2]\<rparr>"

lemma demo_code: "generate_code (\<lambda>_. 0) = ''000000''"
  by (simp add: generate_code_def CODE_LEN_def CROCKFORD_ALPHABET_def upt_rec)

lemma allocate_first:
  assumes "rooms d = []"
  shows "allocate_room CODE_RETRIES (\<lambda>_ _. 0) h q payload d w =
    (let room = \<lparr>rm_id = id_supply w (id_next w), rm_code = ''000000'', rm_host_id = h, rm_quiz_set_id = q, rm_status = lobby,
            rm_max_players = rc_max_players payload, rm_settings = rc_settings payload, rm_started_at = None, rm_ended_at = None\<rparr>
     in (Some (room, d\<lparr>rooms := [room]\<rparr>), snd (fresh_id w)))"
proof -
  have "CODE_RETRIES = Suc 4" by (simp add: CODE_RETRIES_def)
  then show ?thesis using assms unfolding \<open>CODE_RETRIES = Suc 4\<close> allocate_room.simps by (simp add: Let_def split_beta insert_room_def demo_code)
qed

lemma run4_facts: "wdb run4 = run4_db" "id_supply run4 = (\<lambda>n. 1 + int n)" "id_next run4 = 7" "tasks run4 = []" "registry run4 = []" "next_task run4 = 0"
   "idem (wredis run4) = Map.empty" "room_counts (wredis run4) = [''000000'' \<mapsto> 0]" "rate_buckets (wredis run4) = Map.empty"
   "running_task run4 = None"
  by (simp_all add: run4_def run3_eq create_room_def create_check_def allocate_first demo_host_def room_created_event_def run3_db_def run2_db_def run4_db_def participants_count_init_def
   snapshot_write_def exec)

definition run5_db :: db where
  "run5_db = run4_db\<lparr>room_participants := [\<lparr>rp_id = 8, rp_room_id = 6, rp_user_id = None, rp_nickname = ''ann'',
      rp_guest_token_hash = None, rp_joined_at = 3, rp_left_at = None, rp_is_kicked = False\<rparr>],
    outbox_events := outbox_events run4_db @ [outbox_row 9 ''PlayerJoined'' ''room'' 6 (JObj [(''room_id'', JStr (int_str 6)),
      (''participant_id'', JStr (int_str 8)), (''nickname'', JStr ''ann''), (''user_id'', JNull)]) 3]\<rparr>"

lemma run5_facts: "wdb run5 = run5_db" "id_supply run5 = (\<lambda>n. 1 + int n)" "id_next run5 = 9" "tasks run5 = []" "registry run5 = []" "next_task run5 = 0"
   "idem (wredis run5) = Map.empty" "running_task run5 = None"
  by (simp_all add: run5_def join_room_def acquire_def rate_limit_lua_def refill_def live_bucket_def JOIN_CAPACITY_def join_gate_def
        participants_count_admit_def count_of_def join_admitted_def insert_participant_def no_flags register_eq split_beta run4_facts
        player_joined_event_def snapshot_write_def opt_id_def
        run5_db_def run4_db_def run3_db_def run2_db_def exec)

definition run6_db :: db where
  "run6_db = run5_db\<lparr>rooms := [\<lparr>rm_id = 6, rm_code = ''000000'', rm_host_id = 1, rm_quiz_set_id = 1, rm_status = running, rm_max_players = 2,
      rm_settings = JObj [], rm_started_at = Some 4, rm_ended_at = None\<rparr>],
    matches := [\<lparr>m_id = 10, m_room_id = 6, m_quiz_set_version = 2, m_status = running, m_started_at = 4, m_ended_at = None\<rparr>],
    match_questions := [\<lparr>mq_id = 11, mq_match_id = 10, mq_question_id = 2, mq_position = 1, mq_started_at = None, mq_deadline_at = None, mq_closed_at = None\<rparr>],
    outbox_events := outbox_events run5_db @ [outbox_row 12 EVT_MATCH_STARTED AGG_MATCH 10 (JObj [(''match_id'', JStr (int_str 10)),
      (''room_id'', JStr (int_str 6)), (''code'', JStr ''000000''), (''quiz_set_id'', JStr (int_str 1)), (''quiz_set_version'', JInt 2),
      (''question_count'', JInt 1), (''started_at'', JTime 4)]) 4]\<rparr>"

lemma run6_facts: "wdb run6 = run6_db" "id_supply run6 = (\<lambda>n. 1 + int n)" "id_next run6 = 13" "tasks run6 = [(0, ArmQuestion 10 1)]" "registry run6 = []" "next_task run6 = 1"
   "idem (wredis run6) = Map.empty" "running_task run6 = None"
  by (simp_all add: run6_def run5_facts match_started_payload_def snapshot_write_def
        run6_db_def run5_db_def run4_db_def run3_db_def run2_db_def exec split: option.splits)

definition run7_db :: db where
  "run7_db = run6_db\<lparr>match_questions := [\<lparr>mq_id = 11, mq_match_id = 10, mq_question_id = 2, mq_position = 1, mq_started_at = Some 5,
      mq_deadline_at = Some 20000005, mq_closed_at = None\<rparr>],
    outbox_events := outbox_events run6_db @ [outbox_row 14 EVT_QUESTION_STARTED AGG_MATCH 10 (JObj [(''match_id'', JStr (int_str 10)),
      (''match_question_id'', JStr (int_str 11)), (''question_id'', JStr (int_str 2)), (''position'', JInt 1), (''time_limit_seconds'', JInt 20),
      (''started_at'', JTime 5), (''deadline_at'', JTime 20000005)]) 5]\<rparr>"

lemma run7_facts: "wdb run7 = run7_db" "id_supply run7 = (\<lambda>n. 1 + int n)" "id_next run7 = 15" "tasks run7 = [(1, CloseQuestionAfter 10 1 20000005)]"
   "registry run7 = [(10, 1)]" "next_task run7 = 2" "idem (wredis run7) = Map.empty" "running_task run7 = None" "must_cancel run7 = False"
  by (simp_all add: run7_def run6_facts question_started_event_def
        run7_db_def run6_db_def run5_db_def run4_db_def run3_db_def run2_db_def exec)

lemma demo_score: "score 500 5000 20000 SCORING_MODE_SPEED_BONUS True = 438" by code_simp
lemma demo_time: "response_time_ms_of 5 5000005 = 5000" "py_int (total_ms 20000000) = 20000" by code_simp+

definition demo_submission :: AnswerSubmission where
  "demo_submission = \<lparr>as_id = 16, as_match_id = 10, as_match_question_id = 11, as_participant_id = 8, as_selected_option_ids = [3],
     as_is_correct = True, as_score_awarded = 438, as_response_time_ms = 5000, as_request_id = ''r1''\<rparr>"

definition run8_db :: db where
  "run8_db = run7_db\<lparr>answer_submissions := [demo_submission],
    outbox_events := outbox_events run7_db @ [outbox_row 17 EVT_ANSWER_SUBMITTED AGG_ANSWER 16 (answer_submitted_event (hd (matches run7_db))
      (hd (match_questions run7_db)) demo_submission 5000005) 5000005]\<rparr>"

lemma run8_facts: "wdb run8 = run8_db" "running_task run8 = None" "must_cancel run8 = False"
proof -
  obtain res w' where s: "submit_answer 5000005 5000005 10 8 \<lparr>req_match_question_id = 11, req_selected_option_ids = [3]\<rparr> ''r1'' run7 = (res, w')"
    by fastforce
  let ?p = "\<lparr>req_match_question_id = 11, req_selected_option_ids = [3]\<rparr>"
  let ?a = "\<lparr>aa_mq = hd (match_questions run7_db), aa_match = hd (matches run7_db), aa_participant = hd (room_participants run7_db),
    aa_started_at = 5, aa_deadline_at = 20000005\<rparr>"
  have c: "submit_check (wdb run7) 5000005 10 8 ?p = Inr ?a"
    by (simp add: run7_facts run7_db_def run6_db_def run5_db_def run4_db_def run3_db_def run2_db_def exec)
  have ans: "answer_correct (wdb run7) 2 [3]"
    by (simp add: run7_facts run7_db_def run6_db_def run5_db_def run4_db_def run3_db_def run2_db_def exec del: set_filter)
  have q: "get_question (wdb run7) 2 = Some (hd (questions run7_db))" "get_room (wdb run7) 6 = Some (hd (rooms run7_db))"
    "q_points (hd (questions run7_db)) = 500" "rm_settings (hd (rooms run7_db)) = JObj []" "mq_question_id (hd (match_questions run7_db)) = 2"
    "mq_id (hd (match_questions run7_db)) = 11" "m_id (hd (matches run7_db)) = 10" "m_room_id (hd (matches run7_db)) = 6"
    "rp_id (hd (room_participants run7_db)) = 8"
    by (simp_all add: run7_facts run7_db_def run6_db_def run5_db_def run4_db_def run3_db_def run2_db_def exec)
  have m: "make_submission (wdb run7) 5000005 ?a ?p ''r1'' 16 = demo_submission"
    using ans demo_time demo_score by (simp add: make_submission_def Let_def q scoring_mode_def demo_submission_def)
  have "answer_submissions (wdb run7) = []" by (simp add: run7_facts run7_db_def run6_db_def run5_db_def run4_db_def run3_db_def run2_db_def exec)
  then have "wdb w' = run8_db" "running_task w' = None" "must_cancel w' = False"
    using s c m submit_post_frame
    by (auto simp: submit_answer_def submit_tx_def run7_facts idem_get_def Let_def split_beta conflicts_def register_eq run8_db_def
        register_event_def demo_submission_def split: prod.splits)
  then show "wdb run8 = run8_db" "running_task run8 = None" "must_cancel run8 = False" by (simp_all add: run8_def s)
qed

lemma run9_facts:
  "map (\<lambda>f. (fs_match_id f, fs_participant_id f, fs_total_score f)) (final_scores (wdb run9)) = [(10, 8, 438)]"
  "map (\<lambda>m. (m_id m, m_status m)) (matches (wdb run9)) = [(10, completed)]"
  "answer_submissions (wdb run9) = [demo_submission]"
proof -
  have "\<not> must_cancel (snd (cancel 10 run8))" by (simp add: cancel_must_cancel run8_facts)
  then show "map (\<lambda>f. (fs_match_id f, fs_participant_id f, fs_total_score f)) (final_scores (wdb run9)) = [(10, 8, 438)]"
    "map (\<lambda>m. (m_id m, m_status m)) (matches (wdb run9)) = [(10, completed)]" "answer_submissions (wdb run9) = [demo_submission]"
    by (simp_all add: run9_def end_match_def run8_facts Let_def register_eq end_check_def match_ranking_def match_subs_def ranking_def
        per_participant_def count_submission_def setdefault_def add_submission_def score_row_def final_rows_def enumerate_eq_zip unique_by_def
        set_match_def set_room_def upd_where_def get_defs demo_submission_def zero_agg_def split_beta
        run8_db_def run7_db_def run6_db_def run5_db_def run4_db_def run3_db_def run2_db_def empty_db_def)
qed


lemma run_reachable: "backend_reachable run8" "backend_reachable run9" "backend_step run8 run9"
proof -
  have "inj (\<lambda>n. 1 + int n)" by (simp add: inj_def)
  from backend_reachable.boot [OF this] have "backend_reachable (empty_world (\<lambda>n. 1 + int n))" .
  note r = backend_reachable.step [OF this]
  from r [OF quiz_created] have "backend_reachable run1" unfolding run1_def .
  from backend_reachable.step [OF this question_added] have "backend_reachable run2" unfolding run2_def .
  from backend_reachable.step [OF this quiz_published] have "backend_reachable run3" unfolding run3_def .
  from backend_reachable.step [OF this room_created] have "backend_reachable run4" unfolding run4_def .
  from backend_reachable.step [OF this joined] have "backend_reachable run5" unfolding run5_def .
  from backend_reachable.step [OF this started] have "backend_reachable run6" unfolding run6_def .
  from backend_reachable.step [OF this task_run [of 0 "ArmQuestion 10 1"]] have "backend_reachable run7"
    unfolding run7_def by (simp add: run6_facts)
  from backend_reachable.step [OF this submitted] show r8: "backend_reachable run8" unfolding run8_def .
  show s: "backend_step run8 run9" unfolding run9_def by (rule ended)
  from backend_reachable.step [OF r8 s] show "backend_reachable run9" .
qed

end
