(* ===== verification/Broadcasts.thy ===== *)
theory Broadcasts
  imports System
begin

text \<open>
  What the services hand to the WebSocket bus: every call, timer and restart only appends to it, and every
  message it appends is one of the server messages of src/backend/app/ws/messages.py or the kick notice of the
  moderation service.
\<close>

section \<open>Messages within the contract\<close>

lemma bus_frames [simp]:
  "bus (set_active m t w) = bus w" "bus (arm_next i w) = bus w"
  by (simp_all add: arm_next_def split: option.splits)

text \<open>The payloads the services build.\<close>

lemma valid_payloads [simp]:
  "valid MatchStartedPayload (JObj [(''match_id'', JStr a), (''question_count'', JInt n), (''server_now'', JTime t)])"
  "valid QuestionStartedPayload (question_payload mq q opts pos t1 t2 t3)"
  "valid MatchFinishedPayload (match_finished_message i)"
  "valid QuestionClosedPayload (question_closed_message mq qo (JArr (map (\<lambda>ao. JStr (f ao)) xs)) cn an)"
  "valid LeaderboardUpdatedPayload (JObj [(''version'', JInt v), (''top'', JArr (map entry_json es))])"
  by (auto simp: payload_schemas strict_model_def question_payload_def match_finished_message_def question_closed_message_def
      list_all_iff entry_json_def split: option.splits)

section \<open>Each step\<close>

lemma start_match_speaks: "speaks w (snd (start_match now now2 h c w))"
proof (cases "\<exists>m w'. start_match now now2 h c w = (Inr m, w')")
  case True
  then show ?thesis
    by (intro speaks_one) (auto simp: start_match_def start_post_def Let_def register_eq split_beta broadcast_bus contract_message
        split: sum.splits option.splits if_splits)
next
  case False
  then obtain e w' where "start_match now now2 h c w = (Inl e, w')" by (metis obj_sumE surj_pair)
  then show ?thesis
    by (intro speaks_none) (auto simp: start_match_def Let_def register_eq split_beta split: sum.splits option.splits)
qed

lemma end_match_speaks: "speaks w (snd (end_match now now2 i h w))"
proof (cases "bus (snd (end_match now now2 i h w)) = bus w")
  case False
  then show ?thesis
    by (intro speaks_one) (auto simp: end_match_def Let_def register_eq broadcast_bus contract_message split: sum.splits prod.splits if_splits)
qed auto

lemma pause_match_speaks: "speaks w (snd (pause_match now h c w))"
  by (rule speaks_none) (auto simp: pause_match_def Let_def split: sum.splits)

lemma resume_match_speaks: "speaks w (snd (resume_match now now2 h c w))"
  by (rule speaks_none) (auto simp: resume_match_def Let_def split_beta split: sum.splits option.splits)

lemma arm_question_speaks: "speaks w (arm_question now now2 now3 i p w)"
proof (cases "arm_check (wdb w) i p")
  case None
  then show ?thesis by (intro speaks_none) (simp add: arm_question_def Let_def)
next
  case (Some x)
  then show ?thesis
    by (intro speaks_one) (auto simp: arm_question_def Let_def register_eq split_beta broadcast_bus contract_message split: prod.splits)
qed

lemma close_commit_speaks: "speaks w (close_commit now i p mq room w)"
  by (rule speaks_one) (simp add: close_commit_def Let_def register_eq broadcast_bus contract_message)

lemma close_question_speaks: "speaks w (snd (close_question k now now2 i p w))"
proof (cases "close_check (wdb w) i p")
  case None
  then show ?thesis by (intro speaks_none) (simp add: close_question_snd)
next
  case (Some x)
  obtain mq room where x: "x = (mq, room)" by (cases x)
  define w1 where "w1 = close_commit now i p mq room (runtime_state_for i w)"
  have 1: "speaks w w1" using close_commit_speaks [of "runtime_state_for i w"] speaks_cong [of "runtime_state_for i w" w w1 w1] by (simp add: w1_def)
  have "speaks w (set_active i (next_task w) (snd (create_task t w1)))" for t using 1 by (simp add: speaks_def)
  with speaks_trans [OF 1 end_match_speaks] show ?thesis
    by (simp add: close_question_snd Some x Let_def w1_def [symmetric])
qed

lemma run_task_speaks: "speaks w (run_task k now now2 now3 tid w)"
proof (cases "map_of (tasks w) tid")
  case (Some t)
  let ?w0 = "w\<lparr>running_task := Some tid, must_cancel := False\<rparr>"
  have "speaks ?w0 (task_body k now now2 now3 t ?w0)"
    by (cases t) (simp_all only: task_body_def task.case arm_question_speaks close_question_speaks)
  then show ?thesis by (simp add: run_task_def Some Let_def speaks_def)
qed (simp add: run_task_def speaks_none)

lemma recover_bus: "bus (snd (recover_running_matches now w)) = bus w"
proof -
  have "bus (snd (recover_match now m x)) = bus (snd x)" for m x
    by (cases x) (simp add: recover_match_def Let_def split_beta split: option.splits)
  then have "bus (snd (fold (recover_match now) ms x)) = bus (snd x)" for ms x
    by (induction ms arbitrary: x) simp_all
  then show ?thesis by (simp add: recover_running_matches_def)
qed

lemma submit_post_speaks: "speaks w (snd (submit_post s a w))"
proof (cases "get_room (wdb w) (m_room_id (aa_match a))")
  case None
  then show ?thesis by (intro speaks_none) (simp add: submit_post_def Let_def)
next
  case (Some room)
  then show ?thesis by (intro speaks_one) (simp add: submit_post_def Let_def broadcast_bus contract_message)
qed

lemma submit_answer_speaks: "speaks w (snd (submit_answer now now2 mid pid payload rid w))"
proof -
  obtain res w' where s: "submit_answer now now2 mid pid payload rid w = (res, w')" by fastforce
  from s show ?thesis
  proof (cases rule: submit_answer_cases)
    case (rejected e)
    then show ?thesis using submit_tx_Inl [OF rejected(3)] s by auto
  next
    case (duplicate x w1)
    then show ?thesis using submit_tx_Duplicate [OF duplicate(3)] s by auto
  next
    case (inserted x a w1 rank w2)
    then have "bus w1 = bus w" using submit_tx_Inserted [OF inserted(3)] by simp
    then have "speaks w w2" using submit_post_speaks [of w1 x a] speaks_cong [of w1 w w2 w2] inserted(4) by simp
    then show ?thesis using inserted(6) s by (simp add: speaks_def)
  qed (use s in auto)
qed

lemma create_room_speaks: "speaks w (snd (create_room tok now draws host payload w))"
  by (rule speaks_none)
    (auto simp: create_room_def Let_def register_eq split: sum.splits prod.splits option.splits dest!: allocate_room_frame)

lemma persist_flags_bus: "bus (snd (snd (persist_flags now flags t source d w))) = bus w"
proof -
  obtain rs d' w' where "persist_flags now flags t source d w = (rs, d', w')" by (cases "persist_flags now flags t source d w")
  then show ?thesis using persist_flags_effect [of now flags t source d w rs d' w'] by auto
qed

lemma join_admitted_bus: "bus (snd (join_admitted tok pol now room code nick uid w)) = bus w"
proof -
  have flags: "bus (snd (snd (auto_flag_on_join pol now room nick uid d w))) = bus w" for d w
    unfolding auto_flag_on_join_def by (rule persist_flags_bus)
  show ?thesis by (simp add: join_admitted_def Let_def split_beta register_eq flags split: option.splits)
qed

lemma join_room_speaks: "speaks w (snd (join_room tok pol now ip code nick uid w))"
  by (rule speaks_none) (auto simp: join_room_def Let_def split_beta join_admitted_bus split: sum.splits)

lemma build_snapshot_speaks: "speaks w (snd (build_snapshot now code w))"
  by (rule speaks_none) (auto simp: build_snapshot_def Let_def split_beta split: option.splits)

lemma create_report_speaks: "speaks w (snd (create_report now t reason details w))"
  by (rule speaks_none) (simp add: create_report_def Let_def register_eq split_beta)

lemma fold_kicks_speaks: "speaks w (fold (\<lambda>(c, p). broadcast c ''participant.kicked'' (f p)) ks w)"
proof (induction ks arbitrary: w)
  case (Cons k ks)
  have "speaks w (broadcast (fst k) ''participant.kicked'' (f (snd k)) w)"
    by (rule speaks_one) (simp add: broadcast_bus contract_message)
  from speaks_trans [OF this Cons.IH] show ?case by (simp add: split_beta)
qed auto

lemma decide_speaks: "speaks w (snd (decide now mdr i dec reason w))"
proof -
  obtain res w' where d: "decide now mdr i dec reason w = (res, w')" by fastforce
  show ?thesis
  proof (cases res)
    case (Inl e)
    then show ?thesis using decide_Inl [of now mdr i dec reason w e w'] d by auto
  next
    case (Inr r)
    then obtain kicks w0 where "w' = fold (\<lambda>(code, pid). broadcast code ''participant.kicked'' (kicked_message pid i)) kicks w0" "bus w0 = bus w"
      using d by (auto elim!: decide_Inr)
    then show ?thesis using fold_kicks_speaks [of w0 "\<lambda>p. kicked_message p i" kicks] speaks_cong [of w0 w w' w'] d by simp
  qed
qed

lemma resolve_tags_bus: "resolve_tags names seen d w = (ids, d', w') \<Longrightarrow> bus w' = bus w"
  by (drule resolve_tags_frame) auto

lemma authoring_speaks:
  "speaks w (snd (create_quiz_set now oid quiz w))" "speaks w (snd (update_quiz_set oid qid u w))"
  "speaks w (snd (add_question oid qid q w))" "speaks w (snd (update_question oid qid' u' w))" "speaks w (snd (delete_question oid qid' w))"
proof -
  show "speaks w (snd (create_quiz_set now oid quiz w))"
    by (rule speaks_none) (auto simp: create_quiz_set_def fresh_id_def Let_def replace_quiz_tags_def split: prod.splits dest!: resolve_tags_bus)
  show "speaks w (snd (update_quiz_set oid qid u w))"
    by (rule speaks_none)
      (auto simp: update_quiz_set_def Let_def replace_quiz_tags_def split: prod.splits sum.splits option.splits dest!: resolve_tags_bus)
  show "speaks w (snd (add_question oid qid q w))"
    by (rule speaks_none) (auto simp: add_question_def Let_def split_beta split: sum.splits option.splits)
  show "speaks w (snd (update_question oid qid' u' w))"
    by (rule speaks_none) (auto simp: update_question_def Let_def split_beta split: sum.splits option.splits)
  show "speaks w (snd (delete_question oid qid' w))"
    by (rule speaks_none) (auto simp: delete_question_def split: sum.splits option.splits)
qed

lemma publish_quiz_set_speaks: "speaks w (snd (publish_quiz_set pol now oid qid w))"
proof -
  have flags: "bus (snd (snd (auto_flag_on_publish pol now quiz qs d w))) = bus w" for quiz qs d w
    unfolding auto_flag_on_publish_def by (rule persist_flags_bus)
  show ?thesis
    by (rule speaks_none) (auto simp: publish_quiz_set_def Let_def register_eq split_beta flags split: sum.splits)
qed

lemma backend_step_speaks: "backend_step w w' \<Longrightarrow> speaks w w'"
proof (induction rule: backend_step.induct)
  case (restarted_backend w now)
  then show ?case by (intro speaks_none) (simp add: recover_bus)
next
  case (batch_published s w net locked now)
  then show ?case by (intro speaks_none) simp
next
  case (seeded w argon2 now)
  show ?case by (rule seed_main_effect [of argon2 now w]) (auto intro: speaks_none)
next
  case (beside_matches w w')
  then show ?case by (simp add: beside_def)
qed (rule start_match_speaks pause_match_speaks resume_match_speaks end_match_speaks submit_answer_speaks run_task_speaks
    create_room_speaks join_room_speaks build_snapshot_speaks create_report_speaks decide_speaks authoring_speaks publish_quiz_set_speaks)+

lemma reachable_contract:
  assumes "backend_reachable w" "m \<in> set (bus w)"
  shows "contract (snd m)"
  using assms
proof (induction rule: backend_reachable.induct)
  case (boot ids)
  then show ?case by (simp add: empty_world_def)
next
  case (step w w')
  from backend_step_speaks [OF step(2)] obtain ms where "bus w' = bus w @ ms" "\<forall>m \<in> set ms. contract (snd m)"
    unfolding speaks_def by blast
  with step show ?case by auto
qed

text \<open>What a client can read of an option in a \<^verbatim>\<open>question.started\<close> message.\<close>

definition started_options :: "json \<Rightarrow> json list" where
  "started_options j =
     (if json_get j ''type'' = JStr ''question.started''
      then case json_get (json_get (json_get j ''payload'') ''question'') ''options'' of JArr os \<Rightarrow> os | _ \<Rightarrow> []
      else [])"

lemma valid_message_type: "valid (message_model ty req p) j \<Longrightarrow> json_get j ''type'' = JStr ty"
  by (auto simp: message_model_def strict_model_def split: json.splits option.splits)

lemma strict_model_field:
  assumes "valid (strict_model fs) j" "(n, True, s) \<in> set fs"
  obtains kvs v where "j = JObj kvs" "map_of kvs n = Some v" "valid s v"
  using assms by (cases j) (fastforce simp: strict_model_def list_all_iff split: option.splits)+

lemma valid_list: "valid (SList s) j \<Longrightarrow> \<exists>xs. j = JArr xs \<and> list_all (valid s) xs"
  by (cases j) simp_all

lemma contract_options:
  assumes "contract j" "ao \<in> set (started_options j)"
  shows "\<exists>kvs. ao = JObj kvs \<and> fst ` set kvs \<subseteq> {''id'', ''body''}"
proof -
  have ty: "json_get j ''type'' = JStr ''question.started''" 
    using assms(2) by (cases "json_get j ''type'' = JStr ''question.started''") (simp_all add: started_options_def)
  then have other: "\<not> valid (message_model ty req p) j" if "ty \<noteq> ''question.started''" for ty req p
    using valid_message_type that by fastforce
  have "valid QuestionStartedMessage j" using assms(1) ty
    by (simp add: contract_def server_message_def ServerMessage_def message_schemas other)
  then obtain kvs p where j: "j = JObj kvs" "map_of kvs ''payload'' = Some p" "valid QuestionStartedPayload p"
    unfolding QuestionStartedMessage_def message_model_def by (rule strict_model_field [where n = "''payload''"]) auto
  obtain pk q where p: "p = JObj pk" "map_of pk ''question'' = Some q" "valid QuestionStartedQuestion q"
    using j(3) unfolding QuestionStartedPayload_def by (rule strict_model_field [where n = "''question''"]) auto
  obtain qk o' where q: "q = JObj qk" "map_of qk ''options'' = Some o'" "valid (SList QuestionStartedOption) o'"
    using p(3) unfolding QuestionStartedQuestion_def by (rule strict_model_field [where n = "''options''"]) auto
  obtain os where os: "o' = JArr os" "list_all (valid QuestionStartedOption) os" using valid_list [OF q(3)] by blast
  have "json_get (json_get (json_get j ''payload'') ''question'') ''options'' = JArr os"
    by (simp add: j(1,2) p(1,2) q(1,2) os(1))
  with ty have "started_options j = os" by (simp only: started_options_def if_True refl json.case)
  with assms(2) have "ao \<in> set os" by simp
  with os(2) have v: "valid QuestionStartedOption ao" by (simp add: list_all_iff)
  then obtain kvs where o': "ao = JObj kvs" unfolding QuestionStartedOption_def by (rule strict_model_field [where n = "''id''"]) auto
  then show ?thesis using question_started_option [of kvs] v by force
qed

end
