(* ===== verification/ConnectionManager.thy ===== *)
theory ConnectionManager
  imports RedisState PyText
begin

text \<open>
  The WebSocket fan-out: src/backend/app/ws/connection_manager.py and src/backend/app/ws/redis_pubsub.py.  Each replica
  has a registry of its connections by room; \<^verbatim>\<open>broadcast_all\<close> publishes a message on the room's Redis channel and
  delivers it to the local connections; a listener per replica takes the published messages from its
  subscription and delivers those of other replicas.

  A \<open>tier\<close> is the replicas together: their registries, the sockets (by handle) with what was sent to them, and for
  each replica the published messages its subscription holds.  A message on the wire is its JSON value.
\<close>

section \<open>State\<close>

record WebSocketConnection =
  ws :: nat
  conn_id :: string
  participant_id :: int
  nickname :: string
  is_host :: bool

record socket =
  sent :: "json list"
  closed :: "(int \<times> string) option"

record ConnectionManager =
  replica_id :: string
  rooms_of :: "(string \<times> WebSocketConnection list) list"

record tier =
  replicas :: nat
  managers :: "nat \<Rightarrow> ConnectionManager"
  sockets :: "nat \<Rightarrow> socket"
  inbox :: "nat \<Rightarrow> (string \<times> json) list"

definition ORIGIN_FIELD :: string where "ORIGIN_FIELD = ''_origin_replica_id''"
definition KICKED_CLOSE_CODE :: int where "KICKED_CLOSE_CODE = 4002"

section \<open>The registry\<close>

text \<open>\<^verbatim>\<open>dict[room_code, set]\<close>: a set of connections is a list without repetition.\<close>

definition connect :: "string \<Rightarrow> WebSocketConnection \<Rightarrow> ConnectionManager \<Rightarrow> ConnectionManager" where
  "connect room_code conn m =
     m\<lparr>rooms_of := AList.update room_code
         (List.insert conn (case map_of (rooms_of m) room_code of None \<Rightarrow> [] | Some cs \<Rightarrow> cs)) (rooms_of m)\<rparr>"

definition disconnect :: "string \<Rightarrow> WebSocketConnection \<Rightarrow> ConnectionManager \<Rightarrow> bool \<times> ConnectionManager" where
  "disconnect room_code conn m =
     (case map_of (rooms_of m) room_code of
        None \<Rightarrow> (True, m)
      | Some members \<Rightarrow>
          let members = removeAll conn members
          in if members = [] then (True, m\<lparr>rooms_of := AList.delete room_code (rooms_of m)\<rparr>)
             else (False, m\<lparr>rooms_of := AList.update room_code members (rooms_of m)\<rparr>))"

definition members :: "ConnectionManager \<Rightarrow> string \<Rightarrow> WebSocketConnection list" where
  "members m room_code = (case map_of (rooms_of m) room_code of None \<Rightarrow> [] | Some cs \<Rightarrow> cs)"

definition room_count :: "ConnectionManager \<Rightarrow> nat" where
  "room_count m = length (rooms_of m)"

section \<open>Sending\<close>

text \<open>A send on a socket that was closed fails and is reported as \<^verbatim>\<open>False\<close>.\<close>

definition conn_send :: "json \<Rightarrow> WebSocketConnection \<Rightarrow> (nat \<Rightarrow> socket) \<Rightarrow> bool \<times> (nat \<Rightarrow> socket)" where
  "conn_send message conn socks =
     (if closed (socks (ws conn)) = None
      then (True, socks(ws conn := (socks (ws conn))\<lparr>sent := sent (socks (ws conn)) @ [message]\<rparr>))
      else (False, socks))"

definition ws_close :: "int \<Rightarrow> string \<Rightarrow> nat \<Rightarrow> (nat \<Rightarrow> socket) \<Rightarrow> (nat \<Rightarrow> socket)" where
  "ws_close code reason s socks =
     (if closed (socks s) = None then socks(s := (socks s)\<lparr>closed := Some (code, reason)\<rparr>) else socks)"

definition close_kicked :: "ConnectionManager \<Rightarrow> string \<Rightarrow> json \<Rightarrow> (nat \<Rightarrow> socket) \<Rightarrow> (nat \<Rightarrow> socket)" where
  "close_kicked m room_code message socks =
     (case json_get message ''payload'' of
        JObj payload \<Rightarrow>
          (case int_of_json (json_get (JObj payload) ''participant_id'') of
             Inl _ \<Rightarrow> socks
           | Inr target_pid \<Rightarrow>
               fold (\<lambda>conn. if participant_id conn \<noteq> target_pid then id
                            else ws_close KICKED_CLOSE_CODE ''muted'' (ws conn)) (members m room_code) socks)
      | _ \<Rightarrow> socks)"

definition clean :: "(string \<times> json) list \<Rightarrow> json" where
  "clean message = JObj (filter (\<lambda>(k, v). k \<noteq> ORIGIN_FIELD) message)"

text \<open>The sends of \<^verbatim>\<open>asyncio.gather\<close>, each to a socket of its own, and how many succeeded.\<close>

primrec send_all :: "json \<Rightarrow> WebSocketConnection list \<Rightarrow> (nat \<Rightarrow> socket) \<Rightarrow> nat \<times> (nat \<Rightarrow> socket)" where
  "send_all message [] socks = (0, socks)"
| "send_all message (conn # cs) socks =
     (let (ok, socks) = conn_send message conn socks; (n, socks) = send_all message cs socks
      in (if ok then Suc n else n, socks))"

definition broadcast_local ::
  "ConnectionManager \<Rightarrow> string \<Rightarrow> (string \<times> json) list \<Rightarrow> (nat \<Rightarrow> socket) \<Rightarrow> nat \<times> (nat \<Rightarrow> socket)" where
  "broadcast_local m room_code message socks =
     (let cs = members m room_code
      in if cs = [] then (0, socks)
         else let (delivered, socks) = send_all (clean message) cs socks
              in (delivered,
                  if json_get (clean message) ''type'' = JStr ''participant.kicked''
                  then close_kicked m room_code (clean message) socks else socks))"

text \<open>\<^verbatim>\<open>redis.publish\<close>: every replica's subscription gets a copy; \<open>up = False\<close> is a publish that raises.\<close>

definition publish :: "bool \<Rightarrow> string \<Rightarrow> json \<Rightarrow> tier \<Rightarrow> tier" where
  "publish up channel wire t =
     (if up then t\<lparr>inbox := (\<lambda>j. if j < replicas t then inbox t j @ [(channel, wire)] else inbox t j)\<rparr> else t)"

definition broadcast_all :: "bool \<Rightarrow> nat \<Rightarrow> string \<Rightarrow> (string \<times> json) list \<Rightarrow> tier \<Rightarrow> tier" where
  "broadcast_all up i room_code message t =
     (let m = managers t i;
          t = publish up (ws_room room_code) (JObj (AList.update ORIGIN_FIELD (JStr (replica_id m)) message)) t
      in t\<lparr>sockets := snd (broadcast_local m room_code message (sockets t))\<rparr>)"

section \<open>The listener\<close>

text \<open>\<^verbatim>\<open>channel.split(":", 2)\<close>\<close>

definition split_colon :: "string \<Rightarrow> string \<times> string option" where
  "split_colon s =
     (let a = takeWhile (\<lambda>c. c \<noteq> CHR '':'') s; r = dropWhile (\<lambda>c. c \<noteq> CHR '':'') s
      in (a, case r of [] \<Rightarrow> None | _ # r \<Rightarrow> Some r))"

definition room_code_from_channel :: "string \<Rightarrow> string option" where
  "room_code_from_channel channel =
     (case split_colon channel of
        (_, None) \<Rightarrow> None
      | (p0, Some r) \<Rightarrow>
          (case split_colon r of
             (_, None) \<Rightarrow> None
           | (p1, Some p2) \<Rightarrow>
               if p0 \<noteq> ''ws'' \<or> p1 \<noteq> ''room'' then None else if p2 = [] then None else Some p2))"

definition dispatch_one :: "ConnectionManager \<Rightarrow> string \<times> json \<Rightarrow> (nat \<Rightarrow> socket) \<Rightarrow> (nat \<Rightarrow> socket)" where
  "dispatch_one m msg socks =
     (case room_code_from_channel (fst msg) of
        None \<Rightarrow> socks
      | Some code \<Rightarrow>
          (case snd msg of
             JObj payload \<Rightarrow>
               if map_of payload ORIGIN_FIELD = Some (JStr (replica_id m)) then socks
               else snd (broadcast_local m code payload socks)
           | _ \<Rightarrow> socks))"

text \<open>One turn of \<^verbatim>\<open>run_pubsub_listener\<close> on replica \<open>i\<close>.\<close>

definition listener_turn :: "nat \<Rightarrow> tier \<Rightarrow> tier" where
  "listener_turn i t =
     (case inbox t i of
        [] \<Rightarrow> t
      | msg # rest \<Rightarrow> t\<lparr>inbox := (inbox t)(i := rest), sockets := dispatch_one (managers t i) msg (sockets t)\<rparr>)"

section \<open>Histories\<close>

datatype tier_event =
    Connect nat string WebSocketConnection
  | Disconnect nat string WebSocketConnection
  | Broadcast bool nat string "(string \<times> json) list"
  | Listen nat

fun tier_step :: "tier_event \<Rightarrow> tier \<Rightarrow> tier" where
  "tier_step (Connect i code conn) t = t\<lparr>managers := (managers t)(i := connect code conn (managers t i))\<rparr>"
| "tier_step (Disconnect i code conn) t = t\<lparr>managers := (managers t)(i := snd (disconnect code conn (managers t i)))\<rparr>"
| "tier_step (Broadcast up i code message) t = broadcast_all up i code message t"
| "tier_step (Listen i) t = listener_turn i t"

section \<open>Interface: a registry of connections\<close>

text \<open>
  What the fan-out relies on: who is a member of a room after a connect and a disconnect.  A room with no
  member left is forgotten.
\<close>

locale room_registry =
  fixes connect :: "'r \<Rightarrow> 'c \<Rightarrow> 's \<Rightarrow> 's"
    and disconnect :: "'r \<Rightarrow> 'c \<Rightarrow> 's \<Rightarrow> bool \<times> 's"
    and members :: "'s \<Rightarrow> 'r \<Rightarrow> 'c list"
    and rooms :: "'s \<Rightarrow> 'r set"
    and ok :: "'s \<Rightarrow> bool"
  assumes connect_ok: "ok s \<Longrightarrow> ok (connect r c s)"
    and disconnect_ok: "ok s \<Longrightarrow> ok (snd (disconnect r c s))"
    and members_distinct: "ok s \<Longrightarrow> distinct (members s r)"
    and rooms_members: "ok s \<Longrightarrow> r \<in> rooms s \<longleftrightarrow> members s r \<noteq> []"
    and members_connect: "set (members (connect r c s) r') = (if r' = r then insert c (set (members s r)) else set (members s r'))"
    and members_disconnect: "set (members (snd (disconnect r c s)) r') = (if r' = r then set (members s r) - {c} else set (members s r'))"
    and disconnect_empty: "fst (disconnect r c s) \<longleftrightarrow> set (members s r) \<subseteq> {c}"
begin

text \<open>Connecting and disconnecting a connection that was not there restores the members of every room.\<close>

lemma connect_disconnect:
  assumes "c \<notin> set (members s r)"
  shows "set (members (snd (disconnect r c (connect r c s))) r') = set (members s r')"
  using assms by (auto simp: members_connect members_disconnect)

text \<open>Who stays connected stays a member, whatever others do.\<close>

primrec churn :: "(bool \<times> 'r \<times> 'c) list \<Rightarrow> 's \<Rightarrow> 's" where
  "churn [] s = s"
| "churn (x # xs) s =
     churn xs (if fst x then connect (fst (snd x)) (snd (snd x)) s else snd (disconnect (fst (snd x)) (snd (snd x)) s))"

lemma churn_ok: "ok s \<Longrightarrow> ok (churn xs s)"
  by (induction xs arbitrary: s) (simp_all add: connect_ok disconnect_ok)

lemma churn_keeps:
  assumes "c \<in> set (members s r)" "(False, r, c) \<notin> set xs"
  shows "c \<in> set (members (churn xs s) r)"
  using assms
proof (induction xs arbitrary: s)
  case (Cons x xs)
  have "c \<in> set (members (if fst x then connect (fst (snd x)) (snd (snd x)) s else snd (disconnect (fst (snd x)) (snd (snd x)) s)) r)"
    using Cons.prems by (cases x) (auto simp: members_connect members_disconnect)
  with Cons show ?case by simp
qed simp

text \<open>The last to leave empties the room: its entry is gone.\<close>

lemma last_leaves:
  assumes "ok s" "set (members s r) = {c}"
  shows "fst (disconnect r c s) \<and> r \<notin> rooms (snd (disconnect r c s))"
  using assms disconnect_ok [OF assms(1), of r c] by (simp add: disconnect_empty rooms_members members_disconnect flip: set_empty)

end

definition registry_ok :: "ConnectionManager \<Rightarrow> bool" where
  "registry_ok m \<longleftrightarrow> distinct (map fst (rooms_of m)) \<and> (\<forall>code cs. map_of (rooms_of m) code = Some cs \<longrightarrow> cs \<noteq> [] \<and> distinct cs)"

lemma registry_ok_update:
  assumes "registry_ok m" "cs \<noteq> []" "distinct cs"
  shows "registry_ok (m\<lparr>rooms_of := AList.update code cs (rooms_of m)\<rparr>)"
  using assms by (auto simp: registry_ok_def distinct_update update_conv' split: if_splits)

lemma registry_ok_delete: "registry_ok m \<Longrightarrow> registry_ok (m\<lparr>rooms_of := AList.delete code (rooms_of m)\<rparr>)"
  by (auto simp: registry_ok_def distinct_delete delete_conv' split: if_splits)

lemma removeAll_Nil: "removeAll c xs = [] \<longleftrightarrow> set xs \<subseteq> {c}"
  by (induction xs) auto

interpretation registry: room_registry connect disconnect members "\<lambda>m. fst ` set (rooms_of m)" registry_ok
proof unfold_locales
  show "registry_ok (connect r c s)" if "registry_ok s" for r c s
  proof -
    have "distinct cs" if "map_of (rooms_of s) r = Some cs" for cs using \<open>registry_ok s\<close> that by (auto simp: registry_ok_def)
    then show ?thesis unfolding connect_def using that by (intro registry_ok_update) (auto simp: List.insert_def split: option.splits)
  qed
  show "registry_ok (snd (disconnect r c s))" if "registry_ok s" for r c s
  proof (cases "map_of (rooms_of s) r")
    case None
    with that show ?thesis by (simp add: disconnect_def)
  next
    case (Some cs)
    then have "distinct (removeAll c cs)" using that Some by (auto simp: registry_ok_def intro!: distinct_removeAll)
    with Some that show ?thesis by (auto simp: disconnect_def Let_def intro: registry_ok_update registry_ok_delete)
  qed
  show "distinct (members s r)" if "registry_ok s" for s r
    using that by (auto simp: members_def registry_ok_def split: option.splits)
  show "r \<in> fst ` set (rooms_of s) \<longleftrightarrow> members s r \<noteq> []" if "registry_ok s" for r s
    using that by (auto simp: members_def registry_ok_def dom_map_of_conv_image_fst [symmetric] split: option.splits)
qed (auto simp: connect_def disconnect_def members_def update_conv' delete_conv' Let_def removeAll_Nil split: option.splits)

section \<open>Every member gets every broadcast once\<close>

text \<open>\<open>kick_target\<close>: the participant a \<^verbatim>\<open>participant.kicked\<close> message closes.\<close>

definition kick_target :: "json \<Rightarrow> int option" where
  "kick_target message =
     (if json_get message ''type'' = JStr ''participant.kicked''
      then case json_get message ''payload'' of
             JObj payload \<Rightarrow> (case int_of_json (json_get (JObj payload) ''participant_id'') of Inl _ \<Rightarrow> None | Inr i \<Rightarrow> Some i)
           | _ \<Rightarrow> None
      else None)"

lemma send_all_frame:
  "snd (send_all msg cs socks) s =
     (if closed (socks s) = None
      then (socks s)\<lparr>sent := sent (socks s) @ replicate (length (filter (\<lambda>x. ws x = s) cs)) msg\<rparr> else socks s)"
proof (induction cs arbitrary: socks)
  case (Cons c cs)
  show ?case using Cons.IH by (auto simp: conn_send_def Let_def split_beta)
qed simp

lemma ws_close_fold_other:
  "\<forall>x \<in> set cs. P x \<longrightarrow> ws x \<noteq> s \<Longrightarrow> fold (\<lambda>x. if \<not> P x then id else ws_close c r (ws x)) cs socks s = socks s"
  by (induction cs arbitrary: socks) (auto simp: ws_close_def)

lemma close_kicked_other:
  assumes "json_get message ''type'' = JStr ''participant.kicked''"
    and "\<forall>x \<in> set (members m code). ws x = s \<longrightarrow> kick_target message \<noteq> Some (participant_id x)"
  shows "close_kicked m code message socks s = socks s"
  using assms
  by (auto simp: close_kicked_def kick_target_def split: json.splits sum.splits
      intro!: ws_close_fold_other [of "members m code" "\<lambda>x. participant_id x = t" for t])

lemma broadcast_local_socket:
  assumes "closed (socks s) = None" "\<forall>x \<in> set (members m code). ws x = s \<longrightarrow> kick_target (clean message) \<noteq> Some (participant_id x)"
  shows "snd (broadcast_local m code message socks) s =
    (socks s)\<lparr>sent := sent (socks s) @ replicate (length (filter (\<lambda>x. ws x = s) (members m code))) (clean message)\<rparr>"
  using assms(1) close_kicked_other [OF _ assms(2)]
  by (auto simp: broadcast_local_def Let_def split_beta send_all_frame)

lemma split_colon_append: "CHR '':'' \<notin> set a \<Longrightarrow> split_colon (a @ CHR '':'' # r) = (a, Some r)"
  by (induction a) (auto simp: split_colon_def Let_def)

lemma room_code_ws_room: "code \<noteq> [] \<Longrightarrow> room_code_from_channel (ws_room code) = Some code"
  using split_colon_append [of "''ws''" "''room'' @ CHR '':'' # code"] split_colon_append [of "''room''" code]
  by (simp add: room_code_from_channel_def ws_room_def)

text \<open>\<open>seated\<close>: the socket of \<open>c\<close> stands in one place, room \<open>r\<close> of replica \<open>j\<close>.\<close>

definition seated :: "WebSocketConnection \<Rightarrow> nat \<Rightarrow> string \<Rightarrow> tier \<Rightarrow> bool" where
  "seated c j r t \<longleftrightarrow> c \<in> set (members (managers t j) r) \<and> (\<forall>i. registry_ok (managers t i)) \<and>
     (\<forall>i code x. x \<in> set (members (managers t i) code) \<and> ws x = ws c \<longrightarrow> i = j \<and> code = r \<and> x = c)"

text \<open>\<open>calm\<close>: an event that does not move \<open>c\<close>, and broadcasts with Redis up that do not kick it.\<close>

fun calm :: "WebSocketConnection \<Rightarrow> string \<Rightarrow> nat \<Rightarrow> tier_event \<Rightarrow> bool" where
  "calm c r n (Connect i code x) \<longleftrightarrow> ws x \<noteq> ws c"
| "calm c r n (Disconnect i code x) \<longleftrightarrow> x \<noteq> c"
| "calm c r n (Broadcast up i code message) \<longleftrightarrow> up \<and> i < n \<and> code \<noteq> [] \<and> ORIGIN_FIELD \<notin> fst ` set message \<and>
     (code = r \<longrightarrow> kick_target (JObj message) \<noteq> Some (participant_id c))"
| "calm c r n (Listen i) \<longleftrightarrow> True"

fun to_room :: "string \<Rightarrow> tier_event \<Rightarrow> json list" where
  "to_room r (Broadcast up i code message) = (if code = r then [JObj message] else [])"
| "to_room r _ = []"

text \<open>What waits in a subscription for a room: the messages of other replicas.\<close>

fun waiting :: "string \<Rightarrow> string \<Rightarrow> string \<times> json \<Rightarrow> json list" where
  "waiting r rid (channel, JObj payload) =
     (if room_code_from_channel channel = Some r \<and> map_of payload ORIGIN_FIELD \<noteq> Some (JStr rid) then [clean payload] else [])"
| "waiting r rid (channel, _) = []"

definition calm_wire :: "WebSocketConnection \<Rightarrow> string \<Rightarrow> string \<times> json \<Rightarrow> bool" where
  "calm_wire c r msg \<longleftrightarrow> (\<exists>code m rid. msg = (ws_room code, JObj (AList.update ORIGIN_FIELD (JStr rid) m)) \<and> code \<noteq> [] \<and>
     ORIGIN_FIELD \<notin> fst ` set m \<and> (code = r \<longrightarrow> kick_target (JObj m) \<noteq> Some (participant_id c)))"

definition fanout_inv :: "WebSocketConnection \<Rightarrow> nat \<Rightarrow> string \<Rightarrow> json multiset \<Rightarrow> tier \<Rightarrow> bool" where
  "fanout_inv c j r history t \<longleftrightarrow>
     seated c j r t \<and> closed (sockets t (ws c)) = None \<and> j < replicas t \<and>
     (\<forall>i < replicas t. \<forall>k < replicas t. replica_id (managers t i) = replica_id (managers t k) \<longrightarrow> i = k) \<and>
     (\<forall>msg \<in> set (inbox t j). calm_wire c r msg) \<and>
     mset (sent (sockets t (ws c))) + mset (concat (map (waiting r (replica_id (managers t j))) (inbox t j))) = history"

lemma registry_replica [simp]:
  "replica_id (connect code x m) = replica_id m" "replica_id (snd (disconnect code x m)) = replica_id m"
  by (simp_all add: connect_def disconnect_def Let_def split: option.splits)

lemma clean_id: "ORIGIN_FIELD \<notin> fst ` set m \<Longrightarrow> clean m = JObj m"
  unfolding clean_def by (rule arg_cong [of _ _ JObj], rule filter_True) force

lemma clean_update: "ORIGIN_FIELD \<notin> fst ` set m \<Longrightarrow> clean (AList.update ORIGIN_FIELD v m) = JObj m"
proof -
  have "filter (\<lambda>(k, v). k \<noteq> ORIGIN_FIELD) (AList.update ORIGIN_FIELD v m) = m" if "ORIGIN_FIELD \<notin> fst ` set m"
    using that by (induction m) auto
  then show "ORIGIN_FIELD \<notin> fst ` set m \<Longrightarrow> ?thesis" by (simp add: clean_def)
qed

lemma seated_count:
  assumes "seated c j r t"
  shows "length (filter (\<lambda>x. ws x = ws c) (members (managers t i) code)) = (if i = j \<and> code = r then 1 else 0)"
proof (cases "i = j \<and> code = r")
  case True
  let ?cs = "members (managers t j) r"
  have "distinct ?cs" "c \<in> set ?cs" using assms registry.members_distinct by (auto simp: seated_def)
  moreover have "filter (\<lambda>x. ws x = ws c) ?cs = filter ((=) c) ?cs" using assms by (intro filter_cong) (auto simp: seated_def)
  ultimately show ?thesis using True distinct_count_atmost_1 [of ?cs] count_list_eq_length_filter [of ?cs c]
    by (simp add: distinct_filter length_remove1 flip: card_set) (metis One_nat_def count_mset distinct_count_atmost_1)
next
  case False
  then have "filter (\<lambda>x. ws x = ws c) (members (managers t i) code) = []" using assms by (auto simp: seated_def filter_empty_conv)
  with False show ?thesis by simp
qed

lemma waiting_update:
  assumes "code \<noteq> []" "ORIGIN_FIELD \<notin> fst ` set m"
  shows "waiting r rid (ws_room code, JObj (AList.update ORIGIN_FIELD (JStr i) m)) = (if code = r \<and> i \<noteq> rid then [JObj m] else [])"
  using assms by (simp add: waiting.simps room_code_ws_room clean_update update_conv')

declare waiting.simps [simp del]

lemma local_delivery:
  assumes "seated c j r t" "closed (sockets t (ws c)) = None" "i = j \<Longrightarrow> code = r \<Longrightarrow> kick_target (clean m) \<noteq> Some (participant_id c)"
  shows "snd (broadcast_local (managers t i) code m (sockets t)) (ws c) =
    (sockets t (ws c))\<lparr>sent := sent (sockets t (ws c)) @ (if i = j \<and> code = r then [clean m] else [])\<rparr>"
proof -
  have "\<forall>x \<in> set (members (managers t i) code). ws x = ws c \<longrightarrow> kick_target (clean m) \<noteq> Some (participant_id x)"
    using assms(1,3) by (auto simp: seated_def)
  then show ?thesis using broadcast_local_socket [of "sockets t" "ws c", OF assms(2)] seated_count [OF assms(1), of i code]
    by (auto split: if_splits)
qed

lemma seated_frame: "managers t' = managers t \<Longrightarrow> seated c j r t' = seated c j r t"
  by (simp add: seated_def)

lemma seated_register:
  assumes "seated c j r t" "ws x \<noteq> ws c" shows "seated c j r (tier_step (Connect i code x) t)"
  using assms by (auto simp: seated_def registry.members_connect registry.connect_ok split: if_splits)

lemma seated_unregister:
  assumes "seated c j r t" "x \<noteq> c" shows "seated c j r (tier_step (Disconnect i code x) t)"
  using assms by (auto simp: seated_def registry.members_disconnect registry.disconnect_ok split: if_splits)

lemma broadcast_all_fields:
  "managers (broadcast_all up i code m t) = managers t" "replicas (broadcast_all up i code m t) = replicas t"
  "sockets (broadcast_all up i code m t) = snd (broadcast_local (managers t i) code m (sockets t))"
  "up \<Longrightarrow> j < replicas t \<Longrightarrow> inbox (broadcast_all up i code m t) j =
     inbox t j @ [(ws_room code, JObj (AList.update ORIGIN_FIELD (JStr (replica_id (managers t i))) m))]"
  by (simp_all add: broadcast_all_def publish_def Let_def)

lemma fanout_broadcast:
  assumes "fanout_inv c j r h t" "calm c r (replicas t) (Broadcast up i code m)"
  shows "fanout_inv c j r (h + mset (to_room r (Broadcast up i code m))) (broadcast_all up i code m t)"
proof -
  let ?t = "broadcast_all up i code m t"
  have t: "seated c j r t" "closed (sockets t (ws c)) = None" "j < replicas t" and up: "up" "i < replicas t"
    and code: "code \<noteq> []" "ORIGIN_FIELD \<notin> fst ` set m"
    and calm: "code = r \<Longrightarrow> kick_target (JObj m) \<noteq> Some (participant_id c)"
    using assms by (auto simp: fanout_inv_def)
  have dist: "replica_id (managers t i) = replica_id (managers t j) \<longleftrightarrow> i = j" using assms(1) up t by (auto simp: fanout_inv_def)
  have sock: "sockets ?t (ws c) = (sockets t (ws c))\<lparr>sent := sent (sockets t (ws c)) @ (if i = j \<and> code = r then [JObj m] else [])\<rparr>"
    using local_delivery [OF t(1,2), of i code m] calm by (simp add: broadcast_all_fields clean_id [OF code(2)])
  note inb = broadcast_all_fields(4) [OF up(1) t(3), of i code m]
  have "calm_wire c r (ws_room code, JObj (AList.update ORIGIN_FIELD (JStr (replica_id (managers t i))) m))"
    unfolding calm_wire_def using code calm by blast
  then have "\<forall>msg \<in> set (inbox ?t j). calm_wire c r msg" using assms(1) by (auto simp: fanout_inv_def inb)
  moreover have "mset (sent (sockets ?t (ws c))) + mset (concat (map (waiting r (replica_id (managers ?t j))) (inbox ?t j))) =
      h + mset (to_room r (Broadcast up i code m))"
    using assms(1) unfolding inb sock broadcast_all_fields(1) by (auto simp: fanout_inv_def waiting_update [OF code] dist)
  ultimately show ?thesis using assms(1) sock seated_frame [of ?t t]
    by (simp add: fanout_inv_def broadcast_all_fields(1,2))
qed

lemma fanout_listen:
  assumes "fanout_inv c j r h t"
  shows "fanout_inv c j r h (listener_turn i t)"
proof (cases "inbox t i")
  case Nil
  with assms show ?thesis by (simp add: listener_turn_def)
next
  case (Cons msg rest)
  let ?t = "listener_turn i t"
  have t: "seated c j r t" "closed (sockets t (ws c)) = None" using assms by (auto simp: fanout_inv_def)
  have fields: "managers ?t = managers t" "replicas ?t = replicas t" "inbox ?t = (inbox t)(i := rest)"
    "sockets ?t = dispatch_one (managers t i) msg (sockets t)" by (simp_all add: listener_turn_def Cons)
  have sock: "sockets ?t (ws c) = (sockets t (ws c))\<lparr>sent := sent (sockets t (ws c)) @
      (if i = j then waiting r (replica_id (managers t j)) msg else [])\<rparr>"
  proof (cases "i = j")
    case True
    with assms Cons have "calm_wire c r msg" by (auto simp: fanout_inv_def)
    then obtain code m rid where msg: "msg = (ws_room code, JObj (AList.update ORIGIN_FIELD (JStr rid) m))" and code: "code \<noteq> []"
      "ORIGIN_FIELD \<notin> fst ` set m" and calm: "code = r \<Longrightarrow> kick_target (JObj m) \<noteq> Some (participant_id c)"
      unfolding calm_wire_def by blast
    show ?thesis using local_delivery [OF t, of i code "AList.update ORIGIN_FIELD (JStr rid) m"] calm True
      unfolding fields(4) by (simp add: dispatch_one_def msg room_code_ws_room code waiting_update [OF code] clean_update update_conv')
  next
    case False
    then show ?thesis using local_delivery [OF t, of i]
      unfolding fields(4) by (auto simp: dispatch_one_def split: option.splits json.splits)
  qed
  then have "mset (sent (sockets ?t (ws c))) + mset (concat (map (waiting r (replica_id (managers ?t j))) (inbox ?t j))) = h"
    using assms Cons unfolding fields(1,3) by (auto simp: fanout_inv_def)
  moreover have "\<forall>msg \<in> set (inbox ?t j). calm_wire c r msg" using assms Cons by (auto simp: fanout_inv_def fields)
  ultimately show ?thesis using assms sock seated_frame [of ?t t] by (simp add: fanout_inv_def fields(1,2))
qed

lemma fanout_managers:
  assumes "fanout_inv c j r h t" "seated c j r (t\<lparr>managers := M\<rparr>)" "\<And>i. replica_id (M i) = replica_id (managers t i)"
  shows "fanout_inv c j r h (t\<lparr>managers := M\<rparr>)"
  using assms by (simp add: fanout_inv_def)

lemma fanout_step:
  assumes "fanout_inv c j r h t" "calm c r (replicas t) e"
  shows "fanout_inv c j r (h + mset (to_room r e)) (tier_step e t)"
proof (cases e)
  case (Connect i code x)
  have "seated c j r (t\<lparr>managers := (managers t)(i := connect code x (managers t i))\<rparr>)"
    using assms seated_register [of c j r t x i code] by (simp add: fanout_inv_def Connect)
  from fanout_managers [OF assms(1) this] show ?thesis by (simp add: Connect)
next
  case (Disconnect i code x)
  have "seated c j r (t\<lparr>managers := (managers t)(i := snd (disconnect code x (managers t i)))\<rparr>)"
    using assms seated_unregister [of c j r t x i code] by (simp add: fanout_inv_def Disconnect)
  from fanout_managers [OF assms(1) this] show ?thesis by (simp add: Disconnect)
next
  case (Broadcast up i code m)
  with assms fanout_broadcast show ?thesis by fastforce
next
  case (Listen i)
  with assms fanout_listen show ?thesis by simp
qed

lemma tier_step_replicas [simp]: "replicas (tier_step e t) = replicas t"
  by (cases e) (simp_all add: broadcast_all_fields listener_turn_def split: list.splits)

lemma fanout_run:
  assumes "fanout_inv c j r h t" "\<forall>e \<in> set evs. calm c r (replicas t) e"
  shows "fanout_inv c j r (h + mset (concat (map (to_room r) evs))) (fold tier_step evs t)"
  using assms
proof (induction evs arbitrary: h t)
  case (Cons e evs)
  then have "fanout_inv c j r (h + mset (to_room r e)) (tier_step e t)" using fanout_step by simp
  from Cons.IH [OF this] Cons.prems show ?case by (simp add: ac_simps)
qed simp

text \<open>As many turns as the subscription holds messages empty it.\<close>

lemma drained: "n = length (inbox t j) \<Longrightarrow> inbox (fold tier_step (replicate n (Listen j)) t) j = []"
proof (induction n arbitrary: t)
  case (Suc n)
  then obtain msg rest where "inbox t j = msg # rest" by (cases "inbox t j") auto
  with Suc.prems have "n = length (inbox (tier_step (Listen j) t) j)" by (simp add: listener_turn_def)
  from Suc.IH [OF this] show ?case by simp
qed simp

text \<open>
  C13: every connection of a room gets every broadcast exactly once, on every replica.  Take a connection of room \<open>r\<close>
  on replica \<open>j\<close>, replicas with different ids, and any interleaving of broadcasts to any room from any replica, of
  listener turns of any replica and of other clients connecting and disconnecting, with Redis publishing and no message
  that kicks this participant.  When the listener of \<open>j\<close> has worked off its subscription, the frames sent to the
  connection since the start are the messages broadcast to \<open>r\<close>, each once, as the sender wrote them (without
  the origin field).
\<close>
theorem broadcast_reaches_members_once:
  assumes "seated c j r t" "closed (sockets t (ws c)) = None" "j < replicas t" "inbox t j = []"
    and "\<forall>i < replicas t. \<forall>k < replicas t. replica_id (managers t i) = replica_id (managers t k) \<longrightarrow> i = k"
    and "\<forall>e \<in> set evs. calm c r (replicas t) e"
  shows "let t' = fold tier_step (evs @ replicate (length (inbox (fold tier_step evs t) j)) (Listen j)) t
    in inbox t' j = [] \<and>
       mset (sent (sockets t' (ws c))) = mset (sent (sockets t (ws c))) + mset (concat (map (to_room r) evs))"
proof -
  define n where "n = length (inbox (fold tier_step evs t) j)"
  define t' where "t' = fold tier_step (evs @ replicate n (Listen j)) t"
  have empty: "inbox t' j = []" unfolding t'_def using drained [OF n_def] by simp
  have "fanout_inv c j r (mset (sent (sockets t (ws c)))) t" using assms(1-5) by (simp add: fanout_inv_def)
  then have "fanout_inv c j r (mset (sent (sockets t (ws c))) + mset (concat (map (to_room r) (evs @ replicate n (Listen j))))) t'"
    unfolding t'_def using assms(6) by (intro fanout_run) auto
  moreover have "concat (map (to_room r) (evs @ replicate n (Listen j))) = concat (map (to_room r) evs)" by simp
  ultimately show ?thesis using empty unfolding fanout_inv_def t'_def [symmetric] n_def [symmetric] Let_def by simp
qed

definition demo_conn :: "nat \<Rightarrow> WebSocketConnection" where
  "demo_conn s = \<lparr>ws = s, conn_id = nat_str s, participant_id = int s, nickname = ''p'', is_host = False\<rparr>"

definition demo_tier :: tier where
  "demo_tier = \<lparr>replicas = 2,
     managers = (\<lambda>i. \<lparr>replica_id = nat_str i, rooms_of = (if i = 0 then [(''R'', [demo_conn 7])] else if i = 1 then [(''R'', [demo_conn 8])] else [])\<rparr>),
     sockets = (\<lambda>_. \<lparr>sent = [], closed = None\<rparr>), inbox = (\<lambda>_. [])\<rparr>"

definition demo_events :: "tier_event list" where
  "demo_events = [Broadcast True 0 ''R'' [(''type'', JStr ''a'')], Broadcast True 1 ''R'' [(''type'', JStr ''b'')],
     Broadcast True 0 ''S'' [(''type'', JStr ''c'')], Listen 0]"

theorem broadcast_reaches_members_once_witness:
  "mset (sent (sockets (fold tier_step (demo_events @ replicate (length (inbox (fold tier_step demo_events demo_tier) 1)) (Listen 1)) demo_tier) 8)) =
     {#JObj [(''type'', JStr ''a'')], JObj [(''type'', JStr ''b'')]#}"
proof -
  have "seated (demo_conn 8) 1 ''R'' demo_tier"
    by (auto simp: seated_def demo_tier_def members_def registry_ok_def demo_conn_def split: if_splits)
  moreover have "\<forall>e \<in> set demo_events. calm (demo_conn 8) ''R'' 2 e"
    by (simp add: demo_events_def ORIGIN_FIELD_def kick_target_def)
  ultimately show ?thesis
    using broadcast_reaches_members_once [of "demo_conn 8" 1 "''R''" demo_tier demo_events]
    by (simp add: demo_tier_def [THEN arg_cong [of _ _ replicas]] demo_tier_def [THEN arg_cong [of _ _ managers]]
        demo_tier_def [THEN arg_cong [of _ _ sockets]] demo_tier_def [THEN arg_cong [of _ _ inbox]] demo_conn_def [THEN arg_cong [of _ _ ws]]
        demo_events_def [THEN arg_cong [of _ _ "map (to_room ''R'')"]] nat_str_inject Let_def)
qed

end
