(* ===== verification/WsRouter.thy ===== *)
theory WsRouter
  imports Auth AnswerSubmit RoomService ConnectionManager Protocol
begin

text \<open>
  The WebSocket endpoint of src/backend/app/ws/router.py: the handshake, the per-connection, per-answer and host rate
  limits, the treatment of one received frame, the departure and the heartbeat watchdog.  A frame handler returns the
  frames it sends to its own connection; an exception it does not catch ends the connection (\<open>Inl\<close>).  Parsing a
  frame is pydantic's: \<open>validate_json\<close> is an argument.
\<close>

section \<open>Constants\<close>

definition HEARTBEAT_TIMEOUT :: time where "HEARTBEAT_TIMEOUT = 60 * 1000000"
definition WS_RATE_CAPACITY :: int where "WS_RATE_CAPACITY = 30"
definition WS_RATE_REFILL :: rat where "WS_RATE_REFILL = 30"
definition ANSWER_RATE_LIMIT :: int where "ANSWER_RATE_LIMIT = 5"
definition ANSWER_RATE_TTL_S :: int where "ANSWER_RATE_TTL_S = 600"
definition HOST_RATE_CAPACITY :: int where "HOST_RATE_CAPACITY = 60"
definition HOST_RATE_REFILL :: rat where "HOST_RATE_REFILL = 1"
definition CLOSE_UNAUTHORIZED :: int where "CLOSE_UNAUTHORIZED = 4401"
definition CLOSE_HEARTBEAT_TIMEOUT :: int where "CLOSE_HEARTBEAT_TIMEOUT = 4001"
definition CLOSE_NORMAL :: int where "CLOSE_NORMAL = 1000"

section \<open>Handshake\<close>

text \<open>\<open>Inl\<close> is the reason of the 4401 close; Python's truth value of a claim.\<close>

definition claim_truthy :: "json \<Rightarrow> bool" where
  "claim_truthy v = (case v of JNull \<Rightarrow> False | JBool b \<Rightarrow> b | JInt i \<Rightarrow> i \<noteq> 0 | JFloat r \<Rightarrow> r \<noteq> 0 | JStr s \<Rightarrow> s \<noteq> [] | JTime _ \<Rightarrow> True
     | JArr xs \<Rightarrow> xs \<noteq> [] | JObj kvs \<Rightarrow> kvs \<noteq> [])"

definition authenticate :: "auth_lib \<Rightarrow> Settings \<Rightarrow> time \<Rightarrow> string \<Rightarrow> string \<Rightarrow> db \<Rightarrow> string + int \<times> string \<times> bool" where
  "authenticate L cfg now token room_code d =
     (if token = [] then Inl ''missing token''
      else case decode_token L now token PARTICIPANT_TYPE (jwt_secret cfg) of
        Inl e \<Rightarrow> Inl ''invalid token''
      | Inr c \<Rightarrow>
          if claim_text L (json_get (JObj c) ''room_code'') \<noteq> room_code then Inl ''room mismatch''
          else case claim_int c ''participant_id'' '''' of
            Inl e \<Rightarrow> Inl ''malformed token''
          | Inr pid \<Rightarrow>
              (let nick = json_get (JObj c) ''nickname''
               in case get_room_by_code d room_code of
                    None \<Rightarrow> Inl ''room not found''
                  | Some room \<Rightarrow> Inr (pid, if claim_truthy nick then claim_text L nick else '''', pid = rm_host_id room)))"

datatype handshake =
    Rejected int string
  | Refused json int
  | Crashed string
  | Opened WebSocketConnection json int

definition snapshot_player_count :: "json \<Rightarrow> int" where
  "snapshot_player_count s = (case json_get (json_get s ''room'') ''player_count'' of JInt i \<Rightarrow> i | _ \<Rightarrow> 0)"

definition presence_payload :: "int \<Rightarrow> string \<Rightarrow> int \<Rightarrow> json" where
  "presence_payload pid nick n =
     JObj [(''participant_id'', JStr (int_str pid)), (''nickname'', JStr nick), (''player_count'', JInt n)]"

text \<open>From the request to the arrival broadcast; the registration is \<open>connect\<close> on the replica's manager.\<close>

definition ws_open ::
  "auth_lib \<Rightarrow> Settings \<Rightarrow> time \<Rightarrow> nat \<Rightarrow> string \<Rightarrow> string \<Rightarrow> string \<Rightarrow> ConnectionManager \<Rightarrow> world \<Rightarrow>
     handshake \<times> ConnectionManager \<times> world" where
  "ws_open L cfg now handle uuid token room_code manager w =
     (case authenticate L cfg now token room_code (wdb w) of
        Inl reason \<Rightarrow> (Rejected CLOSE_UNAUTHORIZED reason, manager, w)
      | Inr (pid, nick, host) \<Rightarrow>
          (case build_snapshot now room_code w of
             (Inl (AuthError code status msg), w) \<Rightarrow>
               (Refused (JObj [(''type'', JStr ''error''), (''payload'', JObj [(''code'', JStr code), (''message'', JStr msg)])]) CLOSE_NORMAL,
                manager, w)
           | (Inl (PyError e), w) \<Rightarrow> (Crashed e, manager, w)
           | (Inr snapshot, w) \<Rightarrow>
               let (i, w) = fresh_id w;
                   frame = JObj [(''type'', JStr ''room.snapshot''), (''message_id'', JStr (int_str i)), (''payload'', snapshot)];
                   player_count = snapshot_player_count snapshot;
                   conn = \<lparr>ws = handle, conn_id = uuid, participant_id = pid, nickname = nick, is_host = host\<rparr>;
                   manager = connect room_code conn manager;
                   w = broadcast room_code ''participant.joined'' (presence_payload pid nick player_count) w
               in (Opened conn frame player_count, manager, w)))"

definition ws_leave :: "string \<Rightarrow> WebSocketConnection \<Rightarrow> int \<Rightarrow> ConnectionManager \<Rightarrow> world \<Rightarrow> ConnectionManager \<times> world" where
  "ws_leave room_code conn player_count manager w =
     (snd (disconnect room_code conn manager),
      broadcast room_code ''participant.left''
        (presence_payload (participant_id conn) (nickname conn) (max 0 (player_count - 1))) w)"

section \<open>Rate limits\<close>

definition with_buckets :: "buckets \<Rightarrow> world \<Rightarrow> world" where
  "with_buckets bs w = w\<lparr>wredis := (wredis w)\<lparr>rate_buckets := bs\<rparr>\<rparr>"

definition ws_rate_check :: "time \<Rightarrow> string \<Rightarrow> world \<Rightarrow> (bool \<times> int) \<times> world" where
  "ws_rate_check now cid w =
     (let ((allowed, remaining, retry_after_ms), bs) =
            acquire (rate_buckets (wredis w)) (''rate:ws:'' @ cid) WS_RATE_CAPACITY WS_RATE_REFILL 1 (now div 1000)
      in ((allowed, retry_after_ms), with_buckets bs w))"

definition host_rate_check :: "time \<Rightarrow> int \<Rightarrow> world \<Rightarrow> (bool \<times> int) \<times> world" where
  "host_rate_check now pid w =
     (let ((allowed, remaining, retry_after_ms), bs) =
            acquire (rate_buckets (wredis w)) (''rate:host:'' @ int_str pid) HOST_RATE_CAPACITY HOST_RATE_REFILL 1 (now div 1000)
      in ((allowed, retry_after_ms), with_buckets bs w))"

text \<open>\<^verbatim>\<open>INCR\<close>, and \<^verbatim>\<open>EXPIRE\<close> when the counter starts.\<close>

definition incr_expire :: "time \<Rightarrow> int \<Rightarrow> string \<Rightarrow> (string \<rightharpoonup> int \<times> time) \<Rightarrow> int \<times> (string \<rightharpoonup> int \<times> time)" where
  "incr_expire now ttl_s key m =
     (case m key of
        Some (n, expires) \<Rightarrow>
          if now < expires then (n + 1, m(key \<mapsto> (n + 1, if n + 1 = 1 then now + ttl_s * 1000000 else expires)))
          else (1, m(key \<mapsto> (1, now + ttl_s * 1000000)))
      | None \<Rightarrow> (1, m(key \<mapsto> (1, now + ttl_s * 1000000))))"

definition answer_rate_check :: "time \<Rightarrow> int \<Rightarrow> string \<Rightarrow> world \<Rightarrow> bool \<times> world" where
  "answer_rate_check now pid match_question_id w =
     (let (v, m) = incr_expire now ANSWER_RATE_TTL_S (''rate:ws:answer:'' @ int_str pid @ '':'' @ match_question_id)
            (attempt_counts (wredis w))
      in (v \<le> ANSWER_RATE_LIMIT, w\<lparr>wredis := (wredis w)\<lparr>attempt_counts := m\<rparr>\<rparr>))"

section \<open>One frame\<close>

definition error_frame :: "string \<Rightarrow> string \<Rightarrow> int option \<Rightarrow> json" where
  "error_frame code msg retry =
     JObj [(''type'', JStr ''error''), (''payload'', JObj [(''code'', JStr code), (''message'', JStr msg),
       (''retry_after_ms'', case retry of None \<Rightarrow> JNull | Some r \<Rightarrow> JInt r)])]"

definition reply_error :: "string \<Rightarrow> string \<Rightarrow> string \<Rightarrow> json" where
  "reply_error message_id code msg =
     JObj [(''type'', JStr ''error''), (''message_id'', JStr message_id), (''payload'', JObj [(''code'', JStr code), (''message'', JStr msg)])]"

fun parse_ids :: "string list \<Rightarrow> int list option" where
  "parse_ids [] = Some []"
| "parse_ids (s # ss) = (case int_of_str s of None \<Rightarrow> None | Some i \<Rightarrow> map_option ((#) i) (parse_ids ss))"

definition answer_ids :: "AnswerSubmitPayload \<Rightarrow> (int \<times> int \<times> int list) option" where
  "answer_ids p =
     (case int_of_str (p_match_id p) of None \<Rightarrow> None
      | Some m \<Rightarrow> (case int_of_str (p_match_question_id p) of None \<Rightarrow> None
          | Some q \<Rightarrow> map_option (\<lambda>ids. (m, q, ids)) (parse_ids (p_selected_option_ids p))))"

definition json_id :: "json \<Rightarrow> string" where
  "json_id j = (case j of JInt i \<Rightarrow> int_str i | JStr s \<Rightarrow> s | _ \<Rightarrow> '''')"

definition accepted_frame :: "string \<Rightarrow> answer_response \<Rightarrow> json" where
  "accepted_frame message_id r =
     JObj [(''type'', JStr ''answer.accepted''), (''message_id'', JStr message_id),
           (''payload'', JObj [(''submission_id'', JStr (json_id (submission_id r))), (''accepted'', JBool (accepted r)),
              (''score_awarded'', JInt (resp_score_awarded r)), (''response_time_ms'', JInt (resp_response_time_ms r))])]"

definition ws_submit_answer ::
  "time \<Rightarrow> time \<Rightarrow> string \<Rightarrow> AnswerSubmitPayload \<Rightarrow> WebSocketConnection \<Rightarrow> json list handler" where
  "ws_submit_answer now now2 message_id payload conn w =
     (case answer_ids payload of
        None \<Rightarrow> (Inr [reply_error message_id ''VALIDATION_ERROR'' ''invalid id in payload''], w)
      | Some (match_id, match_question_id, selected_ids) \<Rightarrow>
          (case submit_answer now now2 match_id (participant_id conn)
                  \<lparr>req_match_question_id = match_question_id, req_selected_option_ids = selected_ids\<rparr> message_id w of
             (Inl (AuthError code status msg), w) \<Rightarrow> (Inr [reply_error message_id code msg], w)
           | (Inl (PyError e), w) \<Rightarrow> (Inl (PyError e), w)
           | (Inr r, w) \<Rightarrow> (Inr [accepted_frame message_id r], w)))"

definition host_message :: "time \<Rightarrow> WebSocketConnection \<Rightarrow> json list handler" where
  "host_message now conn w =
     (if \<not> is_host conn then (Inr [error_frame ''FORBIDDEN'' ''host-only message'' None], w)
      else let ((allowed, retry_after_ms), w) = host_rate_check now (participant_id conn) w
           in if \<not> allowed then (Inr [error_frame ''RATE_LIMITED'' ''host message rate exceeded'' (Some retry_after_ms)], w)
              else (Inr [error_frame ''NOT_IMPLEMENTED'' ''use REST host-control endpoints'' None], w))"

fun ws_dispatch :: "time \<Rightarrow> time \<Rightarrow> ClientMessage \<Rightarrow> WebSocketConnection \<Rightarrow> json list handler" where
  "ws_dispatch now now2 (HeartbeatMessage message_id last_seen_event_id) conn w =
     (Inr [JObj [(''type'', JStr ''room.heartbeat.ack''), (''message_id'', opt_str message_id),
        (''payload'', JObj [(''server_now'', JTime now), (''last_seen_event_id'', opt_str last_seen_event_id)])]], w)"
| "ws_dispatch now now2 (AnswerSubmitMessage message_id payload) conn w =
     (let (ok, w) = answer_rate_check now (participant_id conn) (p_match_question_id payload) w
      in if \<not> ok then (Inr [error_frame ''RATE_LIMITED'' ''answer attempts exceeded'' None], w)
         else ws_submit_answer now now2 message_id payload conn w)"
| "ws_dispatch now now2 (HostQuestionNextMessage message_id position) conn w = host_message now conn w"
| "ws_dispatch now now2 (HostMatchPauseMessage message_id reason) conn w = host_message now conn w"

datatype parsed_frame = Parsed ClientMessage | InvalidFrame | MalformedFrame

text \<open>The body of the receive loop for one text frame.\<close>

definition ws_receive ::
  "(string \<Rightarrow> parsed_frame) \<Rightarrow> time \<Rightarrow> time \<Rightarrow> string \<Rightarrow> WebSocketConnection \<Rightarrow> json list handler" where
  "ws_receive validate_json now now2 raw conn w =
     (let ((allowed, retry_after_ms), w) = ws_rate_check now (conn_id conn) w
      in if \<not> allowed then (Inr [error_frame ''RATE_LIMITED'' ''ws message rate exceeded'' (Some retry_after_ms)], w)
         else case validate_json raw of
           InvalidFrame \<Rightarrow> (Inr [error_frame ''VALIDATION_ERROR'' ''invalid message'' None], w)
         | MalformedFrame \<Rightarrow> (Inr [error_frame ''VALIDATION_ERROR'' ''malformed json'' None], w)
         | Parsed message \<Rightarrow> ws_dispatch now now2 message conn w)"

section \<open>Heartbeat watchdog\<close>

definition POLL_INTERVAL :: time where "POLL_INTERVAL = 5 * 1000000"

text \<open>
  The first \<open>n\<close> turns of the loop, started at \<open>start\<close>; \<open>last_seen t\<close> is the instant of the last frame as of \<open>t\<close>.  The
  result is the instant of the 4001 close.
\<close>

definition heartbeat_watchdog :: "(time \<Rightarrow> time) \<Rightarrow> time \<Rightarrow> nat \<Rightarrow> time option" where
  "heartbeat_watchdog last_seen start n =
     find (\<lambda>t. t - last_seen t > HEARTBEAT_TIMEOUT) (map (\<lambda>k. start + POLL_INTERVAL * int k) [1 ..< Suc n])"

section \<open>Interface: a counter that forgets\<close>

text \<open>
  A counter per key that starts a window of \<open>ttl\<close> microseconds with its first bump and is gone when the window is over.
  The answer limits of the WebSocket endpoint and of the REST endpoint rely on it.
\<close>

locale attempt_window =
  fixes bump :: "time \<Rightarrow> 'k \<Rightarrow> 's \<Rightarrow> int \<times> 's"
    and live :: "'s \<Rightarrow> time \<Rightarrow> 'k \<Rightarrow> int"
    and ttl :: int
  assumes bump_value: "fst (bump now k s) = live s now k + 1"
    and bump_first: "live s now k = 0 \<Longrightarrow> live (snd (bump now k s)) t k = (if t < now + ttl then 1 else 0)"
    and bump_again: "0 < live s now k \<Longrightarrow> live (snd (bump now k s)) t k = (if 0 < live s t k then live s t k + 1 else live s t k)"
    and bump_other: "k' \<noteq> k \<Longrightarrow> live (snd (bump now k s)) t k' = live s t k'"
begin

primrec bumps :: "'k \<Rightarrow> time list \<Rightarrow> 's \<Rightarrow> int list \<times> 's" where
  "bumps k [] s = ([], s)"
| "bumps k (t # ts) s = (let (v, s) = bump t k s; (vs, s) = bumps k ts s in (v # vs, s))"

lemma bumps_running:
  assumes "\<forall>t \<in> set ts. live s t k = n" "0 < n"
  shows "fst (bumps k ts s) = map (\<lambda>i. n + 1 + int i) [0 ..< length ts]"
  using assms
proof (induction ts arbitrary: s n)
  case (Cons t ts)
  have "\<forall>t' \<in> set ts. live (snd (bump t k s)) t' k = n + 1" using Cons.prems by (simp add: bump_again)
  from Cons.IH [OF this] Cons.prems show ?case
    by (simp add: split_beta Let_def bump_value upt_conv_Cons map_Suc_upt [symmetric] del: upt_Suc map_Suc_upt) 
qed simp

text \<open>Attempts inside one window count 1, 2, 3, and so on.\<close>

lemma bumps_count:
  assumes "live s now k = 0" "\<forall>t \<in> set ts. t < now + ttl"
  shows "fst (bumps k (now # ts) s) = map (\<lambda>i. 1 + int i) [0 ..< Suc (length ts)]"
proof -
  have "\<forall>t \<in> set ts. live (snd (bump now k s)) t k = 1" using assms by (simp add: bump_first)
  from bumps_running [OF this] show ?thesis
    using assms(1) by (simp add: split_beta Let_def bump_value upt_conv_Cons map_Suc_upt [symmetric] del: upt_Suc map_Suc_upt)
qed

lemma bumps_within:
  assumes "live s now k = 0" "\<forall>t \<in> set ts. t < now + ttl" "0 \<le> limit"
  shows "map (\<lambda>v. v \<le> limit) (fst (bumps k (now # ts) s)) =
    replicate (min (nat limit) (Suc (length ts))) True @ replicate (Suc (length ts) - nat limit) False"
proof -
  have "map (\<lambda>i. 1 + int i \<le> limit) [0 ..< n] = replicate (min (nat limit) n) True @ replicate (n - nat limit) False" for n
    by (rule nth_equalityI) (use assms(3) in \<open>auto simp: nth_append\<close>)
  then show ?thesis unfolding bumps_count [OF assms(1,2)] by (simp add: comp_def del: upt_Suc)
qed

end

definition live_count :: "(string \<rightharpoonup> int \<times> time) \<Rightarrow> time \<Rightarrow> string \<Rightarrow> int" where
  "live_count m now key = (case m key of None \<Rightarrow> 0 | Some (n, expires) \<Rightarrow> if now < expires then n else 0)"

interpretation attempts: attempt_window "\<lambda>now key m. incr_expire now ttl key m" live_count "ttl * 1000000" for ttl
  by unfold_locales (auto simp: incr_expire_def live_count_def split: option.splits if_splits)

section \<open>Lemmas\<close>

primrec answer_checks :: "int \<Rightarrow> string \<Rightarrow> time list \<Rightarrow> world \<Rightarrow> bool list \<times> world" where
  "answer_checks pid q [] w = ([], w)"
| "answer_checks pid q (t # ts) w =
     (let (ok, w) = answer_rate_check t pid q w; (oks, w) = answer_checks pid q ts w in (ok # oks, w))"

abbreviation answer_key :: "int \<Rightarrow> string \<Rightarrow> string" where
  "answer_key pid q \<equiv> ''rate:ws:answer:'' @ int_str pid @ '':'' @ q"

lemma answer_checks_bumps:
  "fst (answer_checks pid q ts w) =
     map (\<lambda>v. v \<le> ANSWER_RATE_LIMIT) (fst (attempts.bumps ANSWER_RATE_TTL_S (answer_key pid q) ts (attempt_counts (wredis w))))"
  by (induction ts arbitrary: w) (simp_all add: answer_rate_check_def Let_def split_beta)

lemma authenticate_issued:
  assumes "jwt_ok L" "now \<le> t" "t < (now_ts now + PARTICIPANT_TTL_SEC) * 1000000"
  shows "authenticate L cfg t (create_participant_token L cfg now code pid nick) code' d =
    (if code' \<noteq> code then Inl ''room mismatch''
     else case get_room_by_code d code of None \<Rightarrow> Inl ''room not found'' | Some room \<Rightarrow> Inr (pid, nick, pid = rm_host_id room))"
  using assms jwt_okD(1) [OF assms(1) claims_plain(3)]
  by (simp add: authenticate_def create_tokens decode_issued [OF _ _ claims_window(5,6)] claim_truthy_def Let_def split: option.splits)

lemma join_room_token:
  assumes "join_room tok pol now ip code nick uid w = (Inr j, w')"
  shows "jr_participant_token j = tok code (jr_participant_id j) nick \<and> jr_code j = code"
proof -
  obtain room w1 where r: "get_room_by_code (wdb w) code = Some room" and j: "join_admitted tok pol now room code nick uid w1 = (Inr j, w')"
    using assms by (auto simp: join_room_def Let_def split_beta join_gate_Inr split: if_splits sum.splits)
  have "rm_code room = code" using find_Some_simps(1) [OF r] by simp
  with j show ?thesis by (auto simp: join_admitted_def Let_def split_beta split: option.splits)
qed

lemma build_snapshot_room: "get_room_by_code (wdb w) code = Some room \<Longrightarrow> \<exists>s w'. build_snapshot now code w = (Inr s, w')"
  by (auto simp: build_snapshot_def Let_def split_beta split: option.splits)

lemma server_message_frames:
  "server_message (error_frame code msg retry)" "server_message (reply_error i code msg)" "server_message (accepted_frame i r)"
  by (auto simp: server_message_def ServerMessage_def message_schemas message_model_def payload_schemas strict_model_def error_frame_def
      reply_error_def accepted_frame_def split: option.splits)

lemma server_message_ack:
  "server_message (JObj [(''type'', JStr ''room.heartbeat.ack''), (''message_id'', opt_str i),
     (''payload'', JObj [(''server_now'', JTime t), (''last_seen_event_id'', opt_str e)])])"
  by (auto simp: server_message_def ServerMessage_def message_schemas message_model_def payload_schemas strict_model_def opt_str_def
      split: option.splits)

lemma host_message_frames: "host_message now conn w = (Inr fs, w') \<Longrightarrow> f \<in> set fs \<Longrightarrow> server_message f"
  by (auto simp: host_message_def Let_def split_beta server_message_frames split: if_splits)

lemma ws_submit_answer_frames: "ws_submit_answer now now2 i p conn w = (Inr fs, w') \<Longrightarrow> f \<in> set fs \<Longrightarrow> server_message f"
  by (auto simp: ws_submit_answer_def server_message_frames split: option.splits prod.splits sum.splits error.splits)

lemma ws_dispatch_frames: "ws_dispatch now now2 m conn w = (Inr fs, w') \<Longrightarrow> f \<in> set fs \<Longrightarrow> server_message f"
  by (cases m) (auto simp: server_message_ack server_message_frames Let_def split_beta
      split: if_splits dest: host_message_frames ws_submit_answer_frames)

lemma first_late_poll:
  assumes "start \<le> s + HEARTBEAT_TIMEOUT"
  shows "\<exists>k \<ge> 1. s + HEARTBEAT_TIMEOUT < start + POLL_INTERVAL * int k \<and> start + POLL_INTERVAL * int k \<le> s + HEARTBEAT_TIMEOUT + POLL_INTERVAL \<and>
    POLL_INTERVAL * int k \<le> s + HEARTBEAT_TIMEOUT + POLL_INTERVAL - start"
proof -
  define d where "d = s + HEARTBEAT_TIMEOUT - start"
  have d: "0 \<le> d" using assms by (simp add: d_def)
  define k where "k = Suc (nat (d div POLL_INTERVAL))"
  have "int k = d div POLL_INTERVAL + 1" using d by (simp add: k_def POLL_INTERVAL_def pos_imp_zdiv_nonneg_iff)
  then have "POLL_INTERVAL * int k = d - d mod POLL_INTERVAL + POLL_INTERVAL"
    using minus_mod_eq_mult_div [of d POLL_INTERVAL] by (simp add: distrib_left)
  moreover have "0 \<le> d mod POLL_INTERVAL" "d mod POLL_INTERVAL < POLL_INTERVAL" by (simp_all add: POLL_INTERVAL_def)
  ultimately show ?thesis by (intro exI [of _ k]) (auto simp: k_def d_def)
qed

section \<open>Properties\<close>

text \<open>
  Every frame the endpoint sends back conforms to the published protocol.  Whatever a client sends, whatever the
  limits and the service answer, the frames returned to it validate against the server messages of \<^verbatim>\<open>messages.py\<close>.
\<close>
theorem ws_frames_conform:
  assumes "ws_receive validate_json now now2 raw conn w = (Inr fs, w')" "f \<in> set fs"
  shows "server_message f"
  using assms
  by (auto simp: ws_receive_def Let_def split_beta server_message_frames split: if_splits parsed_frame.splits dest: ws_dispatch_frames)


text \<open>
  The watchdog closes a silent connection after more than 60 and at most 65 seconds.  If the last frame came at \<open>s\<close> and
  earlier gaps stayed within the timeout, the loop, run long enough, closes at an instant more than 60 and at most 65
  seconds after \<open>s\<close>, and whenever it closes the connection was silent for more than 60 seconds.
\<close>
theorem watchdog_bounds:
  assumes "start \<le> s + HEARTBEAT_TIMEOUT" "\<forall>t \<ge> s. last_seen t = s" "\<forall>t < s. t - last_seen t \<le> HEARTBEAT_TIMEOUT"
    and "s + HEARTBEAT_TIMEOUT + POLL_INTERVAL - start \<le> POLL_INTERVAL * int n"
  shows "\<exists>t. heartbeat_watchdog last_seen start n = Some t \<and> s + 60000000 < t \<and> t \<le> s + 65000000 \<and> 60000000 < t - last_seen t"
proof -
  define polls where "polls = map (\<lambda>k. start + POLL_INTERVAL * int k) [1 ..< Suc n]"
  obtain k where k: "k \<ge> 1" "s + HEARTBEAT_TIMEOUT < start + POLL_INTERVAL * int k"
      "start + POLL_INTERVAL * int k \<le> s + HEARTBEAT_TIMEOUT + POLL_INTERVAL" "POLL_INTERVAL * int k \<le> s + HEARTBEAT_TIMEOUT + POLL_INTERVAL - start"
    using first_late_poll [OF assms(1)] by blast
  have late: "t - last_seen t > HEARTBEAT_TIMEOUT \<longleftrightarrow> s + HEARTBEAT_TIMEOUT < t" for t
    using assms(2) [rule_format, of t] assms(3) [rule_format, of t] by (cases "s \<le> t") (auto simp: HEARTBEAT_TIMEOUT_def)
  have "k \<le> n" using k(4) assms(4) by (simp add: POLL_INTERVAL_def)
  then have "start + POLL_INTERVAL * int k \<in> set polls" using k(1) by (auto simp: polls_def)
  then obtain t where t: "find (\<lambda>t. s + HEARTBEAT_TIMEOUT < t) polls = Some t" using k(2) by (metis find_None_iff2 not_None_eq)
  obtain i where i: "i < length polls" "t = polls ! i" "s + HEARTBEAT_TIMEOUT < t" "\<forall>j < i. \<not> s + HEARTBEAT_TIMEOUT < polls ! j"
    using t by (auto simp: find_Some_iff)
  have nth: "polls ! j = start + POLL_INTERVAL * int (Suc j)" if "j < length polls" for j using that by (simp add: polls_def del: upt_Suc)
  have "i \<le> k - 1"
  proof (rule ccontr)
    assume "\<not> i \<le> k - 1"
    then have "polls ! (k - 1) = start + POLL_INTERVAL * int k" using nth [of "k - 1"] i(1) k(1) by simp
    with i(4) k(2) \<open>\<not> i \<le> k - 1\<close> show False by (metis not_le)
  qed
  then have "t \<le> start + POLL_INTERVAL * int k" using nth [OF i(1)] i(2) k(1) by (simp add: POLL_INTERVAL_def)
  then have "t \<le> s + 65000000" "s + 60000000 < t" using k(3) i(3) by (simp_all add: HEARTBEAT_TIMEOUT_def POLL_INTERVAL_def)
  moreover have "heartbeat_watchdog last_seen start n = Some t" using t unfolding heartbeat_watchdog_def late polls_def .
  moreover have "60000000 < t - last_seen t" using late [of t] i(3) by (simp add: HEARTBEAT_TIMEOUT_def)
  ultimately show ?thesis by blast
qed

theorem ws_frames_conform_witness: "\<exists>fs w'. fs \<noteq> [] \<and> (\<forall>f \<in> set fs. server_message f) \<and>
   ws_receive (\<lambda>_. Parsed (HostMatchPauseMessage None None)) 0 0 ''x'' (demo_conn 3) (empty_world int) = (Inr fs, w')"
proof -
  let ?fs = "[error_frame ''FORBIDDEN'' ''host-only message'' None]"
  have r: "\<exists>w'. ws_receive (\<lambda>_. Parsed (HostMatchPauseMessage None None)) 0 0 ''x'' (demo_conn 3) (empty_world int) = (Inr ?fs, w')"
    by (simp add: ws_receive_def ws_rate_check_def acquire_def live_bucket_def rate_limit_lua_def refill_def WS_RATE_CAPACITY_def Let_def
        split_beta empty_world_def empty_rstate_def host_message_def demo_conn_def)
  then obtain w' where "ws_receive (\<lambda>_. Parsed (HostMatchPauseMessage None None)) 0 0 ''x'' (demo_conn 3) (empty_world int) = (Inr ?fs, w')"
    by blast
  with ws_frames_conform [OF this] show ?thesis by blast
qed

theorem watchdog_bounds_witness:
  "\<exists>t. heartbeat_watchdog (\<lambda>t. 3000000) 0 20 = Some t \<and> 63000000 < t \<and> t \<le> 68000000"
  using watchdog_bounds [of 0 3000000 "\<lambda>t. 3000000" 20] by (auto simp: HEARTBEAT_TIMEOUT_def POLL_INTERVAL_def)


end
