(* ===== verification/StreamWorker.thy ===== *)
theory StreamWorker
  imports AnswerSubmit Moderation OutboxPublisher
begin

text \<open>
  src/workers/stream_worker/app: the consumer that writes the events to ClickHouse.  \<open>worker\<close> holds what
  the process and the services behind it keep: the dedupe keys and the analytics cache in Redis, the row
  buffers of the client, the rows ClickHouse has got, the committed offsets.  The services are arguments
  (\<open>infra\<close>): the outcome of the n-th Redis call and of the n-th ClickHouse insert, and the two
  aggregate queries, whose \<open>None\<close> is an exception.  After an error a write may have been applied or not.
  Pydantic is the argument \<open>validators\<close>; what the code relies on is \<open>pydantic_ok\<close>.  A message is
  the JSON value of its bytes, \<open>None\<close> when they are not JSON.
\<close>

section \<open>Envelope\<close>

record Envelope =
  env_event_id :: int
  env_event_type :: string
  env_aggregate_type :: string
  env_aggregate_id :: int
  env_occurred_at :: time
  env_producer :: string
  env_schema_version :: int
  env_payload :: "(string \<times> json) list"

record validators =
  v_str :: "json \<Rightarrow> string option"
  v_int :: "json \<Rightarrow> int option"
  v_datetime :: "json \<Rightarrow> time option"
  v_dict :: "json \<Rightarrow> (string \<times> json) list option"

definition pydantic_ok :: "validators \<Rightarrow> bool" where
  "pydantic_ok V \<longleftrightarrow> (\<forall>s. v_str V (JStr s) = Some s) \<and> (\<forall>i. v_int V (JInt i) = Some i) \<and>
     (\<forall>t. v_datetime V (JTime t) = Some t) \<and> (\<forall>kvs. v_dict V (JObj kvs) = Some kvs)"

definition ENVELOPE_FIELDS :: "string list" where
  "ENVELOPE_FIELDS = [''event_id'', ''event_type'', ''aggregate_type'', ''aggregate_id'', ''occurred_at'', ''producer'',
     ''schema_version'', ''payload'']"

text \<open>
  The \<^verbatim>\<open>before\<close> validator of the two ids: a \<^verbatim>\<open>ValueError\<close> becomes a validation error, a
  \<^verbatim>\<open>TypeError\<close> passes through \<^verbatim>\<open>model_validate\<close>.
\<close>

definition coerce_int :: "json option \<Rightarrow> int_error + int" where
  "coerce_int v = (case v of None \<Rightarrow> Inl ValueError | Some j \<Rightarrow> int_of_json j)"

definition parse_envelope :: "validators \<Rightarrow> json option \<Rightarrow> int_error + Envelope" where
  "parse_envelope V raw =
     (case raw of
        Some (JObj kvs) \<Rightarrow>
          (let f = map_of kvs; eid = coerce_int (f ''event_id''); aid = coerce_int (f ''aggregate_id'') in
           if eid = Inl TypeError \<or> aid = Inl TypeError then Inl TypeError
           else
             case (eid, Option.bind (f ''event_type'') (v_str V), Option.bind (f ''aggregate_type'') (v_str V), aid,
                   Option.bind (f ''occurred_at'') (v_datetime V), Option.bind (f ''producer'') (v_str V),
                   Option.bind (f ''schema_version'') (v_int V),
                   (case f ''payload'' of None \<Rightarrow> Some [] | Some j \<Rightarrow> v_dict V j)) of
               (Inr i, Some et, Some ag, Inr a, Some t, Some p, Some sv, Some pl) \<Rightarrow>
                 if set (map fst kvs) \<subseteq> set ENVELOPE_FIELDS
                 then Inr \<lparr>env_event_id = i, env_event_type = et, env_aggregate_type = ag, env_aggregate_id = a,
                        env_occurred_at = t, env_producer = p, env_schema_version = sv, env_payload = pl\<rparr>
                 else Inl ValueError
             | _ \<Rightarrow> Inl ValueError)
      | _ \<Rightarrow> Inl ValueError)"

definition CURRENT_SCHEMA_VERSION :: int where "CURRENT_SCHEMA_VERSION = 1"

section \<open>ClickHouse client\<close>

record raw_row =
  rr_event_id :: int
  rr_event_type :: string
  rr_aggregate_type :: string
  rr_aggregate_id :: int
  rr_room_id :: "int option"
  rr_match_id :: "int option"
  rr_participant_id :: "int option"
  rr_question_id :: "int option"
  rr_occurred_at :: time
  rr_payload :: json

record answer_row =
  ar_event_id :: int
  ar_match_id :: int
  ar_room_id :: int
  ar_participant_id :: int
  ar_question_id :: int
  ar_is_correct :: int
  ar_score_awarded :: int
  ar_response_time_ms :: int
  ar_occurred_at :: time

datatype ch_row = RawRow raw_row | AnswerRow answer_row

text \<open>Per question: id, answers, right answers, average, median, 95th percentile.  The last three may be NULL.\<close>

type_synonym accuracy_result = "(int \<times> int \<times> int \<times> rat option \<times> rat option \<times> rat option) list"

type_synonym timing_result = "rat option \<times> rat option \<times> rat option \<times> rat option"

record infra =
  redis_net :: "nat \<Rightarrow> send_result"
  ch_net :: "nat \<Rightarrow> send_result"
  accuracy_q :: "(string \<times> ch_row) list \<Rightarrow> int \<Rightarrow> accuracy_result option"
  rtd_q :: "(string \<times> ch_row) list \<Rightarrow> int \<Rightarrow> timing_result list option"
  commit_ok :: bool

record worker =
  seen :: "int \<Rightarrow> time option"
  analytics_cache :: "int \<Rightarrow> (json \<times> time) option"
  redis_calls :: nat
  buffers :: "(string \<times> ch_row list) list"
  last_flush :: "(string \<times> time) list"
  ch_tables :: "(string \<times> ch_row) list"
  ch_calls :: nat
  offsets :: "((string \<times> nat) \<times> nat) list"

definition BATCH_ROWS :: nat where "BATCH_ROWS = 100"
definition FLUSH_INTERVAL :: time where "FLUSH_INTERVAL = 500000"

definition do_insert :: "infra \<Rightarrow> string \<Rightarrow> ch_row list \<Rightarrow> worker \<Rightarrow> bool \<times> worker" where
  "do_insert I table rows w =
     (if rows = [] then (True, w)
      else (ch_net I (ch_calls w) = Acked,
            w\<lparr>ch_calls := Suc (ch_calls w),
              ch_tables := ch_tables w @ (if ch_net I (ch_calls w) = FailedLost then [] else map (Pair table) rows)\<rparr>))"

definition insert_many :: "infra \<Rightarrow> string \<Rightarrow> ch_row list \<Rightarrow> time \<Rightarrow> worker \<Rightarrow> bool \<times> worker" where
  "insert_many I table rows now w =
     (let (buf, w) = (case map_of (buffers w) table of
            None \<Rightarrow> ([], w\<lparr>last_flush := AList.update table now (last_flush w)\<rparr>) | Some b \<Rightarrow> (b, w));
          buf = buf @ rows
      in if BATCH_ROWS \<le> length buf
         then do_insert I table buf (w\<lparr>buffers := AList.update table [] (buffers w), last_flush := AList.update table now (last_flush w)\<rparr>)
         else (True, w\<lparr>buffers := AList.update table buf (buffers w)\<rparr>))"

fun insert_all :: "infra \<Rightarrow> (string \<times> ch_row list) list \<Rightarrow> worker \<Rightarrow> bool \<times> worker" where
  "insert_all I [] w = (True, w)"
| "insert_all I ((table, rows) # rest) w =
     (let (ok, w) = do_insert I table rows w in if ok then insert_all I rest w else (False, w))"

text \<open>The buffers \<open>due\<close> are emptied first, under the lock, and inserted afterwards.\<close>

definition drain :: "infra \<Rightarrow> (string \<Rightarrow> bool) \<Rightarrow> time \<Rightarrow> worker \<Rightarrow> bool \<times> worker" where
  "drain I due now w =
     (let to_flush = filter (\<lambda>(t, b). b \<noteq> [] \<and> due t) (buffers w);
          w = w\<lparr>buffers := map (\<lambda>(t, b). (t, if due t then [] else b)) (buffers w),
                last_flush := fold (\<lambda>(t, _). AList.update t now) to_flush (last_flush w)\<rparr>
      in insert_all I to_flush w)"

definition flush_all :: "infra \<Rightarrow> time \<Rightarrow> worker \<Rightarrow> bool \<times> worker" where
  "flush_all I = drain I (\<lambda>_. True)"

definition maybe_flush :: "infra \<Rightarrow> time \<Rightarrow> worker \<Rightarrow> bool \<times> worker" where
  "maybe_flush I now w =
     drain I (\<lambda>t. FLUSH_INTERVAL \<le> now - (case map_of (last_flush w) t of None \<Rightarrow> 0 | Some l \<Rightarrow> l)) now w"

section \<open>Handlers\<close>

definition EVENTS_RAW_TABLE :: string where "EVENTS_RAW_TABLE = ''livequiz.events_raw''"
definition ANSWER_EVENTS_TABLE :: string where "ANSWER_EVENTS_TABLE = ''livequiz.answer_events''"

text \<open>\<open>payload_get\<close> is \<^verbatim>\<open>payload.get(k)\<close>.\<close>

definition payload_get :: "Envelope \<Rightarrow> string \<Rightarrow> json" where
  "payload_get env k = json_get (JObj (env_payload env)) k"

definition opt_int :: "json \<Rightarrow> int option" where
  "opt_int v = (if v = JNull \<or> v = JStr [] then None else case int_of_json v of Inl _ \<Rightarrow> None | Inr i \<Rightarrow> Some i)"

definition envelope_to_raw_row :: "Envelope \<Rightarrow> raw_row" where
  "envelope_to_raw_row env =
     \<lparr>rr_event_id = env_event_id env, rr_event_type = env_event_type env, rr_aggregate_type = env_aggregate_type env,
      rr_aggregate_id = env_aggregate_id env, rr_room_id = opt_int (payload_get env ''room_id''),
      rr_match_id = opt_int (payload_get env ''match_id''), rr_participant_id = opt_int (payload_get env ''participant_id''),
      rr_question_id = opt_int (payload_get env ''question_id''), rr_occurred_at = env_occurred_at env,
      rr_payload = JObj (env_payload env)\<rparr>"

definition insert_raw :: "infra \<Rightarrow> time \<Rightarrow> Envelope \<Rightarrow> worker \<Rightarrow> bool \<times> worker" where
  "insert_raw I now env = insert_many I EVENTS_RAW_TABLE [RawRow (envelope_to_raw_row env)] now"

text \<open>\<^verbatim>\<open>int(payload.get(k, 0))\<close> with the exceptions caught.\<close>

definition int_or_zero :: "Envelope \<Rightarrow> string \<Rightarrow> int" where
  "int_or_zero env k =
     (case map_of (env_payload env) k of None \<Rightarrow> 0 | Some j \<Rightarrow> (case int_of_json j of Inl _ \<Rightarrow> 0 | Inr i \<Rightarrow> i))"

definition answer_fact :: "Envelope \<Rightarrow> answer_row option" where
  "answer_fact env =
     (case (opt_int (payload_get env ''match_id''), opt_int (payload_get env ''room_id''),
            opt_int (payload_get env ''participant_id''), opt_int (payload_get env ''question_id'')) of
        (Some m, Some r, Some p, Some q) \<Rightarrow>
          Some \<lparr>ar_event_id = env_event_id env, ar_match_id = m, ar_room_id = r, ar_participant_id = p, ar_question_id = q,
            ar_is_correct = (if truthy (payload_get env ''is_correct'') then 1 else 0),
            ar_score_awarded = int_or_zero env ''score_awarded'',
            ar_response_time_ms = max 0 (int_or_zero env ''response_time_ms''), ar_occurred_at = env_occurred_at env\<rparr>
      | _ \<Rightarrow> None)"

definition h_answer :: "infra \<Rightarrow> time \<Rightarrow> Envelope \<Rightarrow> worker \<Rightarrow> bool \<times> worker" where
  "h_answer I now env w =
     (let (ok, w) = insert_raw I now env w in
      if \<not> ok then (False, w)
      else case answer_fact env of None \<Rightarrow> (True, w)
           | Some row \<Rightarrow> insert_many I ANSWER_EVENTS_TABLE [AnswerRow row] now w)"

definition h_room :: "infra \<Rightarrow> time \<Rightarrow> Envelope \<Rightarrow> worker \<Rightarrow> bool \<times> worker" where
  "h_room I now env w = insert_raw I now env w"

definition h_moderation :: "infra \<Rightarrow> time \<Rightarrow> Envelope \<Rightarrow> worker \<Rightarrow> bool \<times> worker" where
  "h_moderation I now env w = insert_raw I now env w"

definition int_or_0 :: "rat option \<Rightarrow> json" where
  "int_or_0 x = JInt (case x of None \<Rightarrow> 0 | Some r \<Rightarrow> py_int r)"

definition accuracy_pct :: "int \<Rightarrow> int \<Rightarrow> rat" where
  "accuracy_pct correct tot = (if tot = 0 then 0 else py_round1 (fl64 (fl64 (100 * of_int correct) / of_int tot)))"

definition accuracy_entry :: "int \<times> int \<times> int \<times> rat option \<times> rat option \<times> rat option \<Rightarrow> json" where
  "accuracy_entry = (\<lambda>(question_id, tot, correct, avg_ms, p50_ms, p95_ms).
     JObj [(''question_id'', JStr (int_str question_id)), (''total_answers'', JInt tot), (''correct_answers'', JInt correct),
           (''accuracy_percent'', JFloat (accuracy_pct correct tot)), (''avg_response_ms'', int_or_0 avg_ms),
           (''p50_response_ms'', int_or_0 p50_ms), (''p95_response_ms'', int_or_0 p95_ms)])"

definition snapshot_json :: "int \<Rightarrow> accuracy_result \<Rightarrow> timing_result list \<Rightarrow> json" where
  "snapshot_json match_id rows rtd_rows =
     (let (p50, p95, p99, avg) = (case rtd_rows of [] \<Rightarrow> (Some 0, Some 0, Some 0, Some 0) | r # _ \<Rightarrow> r) in
      JObj [(''match_id'', JStr (int_str match_id)), (''final_leaderboard'', JArr []),
            (''question_accuracy'', JArr (map accuracy_entry rows)),
            (''response_time_distribution'', JObj [(''p50_ms'', int_or_0 p50), (''p95_ms'', int_or_0 p95),
              (''p99_ms'', int_or_0 p99), (''avg_ms'', int_or_0 avg)]),
            (''most_missed_questions'', JArr (map accuracy_entry
              (take 5 (sort_key (\<lambda>(_, tot, correct, _). accuracy_pct correct tot) rows)))),
            (''total_answers'', JInt (sum_list (map (\<lambda>(_, tot, _). tot) rows))), (''source'', JStr ''clickhouse'')])"

definition compute_snapshot :: "infra \<Rightarrow> time \<Rightarrow> int \<Rightarrow> worker \<Rightarrow> json option \<times> worker" where
  "compute_snapshot I now match_id w =
     (let (ok, w) = flush_all I now w in
      (if \<not> ok then None
       else Option.bind (accuracy_q I (ch_tables w) match_id) (\<lambda>rows.
            Option.bind (rtd_q I (ch_tables w) match_id) (\<lambda>rtd_rows. Some (snapshot_json match_id rows rtd_rows))), w))"

definition CACHE_TTL_SECONDS :: int where "CACHE_TTL_SECONDS = 3600"

definition cache_set :: "infra \<Rightarrow> time \<Rightarrow> int \<Rightarrow> json \<Rightarrow> worker \<Rightarrow> worker" where
  "cache_set I now match_id snapshot w =
     w\<lparr>redis_calls := Suc (redis_calls w),
       analytics_cache := (if redis_net I (redis_calls w) = FailedLost then analytics_cache w
         else (analytics_cache w)(match_id \<mapsto> (snapshot, now + CACHE_TTL_SECONDS * 1000000)))\<rparr>"

definition finished_match_id :: "Envelope \<Rightarrow> int" where
  "finished_match_id env =
     (case opt_int (payload_get env ''match_id'') of None \<Rightarrow> env_aggregate_id env
      | Some i \<Rightarrow> if i = 0 then env_aggregate_id env else i)"

definition h_match :: "infra \<Rightarrow> time \<Rightarrow> Envelope \<Rightarrow> worker \<Rightarrow> bool \<times> worker" where
  "h_match I now env w =
     (let (ok, w) = insert_raw I now env w in
      if \<not> ok then (False, w)
      else if env_event_type env \<noteq> ''MatchFinished'' then (True, w)
      else let (snapshot, w) = compute_snapshot I now (finished_match_id env) w
           in case snapshot of None \<Rightarrow> (True, w) | Some j \<Rightarrow> (True, cache_set I now (finished_match_id env) j w))"

section \<open>One message\<close>

definition ROOM_EVENT_TYPES :: "string list" where "ROOM_EVENT_TYPES = [''RoomCreated'', ''PlayerJoined'', ''PlayerLeft'']"
definition MATCH_EVENT_TYPES :: "string list" where
  "MATCH_EVENT_TYPES = [''MatchStarted'', ''QuestionStarted'', ''QuestionClosed'', ''MatchFinished'']"
definition ANSWER_EVENT_TYPES :: "string list" where "ANSWER_EVENT_TYPES = [''AnswerSubmitted'']"
definition MODERATION_EVENT_TYPES :: "string list" where
  "MODERATION_EVENT_TYPES = [''ContentReported'', ''ContentFlagged'', ''ModerationDecisionMade'']"

definition dispatch :: "infra \<Rightarrow> time \<Rightarrow> Envelope \<Rightarrow> worker \<Rightarrow> bool \<times> worker" where
  "dispatch I now env w =
     (if env_event_type env \<in> set ROOM_EVENT_TYPES then h_room I now env w
      else if env_event_type env \<in> set MATCH_EVENT_TYPES then h_match I now env w
      else if env_event_type env \<in> set ANSWER_EVENT_TYPES then h_answer I now env w
      else if env_event_type env \<in> set MODERATION_EVENT_TYPES then h_moderation I now env w
      else h_room I now env w)"

definition SEEN_TTL_SECONDS :: int where "SEEN_TTL_SECONDS = 86400"

definition seen_get :: "(int \<Rightarrow> time option) \<Rightarrow> time \<Rightarrow> int \<Rightarrow> unit option" where
  "seen_get m now event_id = (case m event_id of None \<Rightarrow> None | Some expires \<Rightarrow> if now < expires then Some () else None)"

definition claim :: "(int \<Rightarrow> time option) \<Rightarrow> time \<Rightarrow> int \<Rightarrow> bool \<times> (int \<Rightarrow> time option)" where
  "claim m now event_id =
     (case seen_get m now event_id of Some _ \<Rightarrow> (False, m)
      | None \<Rightarrow> (True, m(event_id \<mapsto> now + SEEN_TTL_SECONDS * 1000000)))"

interpretation seen_store: once_store seen_get "\<lambda>m now k (_ :: unit). claim m now k" "SEEN_TTL_SECONDS * 1000000"
  by unfold_locales (auto simp: seen_get_def claim_def split: option.splits if_splits)

text \<open>\<open>Safe\<close> and \<open>Retry\<close> are the returns \<^verbatim>\<open>True\<close> and \<^verbatim>\<open>False\<close>; \<open>Crash\<close> is an exception nothing catches.\<close>

datatype outcome = Safe | Retry | Crash

definition handle_message :: "validators \<Rightarrow> infra \<Rightarrow> time \<Rightarrow> json option \<Rightarrow> worker \<Rightarrow> outcome \<times> worker" where
  "handle_message V I now raw w =
     (case parse_envelope V raw of
        Inl TypeError \<Rightarrow> (Crash, w)
      | Inl ValueError \<Rightarrow> (Safe, w)
      | Inr env \<Rightarrow>
        if env_schema_version env \<noteq> CURRENT_SCHEMA_VERSION then (Safe, w)
        else
          let net = redis_net I (redis_calls w); (first_time, m) = claim (seen w) now (env_event_id env);
              w = w\<lparr>redis_calls := Suc (redis_calls w), seen := (if net = FailedLost then seen w else m)\<rparr>
          in if net \<noteq> Acked then (Retry, w)
             else if \<not> first_time then (Safe, w)
             else let (ok, w) = dispatch I now env w in (if ok then Safe else Retry, w))"

section \<open>The poll loop\<close>

fun run_partition :: "validators \<Rightarrow> infra \<Rightarrow> time \<Rightarrow> (nat \<times> json option) list \<Rightarrow> nat option \<Rightarrow> worker \<Rightarrow> outcome \<times> nat option \<times> worker" where
  "run_partition V I now [] safe_offset w = (Safe, safe_offset, w)"
| "run_partition V I now ((offset, raw) # msgs) safe_offset w =
     (let (r, w) = handle_message V I now raw w in
      if r = Safe then run_partition V I now msgs (Some (offset + 1)) w else (r, safe_offset, w))"

fun run_records ::
  "validators \<Rightarrow> infra \<Rightarrow> time \<Rightarrow> ((string \<times> nat) \<times> (nat \<times> json option) list) list \<Rightarrow> ((string \<times> nat) \<times> nat) list \<Rightarrow> worker \<Rightarrow>
     outcome \<times> ((string \<times> nat) \<times> nat) list \<times> worker" where
  "run_records V I now [] safe_offsets w = (Safe, safe_offsets, w)"
| "run_records V I now ((tp, msgs) # records) safe_offsets w =
     (let (r, safe_offset, w) = run_partition V I now msgs None w;
          safe_offsets = (case safe_offset of None \<Rightarrow> safe_offsets | Some n \<Rightarrow> AList.update tp n safe_offsets)
      in if r = Safe then run_records V I now records safe_offsets w else (r, safe_offsets, w))"

text \<open>One turn of the loop on the records of a poll; \<open>False\<close> when the worker dies.\<close>

definition poll_cycle ::
  "validators \<Rightarrow> infra \<Rightarrow> time \<Rightarrow> ((string \<times> nat) \<times> (nat \<times> json option) list) list \<Rightarrow> worker \<Rightarrow> bool \<times> worker" where
  "poll_cycle V I now records w =
     (if records = [] then let (ok, w) = maybe_flush I now w in if ok then (True, w) else (False, snd (flush_all I now w))
      else
        let (r, safe_offsets, w) = run_records V I now records [] w in
        if r = Crash then (False, snd (flush_all I now w))
        else
          let (ok, w) = flush_all I now w in
          (True, if ok \<and> safe_offsets \<noteq> [] \<and> commit_ok I
                 then w\<lparr>offsets := fold (\<lambda>(tp, n). AList.update tp n) safe_offsets (offsets w)\<rparr> else w))"

section \<open>The envelope round trip\<close>

text \<open>
  C31: the consumer reads back what the publisher wrote: for any event with an object payload the parsed
  envelope has the row's ids as integers, its types, instant and payload, and the current schema version.
\<close>
theorem parse_build_envelope:
  assumes "pydantic_ok V" "ob_payload row = JObj kvs"
  shows "parse_envelope V (Some (build_envelope row)) =
    Inr \<lparr>env_event_id = ob_id row, env_event_type = ob_event_type row, env_aggregate_type = ob_aggregate_type row,
      env_aggregate_id = ob_aggregate_id row, env_occurred_at = ob_occurred_at row, env_producer = PRODUCER_NAME,
      env_schema_version = CURRENT_SCHEMA_VERSION, env_payload = kvs\<rparr>"
  using assms by (simp add: parse_envelope_def build_envelope_def coerce_int_def int_of_str_int_str pydantic_ok_def
      ENVELOPE_FIELDS_def SCHEMA_VERSION_def CURRENT_SCHEMA_VERSION_def Let_def)

definition demo_validators :: validators where
  "demo_validators = \<lparr>v_str = (\<lambda>j. case j of JStr s \<Rightarrow> Some s | _ \<Rightarrow> None), v_int = (\<lambda>j. case j of JInt i \<Rightarrow> Some i | _ \<Rightarrow> None),
     v_datetime = (\<lambda>j. case j of JTime t \<Rightarrow> Some t | _ \<Rightarrow> None), v_dict = (\<lambda>j. case j of JObj kvs \<Rightarrow> Some kvs | _ \<Rightarrow> None)\<rparr>"

lemma demo_validators_ok: "pydantic_ok demo_validators"
  by (simp add: pydantic_ok_def demo_validators_def)

definition demo_event :: OutboxEvent where
  "demo_event = outbox_row 70 ''RoomCreated'' ''room'' 6 (JObj [(''room_id'', JStr ''6'')]) 20"

theorem parse_build_envelope_witness:
  "pydantic_ok demo_validators \<and> (\<exists>env. parse_envelope demo_validators (Some (build_envelope demo_event)) = Inr env \<and>
     env_event_id env = 70 \<and> env_aggregate_id env = 6)"
  using parse_build_envelope [OF demo_validators_ok, of demo_event "[(''room_id'', JStr ''6'')]"] demo_validators_ok
  by (simp add: demo_event_def outbox_row_def)

section \<open>Rows stored\<close>

text \<open>What the client has taken: in ClickHouse or still in a buffer.\<close>

definition stored :: "worker \<Rightarrow> (string \<times> ch_row) multiset" where
  "stored w = mset (ch_tables w) + mset (concat (map (\<lambda>(t, b). map (Pair t) b) (buffers w)))"

definition healthy :: "infra \<Rightarrow> bool" where
  "healthy I \<longleftrightarrow> (\<forall>n. redis_net I n = Acked) \<and> (\<forall>n. ch_net I n = Acked)"

abbreviation buffered :: "(string \<times> ch_row list) list \<Rightarrow> (string \<times> ch_row) multiset" where
  "buffered bs \<equiv> mset (concat (map (\<lambda>(t, b). map (Pair t) b) bs))"

lemma buffered_update:
  "buffered (AList.update t b bs) + (case map_of bs t of None \<Rightarrow> {#} | Some b' \<Rightarrow> mset (map (Pair t) b')) =
     buffered bs + mset (map (Pair t) b)"
  by (induction bs) auto

lemma insert_many_healthy:
  assumes "healthy I"
  shows "fst (insert_many I t rows now w) \<and> stored (snd (insert_many I t rows now w)) = stored w + mset (map (Pair t) rows) \<and>
    seen (snd (insert_many I t rows now w)) = seen w \<and> redis_calls (snd (insert_many I t rows now w)) = redis_calls w"
proof -
  have a: "ch_net I n = Acked" for n using assms by (simp add: healthy_def)
  show ?thesis
  proof (cases "map_of (buffers w) t")
    case None
    then show ?thesis
      using buffered_update [of t "[]" "buffers w"] buffered_update [of t rows "buffers w"]
      by (auto simp: insert_many_def Let_def do_insert_def a stored_def BATCH_ROWS_def)
  next
    case (Some b)
    have "buffered (AList.update t (b @ rows) (buffers w)) + mset (map (Pair t) b) = (buffered (buffers w) + mset (map (Pair t) rows)) + mset (map (Pair t) b)"
      using buffered_update [of t "b @ rows" "buffers w"] Some by (simp add: ac_simps)
    then have "buffered (AList.update t (b @ rows) (buffers w)) = buffered (buffers w) + mset (map (Pair t) rows)"
      by (simp only: add_right_cancel)
    moreover have "buffered (AList.update t [] (buffers w)) + mset (map (Pair t) b) = buffered (buffers w)"
      using buffered_update [of t "[]" "buffers w"] Some by simp
    ultimately show ?thesis
      using Some by (simp add: insert_many_def Let_def do_insert_def a stored_def BATCH_ROWS_def ac_simps)
  qed
qed

lemma insert_all_healthy:
  assumes "healthy I"
  shows "fst (insert_all I bs w) \<and> ch_tables (snd (insert_all I bs w)) = ch_tables w @ concat (map (\<lambda>(t, b). map (Pair t) b) bs) \<and>
    buffers (snd (insert_all I bs w)) = buffers w \<and> seen (snd (insert_all I bs w)) = seen w \<and>
    redis_calls (snd (insert_all I bs w)) = redis_calls w"
proof -
  have a: "ch_net I n = Acked" for n using assms by (simp add: healthy_def)
  show ?thesis by (induction bs arbitrary: w) (auto simp: do_insert_def a Let_def split_beta)
qed

lemma flush_all_healthy:
  assumes "healthy I"
  shows "fst (flush_all I now w) \<and> stored (snd (flush_all I now w)) = stored w \<and> mset (ch_tables (snd (flush_all I now w))) = stored w \<and>
    seen (snd (flush_all I now w)) = seen w \<and> redis_calls (snd (flush_all I now w)) = redis_calls w"
proof -
  let ?bs = "filter (\<lambda>(t, b). b \<noteq> []) (buffers w)"
  have c: "concat (map (\<lambda>(t, b). map (Pair t) b) (filter (\<lambda>(t, b). b \<noteq> []) bs)) = concat (map (\<lambda>(t, b). map (Pair t) b) bs)" for bs :: "(string \<times> ch_row list) list"
    by (induction bs) auto
  have e: "buffered (map (\<lambda>(t, b). (t, [])) bs) = {#}" for bs by (induction bs) auto
  show ?thesis
    using insert_all_healthy [OF assms, of ?bs "w\<lparr>buffers := map (\<lambda>(t, b). (t, [])) (buffers w), last_flush := fold (\<lambda>(t, _). AList.update t now) ?bs (last_flush w)\<rparr>"]
    by (auto simp: flush_all_def drain_def Let_def stored_def c e)
qed

definition event_rows :: "Envelope \<Rightarrow> (string \<times> ch_row) list" where
  "event_rows env = (EVENTS_RAW_TABLE, RawRow (envelope_to_raw_row env)) #
     (if env_event_type env = ''AnswerSubmitted''
      then (case answer_fact env of None \<Rightarrow> [] | Some row \<Rightarrow> [(ANSWER_EVENTS_TABLE, AnswerRow row)]) else [])"

lemma compute_snapshot_healthy:
  assumes "healthy I"
  shows "stored (snd (compute_snapshot I now m w)) = stored w \<and> seen (snd (compute_snapshot I now m w)) = seen w"
  using flush_all_healthy [OF assms, of now w] by (simp add: compute_snapshot_def split_beta Let_def)

lemma cache_set_frame [simp]: "stored (cache_set I now m j w) = stored w" "seen (cache_set I now m j w) = seen w"
  by (simp_all add: cache_set_def stored_def)

lemma insert_raw_healthy:
  assumes "healthy I"
  shows "fst (insert_raw I now env w)" "seen (snd (insert_raw I now env w)) = seen w"
    "stored (snd (insert_raw I now env w)) = add_mset (EVENTS_RAW_TABLE, RawRow (envelope_to_raw_row env)) (stored w)"
  using insert_many_healthy [OF assms] by (simp_all add: insert_raw_def)

lemma dispatch_healthy:
  assumes "healthy I"
  shows "fst (dispatch I now env w) \<and> stored (snd (dispatch I now env w)) = stored w + mset (event_rows env) \<and>
    seen (snd (dispatch I now env w)) = seen w"
proof -
  note h = insert_raw_healthy [OF assms] compute_snapshot_healthy [OF assms] insert_many_healthy [OF assms]
  have m: "fst (h_match I now env w) \<and> stored (snd (h_match I now env w)) = add_mset (EVENTS_RAW_TABLE, RawRow (envelope_to_raw_row env)) (stored w) \<and>
    seen (snd (h_match I now env w)) = seen w"
    using h by (auto simp: h_match_def split_beta Let_def split: option.splits)
  have a: "fst (h_answer I now env w) \<and> seen (snd (h_answer I now env w)) = seen w \<and> stored (snd (h_answer I now env w)) =
      stored w + mset ((EVENTS_RAW_TABLE, RawRow (envelope_to_raw_row env)) #
        (case answer_fact env of None \<Rightarrow> [] | Some row \<Rightarrow> [(ANSWER_EVENTS_TABLE, AnswerRow row)]))"
    using h by (auto simp: h_answer_def split_beta Let_def split: option.splits)
  show ?thesis
    using m a h by (auto simp: dispatch_def event_rows_def h_room_def h_moderation_def ROOM_EVENT_TYPES_def
        MATCH_EVENT_TYPES_def ANSWER_EVENT_TYPES_def MODERATION_EVENT_TYPES_def)
qed

section \<open>Exactly once\<close>

definition env_of :: "OutboxEvent \<Rightarrow> Envelope" where
  "env_of row = \<lparr>env_event_id = ob_id row, env_event_type = ob_event_type row, env_aggregate_type = ob_aggregate_type row,
      env_aggregate_id = ob_aggregate_id row, env_occurred_at = ob_occurred_at row, env_producer = PRODUCER_NAME,
      env_schema_version = CURRENT_SCHEMA_VERSION, env_payload = (case ob_payload row of JObj kvs \<Rightarrow> kvs | _ \<Rightarrow> [])\<rparr>"

definition object_payload :: "OutboxEvent \<Rightarrow> bool" where
  "object_payload row = (case ob_payload row of JObj kvs \<Rightarrow> True | _ \<Rightarrow> False)"

lemma parse_env_of:
  assumes "pydantic_ok V" "object_payload row"
  shows "parse_envelope V (Some (build_envelope row)) = Inr (env_of row)"
  using assms by (cases "ob_payload row") (simp_all add: object_payload_def env_of_def parse_envelope_def build_envelope_def
      coerce_int_def int_of_str_int_str pydantic_ok_def ENVELOPE_FIELDS_def SCHEMA_VERSION_def CURRENT_SCHEMA_VERSION_def Let_def)

text \<open>Deliveries of broker records, each at its time, in order.\<close>

fun consume :: "validators \<Rightarrow> infra \<Rightarrow> (time \<times> OutboxEvent) list \<Rightarrow> worker \<Rightarrow> worker" where
  "consume V I [] w = w"
| "consume V I ((t, row) # ms) w = consume V I ms (snd (handle_message V I t (Some (build_envelope row)) w))"

fun first_deliveries :: "int set \<Rightarrow> OutboxEvent list \<Rightarrow> OutboxEvent list" where
  "first_deliveries S [] = []"
| "first_deliveries S (row # rows) =
     (if ob_id row \<in> S then first_deliveries S rows else row # first_deliveries (insert (ob_id row) S) rows)"

lemma handle_message_healthy:
  assumes "pydantic_ok V" "healthy I" "object_payload row"
  shows "handle_message V I t (Some (build_envelope row)) w =
    (let w1 = w\<lparr>redis_calls := Suc (redis_calls w), seen := snd (claim (seen w) t (ob_id row))\<rparr> in
     if fst (claim (seen w) t (ob_id row)) then (Safe, snd (dispatch I t (env_of row) w1)) else (Safe, w1))"
  using assms(2) dispatch_healthy [OF assms(2)]
  by (auto simp: handle_message_def parse_env_of [OF assms(1,3)] healthy_def Let_def split_beta env_of_def)

lemma stored_redis [simp]: "stored (w\<lparr>redis_calls := n, seen := m\<rparr>) = stored w" "stored (w\<lparr>redis_calls := n\<rparr>) = stored w"
  by (simp_all add: stored_def)

lemma consume_stored:
  assumes "pydantic_ok V" "healthy I"
    and "\<forall>(t, row) \<in> set ms. t0 \<le> t \<and> t < t0 + SEEN_TTL_SECONDS * 1000000 \<and> object_payload row"
    and "\<forall>i \<in> S. \<exists>x. seen w i = Some x \<and> t0 + SEEN_TTL_SECONDS * 1000000 \<le> x"
    and "\<forall>row \<in> snd ` set ms. ob_id row \<notin> S \<longrightarrow> seen w (ob_id row) = None"
  shows "stored (consume V I ms w) = stored w + mset (concat (map (event_rows \<circ> env_of) (first_deliveries S (map snd ms))))"
  using assms(3-5)
proof (induction ms arbitrary: w S)
  case (Cons m ms)
  obtain t row where m: "m = (t, row)" by (cases m)
  have t: "t0 \<le> t" "t < t0 + SEEN_TTL_SECONDS * 1000000" and o: "object_payload row" using Cons.prems(1) by (auto simp: m)
  let ?w1 = "w\<lparr>redis_calls := Suc (redis_calls w), seen := snd (claim (seen w) t (ob_id row))\<rparr>"
  note hm = handle_message_healthy [OF assms(1,2) o, of t w]
  show ?case
  proof (cases "ob_id row \<in> S")
    case True
    then obtain x where "seen w (ob_id row) = Some x" "t0 + SEEN_TTL_SECONDS * 1000000 \<le> x" using Cons.prems(2) by blast
    with t have c: "claim (seen w) t (ob_id row) = (False, seen w)" by (simp add: claim_def seen_get_def)
    have "stored (consume V I ms ?w1) = stored ?w1 + mset (concat (map (event_rows \<circ> env_of) (first_deliveries S (map snd ms))))"
      by (rule Cons.IH) (use Cons.prems c in \<open>auto simp: m\<close>)
    with True c hm show ?thesis by (simp add: m Let_def comp_def)
  next
    case False
    then have "seen w (ob_id row) = None" using Cons.prems(3) by (auto simp: m)
    then have c: "claim (seen w) t (ob_id row) = (True, (seen w)(ob_id row \<mapsto> t + SEEN_TTL_SECONDS * 1000000))"
      by (simp add: claim_def seen_get_def)
    let ?w2 = "snd (dispatch I t (env_of row) ?w1)"
    have s2: "seen ?w2 = (seen w)(ob_id row \<mapsto> t + SEEN_TTL_SECONDS * 1000000)" "stored ?w2 = stored w + mset (event_rows (env_of row))"
      using dispatch_healthy [OF assms(2), of t "env_of row" ?w1] c by auto
    have "stored (consume V I ms ?w2) = stored ?w2 + mset (concat (map (event_rows \<circ> env_of) (first_deliveries (insert (ob_id row) S) (map snd ms))))"
      by (rule Cons.IH) (use Cons.prems t s2(1) in \<open>auto simp: m\<close>)
    with False c hm s2(2) show ?thesis by (simp add: m Let_def comp_def)
  qed
qed simp


section \<open>Failures\<close>

lemma do_insert_seen [simp]: "seen (snd (do_insert I t rows w)) = seen w"
  by (simp add: do_insert_def)

lemma insert_many_seen [simp]: "seen (snd (insert_many I t rows now w)) = seen w"
  by (simp add: insert_many_def Let_def split_beta split: option.splits)

lemma insert_all_seen [simp]: "seen (snd (insert_all I bs w)) = seen w"
  by (induction bs arbitrary: w) (auto simp: split_beta Let_def)

lemma flush_all_seen [simp]: "seen (snd (flush_all I now w)) = seen w"
  by (simp add: flush_all_def drain_def Let_def)

lemma dispatch_seen [simp]: "seen (snd (dispatch I now env w)) = seen w"
  by (simp add: dispatch_def h_room_def h_moderation_def h_match_def h_answer_def insert_raw_def compute_snapshot_def split_beta Let_def
      split: option.splits)

text \<open>
  C32: an event whose handler fails is never stored.  The dedupe key is set before the handler runs and is not
  released when it fails, so the redelivery that the return \<^verbatim>\<open>False\<close> asks for is taken for a duplicate:
  within 24 hours every delivery of that message is acknowledged as safe and writes nothing.
\<close>
theorem failed_event_never_stored:
  assumes "handle_message V I now raw w = (Retry, w')" "redis_net I (redis_calls w) = Acked"
    and "t < now + SEEN_TTL_SECONDS * 1000000" "redis_net I' (redis_calls w') = Acked"
  shows "handle_message V I' t raw w' = (Safe, w'\<lparr>redis_calls := Suc (redis_calls w')\<rparr>)"
proof -
  obtain env where env: "parse_envelope V raw = Inr env" "env_schema_version env = CURRENT_SCHEMA_VERSION"
    using assms(1) by (auto simp: handle_message_def split: sum.splits int_error.splits if_splits)
  let ?m = "snd (claim (seen w) now (env_event_id env))"
  have first: "fst (claim (seen w) now (env_event_id env))"
    using assms(1,2) env by (auto simp: handle_message_def Let_def split_beta split: if_splits)
  then have "w' = snd (dispatch I now env (w\<lparr>redis_calls := Suc (redis_calls w), seen := ?m\<rparr>))"
    using assms(1,2) env by (auto simp: handle_message_def Let_def split_beta split: if_splits)
  then have "seen w' = ?m" by simp
  moreover from first have "?m = (seen w)(env_event_id env \<mapsto> now + SEEN_TTL_SECONDS * 1000000)"
    by (auto simp: claim_def split: option.splits)
  ultimately have "claim (seen w') t (env_event_id env) = (False, seen w')"
    using assms(3) by (simp add: claim_def seen_get_def)
  with env assms(4) show ?thesis by (simp add: handle_message_def Let_def)
qed

text \<open>
  A flush that fails inside the analytics warm-up of \<^verbatim>\<open>MatchFinished\<close> is swallowed: the buffers were
  emptied before the insert, so their rows are gone, and the message still counts as safe to commit.
\<close>

lemma warm_up_drops_rows:
  assumes "insert_raw I now env w = (True, w1)" "env_event_type env = ''MatchFinished''"
    and "filter (\<lambda>(t, b). b \<noteq> []) (buffers w1) \<noteq> []" "ch_net I (ch_calls w1) = FailedLost"
  shows "\<exists>w'. h_match I now env w = (True, w') \<and> ch_tables w' = ch_tables w1 \<and> (\<forall>(t, b) \<in> set (buffers w'). b = [])"
proof -
  obtain t b rest where f: "filter (\<lambda>(t, b). b \<noteq> []) (buffers w1) = (t, b) # rest"
    using assms(3) by (cases "filter (\<lambda>(t, b). b \<noteq> []) (buffers w1)") auto
  then have "(t, b) \<in> set (filter (\<lambda>(t, b). b \<noteq> []) (buffers w1))" by simp
  then have "b \<noteq> []" by simp
  with f assms show ?thesis
    by (auto simp: h_match_def compute_snapshot_def flush_all_def drain_def Let_def do_insert_def split_beta)
qed

lemma client_offsets [simp]:
  "offsets (snd (do_insert I t rows w)) = offsets w" "offsets (snd (insert_many I t rows now w)) = offsets w"
  by (simp_all add: do_insert_def insert_many_def Let_def split_beta split: option.splits)

lemma insert_all_offsets [simp]: "offsets (snd (insert_all I bs w)) = offsets w"
  by (induction bs arbitrary: w) (auto simp: split_beta Let_def)

lemma drain_offsets [simp]: "offsets (snd (drain I due now w)) = offsets w" "offsets (snd (flush_all I now w)) = offsets w"
  by (simp_all add: flush_all_def drain_def Let_def)

lemma dispatch_offsets [simp]: "offsets (snd (dispatch I now env w)) = offsets w"
  by (simp add: dispatch_def h_room_def h_moderation_def h_match_def h_answer_def insert_raw_def compute_snapshot_def cache_set_def split_beta Let_def
      split: option.splits)

lemma handle_message_offsets [simp]: "offsets (snd (handle_message V I now raw w)) = offsets w"
  by (auto simp: handle_message_def split_beta Let_def split: sum.splits int_error.splits)

lemma run_partition_offsets [simp]: "offsets (snd (snd (run_partition V I now msgs so w))) = offsets w"
  by (induction msgs arbitrary: so w) (auto simp: split_beta Let_def)

lemma run_records_offsets [simp]: "offsets (snd (snd (run_records V I now records so w))) = offsets w"
  by (induction records arbitrary: so w) (auto simp: split_beta Let_def)

lemma insert_all_buffers [simp]: "buffers (snd (insert_all I bs w)) = buffers w"
  by (induction bs arbitrary: w) (auto simp: do_insert_def split_beta Let_def)

lemma flush_all_buffers: "\<forall>(t, b) \<in> set (buffers (snd (flush_all I now w))). b = []"
  by (auto simp: flush_all_def drain_def Let_def)

text \<open>
  Offsets move only behind the data.  When a turn of the loop moves committed offsets, no message of it
  crashed the worker, the flush of everything buffered has succeeded first, and no row is left in a buffer.
\<close>
theorem commit_after_flush:
  assumes "poll_cycle V I now records w = (alive, w')" "offsets w' \<noteq> offsets w"
  shows "alive \<and> (\<exists>r safe_offsets w1. run_records V I now records [] w = (r, safe_offsets, w1) \<and> r \<noteq> Crash \<and>
      fst (flush_all I now w1) \<and> offsets w' = fold (\<lambda>(tp, n). AList.update tp n) safe_offsets (offsets w)) \<and>
    (\<forall>(t, b) \<in> set (buffers w'). b = [])"
proof -
  have "records \<noteq> []"
  proof
    assume "records = []"
    with assms have "offsets w' = offsets w" by (auto simp: poll_cycle_def maybe_flush_def Let_def split_beta split: if_splits)
    with assms(2) show False by simp
  qed
  moreover obtain r so w1 where r: "run_records V I now records [] w = (r, so, w1)" by (metis prod_cases3)
  moreover have o: "offsets w1 = offsets w" using run_records_offsets [of V I now records "[]" w] r by simp
  ultimately have "r \<noteq> Crash" "fst (flush_all I now w1)" "alive"
    "w' = (snd (flush_all I now w1))\<lparr>offsets := fold (\<lambda>(tp, n). AList.update tp n) so (offsets w)\<rparr>"
    using assms by (auto simp: poll_cycle_def Let_def split_beta split: if_splits)
  with r flush_all_buffers [of I now w1] show ?thesis by auto
qed

section \<open>Examples\<close>

definition demo_infra :: "(nat \<Rightarrow> send_result) \<Rightarrow> infra" where
  "demo_infra net = \<lparr>redis_net = (\<lambda>_. Acked), ch_net = net, accuracy_q = (\<lambda>_ _. Some []), rtd_q = (\<lambda>_ _. Some []), commit_ok = True\<rparr>"

definition demo_worker :: "(string \<times> ch_row list) list \<Rightarrow> worker" where
  "demo_worker bs = \<lparr>seen = (\<lambda>_. None), analytics_cache = (\<lambda>_. None), redis_calls = 0, buffers = bs, last_flush = [],
     ch_tables = [], ch_calls = 0, offsets = []\<rparr>"

lemma demo_event_object: "object_payload demo_event"
  by (simp add: demo_event_def outbox_row_def object_payload_def)

lemma demo_healthy: "healthy (demo_infra (\<lambda>_. Acked))"
  by (simp add: healthy_def demo_infra_def)


definition full_worker :: worker where
  "full_worker = demo_worker [(EVENTS_RAW_TABLE, replicate 99 (RawRow (envelope_to_raw_row (env_of demo_event))))]"

lemma full_worker_retry:
  "\<exists>w'. handle_message demo_validators (demo_infra (\<lambda>_. FailedLost)) 5 (Some (build_envelope demo_event)) full_worker = (Retry, w')"
proof -
  have d: "dispatch I now (env_of demo_event) w = insert_raw I now (env_of demo_event) w" for I now w
    by (simp add: dispatch_def ROOM_EVENT_TYPES_def h_room_def env_of_def demo_event_def outbox_row_def)
  have v: "env_schema_version (env_of demo_event) = CURRENT_SCHEMA_VERSION" by (simp add: env_of_def)
  show ?thesis
    by (simp add: handle_message_def parse_env_of [OF demo_validators_ok demo_event_object] v d Let_def split_beta)
      (simp add: full_worker_def demo_worker_def demo_infra_def claim_def seen_get_def insert_raw_def insert_many_def do_insert_def
        BATCH_ROWS_def)
qed

theorem failed_event_never_stored_witness:
  "\<exists>w'. handle_message demo_validators (demo_infra (\<lambda>_. FailedLost)) 5 (Some (build_envelope demo_event)) full_worker = (Retry, w') \<and>
     handle_message demo_validators (demo_infra (\<lambda>_. Acked)) 6 (Some (build_envelope demo_event)) w' = (Safe, w'\<lparr>redis_calls := Suc (redis_calls w')\<rparr>)"
proof -
  obtain w' where w': "handle_message demo_validators (demo_infra (\<lambda>_. FailedLost)) 5 (Some (build_envelope demo_event)) full_worker = (Retry, w')"
    using full_worker_retry by blast
  have "handle_message demo_validators (demo_infra (\<lambda>_. Acked)) 6 (Some (build_envelope demo_event)) w' = (Safe, w'\<lparr>redis_calls := Suc (redis_calls w')\<rparr>)"
    by (rule failed_event_never_stored [OF w']) (simp_all add: demo_infra_def SEEN_TTL_SECONDS_def)
  with w' show ?thesis by blast
qed

theorem commit_after_flush_witness:
  "\<exists>w'. poll_cycle demo_validators (demo_infra (\<lambda>_. Acked)) 9 [((''livequiz.events.room'', 0), [(4, None)])] (demo_worker []) = (True, w') \<and>
     offsets w' = [((''livequiz.events.room'', 0), 5)] \<and> (\<forall>(t, b) \<in> set (buffers w'). b = [])"
proof -
  obtain alive w' where p: "poll_cycle demo_validators (demo_infra (\<lambda>_. Acked)) 9 [((''livequiz.events.room'', 0), [(4, None)])] (demo_worker []) = (alive, w')"
    by (cases "poll_cycle demo_validators (demo_infra (\<lambda>_. Acked)) 9 [((''livequiz.events.room'', 0), [(4, None)])] (demo_worker [])")
  then have o: "offsets w' = [((''livequiz.events.room'', 0), 5)]"
    by (auto simp: poll_cycle_def handle_message_def parse_envelope_def flush_all_def drain_def demo_worker_def demo_infra_def Let_def)
  then have "offsets w' \<noteq> offsets (demo_worker [])" by (simp add: demo_worker_def)
  note c = commit_after_flush [OF p this]
  from c have a: "alive" by (rule conjunct1)
  from c have b: "\<forall>(t, b) \<in> set (buffers w'). b = []" by (elim conjE)
  show ?thesis using p o a b by (intro exI [of _ w'] conjI) simp_all
qed

text \<open>A message whose event id is null, a list or an object passes a \<^verbatim>\<open>TypeError\<close> out of the message handler.\<close>

lemma null_id_crashes:
  assumes "map_of kvs ''event_id'' = Some JNull"
  shows "handle_message V I now (Some (JObj kvs)) w = (Crash, w)"
  using assms by (simp add: handle_message_def parse_envelope_def coerce_int_def)

end
