(* ===== verification/Pipeline.thy ===== *)
theory Pipeline
  imports System StreamWorker
begin

text \<open>
  From the outbox to ClickHouse: what the fact table holds after the stream worker has consumed the
  events of a backend state, against the submissions that state has.
\<close>

text \<open>The points of a participant in a match as a query over the answer facts adds them up.\<close>

definition fact_points :: "int \<Rightarrow> int \<Rightarrow> string \<times> ch_row \<Rightarrow> int" where
  "fact_points i p = (\<lambda>(table, row). case row of
     AnswerRow a \<Rightarrow> if table = ANSWER_EVENTS_TABLE \<and> ar_match_id a = i \<and> ar_participant_id a = p then ar_score_awarded a else 0
   | RawRow _ \<Rightarrow> 0)"

definition analytics_total :: "(string \<times> ch_row) list \<Rightarrow> int \<Rightarrow> int \<Rightarrow> int" where
  "analytics_total tables i p = sum_list (map (fact_points i p) tables)"

lemma analytics_total_mset:
  assumes "mset xs = mset ys"
  shows "analytics_total xs i p = analytics_total ys i p"
proof -
  have "mset (map (fact_points i p) xs) = mset (map (fact_points i p) ys)" using assms by simp
  then show ?thesis unfolding analytics_total_def by (metis sum_mset_sum_list)
qed

lemma first_deliveries_subset: "set (first_deliveries S rows) \<subseteq> set rows"
  by (induction rows arbitrary: S) auto

lemma first_deliveries_ids:
  "ob_id ` set (first_deliveries S rows) = ob_id ` set rows - S \<and> distinct (map ob_id (first_deliveries S rows))"
  by (induction rows arbitrary: S) auto

lemma first_deliveries_all:
  assumes "unique_by ob_id evs" "set rows \<subseteq> set evs"
  shows "set (first_deliveries {} rows) = set rows" "distinct (first_deliveries {} rows)"
proof -
  have "e \<in> set (first_deliveries {} rows)" if "e \<in> set rows" for e
  proof -
    have "ob_id e \<in> ob_id ` set (first_deliveries {} rows)" using first_deliveries_ids [of "{}" rows] that by auto
    then obtain e' where e': "e' \<in> set (first_deliveries {} rows)" "ob_id e' = ob_id e" by auto
    then have "e' = e" using first_deliveries_subset assms that unique_by_eq by (metis subsetD)
    with e' show ?thesis by simp
  qed
  then show "set (first_deliveries {} rows) = set rows" using first_deliveries_subset by blast
  show "distinct (first_deliveries {} rows)" using first_deliveries_ids [of "{}" rows] by (simp add: distinct_map)
qed

lemma opt_int_str [simp]: "opt_int (JStr (int_str i)) = Some i"
proof -
  have "int_str i \<noteq> []" using int_of_str_int_str [of i] by (auto simp: int_of_str_def strip_def)
  then show ?thesis by (simp add: opt_int_def int_of_str_int_str)
qed

definition event_points :: "int \<Rightarrow> int \<Rightarrow> OutboxEvent \<Rightarrow> int" where
  "event_points i p e = sum_list (map (fact_points i p) (event_rows (env_of e)))"

lemma event_points_other: "ob_event_type e \<noteq> EVT_ANSWER_SUBMITTED \<Longrightarrow> event_points i p e = 0"
  by (simp add: event_points_def event_rows_def env_of_def fact_points_def EVT_ANSWER_SUBMITTED_def)

lemma event_points_answer:
  assumes "event_for s e"
  shows "event_points i p e = (if as_match_id s = i \<and> as_participant_id s = p then as_score_awarded s else 0)"
proof -
  from assms obtain match mq t where "ob_event_type e = EVT_ANSWER_SUBMITTED" "ob_payload e = answer_submitted_event match mq s t"
    "m_id match = as_match_id s" by (auto simp: event_for_def)
  then show ?thesis
    by (simp add: event_points_def event_rows_def env_of_def fact_points_def EVT_ANSWER_SUBMITTED_def answer_submitted_event_def
        answer_fact_def payload_get_def int_or_zero_def)
qed

lemma answer_points:
  assumes "list_all2 event_for subs es"
  shows "sum_list (map (event_points i p) es) =
    sum_list (map as_score_awarded (subs_by (filter (\<lambda>s. as_match_id s = i) subs) p))"
  using assms by (induction rule: list_all2_induct) (auto simp: event_points_answer)

lemma analytics_of_deliveries:
  assumes "events_ok w" "set rows \<subseteq> set (outbox_events (wdb w))" "set (answer_events (wdb w)) \<subseteq> set rows"
  shows "analytics_total (concat (map (event_rows \<circ> env_of) (first_deliveries {} rows))) i p =
    sum_list (map as_score_awarded (subs_by (match_subs (wdb w) i) p))"
proof -
  note u = events_ok_unique [OF assms(1)]
  note fd = first_deliveries_all [OF u assms(2)]
  have d: "distinct (answer_events (wdb w))" using u by (simp add: answer_events_def unique_by_def distinct_map)
  have "analytics_total (concat (map (event_rows \<circ> env_of) es)) i p = sum_list (map (event_points i p) es)" for es
    by (induction es) (simp_all add: analytics_total_def event_points_def)
  also have "sum_list (map (event_points i p) (first_deliveries {} rows)) = sum (event_points i p) (set rows)"
    using fd by (simp add: sum_list_distinct_conv_sum_set)
  also have "\<dots> = sum (event_points i p) (set (answer_events (wdb w)))"
  proof (rule sum.mono_neutral_right)
    show "\<forall>e \<in> set rows - set (answer_events (wdb w)). event_points i p e = 0"
      using assms(2) by (auto simp: answer_events_def intro!: event_points_other)
  qed (use assms(3) in auto)
  also have "\<dots> = sum_list (map (event_points i p) (answer_events (wdb w)))" using d by (simp add: sum_list_distinct_conv_sum_set)
  also have "\<dots> = sum_list (map as_score_awarded (subs_by (match_subs (wdb w) i) p))"
    using assms(1) answer_points by (simp add: events_ok_def match_subs_def)
  finally show ?thesis .
qed

end
