(* ===== verification/AnalyticsService.thy ===== *)
theory AnalyticsService
  imports Scenario
begin

text \<open>
  src/backend/app/services/analytics_service.py: the analytics body of a match from the Redis cache, from ClickHouse or,
  when ClickHouse does not answer, recomputed from Postgres.  ClickHouse is an argument: \<open>None\<close> is a query that raises,
  otherwise the rows of the two queries, a statistic over no rows being \<open>None\<close> (NaN).  \<^verbatim>\<open>percentile_cont\<close> of Postgres is
  an argument too.
\<close>

section \<open>Definitions\<close>

record accuracy =
  ac_question_id :: int
  ac_total :: int
  ac_correct :: int
  ac_percent :: rat
  ac_avg_ms :: int

record clickhouse_rows =
  acc_rows :: "(int \<times> int \<times> int \<times> int) list"
  rt_rows :: "(rat option \<times> rat option \<times> rat option \<times> rat option \<times> int) list"

definition ANALYTICS_TTL_SECONDS :: int where "ANALYTICS_TTL_SECONDS = 3600"
definition SOURCE_CACHE :: string where "SOURCE_CACHE = ''redis-cache''"
definition SOURCE_CLICKHOUSE :: string where "SOURCE_CLICKHOUSE = ''clickhouse''"
definition SOURCE_POSTGRES :: string where "SOURCE_POSTGRES = ''postgres-fallback''"

record AnalyticsResult =
  an_body :: json
  an_source :: string

text \<open>\<^verbatim>\<open>round(100.0 * correct / total, 1) if total else 0.0\<close>\<close>

definition percent_of :: "int \<Rightarrow> int \<Rightarrow> rat" where
  "percent_of correct tot = (if tot \<noteq> 0 then py_round1 (fl64 (fl64 (100 * of_int correct) / of_int tot)) else 0)"

definition accuracy_json :: "accuracy \<Rightarrow> json" where
  "accuracy_json a = JObj [(''question_id'', JStr (int_str (ac_question_id a))), (''total_answers'', JInt (ac_total a)),
     (''correct_answers'', JInt (ac_correct a)), (''accuracy_percent'', JFloat (ac_percent a)), (''avg_response_ms'', JInt (ac_avg_ms a))]"

definition most_missed :: "accuracy list \<Rightarrow> accuracy list" where
  "most_missed qa = take 5 (sort_key ac_percent qa)"

definition analytics_body :: "int \<Rightarrow> accuracy list \<Rightarrow> int \<times> int \<times> int \<times> int \<Rightarrow> int \<Rightarrow> json" where
  "analytics_body match_id qa rt tot =
     (case rt of (p50, p95, p99, avg_ms) \<Rightarrow>
        JObj [(''match_id'', JStr (int_str match_id)), (''question_accuracy'', JArr (map accuracy_json qa)),
              (''response_time_distribution'', JObj [(''p50_ms'', JInt p50), (''p95_ms'', JInt p95), (''p99_ms'', JInt p99), (''avg_ms'', JInt avg_ms)]),
              (''most_missed_questions'', JArr (map accuracy_json (most_missed qa))), (''total_answers'', JInt tot)])"

subsection \<open>ClickHouse\<close>

definition ch_accuracy :: "int \<times> int \<times> int \<times> int \<Rightarrow> accuracy" where
  "ch_accuracy row =
     (case row of (qid, tot, correct, rt_sum_ms) \<Rightarrow>
        \<lparr>ac_question_id = qid, ac_total = tot, ac_correct = correct, ac_percent = percent_of correct tot,
         ac_avg_ms = (if tot \<noteq> 0 then py_int (fl64 (of_int rt_sum_ms / of_int tot)) else 0)\<rparr>)"

text \<open>\<^verbatim>\<open>int(x or 0)\<close>: NaN is true and has no integer, the \<^verbatim>\<open>ValueError\<close> ends the query.\<close>

definition ch_statistics :: "(rat option \<times> rat option \<times> rat option \<times> rat option \<times> int) list \<Rightarrow> ((int \<times> int \<times> int \<times> int) \<times> int) option" where
  "ch_statistics rows =
     (case rows of
        [] \<Rightarrow> Some ((0, 0, 0, 0), 0)
      | (Some p50, Some p95, Some p99, Some avg_ms, tot) # _ \<Rightarrow> Some ((py_int p50, py_int p95, py_int p99, py_int avg_ms), tot)
      | _ \<Rightarrow> None)"

definition query_clickhouse :: "clickhouse_rows option \<Rightarrow> int \<Rightarrow> json option" where
  "query_clickhouse answer match_id =
     (case answer of None \<Rightarrow> None
      | Some rows \<Rightarrow>
          let question_accuracy = map ch_accuracy (acc_rows rows);
              total_answers_all = sum_list (map ac_total question_accuracy)
          in case ch_statistics (rt_rows rows) of None \<Rightarrow> None
             | Some (rt, tot) \<Rightarrow>
                 Some (analytics_body match_id question_accuracy rt (if total_answers_all \<noteq> 0 then total_answers_all else tot)))"

subsection \<open>Postgres\<close>

text \<open>The rows of \<^verbatim>\<open>match_questions\<close> of one question joined with the submissions.\<close>

definition question_subs :: "db \<Rightarrow> int \<Rightarrow> int \<Rightarrow> AnswerSubmission list" where
  "question_subs d match_id question_id =
     concat (map (\<lambda>mq. filter (\<lambda>s. as_match_question_id s = mq_id mq) (answer_submissions d))
       (filter (\<lambda>mq. mq_question_id mq = question_id) (mqs_of d match_id)))"

definition pg_accuracy :: "db \<Rightarrow> int \<Rightarrow> accuracy list" where
  "pg_accuracy d match_id =
     map (\<lambda>q. let ss = question_subs d match_id q;
                  tot = int (length ss);
                  correct = int (length (filter as_is_correct ss))
              in \<lparr>ac_question_id = q, ac_total = tot, ac_correct = correct, ac_percent = percent_of correct tot,
                  ac_avg_ms = (if ss = [] then 0 else py_int (of_int (sum_list (map as_response_time_ms ss)) / of_int tot))\<rparr>)
       (sort (remdups (map mq_question_id (mqs_of d match_id))))"

definition pg_statistics :: "(rat \<Rightarrow> int list \<Rightarrow> rat) \<Rightarrow> db \<Rightarrow> int \<Rightarrow> int \<times> int \<times> int \<times> int" where
  "pg_statistics percentile_cont d match_id =
     (let times = map as_response_time_ms (filter (\<lambda>s. as_match_id s = match_id) (answer_submissions d))
      in if times = [] then (0, 0, 0, 0)
         else (py_int (percentile_cont (1 / 2) times), py_int (percentile_cont (95 / 100) times), py_int (percentile_cont (99 / 100) times),
               py_int (of_int (sum_list times) / of_int (int (length times)))))"

definition query_postgres :: "(rat \<Rightarrow> int list \<Rightarrow> rat) \<Rightarrow> db \<Rightarrow> int \<Rightarrow> json" where
  "query_postgres percentile_cont d match_id =
     (let question_accuracy = pg_accuracy d match_id
      in analytics_body match_id question_accuracy (pg_statistics percentile_cont d match_id) (sum_list (map ac_total question_accuracy)))"

definition final_leaderboard_pg :: "db \<Rightarrow> int \<Rightarrow> json" where
  "final_leaderboard_pg d match_id =
     JArr (map (\<lambda>fs. JObj [(''rank'', JInt (fs_rank fs)), (''participant_id'', JStr (int_str (fs_participant_id fs))),
            (''nickname'', JStr (case find (\<lambda>p. rp_id p = fs_participant_id fs) (room_participants d) of None \<Rightarrow> '''' | Some p \<Rightarrow> rp_nickname p)),
            (''total_score'', JInt (fs_total_score fs)), (''correct_count'', JInt (fs_correct_count fs)),
            (''average_response_ms'', case fs_average_response_ms fs of None \<Rightarrow> JNull | Some a \<Rightarrow> JInt a)])
       (sort_key fs_rank (filter (\<lambda>fs. fs_match_id fs = match_id) (final_scores d))))"

subsection \<open>The service\<close>

text \<open>\<open>redis_up\<close>: whether the cache answers; a failed read is a miss and a failed write is ignored.\<close>

definition read_cache :: "bool \<Rightarrow> time \<Rightarrow> int \<Rightarrow> rstate \<Rightarrow> json option" where
  "read_cache redis_up now match_id r =
     (if \<not> redis_up then None
      else case match_analytics r match_id of None \<Rightarrow> None | Some (body, expires) \<Rightarrow> if now < expires then Some body else None)"

definition get_match_analytics ::
  "bool \<Rightarrow> clickhouse_rows option \<Rightarrow> (rat \<Rightarrow> int list \<Rightarrow> rat) \<Rightarrow> bool \<Rightarrow> time \<Rightarrow> int \<Rightarrow> world \<Rightarrow> AnalyticsResult \<times> world" where
  "get_match_analytics redis_up clickhouse percentile_cont use_cache now match_id w =
     (let standings = final_leaderboard_pg (wdb w) match_id
      in case (if use_cache then read_cache redis_up now match_id (wredis w) else None) of
           Some cached \<Rightarrow> (\<lparr>an_body = json_set cached ''final_leaderboard'' standings, an_source = SOURCE_CACHE\<rparr>, w)
         | None \<Rightarrow>
             (case query_clickhouse clickhouse match_id of
                None \<Rightarrow> (\<lparr>an_body = json_set (query_postgres percentile_cont (wdb w) match_id) ''final_leaderboard'' standings,
                          an_source = SOURCE_POSTGRES\<rparr>, w)
              | Some payload \<Rightarrow>
                  let body = json_set payload ''final_leaderboard'' standings;
                      w = (if redis_up then w\<lparr>wredis := (wredis w)\<lparr>match_analytics :=
                             (match_analytics (wredis w))(match_id \<mapsto> (body, now + ANALYTICS_TTL_SECONDS * 1000000))\<rparr>\<rparr> else w)
                  in (\<lparr>an_body = body, an_source = SOURCE_CLICKHOUSE\<rparr>, w)))"

section \<open>Lemmas\<close>

text \<open>What the accuracy query of ClickHouse returns when its facts are the submissions of the match: a row per answered question.\<close>

definition ch_rows_of :: "db \<Rightarrow> int \<Rightarrow> (int \<times> int \<times> int \<times> int) list" where
  "ch_rows_of d match_id =
     map (\<lambda>q. let ss = question_subs d match_id q
              in (q, int (length ss), int (length (filter as_is_correct ss)), sum_list (map as_response_time_ms ss)))
       (filter (\<lambda>q. question_subs d match_id q \<noteq> []) (sort (remdups (map mq_question_id (mqs_of d match_id)))))"

definition counts_of :: "accuracy \<Rightarrow> int \<times> int \<times> int \<times> rat" where
  "counts_of a = (ac_question_id a, ac_total a, ac_correct a, ac_percent a)"

lemma json_set_get: "json_get (json_set j k v) k = v"
  by (cases j) (simp_all add: json_set_def update_conv')

lemma concat_filter_ids:
  assumes "distinct (map f xs)"
  shows "length (concat (map (\<lambda>x. filter (\<lambda>s. g s = f x) ss) xs)) = length (filter (\<lambda>s. g s \<in> f ` set xs) ss)"
  using assms
proof (induction xs)
  case (Cons x xs)
  have "length (filter (\<lambda>s. g s \<in> f ` set (x # xs)) ss) = length (filter (\<lambda>s. g s = f x) ss) + length (filter (\<lambda>s. g s \<in> f ` set xs) ss)"
    using Cons.prems by (induction ss) auto
  with Cons show ?case by simp
qed simp

lemma sum_pg_totals:
  "sum_list (map ac_total (pg_accuracy d i)) =
     (\<Sum>q \<leftarrow> sort (remdups (map mq_question_id (mqs_of d i))). int (length (question_subs d i q)))"
  by (simp add: pg_accuracy_def comp_def Let_def)

lemma sum_by_key:
  assumes "distinct ks" "set ks = f ` set xs"
  shows "(\<Sum>k \<leftarrow> ks. \<Sum>x \<leftarrow> filter (\<lambda>x. f x = k) xs. (h x :: nat)) = (\<Sum>x \<leftarrow> xs. h x)"
proof -
  have "(\<Sum>k \<leftarrow> ks. \<Sum>x \<leftarrow> filter (\<lambda>x. f x = k) ys. (h x :: nat)) = (\<Sum>x \<leftarrow> ys. h x)" if "set ys \<subseteq> set xs" for ys
    using that
  proof (induction ys)
    case (Cons y ys)
    have "f y \<in> set ks" using Cons.prems assms(2) by auto
    then have "(\<Sum>k \<leftarrow> ks. if f y = k then h y else 0) = h y"
      using assms(1) by (induction ks) (auto simp: sum_list_0 intro!: sum_list_0)
    moreover have "(\<Sum>k \<leftarrow> ks. \<Sum>x \<leftarrow> filter (\<lambda>x. f x = k) (y # ys). h x) =
        (\<Sum>k \<leftarrow> ks. (if f y = k then h y else 0) + (\<Sum>x \<leftarrow> filter (\<lambda>x. f x = k) ys. h x))" by (intro arg_cong [of _ _ sum_list] map_cong) auto
    ultimately show ?case using Cons by (simp add: sum_list_addf)
  qed (simp add: sum_list_0)
  then show ?thesis by blast
qed

section \<open>Properties\<close>

lemma int_sum_list: "int (sum_list xs) = sum_list (map int xs)"
  by (induction xs) simp_all

lemma totals_of_counts: "map ac_total xs = map (\<lambda>(q, t, c, p). t) (map counts_of xs)"
  by (simp add: counts_of_def comp_def)

lemma sum_nonzero: "sum_list (map f (filter (\<lambda>x. f x \<noteq> 0) xs)) = (sum_list (map f xs) :: int)"
  by (induction xs) simp_all

lemma percent_of_1: "percent_of 1 1 = 100" by code_simp

lemma ch_counts: "map counts_of (map ch_accuracy (ch_rows_of d i)) = map counts_of (filter (\<lambda>a. ac_total a \<noteq> 0) (pg_accuracy d i))"
proof -
  have "map counts_of (map ch_accuracy (map (\<lambda>q. let ss = question_subs d i q
            in (q, int (length ss), int (length (filter as_is_correct ss)), sum_list (map as_response_time_ms ss)))
          (filter (\<lambda>q. question_subs d i q \<noteq> []) qs))) =
        map counts_of (filter (\<lambda>a. ac_total a \<noteq> 0) (map (\<lambda>q. let ss = question_subs d i q; tot = int (length ss);
            correct = int (length (filter as_is_correct ss))
          in \<lparr>ac_question_id = q, ac_total = tot, ac_correct = correct, ac_percent = percent_of correct tot,
              ac_avg_ms = (if ss = [] then 0 else py_int (of_int (sum_list (map as_response_time_ms ss)) / of_int tot))\<rparr>) qs))" for qs
    by (induction qs) (auto simp: counts_of_def ch_accuracy_def Let_def)
  then show ?thesis unfolding ch_rows_of_def pg_accuracy_def .
qed

lemma pg_total_subs:
  assumes "distinct (map mq_id (mqs_of d i))"
  shows "sum_list (map ac_total (pg_accuracy d i)) =
    int (length (filter (\<lambda>s. as_match_question_id s \<in> mq_id ` set (mqs_of d i)) (answer_submissions d)))"
proof -
  let ?mqs = "mqs_of d i" and ?n = "\<lambda>mq. length (filter (\<lambda>s. as_match_question_id s = mq_id mq) (answer_submissions d))"
  have "length (question_subs d i q) = (\<Sum>mq \<leftarrow> filter (\<lambda>mq. mq_question_id mq = q) ?mqs. ?n mq)" for q
    by (simp add: question_subs_def length_concat comp_def)
  then have "sum_list (map ac_total (pg_accuracy d i)) =
      int (\<Sum>q \<leftarrow> sort (remdups (map mq_question_id ?mqs)). \<Sum>mq \<leftarrow> filter (\<lambda>mq. mq_question_id mq = q) ?mqs. ?n mq)"
    by (simp add: sum_pg_totals int_sum_list comp_def)
  also have "(\<Sum>q \<leftarrow> sort (remdups (map mq_question_id ?mqs)). \<Sum>mq \<leftarrow> filter (\<lambda>mq. mq_question_id mq = q) ?mqs. ?n mq) = (\<Sum>mq \<leftarrow> ?mqs. ?n mq)"
    by (rule sum_by_key) simp_all
  also have "(\<Sum>mq \<leftarrow> ?mqs. ?n mq) = length (filter (\<lambda>s. as_match_question_id s \<in> mq_id ` set ?mqs) (answer_submissions d))"
    using concat_filter_ids [OF assms, of as_match_question_id "answer_submissions d"] by (simp add: length_concat comp_def)
  finally show ?thesis .
qed

lemma reachable_mq_distinct: "backend_reachable w \<Longrightarrow> distinct (map mq_id (mqs_of (wdb w) i))"
  using backend_okD(2) [OF backend_invariant] by (simp add: mqs_of_def mq_unique_def unique_by_def distinct_map_filter)

lemma ch_total: "sum_list (map ac_total (map ch_accuracy (ch_rows_of d i))) = sum_list (map ac_total (pg_accuracy d i))"
  by (simp only: totals_of_counts [of "map ch_accuracy (ch_rows_of d i)"] ch_counts totals_of_counts [symmetric] sum_nonzero)

lemma served_standings:
  "json_get (an_body (fst (get_match_analytics up ch pct use_cache now i w))) ''final_leaderboard'' = final_leaderboard_pg (wdb w) i"
  by (simp add: get_match_analytics_def Let_def json_set_get split: option.split)



text \<open>
  The standings are never stale.  Whatever the cache holds and whether Redis and ClickHouse answer, the body served for a
  match carries the final scores stored in Postgres now, in rank order; only a ClickHouse answer is cached, and the next
  reader gets that body from the cache for one hour and not longer.
\<close>
theorem analytics_standings_current:
  assumes "get_match_analytics redis_up clickhouse percentile_cont use_cache now match_id w = (res, w')"
  shows "json_get (an_body res) ''final_leaderboard'' = final_leaderboard_pg (wdb w) match_id \<and>
    wdb w' = wdb w \<and>
    (if an_source res = SOURCE_CLICKHOUSE \<and> redis_up
     then read_cache True t match_id (wredis w') = (if t < now + 3600 * 1000000 then Some (an_body res) else None)
     else w' = w)"
proof (cases "if use_cache then read_cache redis_up now match_id (wredis w) else None")
  case None
  with assms show ?thesis using served_standings [of redis_up clickhouse percentile_cont use_cache now match_id w]
    by (cases "query_clickhouse clickhouse match_id")
       (auto simp: get_match_analytics_def Let_def read_cache_def ANALYTICS_TTL_SECONDS_def SOURCE_POSTGRES_def SOURCE_CLICKHOUSE_def)
next
  case (Some body)
  with assms show ?thesis by (auto simp: get_match_analytics_def json_set_get SOURCE_CACHE_def SOURCE_CLICKHOUSE_def)
qed

theorem analytics_standings_current_witness:
  "let (res, w) = get_match_analytics True (Some \<lparr>acc_rows = [(2, 1, 1, 5000)], rt_rows = [(Some 5000, Some 5000, Some 5000, Some 5000, 1)]\<rparr>)
       (\<lambda>_ _. 0) False 7000000 10 run9 in
   (an_source res, json_get (an_body res) ''final_leaderboard'') = (SOURCE_CLICKHOUSE, final_leaderboard_pg (wdb run9) 10) \<and>
   read_cache True 8000000 10 (wredis w) = Some (an_body res)"
proof -
  let ?rows = "\<lparr>acc_rows = [(2, 1, 1, 5000)], rt_rows = [(Some 5000, Some 5000, Some 5000, Some 5000, 1)]\<rparr>"
  obtain res w where g: "get_match_analytics True (Some ?rows) (\<lambda>_ _. 0) False 7000000 10 run9 = (res, w)" by fastforce
  have "an_source res = SOURCE_CLICKHOUSE"
    using g by (auto simp: get_match_analytics_def query_clickhouse_def ch_statistics_def Let_def)
  with analytics_standings_current [OF g, of 8000000] g show ?thesis by simp
qed

end
