(* ===== verification/Schemas.thy ===== *)
theory Schemas
  imports QuizService RoomService AnswerSubmit Protocol Auth
begin

text \<open>
  The request and response models of src/backend/app/schemas.  A request model is the check its fields declare, on values
  pydantic has already brought to the declared types; a response model is a \<open>schema\<close> of theory Protocol for what leaves
  the API, and a function that builds the JSON value from the row.  Ids leave as strings (\<^verbatim>\<open>field_serializer\<close>).
\<close>

section \<open>Requests\<close>

subsection \<open>\_email.py, auth.py\<close>

text \<open>\<^verbatim>\<open>value.partition("@")\<close>: the text before the first separator, whether there is one, the text after it.\<close>

definition partition_at :: "char \<Rightarrow> string \<Rightarrow> string \<times> bool \<times> string" where
  "partition_at c s = (takeWhile (\<lambda>x. x \<noteq> c) s, c \<in> set s, drop 1 (dropWhile (\<lambda>x. x \<noteq> c) s))"

definition validate_email_shape :: "string \<Rightarrow> string option" where
  "validate_email_shape v =
     (let v = strip v; (local, sep, domain) = partition_at (CHR 0x40) v
      in if \<not> sep \<or> local = [] \<or> domain = [] \<or> CHR 0x40 \<in> set domain then None
         else if list_ex is_space v then None
         else Some (local @ [CHR 0x40] @ lower domain))"

definition LooseEmailStr :: "string \<Rightarrow> string option" where
  "LooseEmailStr v = Option.bind (validate_email_shape v) (\<lambda>e. if length e \<le> 254 then Some e else None)"

definition RegisterRequest :: "string \<Rightarrow> string \<Rightarrow> string \<Rightarrow> string option" where
  "RegisterRequest email password display_name =
     (if 8 \<le> length password \<and> length password \<le> 128 \<and> 1 \<le> length display_name \<and> length display_name \<le> 80
      then LooseEmailStr email else None)"

definition LoginRequest :: "string \<Rightarrow> string \<Rightarrow> string option" where
  "LoginRequest email password = (if 1 \<le> length password \<and> length password \<le> 256 then LooseEmailStr email else None)"

definition RefreshRequest :: "string \<Rightarrow> bool" where
  "RefreshRequest token \<longleftrightarrow> 1 \<le> length token"

subsection \<open>quiz.py\<close>

definition opt_all :: "('a \<Rightarrow> bool) \<Rightarrow> 'a option \<Rightarrow> bool" where
  "opt_all P x \<longleftrightarrow> (case x of None \<Rightarrow> True | Some y \<Rightarrow> P y)"

definition OptionCreate :: "option_in \<Rightarrow> bool" where
  "OptionCreate x \<longleftrightarrow> 1 \<le> oi_position x \<and> oi_position x \<le> 20 \<and> 1 \<le> length (oi_body x) \<and> length (oi_body x) \<le> 500"

definition QuestionCreate :: "question_create \<Rightarrow> bool" where
  "QuestionCreate c \<longleftrightarrow> opt_all (\<lambda>p. 1 \<le> p) (cq_position c) \<and> 1 \<le> length (cq_body c) \<and> length (cq_body c) \<le> 2000 \<and>
     5 \<le> cq_time_limit_seconds c \<and> cq_time_limit_seconds c \<le> 120 \<and> 0 \<le> cq_points c \<and> cq_points c \<le> 10000 \<and>
     opt_all (\<lambda>x. length x \<le> 2000) (cq_explanation c) \<and> 2 \<le> length (cq_options c) \<and> length (cq_options c) \<le> 10 \<and>
     list_all OptionCreate (cq_options c)"

definition QuestionUpdate :: "question_update \<Rightarrow> bool" where
  "QuestionUpdate u \<longleftrightarrow> opt_all (\<lambda>p. 1 \<le> p) (uq_position u) \<and> opt_all (\<lambda>b. 1 \<le> length b \<and> length b \<le> 2000) (uq_body u) \<and>
     opt_all (\<lambda>t. 5 \<le> t \<and> t \<le> 120) (uq_time_limit_seconds u) \<and> opt_all (\<lambda>p. 0 \<le> p \<and> p \<le> 10000) (uq_points u) \<and>
     opt_all (\<lambda>x. length x \<le> 2000) (uq_explanation u) \<and> opt_all (list_all OptionCreate) (uq_options u)"

definition QuizSetCreate :: "quiz_create \<Rightarrow> bool" where
  "QuizSetCreate c \<longleftrightarrow> 1 \<le> length (qc_title c) \<and> length (qc_title c) \<le> 160 \<and> opt_all (\<lambda>x. length x \<le> 4000) (qc_description c) \<and>
     length (qc_tags c) \<le> 20"

definition QuizSetUpdate :: "quiz_update \<Rightarrow> bool" where
  "QuizSetUpdate u \<longleftrightarrow> opt_all (\<lambda>x. 1 \<le> length x \<and> length x \<le> 160) (qu_title u) \<and> opt_all (\<lambda>x. length x \<le> 4000) (qu_description u)"

subsection \<open>room.py, moderation.py\<close>

definition RoomCreate :: "room_create \<Rightarrow> bool" where
  "RoomCreate c \<longleftrightarrow> 2 \<le> rc_max_players c \<and> rc_max_players c \<le> 500"

definition RoomJoinRequest :: "string \<Rightarrow> string option \<Rightarrow> bool" where
  "RoomJoinRequest nick guest_id \<longleftrightarrow> 1 \<le> length nick \<and> length nick \<le> 60 \<and> opt_all (\<lambda>x. length x \<le> 120) guest_id"

definition ReportCreate :: "targets \<Rightarrow> string \<Rightarrow> string option \<Rightarrow> bool" where
  "ReportCreate t reason details \<longleftrightarrow> 1 \<le> length reason \<and> length reason \<le> 120 \<and> opt_all (\<lambda>x. length x \<le> 4000) details \<and>
     \<not> set_count t = 0 \<and> \<not> 1 < set_count t"

definition DecisionRequest :: "string \<Rightarrow> string option \<Rightarrow> bool" where
  "DecisionRequest decision reason \<longleftrightarrow> decision \<in> {''dismiss'', ''hide'', ''mute'', ''ban''} \<and> opt_all (\<lambda>x. length x \<le> 500) reason"

section \<open>Responses\<close>

subsection \<open>user.py, auth.py\<close>

definition UserPublic :: schema where
  "UserPublic = SModel False [(''id'', True, SStr), (''email'', True, SStr), (''display_name'', True, SStr), (''role'', True, SStr)]"

text \<open>\<^verbatim>\<open>from_attributes\<close> runs the email check again; a row it refuses is a failed response.\<close>

definition user_public :: "User \<Rightarrow> json result" where
  "user_public u =
     (case validate_email_shape (u_email u) of
        None \<Rightarrow> Inl (PyError ''ResponseValidationError'')
      | Some email \<Rightarrow> Inr (JObj [(''id'', JStr (int_str (u_id u))), (''email'', JStr email), (''display_name'', JStr (u_display_name u)),
          (''role'', JStr (role_value (u_role u)))]))"

definition TokenPairModel :: schema where
  "TokenPairModel = SModel False [(''access_token'', True, SStr), (''refresh_token'', True, SStr), (''token_type'', True, SLit ''bearer''),
     (''expires_in'', True, SInt)]"

definition token_pair :: "TokenPair \<Rightarrow> json" where
  "token_pair p = JObj [(''access_token'', JStr (access_token p)), (''refresh_token'', JStr (refresh_token p)),
     (''token_type'', JStr ''bearer''), (''expires_in'', JInt (expires_in p))]"

subsection \<open>quiz.py\<close>

definition OptionResponse :: schema where
  "OptionResponse = SModel False [(''id'', True, SStr), (''position'', True, SInt), (''body'', True, SStr), (''is_correct'', True, SBool)]"

definition option_response :: "AnswerOption \<Rightarrow> json" where
  "option_response ao = JObj [(''id'', JStr (int_str (ao_id ao))), (''position'', JInt (ao_position ao)), (''body'', JStr (ao_body ao)),
     (''is_correct'', JBool (ao_is_correct ao))]"

definition QuestionDetail :: schema where
  "QuestionDetail = SModel False [(''id'', True, SStr), (''position'', True, SInt), (''body'', True, SStr), (''type'', True, SStr),
     (''time_limit_seconds'', True, SInt), (''points'', True, SInt), (''explanation'', True, SOpt SStr), (''options'', True, SList OptionResponse)]"

definition question_detail :: "Question \<times> AnswerOption list \<Rightarrow> json" where
  "question_detail qos =
     (case qos of (q, opts) \<Rightarrow>
        JObj [(''id'', JStr (int_str (q_id q))), (''position'', JInt (q_position q)), (''body'', JStr (q_body q)),
          (''type'', JStr (question_type_value (q_type q))), (''time_limit_seconds'', JInt (q_time_limit_seconds q)),
          (''points'', JInt (q_points q)), (''explanation'', opt_str (q_explanation q)), (''options'', JArr (map option_response opts))])"

definition QuizSetSummary :: schema where
  "QuizSetSummary = SModel False [(''id'', True, SStr), (''title'', True, SStr), (''is_published'', True, SBool), (''version'', True, SInt),
     (''question_count'', True, SInt)]"

definition quiz_set_summary :: "QuizSet \<Rightarrow> nat \<Rightarrow> json" where
  "quiz_set_summary quiz question_count =
     JObj [(''id'', JStr (int_str (qs_id quiz))), (''title'', JStr (qs_title quiz)), (''is_published'', JBool (qs_is_published quiz)),
       (''version'', JInt (qs_version quiz)), (''question_count'', JInt (int question_count))]"

definition QuizSetDetail :: schema where
  "QuizSetDetail = SModel False [(''id'', True, SStr), (''title'', True, SStr), (''description'', True, SOpt SStr), (''visibility'', True, SStr),
     (''is_published'', True, SBool), (''version'', True, SInt), (''owner_id'', True, SStr), (''tags'', True, SList SStr),
     (''question_count'', True, SInt), (''created_at'', True, SStr), (''updated_at'', True, SStr), (''questions'', False, SOpt (SList QuestionDetail))]"

text \<open>\<open>updated_at\<close> is kept by the database and not by the tables of the model: it is an argument.\<close>

definition quiz_set_detail :: "QuizSet \<Rightarrow> string list \<Rightarrow> time \<Rightarrow> (Question \<times> AnswerOption list) list \<Rightarrow> bool \<Rightarrow> nat \<Rightarrow> json" where
  "quiz_set_detail quiz tags updated_at qs is_owner_view question_count =
     JObj [(''id'', JStr (int_str (qs_id quiz))), (''title'', JStr (qs_title quiz)), (''description'', opt_str (qs_description quiz)),
       (''visibility'', JStr (visibility_value (qs_visibility quiz))), (''is_published'', JBool (qs_is_published quiz)),
       (''version'', JInt (qs_version quiz)), (''owner_id'', JStr (int_str (qs_owner_id quiz))), (''tags'', JArr (map JStr tags)),
       (''question_count'', JInt (int question_count)), (''created_at'', JTime (qs_created_at quiz)), (''updated_at'', JTime updated_at),
       (''questions'', if is_owner_view then JArr (map question_detail qs) else JNull)]"

definition QuizSetListResponse :: schema where
  "QuizSetListResponse = SModel False [(''items'', True, SList QuizSetSummary), (''limit'', True, SInt), (''offset'', True, SInt)]"

definition quiz_set_list :: "(QuizSet \<times> nat) list \<Rightarrow> nat \<Rightarrow> nat \<Rightarrow> json" where
  "quiz_set_list rows limit offset =
     JObj [(''items'', JArr (map (\<lambda>(quiz, n). quiz_set_summary quiz n) rows)), (''limit'', JInt (int limit)), (''offset'', JInt (int offset))]"

subsection \<open>room.py\<close>

definition RoomCreateResponse :: schema where
  "RoomCreateResponse = SModel False [(''room_id'', True, SStr), (''code'', True, SStr), (''status'', True, SStr), (''host_ws_url'', True, SStr)]"

definition room_create_response :: "Room \<Rightarrow> string \<Rightarrow> json" where
  "room_create_response room host_ws_url =
     JObj [(''room_id'', JStr (int_str (rm_id room))), (''code'', JStr (rm_code room)), (''status'', JStr (room_status_value (rm_status room))),
       (''host_ws_url'', JStr host_ws_url)]"

definition RoomJoinResponse :: schema where
  "RoomJoinResponse = SModel False [(''participant_id'', True, SStr), (''room_id'', True, SStr), (''code'', True, SStr), (''nickname'', True, SStr),
     (''participant_token'', True, SStr), (''ws_url'', True, SStr)]"

definition room_join_response :: "join_response \<Rightarrow> json" where
  "room_join_response r =
     JObj [(''participant_id'', JStr (int_str (jr_participant_id r))), (''room_id'', JStr (int_str (jr_room_id r))), (''code'', JStr (jr_code r)),
       (''nickname'', JStr (jr_nickname r)), (''participant_token'', JStr (jr_participant_token r)), (''ws_url'', JStr (jr_ws_url r))]"

text \<open>
  \<^verbatim>\<open>RoomSnapshotResponse(**snapshot)\<close>: the two required blocks with their declared fields, the match and the leaderboard if
  they are there; whatever else the cached value holds is left out.
\<close>

definition SnapshotRoom :: schema where
  "SnapshotRoom = SModel False [(''code'', True, SStr), (''status'', True, SStr), (''player_count'', True, SInt)]"

definition SnapshotParticipant :: schema where
  "SnapshotParticipant = SModel False [(''participant_id'', True, SStr), (''nickname'', True, SStr), (''online'', True, SBool)]"

definition RoomSnapshotResponse :: schema where
  "RoomSnapshotResponse = SModel False [(''room'', True, SnapshotRoom), (''participants'', True, SList SnapshotParticipant),
     (''match'', False, SOpt SDict), (''leaderboard'', False, SList SDict)]"

definition declared :: "string list \<Rightarrow> json \<Rightarrow> json" where
  "declared names j = JObj (map (\<lambda>k. (k, json_get j k)) names)"

definition room_snapshot_response :: "json \<Rightarrow> json result" where
  "room_snapshot_response s =
     (if valid RoomSnapshotResponse s
      then Inr (JObj [(''room'', declared [''code'', ''status'', ''player_count''] (json_get s ''room'')),
             (''participants'', JArr (map (declared [''participant_id'', ''nickname'', ''online'']) (json_items (json_get s ''participants'')))),
             (''match'', json_get s ''match''),
             (''leaderboard'', case json_get s ''leaderboard'' of JNull \<Rightarrow> JArr [] | l \<Rightarrow> l)])
      else Inl (PyError ''ValidationError''))"

subsection \<open>match.py\<close>

definition MatchStartedResponse :: schema where
  "MatchStartedResponse = SModel False [(''match_id'', True, SStr), (''room_code'', True, SStr), (''question_count'', True, SInt), (''status'', True, SStr)]"

definition match_started_response :: "Match \<Rightarrow> string \<Rightarrow> nat \<Rightarrow> json" where
  "match_started_response match code question_count =
     JObj [(''match_id'', JStr (int_str (m_id match))), (''room_code'', JStr code), (''question_count'', JInt (int question_count)),
       (''status'', JStr (room_status_value (m_status match)))]"

definition MatchControlResponse :: schema where
  "MatchControlResponse = SModel False [(''match_id'', True, SStr), (''status'', True, SStr)]"

definition match_control_response :: "Match \<Rightarrow> json" where
  "match_control_response match = JObj [(''match_id'', JStr (int_str (m_id match))), (''status'', JStr (room_status_value (m_status match)))]"

definition AnswerSubmitResponse :: schema where
  "AnswerSubmitResponse = SModel False [(''submission_id'', True, SStr), (''accepted'', True, SBool), (''is_correct'', True, SBool),
     (''score_awarded'', True, SInt), (''response_time_ms'', True, SInt), (''leaderboard_rank'', False, SOpt SInt)]"

text \<open>A first answer carries the id as a number, a cached one as text; the model reads both.\<close>

definition answer_submit_response :: "answer_response \<Rightarrow> json result" where
  "answer_submit_response r =
     (case int_of_json (submission_id r) of
        Inl _ \<Rightarrow> Inl (PyError ''ValidationError'')
      | Inr i \<Rightarrow> Inr (JObj [(''submission_id'', JStr (int_str i)), (''accepted'', JBool (accepted r)), (''is_correct'', JBool (resp_is_correct r)),
          (''score_awarded'', JInt (resp_score_awarded r)), (''response_time_ms'', JInt (resp_response_time_ms r)),
          (''leaderboard_rank'', case leaderboard_rank r of None \<Rightarrow> JNull | Some k \<Rightarrow> JInt k)]))"

definition LeaderboardResponse :: schema where
  "LeaderboardResponse = SModel False [(''match_id'', True, SStr), (''is_final'', True, SBool),
     (''entries'', True, SList (SModel False [(''rank'', True, SInt), (''participant_id'', True, SStr), (''nickname'', True, SStr), (''score'', True, SInt)]))]"

definition leaderboard_entry_response :: "lb_entry \<Rightarrow> json" where
  "leaderboard_entry_response e = JObj [(''rank'', JInt (e_rank e)), (''participant_id'', JStr (e_participant_id e)),
     (''nickname'', JStr (e_nickname e)), (''score'', JInt (e_score e))]"

definition leaderboard_response_json :: "leaderboard_response \<Rightarrow> json" where
  "leaderboard_response_json r = JObj [(''match_id'', JStr (int_str (lr_match_id r))), (''is_final'', JBool (lr_is_final r)),
     (''entries'', JArr (map leaderboard_entry_response (lr_entries r)))]"

subsection \<open>moderation.py, admin.py\<close>

definition ReportResponse :: schema where
  "ReportResponse = SModel False [(''id'', True, SStr), (''reporter_user_id'', True, SOpt SStr), (''room_id'', True, SOpt SStr),
     (''target_user_id'', True, SOpt SStr), (''target_quiz_set_id'', True, SOpt SStr), (''reason'', True, SStr), (''details'', True, SOpt SStr),
     (''status'', True, SStr), (''created_at'', True, SStr), (''reviewed_by'', True, SOpt SStr), (''reviewed_at'', True, SOpt SStr)]"

text \<open>The details of an automatic flag are the text of a JSON object: \<open>json_text\<close> is the library's \<^verbatim>\<open>json.dumps\<close>.\<close>

definition details_text :: "(json \<Rightarrow> string) \<Rightarrow> json option \<Rightarrow> json" where
  "details_text json_text d = (case d of None \<Rightarrow> JNull | Some (JStr s) \<Rightarrow> JStr s | Some j \<Rightarrow> JStr (json_text j))"

definition report_response :: "(json \<Rightarrow> string) \<Rightarrow> ModerationReport \<Rightarrow> json" where
  "report_response json_text r =
     JObj [(''id'', JStr (int_str (mr_id r))), (''reporter_user_id'', opt_id (mr_reporter_user_id r)), (''room_id'', opt_id (mr_room_id r)),
       (''target_user_id'', opt_id (mr_target_user_id r)), (''target_quiz_set_id'', opt_id (mr_target_quiz_set_id r)),
       (''reason'', JStr (mr_reason r)), (''details'', details_text json_text (mr_details r)),
       (''status'', JStr (moderation_status_value (mr_status r))), (''created_at'', JTime (mr_created_at r)),
       (''reviewed_by'', opt_id (mr_reviewed_by r)), (''reviewed_at'', case mr_reviewed_at r of None \<Rightarrow> JNull | Some t \<Rightarrow> JTime t)]"

definition ReportTargetPreview :: schema where
  "ReportTargetPreview = SModel False [(''kind'', True, SStr), (''id'', True, SStr), (''label'', False, SOpt SStr)]"

definition ReportQueueResponse :: schema where
  "ReportQueueResponse = SModel False [(''items'', True, SList (SModel False [(''report'', True, ReportResponse), (''target'', False, SOpt ReportTargetPreview)])),
     (''limit'', True, SInt), (''offset'', True, SInt)]"

definition report_queue_item :: "(json \<Rightarrow> string) \<Rightarrow> db \<Rightarrow> ModerationReport \<Rightarrow> json" where
  "report_queue_item json_text d r =
     JObj [(''report'', report_response json_text r),
       (''target'', case build_target_preview d r of None \<Rightarrow> JNull
          | Some (kind, i, label) \<Rightarrow> JObj [(''kind'', JStr kind), (''id'', JStr i), (''label'', opt_str label)])]"

definition DecisionResponse :: schema where
  "DecisionResponse = SModel False [(''report_id'', True, SStr), (''decision'', True, SStr), (''status'', True, SStr)]"

definition decision_response :: "ModerationReport \<Rightarrow> string \<Rightarrow> json" where
  "decision_response report decision =
     JObj [(''report_id'', JStr (int_str (mr_id report))), (''decision'', JStr decision), (''status'', JStr (moderation_status_value (mr_status report)))]"

definition AdminMetricsResponse :: schema where
  "AdminMetricsResponse = SModel False (map (\<lambda>k. (k, True, SInt)) [''total_users'', ''total_quiz_sets'', ''published_quiz_sets'', ''total_rooms'',
     ''total_matches'', ''completed_matches''])"

section \<open>Lemmas\<close>

lemma lower_char_facts: "lower_char (lower_char c) = lower_char c" "is_space (lower_char c) = is_space c" "lower_char c = CHR 0x40 \<longleftrightarrow> c = CHR 0x40"
proof -
  have *: "of_char (lower_char c) = (if 65 \<le> (of_char c :: nat) \<and> (of_char c :: nat) \<le> 90 then of_char c + 32 else (of_char c :: nat))"
    by (auto simp: lower_char_def Let_def of_char_of)
  show "lower_char (lower_char c) = lower_char c" by (subst (1) lower_char_def) (auto simp: Let_def *)
  show "is_space (lower_char c) = is_space c" unfolding is_space_def Let_def * by auto
  have "lower_char c = CHR 0x40 \<longleftrightarrow> of_char (lower_char c) = (64 :: nat)" "c = CHR 0x40 \<longleftrightarrow> of_char c = (64 :: nat)"
    using of_char_eq_iff [where ?'a = nat, of _ "CHR 0x40"] by simp_all
  with * show "lower_char c = CHR 0x40 \<longleftrightarrow> c = CHR 0x40" by auto
qed

lemma partition_at_append: "c \<notin> set xs \<Longrightarrow> partition_at c (xs @ [c] @ ys) = (xs, True, ys)"
  by (induction xs) (auto simp: partition_at_def)

lemma partition_at_parts: "partition_at c s = (a, True, b) \<Longrightarrow> s = a @ [c] @ b \<and> c \<notin> set a"
  by (induction s arbitrary: a) (auto simp: partition_at_def split: if_splits)

lemma validate_email_shape_Some:
  "validate_email_shape s = Some e \<longleftrightarrow>
     (\<exists>local domain. strip s = local @ [CHR 0x40] @ domain \<and> CHR 0x40 \<notin> set local \<and> CHR 0x40 \<notin> set domain \<and> local \<noteq> [] \<and> domain \<noteq> [] \<and>
        (\<forall>c \<in> set (strip s). \<not> is_space c) \<and> e = local @ [CHR 0x40] @ lower domain)" (is "?l \<longleftrightarrow> ?r")
proof
  assume ?l
  moreover obtain a b c where p: "partition_at (CHR 0x40) (strip s) = (a, b, c)" by (cases "partition_at (CHR 0x40) (strip s)") auto
  ultimately have "b" "a \<noteq> []" "c \<noteq> []" "CHR 0x40 \<notin> set c" "\<not> list_ex is_space (strip s)" "e = a @ [CHR 0x40] @ lower c"
    by (auto simp: validate_email_shape_def Let_def split: if_splits)
  with p partition_at_parts [of "CHR 0x40" "strip s" a c] show ?r by (auto simp: list_ex_iff)
next
  assume ?r
  then obtain a c where r: "strip s = a @ [CHR 0x40] @ c" "CHR 0x40 \<notin> set a" "CHR 0x40 \<notin> set c" "a \<noteq> []" "c \<noteq> []"
    "\<forall>x \<in> set (strip s). \<not> is_space x" "e = a @ [CHR 0x40] @ lower c" by blast
  then show ?l using partition_at_append [of "CHR 0x40" a c]
    by (auto simp: validate_email_shape_def Let_def list_ex_iff)
qed

lemma email_normal: "validate_email_shape s = Some e \<Longrightarrow> validate_email_shape e = Some e"
proof -
  assume "validate_email_shape s = Some e"
  then obtain a c where r: "strip s = a @ [CHR 0x40] @ c" "CHR 0x40 \<notin> set a" "CHR 0x40 \<notin> set c" "a \<noteq> []" "c \<noteq> []"
    "\<forall>x \<in> set (strip s). \<not> is_space x" "e = a @ [CHR 0x40] @ lower c" unfolding validate_email_shape_Some by blast
  have sp: "\<forall>x \<in> set e. \<not> is_space x" using r lower_char_facts by (auto simp: lower_def)
  moreover have "lower (lower c) = lower c" "lower c \<noteq> []" using r(5) by (simp_all add: lower_def comp_def lower_char_facts(1))
  moreover have "CHR 0x40 \<notin> set (lower c)" 
  proof
    assume "CHR 0x40 \<in> set (lower c)"
    then obtain x where "x \<in> set c" "lower_char x = CHR 0x40" by (auto simp: lower_def)
    then show False using r(3) lower_char_facts(3) by simp
  qed
  ultimately show ?thesis unfolding validate_email_shape_Some strip_id [OF sp]
    using r by (intro exI [of _ a] exI [of _ "lower c"]) simp
qed

lemma request_email:
  "RegisterRequest s p n = Some e \<Longrightarrow> validate_email_shape e = Some e" "LoginRequest s p = Some e \<Longrightarrow> validate_email_shape e = Some e"
  by (auto simp: RegisterRequest_def LoginRequest_def LooseEmailStr_def bind_eq_Some_conv email_normal split: if_splits)

named_theorems models \<open>the response models and their builders\<close>

declare UserPublic_def [models] TokenPairModel_def [models] OptionResponse_def [models] QuestionDetail_def [models] QuizSetSummary_def [models]
  QuizSetDetail_def [models] QuizSetListResponse_def [models] RoomCreateResponse_def [models] RoomJoinResponse_def [models]
  MatchStartedResponse_def [models] MatchControlResponse_def [models] AnswerSubmitResponse_def [models] LeaderboardResponse_def [models]
  ReportResponse_def [models] ReportTargetPreview_def [models] ReportQueueResponse_def [models] DecisionResponse_def [models]
  AdminMetricsResponse_def [models] SnapshotRoom_def [models] SnapshotParticipant_def [models] RoomSnapshotResponse_def [models]

lemma valid_optional [simp]: "valid (SOpt SStr) (opt_id x)" "valid (SOpt SStr) (opt_str y)"
  by (simp_all add: opt_id_def opt_str_def split: option.split)

lemma valid_option_response [simp]: "valid OptionResponse (option_response ao)"
  by (simp add: models option_response_def)

lemma valid_question_detail [simp]: "valid QuestionDetail (question_detail qos)"
proof -
  have "list_all (valid OptionResponse) (map option_response os)" for os by (simp add: list_all_iff)
  then show ?thesis using valid_optional(2) by (simp add: QuestionDetail_def question_detail_def split_beta)
qed

lemma valid_summary [simp]: "valid QuizSetSummary (quiz_set_summary q n)"
  by (simp add: models quiz_set_summary_def)

lemma valid_quiz_list [simp]: "valid QuizSetListResponse (quiz_set_list rows l k)"
proof -
  have "list_all (valid QuizSetSummary) (map (\<lambda>(quiz, n). quiz_set_summary quiz n) rows)" by (auto simp: list_all_iff)
  then show ?thesis by (simp add: QuizSetListResponse_def quiz_set_list_def)
qed

lemma valid_quiz_detail [simp]: "valid QuizSetDetail (quiz_set_detail quiz tags u qs o' n)"
proof -
  have "list_all (valid QuestionDetail) (map question_detail qs)" "list_all (valid SStr) (map JStr tags)" by (auto simp: list_all_iff)
  then show ?thesis using valid_optional(2) by (simp add: QuizSetDetail_def quiz_set_detail_def)
qed

lemma valid_responses [simp]:
  "valid TokenPairModel (token_pair p)" "valid RoomCreateResponse (room_create_response room u)" "valid RoomJoinResponse (room_join_response jr)"
  "valid MatchStartedResponse (match_started_response m c n)" "valid MatchControlResponse (match_control_response m)"
  "valid DecisionResponse (decision_response rep dec)"
  by (simp_all add: models token_pair_def room_create_response_def room_join_response_def match_started_response_def match_control_response_def
      decision_response_def)

lemma valid_checked_responses:
  "user_public u = Inr j \<Longrightarrow> valid UserPublic j" "answer_submit_response r = Inr j \<Longrightarrow> valid AnswerSubmitResponse j"
  by (auto simp: models user_public_def answer_submit_response_def split: option.splits sum.splits)

lemma valid_leaderboard [simp]: "valid LeaderboardResponse (leaderboard_response_json r)"
  by (auto simp: models leaderboard_response_json_def leaderboard_entry_response_def list_all_iff)

lemma valid_report [simp]: "valid ReportResponse (report_response tx r)"
proof -
  have "valid (SOpt SStr) (details_text tx d)" for d by (simp add: details_text_def split: option.split json.split)
  then show ?thesis using valid_optional(1) by (simp add: ReportResponse_def report_response_def split: option.split)
qed

end
