(* ===== verification/Api.thy ===== *)
theory Api
  imports WsRouter AnalyticsService Schemas "HOL-Library.Char_ord" "HOL-Library.List_Lexorder"
begin

text \<open>
  The HTTP surface of src/backend/app: the routers of api/v1 with the dependencies of api/deps.py, the request-id
  middleware and the exception handlers.  A handler runs its dependencies (token, role) first, then the checks of its
  request model and parameters, then the service; what it returns goes through the response model.  \<open>api_call\<close> has one
  constructor per route, its arguments already brought to the declared types.

  \<open>deployment\<close> holds what is the same for all requests: libraries, settings, the moderation policy and the functions of
  Postgres the queries use.  \<open>request\<close> holds the headers, the peer, the clock readings, the random choices, and the
  answers of ClickHouse and of the analytics cache.  The \<^verbatim>\<open>details\<close> a service attaches to an \<^verbatim>\<open>AuthError\<close> are not part of
  the model's errors, so \<open>details_of\<close> gives them.
\<close>

section \<open>Requests and responses\<close>

record deployment =
  a_lib :: auth_lib
  a_cfg :: Settings
  a_policy :: policy
  sha1_json :: "json \<Rightarrow> string"
  json_text :: "json \<Rightarrow> string"
  similarity :: "string \<Rightarrow> string \<Rightarrow> rat"
  similarity_threshold :: rat
  percentile_cont :: "rat \<Rightarrow> int list \<Rightarrow> rat"
  updated_at_of :: "QuizSet \<Rightarrow> time"
  leaderboard_backend :: string
  details_of :: "error \<Rightarrow> (string \<times> json) list"

record request =
  bearer_creds :: "string option"
  client_host :: "string option"
  x_request_id :: "string option"
  received :: time
  answered_at :: time
  salt :: nat
  code_draws :: "nat \<Rightarrow> nat \<Rightarrow> nat"
  cache_up :: bool
  clickhouse :: "clickhouse_rows option"
  db_answers :: bool
  redis_ping :: "bool option"
  clickhouse_probe :: "int list list option"

datatype api_call =
    Register string string string
  | Login string string
  | Refresh string
  | Logout string
  | Me
  | GetUser int
  | ListQuizSets "string option" "int option" "string option" int int
  | CreateQuizSet quiz_create
  | GetQuizSet int
  | PatchQuizSet int quiz_update
  | PublishQuizSet int
  | AddQuestion int question_create
  | PatchQuestion int question_update
  | DeleteQuestion int
  | CreateRoom room_create
  | GetRoom string
  | JoinRoom string string "string option"
  | StartMatch string
  | PauseMatch string
  | ResumeMatch string
  | EndMatch string
  | PostAnswer int answer_request
  | GetLeaderboard int int
  | GetAnalytics int
  | CreateReport "int option" "int option" "int option" string "string option"
  | ListReports "ModerationStatus option" int int
  | DecideReport int string "string option"
  | AdminMetrics
  | Health
  | Ready

record response =
  http_status :: int
  http_body :: json
  retry_after :: "int option"
  echoed_request_id :: "string option"

section \<open>Handlers\<close>

definition reply :: "'a \<Rightarrow> 'a handler" where
  "reply x w = (Inr x, w)"

definition and_then :: "'a handler \<Rightarrow> ('a \<Rightarrow> 'b handler) \<Rightarrow> 'b handler" where
  "and_then h k w = (case h w of (Inl e, w) \<Rightarrow> (Inl e, w) | (Inr x, w) \<Rightarrow> k x w)"

definition of_result :: "'a result \<Rightarrow> 'a handler" where
  "of_result x w = (x, w)"

text \<open>\<^verbatim>\<open>RequestValidationError\<close>: what its handler makes of it.\<close>

definition checked :: "bool \<Rightarrow> 'a handler \<Rightarrow> 'a handler" where
  "checked ok h w = (if ok then h w else (Inl (AuthError ''VALIDATION_ERROR'' 422 ''Request payload is invalid.''), w))"

definition with_user :: "deployment \<Rightarrow> request \<Rightarrow> (User \<Rightarrow> 'a handler) \<Rightarrow> 'a handler" where
  "with_user D r h w = (case current_user (a_lib D) (a_cfg D) (received r) (bearer_creds r) w of Inl e \<Rightarrow> (Inl e, w) | Inr u \<Rightarrow> h u w)"

definition with_viewer :: "deployment \<Rightarrow> request \<Rightarrow> (User option \<Rightarrow> 'a handler) \<Rightarrow> 'a handler" where
  "with_viewer D r h w =
     (case optional_current_user (a_lib D) (a_cfg D) (received r) (bearer_creds r) w of Inl e \<Rightarrow> (Inl e, w) | Inr v \<Rightarrow> h v w)"

definition with_role :: "UserRole list \<Rightarrow> deployment \<Rightarrow> request \<Rightarrow> (User \<Rightarrow> 'a handler) \<Rightarrow> 'a handler" where
  "with_role allowed D r h = with_user D r (\<lambda>u w. case require_role allowed u of Inl e \<Rightarrow> (Inl e, w) | Inr u \<Rightarrow> h u w)"

definition with_participant :: "deployment \<Rightarrow> request \<Rightarrow> (ParticipantContext \<Rightarrow> 'a handler) \<Rightarrow> 'a handler" where
  "with_participant D r h w =
     (case current_participant_from_header (a_lib D) (a_cfg D) (received r) (bearer_creds r) of Inl e \<Rightarrow> (Inl e, w) | Inr p \<Rightarrow> h p w)"

definition peer :: "request \<Rightarrow> string" where
  "peer r = (case client_host r of None \<Rightarrow> ''unknown'' | Some h \<Rightarrow> h)"

subsection \<open>auth.py, users.py\<close>

definition api_register :: "deployment \<Rightarrow> request \<Rightarrow> string \<Rightarrow> string \<Rightarrow> string \<Rightarrow> json handler" where
  "api_register D r email password display_name =
     (case RegisterRequest email password display_name of
        None \<Rightarrow> checked False (reply JNull)
      | Some email \<Rightarrow> and_then (register_user (a_lib D) (salt r) email password display_name) (\<lambda>u. of_result (user_public u)))"

definition api_login :: "deployment \<Rightarrow> request \<Rightarrow> string \<Rightarrow> string \<Rightarrow> json handler" where
  "api_login D r email password =
     (case LoginRequest email password of
        None \<Rightarrow> checked False (reply JNull)
      | Some email \<Rightarrow> and_then (login (a_lib D) (a_cfg D) (received r) email password (peer r)) (\<lambda>(_, pair). reply (token_pair pair)))"

definition api_refresh :: "deployment \<Rightarrow> request \<Rightarrow> string \<Rightarrow> json handler" where
  "api_refresh D r token =
     checked (RefreshRequest token) (and_then (refresh (a_lib D) (a_cfg D) (received r) token) (\<lambda>(_, pair). reply (token_pair pair)))"

definition api_logout :: "deployment \<Rightarrow> request \<Rightarrow> string \<Rightarrow> json handler" where
  "api_logout D r token =
     with_user D r (\<lambda>_. checked (RefreshRequest token) (and_then (logout (a_lib D) (a_cfg D) (received r) token) (\<lambda>_. reply JNull)))"

definition api_me :: "deployment \<Rightarrow> request \<Rightarrow> json handler" where
  "api_me D r = with_user D r (\<lambda>u. of_result (user_public u))"

definition api_get_user :: "deployment \<Rightarrow> request \<Rightarrow> int \<Rightarrow> json handler" where
  "api_get_user D r user_id =
     with_role [role_admin] D r (\<lambda>_. checked (0 \<le> user_id) (\<lambda>w.
       (case get_user (wdb w) user_id of
          None \<Rightarrow> (Inl (AuthError ''VALIDATION_ERROR'' 404 ''user not found''), w)
        | Some target \<Rightarrow> (user_public target, w))))"

subsection \<open>quiz\_sets.py, questions.py\<close>

definition LIST_CACHE_TTL_SECONDS :: int where "LIST_CACHE_TTL_SECONDS = 60"

text \<open>\<^verbatim>\<open>invalidate_prefix\<close>: a \<^verbatim>\<open>SCAN\<close> over the whole keyspace returns every key that stays in it.\<close>

definition invalidate_prefix :: "string \<Rightarrow> (string \<rightharpoonup> 'v) \<Rightarrow> (string \<rightharpoonup> 'v)" where
  "invalidate_prefix p m = (\<lambda>k. if take (length p) k = p then None else m k)"

definition invalidate_lists :: "unit handler" where
  "invalidate_lists w = (Inr (), w\<lparr>wredis := (wredis w)\<lparr>quiz_lists := invalidate_prefix QUIZ_LIST_PREFIX (quiz_lists (wredis w))\<rparr>\<rparr>)"

definition cached_list :: "time \<Rightarrow> string \<Rightarrow> rstate \<Rightarrow> json option" where
  "cached_list now key r = (case quiz_lists r key of None \<Rightarrow> None | Some (body, expires) \<Rightarrow> if now < expires then Some body else None)"

definition viewer_id :: "User option \<Rightarrow> int option" where
  "viewer_id viewer = map_option u_id viewer"

definition list_body :: "deployment \<Rightarrow> db \<Rightarrow> int option \<Rightarrow> string option \<Rightarrow> int option \<Rightarrow> string option \<Rightarrow> int \<Rightarrow> int \<Rightarrow> json" where
  "list_body D d vid q owner_id tag limit offset =
     quiz_set_list (list_for_viewer (similarity D) (similarity_threshold D) d vid q owner_id tag (nat limit) (nat offset)) (nat limit) (nat offset)"

definition api_list_quiz_sets :: "deployment \<Rightarrow> request \<Rightarrow> string option \<Rightarrow> int option \<Rightarrow> string option \<Rightarrow> int \<Rightarrow> int \<Rightarrow> json handler" where
  "api_list_quiz_sets D r q owner_id tag limit offset =
     with_viewer D r (\<lambda>viewer. checked (opt_all (\<lambda>i. 0 \<le> i) owner_id \<and> opt_all (\<lambda>t. length t \<le> 60) tag \<and> 1 \<le> limit \<and> limit \<le> 100 \<and> 0 \<le> offset)
       (\<lambda>w. let cache_key = quiz_list_cache_key (sha1_json D) (viewer_id viewer) q owner_id tag limit offset in
            case cached_list (received r) cache_key (wredis w) of
              Some cached \<Rightarrow> (if valid QuizSetListResponse cached then Inr cached else Inl (PyError ''ValidationError''), w)
            | None \<Rightarrow>
                let body = list_body D (wdb w) (viewer_id viewer) q owner_id tag limit offset
                in (Inr body, w\<lparr>wredis := (wredis w)\<lparr>quiz_lists := (quiz_lists (wredis w))(cache_key \<mapsto> (body, received r + LIST_CACHE_TTL_SECONDS * 1000000))\<rparr>\<rparr>)))"

definition count_questions :: "db \<Rightarrow> int \<Rightarrow> nat" where
  "count_questions d quiz_set_id = length (filter (\<lambda>q. q_quiz_set_id q = quiz_set_id) (questions d))"

definition api_create_quiz_set :: "deployment \<Rightarrow> request \<Rightarrow> quiz_create \<Rightarrow> json handler" where
  "api_create_quiz_set D r payload =
     with_role [role_host, role_admin] D r (\<lambda>owner. checked (QuizSetCreate payload)
       (and_then (create_quiz_set (received r) (u_id owner) payload) (\<lambda>quiz.
        and_then invalidate_lists (\<lambda>_. reply (quiz_set_summary quiz 0)))))"

definition tag_names :: "db \<Rightarrow> int \<Rightarrow> string list" where
  "tag_names d quiz_set_id =
     sort (map qt_name (filter (\<lambda>t. \<exists>x \<in> set (quiz_set_tags d). qst_quiz_set_id x = quiz_set_id \<and> qst_tag_id x = qt_id t) (quiz_tags d)))"

definition api_get_quiz_set :: "deployment \<Rightarrow> request \<Rightarrow> int \<Rightarrow> json handler" where
  "api_get_quiz_set D r quiz_set_id =
     with_viewer D r (\<lambda>viewer w.
       (case get_quiz_for_viewer (wdb w) (viewer_id viewer) quiz_set_id of
          Inl e \<Rightarrow> (Inl e, w)
        | Inr (quiz, is_owner_view) \<Rightarrow>
            (Inr (quiz_set_detail quiz (tag_names (wdb w) quiz_set_id) (updated_at_of D quiz) (with_options (wdb w) quiz_set_id) is_owner_view
               (count_questions (wdb w) quiz_set_id)), w)))"

definition api_patch_quiz_set :: "deployment \<Rightarrow> request \<Rightarrow> int \<Rightarrow> quiz_update \<Rightarrow> json handler" where
  "api_patch_quiz_set D r quiz_set_id payload =
     with_user D r (\<lambda>owner. checked (QuizSetUpdate payload)
       (and_then (update_quiz_set (u_id owner) quiz_set_id payload) (\<lambda>quiz.
        and_then invalidate_lists (\<lambda>_ w. reply (quiz_set_summary quiz (count_questions (wdb w) (qs_id quiz))) w))))"

definition api_publish_quiz_set :: "deployment \<Rightarrow> request \<Rightarrow> int \<Rightarrow> json handler" where
  "api_publish_quiz_set D r quiz_set_id =
     with_user D r (\<lambda>owner.
        and_then (publish_quiz_set (a_policy D) (received r) (u_id owner) quiz_set_id) (\<lambda>quiz.
        and_then invalidate_lists (\<lambda>_ w. reply (quiz_set_summary quiz (count_questions (wdb w) (qs_id quiz))) w)))"

definition hydrated :: "int \<Rightarrow> json handler" where
  "hydrated question_id w =
     (case get_question (wdb w) question_id of
        None \<Rightarrow> (Inl (PyError ''AssertionError''), w)
      | Some q \<Rightarrow> (Inr (question_detail (q, options_of (wdb w) question_id)), w))"

definition api_add_question :: "deployment \<Rightarrow> request \<Rightarrow> int \<Rightarrow> question_create \<Rightarrow> json handler" where
  "api_add_question D r quiz_set_id payload =
     with_user D r (\<lambda>owner. checked (QuestionCreate payload)
       (and_then (add_question (u_id owner) quiz_set_id payload) (\<lambda>question.
        and_then invalidate_lists (\<lambda>_. hydrated (q_id question)))))"

definition api_patch_question :: "deployment \<Rightarrow> request \<Rightarrow> int \<Rightarrow> question_update \<Rightarrow> json handler" where
  "api_patch_question D r question_id payload =
     with_user D r (\<lambda>owner. checked (QuestionUpdate payload)
       (and_then (update_question (u_id owner) question_id payload) (\<lambda>_.
        and_then invalidate_lists (\<lambda>_. hydrated question_id))))"

definition api_delete_question :: "deployment \<Rightarrow> request \<Rightarrow> int \<Rightarrow> json handler" where
  "api_delete_question D r question_id =
     with_user D r (\<lambda>owner.
        and_then (delete_question (u_id owner) question_id) (\<lambda>_.
        and_then invalidate_lists (\<lambda>_. reply JNull)))"

subsection \<open>rooms.py\<close>

definition api_create_room :: "deployment \<Rightarrow> request \<Rightarrow> room_create \<Rightarrow> json handler" where
  "api_create_room D r payload =
     with_role [role_host, role_admin] D r (\<lambda>host. checked (RoomCreate payload)
       (and_then (create_room (create_participant_token (a_lib D) (a_cfg D) (received r)) (received r) (code_draws r) host payload)
         (\<lambda>(room, host_ws_url). reply (room_create_response room host_ws_url))))"

definition api_get_room :: "deployment \<Rightarrow> request \<Rightarrow> string \<Rightarrow> json handler" where
  "api_get_room D r code = and_then (build_snapshot (received r) code) (\<lambda>snapshot. of_result (room_snapshot_response snapshot))"

definition api_join_room :: "deployment \<Rightarrow> request \<Rightarrow> string \<Rightarrow> string \<Rightarrow> string option \<Rightarrow> json handler" where
  "api_join_room D r code nick guest_id =
     with_viewer D r (\<lambda>user. checked (RoomJoinRequest nick guest_id)
       (and_then (join_room (create_participant_token (a_lib D) (a_cfg D) (received r)) (a_policy D) (received r) (peer r) code nick (viewer_id user))
         (\<lambda>result. reply (room_join_response result))))"

subsection \<open>matches.py\<close>

definition api_start_match :: "deployment \<Rightarrow> request \<Rightarrow> string \<Rightarrow> json handler" where
  "api_start_match D r code =
     with_role [role_host, role_admin] D r (\<lambda>host.
       and_then (start_match (received r) (answered_at r) (u_id host) code) (\<lambda>match w.
         reply (match_started_response match code (length (mqs_of (wdb w) (m_id match)))) w))"

definition api_pause_match :: "deployment \<Rightarrow> request \<Rightarrow> string \<Rightarrow> json handler" where
  "api_pause_match D r code =
     with_role [role_host, role_admin] D r (\<lambda>host.
       and_then (pause_match (received r) (u_id host) code) (\<lambda>match. reply (match_control_response match)))"

definition api_resume_match :: "deployment \<Rightarrow> request \<Rightarrow> string \<Rightarrow> json handler" where
  "api_resume_match D r code =
     with_role [role_host, role_admin] D r (\<lambda>host.
       and_then (resume_match (received r) (answered_at r) (u_id host) code) (\<lambda>match. reply (match_control_response match)))"

definition room_match :: "db \<Rightarrow> int \<Rightarrow> string \<Rightarrow> Match result" where
  "room_match d host_id code =
     bind_r (of_option (AuthError ''ROOM_NOT_FOUND'' 404 ''room code not found'') (get_room_by_code d code)) (\<lambda>room.
     bind_r (guard (rm_host_id room = host_id) (AuthError ''FORBIDDEN'' 403 ''not the room host'')) (\<lambda>_.
     of_option (AuthError ''ROOM_NOT_FOUND'' 404 ''no match for this room'') (get_match_by_room d (rm_id room))))"

definition api_end_match :: "deployment \<Rightarrow> request \<Rightarrow> string \<Rightarrow> json handler" where
  "api_end_match D r code =
     with_role [role_host, role_admin] D r (\<lambda>host w.
       (case room_match (wdb w) (u_id host) code of
          Inl e \<Rightarrow> (Inl e, w)
        | Inr match \<Rightarrow> and_then (end_match (received r) (answered_at r) (m_id match) (Some (u_id host))) (\<lambda>finished. reply (match_control_response finished)) w))"

definition answer_attempt :: "request \<Rightarrow> int \<Rightarrow> int \<Rightarrow> unit handler" where
  "answer_attempt r pid match_question_id w =
     (let (attempts, m) = incr_expire (received r) 600 (''rate:answer:'' @ int_str pid @ '':'' @ int_str match_question_id) (attempt_counts (wredis w));
          w = w\<lparr>wredis := (wredis w)\<lparr>attempt_counts := m\<rparr>\<rparr>
      in if 5 < attempts then (Inl (AuthError ''RATE_LIMITED'' 429 ''answer attempts exceeded''), w) else (Inr (), w))"

definition api_submit_answer :: "deployment \<Rightarrow> request \<Rightarrow> string \<Rightarrow> int \<Rightarrow> answer_request \<Rightarrow> json handler" where
  "api_submit_answer D r state_request_id match_id payload =
     with_participant D r (\<lambda>participant.
       let request_id = (case x_request_id r of None \<Rightarrow> state_request_id | Some x \<Rightarrow> if x = [] then state_request_id else x)
       in and_then (answer_attempt r (pc_participant_id participant) (req_match_question_id payload)) (\<lambda>_.
          and_then (submit_answer (received r) (answered_at r) match_id (pc_participant_id participant) payload request_id) (\<lambda>result.
          of_result (answer_submit_response result))))"

definition api_get_leaderboard :: "deployment \<Rightarrow> request \<Rightarrow> int \<Rightarrow> int \<Rightarrow> json handler" where
  "api_get_leaderboard D r match_id limit =
     with_participant D r (\<lambda>_. checked (1 \<le> limit \<and> limit \<le> 100) (\<lambda>w.
       (case read_leaderboard (leaderboard_backend D) match_id limit w of
          Inl e \<Rightarrow> (Inl e, w) | Inr data \<Rightarrow> (Inr (leaderboard_response_json data), w))))"

subsection \<open>analytics.py\<close>

text \<open>The host or an administrator (\<open>True\<close>), or a participant of the match's room (\<open>False\<close>).\<close>

definition authorize :: "deployment \<Rightarrow> request \<Rightarrow> int \<Rightarrow> world \<Rightarrow> bool result" where
  "authorize D r match_id w =
     (let L = a_lib D; cfg = a_cfg D; d = wdb w in
      bind_r (bearer ''missing bearer token'' (bearer_creds r)) (\<lambda>token.
      case decode_token L (received r) token ACCESS_TYPE (jwt_secret cfg) of
        Inr c \<Rightarrow>
          bind_r (user_of_claims L (received r) d (wredis w) c) (\<lambda>user.
          if u_role user = role_admin then Inr True
          else
            bind_r (of_option (AuthError ''ROOM_NOT_FOUND'' 404 ''match not found'') (get_match d match_id)) (\<lambda>match.
            bind_r (of_option (AuthError ''ROOM_NOT_FOUND'' 404 ''room missing'') (get_room d (m_room_id match))) (\<lambda>room.
            bind_r (guard (rm_host_id room = u_id user) (AuthError ''FORBIDDEN'' 403 ''not the room host'')) (\<lambda>_.
            Inr True))))
      | Inl _ \<Rightarrow>
          bind_r (decode_token L (received r) token PARTICIPANT_TYPE (jwt_secret cfg)) (\<lambda>pc.
          bind_r (claim_get pc ''room_code'') (\<lambda>code.
          bind_r (of_option (AuthError ''ROOM_NOT_FOUND'' 404 ''match not found'') (get_match d match_id)) (\<lambda>match.
          bind_r (of_option (AuthError ''FORBIDDEN'' 403 ''participant token / match mismatch'') (get_room d (m_room_id match))) (\<lambda>room.
          bind_r (guard (rm_code room = claim_text L code) (AuthError ''FORBIDDEN'' 403 ''participant token / match mismatch'')) (\<lambda>_.
          bind_r (claim_get pc ''participant_id'') (\<lambda>pid.
          bind_r (int_or_raise pid) (\<lambda>_.
          Inr False)))))))))"

definition body_get :: "json \<Rightarrow> string \<Rightarrow> json \<Rightarrow> json" where
  "body_get body k dflt = (case body of JObj kvs \<Rightarrow> (case map_of kvs k of None \<Rightarrow> dflt | Some v \<Rightarrow> v) | _ \<Rightarrow> dflt)"

definition participant_view :: "int \<Rightarrow> json \<Rightarrow> json" where
  "participant_view match_id body =
     JObj [(''match_id'', body_get body ''match_id'' (JStr (int_str match_id))), (''final_leaderboard'', body_get body ''final_leaderboard'' (JArr [])),
       (''question_accuracy'', body_get body ''question_accuracy'' (JArr [])), (''total_answers'', body_get body ''total_answers'' (JInt 0))]"

definition api_analytics :: "deployment \<Rightarrow> request \<Rightarrow> int \<Rightarrow> json handler" where
  "api_analytics D r match_id w =
     (case authorize D r match_id w of
        Inl e \<Rightarrow> (Inl e, w)
      | Inr host_view \<Rightarrow>
          let (result, w) = get_match_analytics (cache_up r) (clickhouse r) (percentile_cont D) True (received r) match_id w
          in (Inr (if host_view then an_body result else participant_view match_id (an_body result)), w))"

subsection \<open>moderation.py, admin.py\<close>

definition REPORT_CAPACITY :: int where "REPORT_CAPACITY = 20"
definition REPORT_REFILL_PER_SEC :: rat where "REPORT_REFILL_PER_SEC = fl64 (20 / 3600)"

definition report_attempt :: "request \<Rightarrow> User option \<Rightarrow> unit handler" where
  "report_attempt r reporter w =
     (let actor = (case reporter of Some u \<Rightarrow> int_str (u_id u) | None \<Rightarrow> peer r);
          ((allowed, remaining, retry_ms), bs) =
            acquire (rate_buckets (wredis w)) (''rate:report:'' @ actor) REPORT_CAPACITY REPORT_REFILL_PER_SEC 1 (received r div 1000);
          w = with_buckets bs w
      in if \<not> allowed then (Inl (AuthError ''RATE_LIMITED'' 429 ''report rate exceeded''), w) else (Inr (), w))"

definition api_create_report :: "deployment \<Rightarrow> request \<Rightarrow> int option \<Rightarrow> int option \<Rightarrow> int option \<Rightarrow> string \<Rightarrow> string option \<Rightarrow> json handler" where
  "api_create_report D r room_id target_user_id target_quiz_set_id reason details =
     with_viewer D r (\<lambda>reporter.
       let t = \<lparr>t_reporter = viewer_id reporter, t_room = room_id, t_user = target_user_id, t_quiz = target_quiz_set_id\<rparr> in
       checked (ReportCreate t reason details)
       (and_then (report_attempt r reporter) (\<lambda>_.
        and_then (create_report (received r) t reason details) (\<lambda>report.
        reply (report_response (json_text D) report)))))"

definition api_list_reports :: "deployment \<Rightarrow> request \<Rightarrow> ModerationStatus option \<Rightarrow> int \<Rightarrow> int \<Rightarrow> json handler" where
  "api_list_reports D r status limit offset =
     with_role [role_moderator, role_admin] D r (\<lambda>_. checked (1 \<le> limit \<and> limit \<le> 200 \<and> 0 \<le> offset) (\<lambda>w.
       (Inr (JObj [(''items'', JArr (map (report_queue_item (json_text D) (wdb w)) (list_by_status (wdb w) status (nat limit) (nat offset)))),
          (''limit'', JInt limit), (''offset'', JInt offset)]), w)))"

definition api_decide_report :: "deployment \<Rightarrow> request \<Rightarrow> int \<Rightarrow> string \<Rightarrow> string option \<Rightarrow> json handler" where
  "api_decide_report D r report_id decision reason =
     with_role [role_moderator, role_admin] D r (\<lambda>moderator. checked (DecisionRequest decision reason)
       (and_then (decide (received r) (u_id moderator) report_id decision reason) (\<lambda>report. reply (decision_response report decision))))"

definition api_admin_metrics :: "deployment \<Rightarrow> request \<Rightarrow> json handler" where
  "api_admin_metrics D r =
     with_role [role_admin] D r (\<lambda>_ w. let d = wdb w in
       (Inr (JObj [(''total_users'', JInt (int (length (users d)))), (''total_quiz_sets'', JInt (int (length (quiz_sets d)))),
          (''published_quiz_sets'', JInt (int (length (filter qs_is_published (quiz_sets d))))), (''total_rooms'', JInt (int (length (rooms d)))),
          (''total_matches'', JInt (int (length (matches d)))),
          (''completed_matches'', JInt (int (length (filter (\<lambda>m. m_status m = completed) (matches d)))))]), w))"

subsection \<open>main.py\<close>

text \<open>
  The readiness probe: whether \<^verbatim>\<open>SELECT 1\<close> on Postgres returned, what the Redis ping gave and what rows ClickHouse gave (\<open>None\<close>: an
  exception or the timeout).
\<close>

definition ready :: "request \<Rightarrow> json" where
  "ready r =
     JObj [(''db'', JStr (if db_answers r then ''ok'' else ''fail'')),
           (''redis'', JStr (case redis_ping r of Some pong \<Rightarrow> if pong then ''ok'' else ''fail'' | None \<Rightarrow> ''fail'')),
           (''clickhouse'', JStr (case clickhouse_probe r of
               Some ((v # _) # _) \<Rightarrow> if v = 1 then ''ok'' else ''degraded'' | _ \<Rightarrow> ''degraded''))]"

section \<open>Routing, request ids, errors\<close>

fun call_route :: "deployment \<Rightarrow> request \<Rightarrow> string \<Rightarrow> api_call \<Rightarrow> json handler" where
  "call_route D r rid (Register email password display_name) = api_register D r email password display_name"
| "call_route D r rid (Login email password) = api_login D r email password"
| "call_route D r rid (Refresh token) = api_refresh D r token"
| "call_route D r rid (Logout token) = api_logout D r token"
| "call_route D r rid Me = api_me D r"
| "call_route D r rid (GetUser i) = api_get_user D r i"
| "call_route D r rid (ListQuizSets q owner_id tag limit offset) = api_list_quiz_sets D r q owner_id tag limit offset"
| "call_route D r rid (CreateQuizSet payload) = api_create_quiz_set D r payload"
| "call_route D r rid (GetQuizSet i) = api_get_quiz_set D r i"
| "call_route D r rid (PatchQuizSet i payload) = api_patch_quiz_set D r i payload"
| "call_route D r rid (PublishQuizSet i) = api_publish_quiz_set D r i"
| "call_route D r rid (AddQuestion i payload') = api_add_question D r i payload'"
| "call_route D r rid (PatchQuestion i changes) = api_patch_question D r i changes"
| "call_route D r rid (DeleteQuestion i) = api_delete_question D r i"
| "call_route D r rid (CreateRoom room) = api_create_room D r room"
| "call_route D r rid (GetRoom code) = api_get_room D r code"
| "call_route D r rid (JoinRoom code nick guest_id) = api_join_room D r code nick guest_id"
| "call_route D r rid (StartMatch code) = api_start_match D r code"
| "call_route D r rid (PauseMatch code) = api_pause_match D r code"
| "call_route D r rid (ResumeMatch code) = api_resume_match D r code"
| "call_route D r rid (EndMatch code) = api_end_match D r code"
| "call_route D r rid (PostAnswer i answer) = api_submit_answer D r rid i answer"
| "call_route D r rid (GetLeaderboard i limit) = api_get_leaderboard D r i limit"
| "call_route D r rid (GetAnalytics i) = api_analytics D r i"
| "call_route D r rid (CreateReport room_id user_id quiz_id reason details) = api_create_report D r room_id user_id quiz_id reason details"
| "call_route D r rid (ListReports status limit offset) = api_list_reports D r status limit offset"
| "call_route D r rid (DecideReport i decision reason') = api_decide_report D r i decision reason'"
| "call_route D r rid AdminMetrics = api_admin_metrics D r"
| "call_route D r rid Health = reply (JObj [(''status'', JStr ''ok'')])"
| "call_route D r rid Ready = reply (ready r)"

fun status_code :: "api_call \<Rightarrow> int" where
  "status_code (Register _ _ _) = 201"
| "status_code (Logout _) = 204"
| "status_code (CreateQuizSet _) = 201"
| "status_code (AddQuestion _ _) = 201"
| "status_code (DeleteQuestion _) = 204"
| "status_code (CreateRoom _) = 201"
| "status_code (StartMatch _) = 201"
| "status_code (PostAnswer _ _) = 202"
| "status_code (CreateReport _ _ _ _ _) = 201"
| "status_code _ = 200"

text \<open>\<^verbatim>\<open>f"req_{next_id():x}"\<close>\<close>

definition hex_digit :: "nat \<Rightarrow> char" where
  "hex_digit n = ''0123456789abcdef'' ! n"

fun hex_nat :: "nat \<Rightarrow> string" where
  "hex_nat n = (if n < 16 then [hex_digit n] else hex_nat (n div 16) @ [hex_digit (n mod 16)])"

declare hex_nat.simps [simp del]

definition hex_int :: "int \<Rightarrow> string" where
  "hex_int i = (if i < 0 then CHR ''-'' # hex_nat (nat (- i)) else hex_nat (nat i))"

definition request_id_middleware :: "request \<Rightarrow> world \<Rightarrow> string \<times> world" where
  "request_id_middleware r w =
     (case x_request_id r of
        None \<Rightarrow> let (i, w) = fresh_id w in (''req_'' @ hex_int i, w)
      | Some x \<Rightarrow> if x = [] then let (i, w) = fresh_id w in (''req_'' @ hex_int i, w) else (x, w))"

definition DEFAULT_MESSAGES :: "string \<rightharpoonup> string" where
  "DEFAULT_MESSAGES = [''AUTH_REQUIRED'' \<mapsto> ''Authentication required.'', ''FORBIDDEN'' \<mapsto> ''You do not have permission to perform this action.'',
     ''RATE_LIMITED'' \<mapsto> ''Too many requests.'', ''VALIDATION_ERROR'' \<mapsto> ''Request payload is invalid.'', ''INTERNAL_ERROR'' \<mapsto> ''Internal server error.'']"

definition envelope :: "string \<Rightarrow> int \<Rightarrow> string \<Rightarrow> string option \<Rightarrow> (string \<times> json) list \<Rightarrow> response" where
  "envelope code status rid msg details =
     (let default = (case DEFAULT_MESSAGES code of None \<Rightarrow> '''' | Some m \<Rightarrow> m);
          text = (case msg of None \<Rightarrow> default | Some m \<Rightarrow> if m = [] then default else m);
          retry_after_ms = (case map_of details ''retry_after_ms'' of Some (JInt n) \<Rightarrow> of_int n | Some (JFloat x) \<Rightarrow> x | _ \<Rightarrow> (0 :: rat))
      in \<lparr>http_status = status,
          http_body = JObj [(''error'', JObj [(''code'', JStr code), (''message'', JStr text), (''details'', JObj details)]), (''request_id'', JStr rid)],
          retry_after = (if code = ''RATE_LIMITED'' \<and> 0 < retry_after_ms then Some \<lceil>fl64 (retry_after_ms / 1000)\<rceil> else None),
          echoed_request_id = None\<rparr>)"

definition error_response :: "deployment \<Rightarrow> string \<Rightarrow> error \<Rightarrow> response" where
  "error_response D rid e =
     (case e of AuthError code status msg \<Rightarrow> envelope code status rid (Some msg) (details_of D e)
      | PyError _ \<Rightarrow> envelope ''INTERNAL_ERROR'' 500 rid None [])"

text \<open>
  The handlers of \<^verbatim>\<open>AuthError\<close> and of validation errors run inside the middleware, which then sets the header
  \<^verbatim>\<open>X-Request-ID\<close> of their response.  The handler registered for \<^verbatim>\<open>Exception\<close> is Starlette's outermost one: the exception
  passes through the middleware, whose line that sets the header is not reached.
\<close>

definition serve :: "deployment \<Rightarrow> request \<Rightarrow> api_call \<Rightarrow> world \<Rightarrow> response \<times> world" where
  "serve D r call w =
     (let (rid, w) = request_id_middleware r w; (res, w) = call_route D r rid call w
      in (case res of
            Inl (PyError x) \<Rightarrow> error_response D rid (PyError x)
          | Inl e \<Rightarrow> (error_response D rid e)\<lparr>echoed_request_id := Some rid\<rparr>
          | Inr body \<Rightarrow> \<lparr>http_status = status_code call, http_body = body, retry_after = None, echoed_request_id = Some rid\<rparr>, w))"

section \<open>Handlers and a relation on the world\<close>

text \<open>
  What the handlers keep is stated as a preorder on the world: between the state before and after.  A handler built from
  handlers that keep it keeps it.
\<close>

locale handler_relation =
  fixes R :: "world \<Rightarrow> world \<Rightarrow> bool"
  assumes same: "R w w" and chain: "R a b \<Longrightarrow> R b c \<Longrightarrow> R a c"
begin

definition keeps :: "'a handler \<Rightarrow> bool" where
  "keeps h \<longleftrightarrow> (\<forall>w. R w (snd (h w)))"

lemma keepsD: "keeps h \<Longrightarrow> R w (snd (h w))"
  by (simp add: keeps_def)

lemma keeps_reply: "keeps (reply x)" "keeps (of_result y)"
  by (simp_all add: keeps_def reply_def of_result_def same)

lemma keeps_and_then:
  assumes "keeps h" "\<And>x. keeps (k x)"
  shows "keeps (and_then h k)"
  unfolding keeps_def
proof
  fix w
  have "R w (snd (h w))" using assms(1) by (rule keepsD)
  moreover have "R (snd (h w)) (snd (k x (snd (h w))))" for x using assms(2) by (rule keepsD)
  ultimately show "R w (snd (and_then h k w))" by (auto simp: and_then_def split: prod.split sum.split intro: chain)
qed

lemma keeps_checked: "keeps h \<Longrightarrow> keeps (checked ok h)"
  by (simp add: keeps_def checked_def same)

lemma keeps_with_user: "(\<And>u. keeps (h u)) \<Longrightarrow> keeps (with_user D r h)"
  by (simp add: keeps_def with_user_def same split: sum.split)

lemma keeps_with_viewer: "(\<And>v. keeps (h v)) \<Longrightarrow> keeps (with_viewer D r h)"
  by (simp add: keeps_def with_viewer_def same split: sum.split)

lemma keeps_with_role: "(\<And>u. keeps (h u)) \<Longrightarrow> keeps (with_role rs D r h)"
  unfolding with_role_def by (rule keeps_with_user) (simp add: keeps_def same split: sum.split)

lemma keeps_with_participant: "(\<And>p. keeps (h p)) \<Longrightarrow> keeps (with_participant D r h)"
  by (simp add: keeps_def with_participant_def same split: sum.split)

lemma keeps_read: "(\<And>w. snd (h w) = w) \<Longrightarrow> keeps h"
  by (simp add: keeps_def same)

lemmas keeps_combinators = keeps_reply keeps_and_then keeps_checked keeps_with_user keeps_with_viewer keeps_with_role keeps_with_participant

end

section \<open>The backend's steps\<close>

interpretation steps: handler_relation "backend_step\<^sup>*\<^sup>*"
  by unfold_locales auto

lemma steps_one: "(\<And>w. backend_step w (snd (h w))) \<Longrightarrow> steps.keeps h"
  by (simp add: steps.keeps_def r_into_rtranclp)

definition apart_db :: "db \<Rightarrow> db" where
  "apart_db d = d\<lparr>users := [], audit_logs := []\<rparr>"

definition apart_redis :: "rstate \<Rightarrow> rstate" where
  "apart_redis s = s\<lparr>rate_buckets := Map.empty, revoked_jtis := Map.empty, attempt_counts := Map.empty, match_analytics := Map.empty, quiz_lists := Map.empty\<rparr>"

lemma besideI:
  assumes "id_supply w' = id_supply w" "tasks w' = tasks w" "next_task w' = next_task w" "registry w' = registry w" "runtimes w' = runtimes w"
    "running_task w' = running_task w" "must_cancel w' = must_cancel w" "bus w' = bus w" "id_next w \<le> id_next w'"
    "apart_db (wdb w') = apart_db (wdb w)" "apart_redis (wredis w') = apart_redis (wredis w)"
  shows "beside w w'"
proof -
  have "wdb w' = (wdb w)\<lparr>users := users (wdb w'), audit_logs := audit_logs (wdb w')\<rparr>"
    using assms(10) by (cases "wdb w'"; cases "wdb w") (simp add: apart_db_def)
  moreover have "wredis w' = (wredis w)\<lparr>rate_buckets := rate_buckets (wredis w'), revoked_jtis := revoked_jtis (wredis w'),
      attempt_counts := attempt_counts (wredis w'), match_analytics := match_analytics (wredis w'), quiz_lists := quiz_lists (wredis w')\<rparr>"
    using assms(11) by (cases "wredis w'"; cases "wredis w") (simp add: apart_redis_def)
  ultimately have "w' = w\<lparr>wdb := (wdb w)\<lparr>users := users (wdb w'), audit_logs := audit_logs (wdb w')\<rparr>,
      wredis := (wredis w)\<lparr>rate_buckets := rate_buckets (wredis w'), revoked_jtis := revoked_jtis (wredis w'),
      attempt_counts := attempt_counts (wredis w'), match_analytics := match_analytics (wredis w'), quiz_lists := quiz_lists (wredis w')\<rparr>,
      id_next := id_next w', bus := bus w'\<rparr>"
    using assms by (cases w'; cases w) simp
  then show ?thesis using assms(8,9) unfolding beside_def by blast
qed

lemma apart_simps [simp]:
  "apart_db (d\<lparr>users := us\<rparr>) = apart_db d" "apart_db (d\<lparr>audit_logs := al\<rparr>) = apart_db d"
  "apart_redis (s\<lparr>rate_buckets := rb\<rparr>) = apart_redis s" "apart_redis (s\<lparr>revoked_jtis := rv\<rparr>) = apart_redis s"
  "apart_redis (s\<lparr>attempt_counts := ac\<rparr>) = apart_redis s" "apart_redis (s\<lparr>match_analytics := ma\<rparr>) = apart_redis s"
  "apart_redis (s\<lparr>quiz_lists := ql\<rparr>) = apart_redis s"
  by (simp_all add: apart_db_def apart_redis_def)

lemma fresh_id_registry [simp]: "registry (snd (fresh_id w)) = registry w"
  by (simp add: fresh_id_def)

lemma build_pair_frame [simp]:
  "wdb (snd (build_pair L cfg now u w)) = wdb w" "wredis (snd (build_pair L cfg now u w)) = wredis w" "bus (snd (build_pair L cfg now u w)) = bus w"
  "tasks (snd (build_pair L cfg now u w)) = tasks w" "next_task (snd (build_pair L cfg now u w)) = next_task w"
  "registry (snd (build_pair L cfg now u w)) = registry w" "runtimes (snd (build_pair L cfg now u w)) = runtimes w"
  "running_task (snd (build_pair L cfg now u w)) = running_task w" "must_cancel (snd (build_pair L cfg now u w)) = must_cancel w"
  "id_supply (snd (build_pair L cfg now u w)) = id_supply w" "id_next (snd (build_pair L cfg now u w)) = Suc (Suc (id_next w))"
  by (simp_all add: build_pair_def Let_def split_beta)

lemma beside_refl: "beside w w"
  by (rule besideI) simp_all

lemma register_user_beside: "beside w (snd (register_user L sl email password name w))"
  by (intro besideI) (auto simp: register_user_def insert_user_def audit_add_def Let_def split_beta split: option.splits)

lemma login_beside: "beside w (snd (login L cfg now email password ip w))"
  by (intro besideI) (auto simp: login_def Let_def split_beta split: option.splits sum.splits)

lemma refresh_beside: "beside w (snd (refresh L cfg now token w))"
  by (intro besideI) (auto simp: refresh_def refresh_rotate_def revoke_claims_def revoke_jti_def result_iff Let_def split_beta split: option.splits sum.splits)

lemma logout_beside: "beside w (snd (logout L cfg now token w))"
  by (intro besideI) (auto simp: logout_def revoke_claims_def revoke_jti_def result_iff Let_def split_beta split: option.splits sum.splits)

lemma beside_handlers:
  "beside w (snd (invalidate_lists w))" "beside w (snd (answer_attempt r pid i w))" "beside w (snd (report_attempt r u w))"
  "beside w (snd (get_match_analytics up ch pct use_cache now i w))" "beside w (snd (request_id_middleware r w))"
  by (intro besideI; simp add: invalidate_lists_def answer_attempt_def report_attempt_def get_match_analytics_def request_id_middleware_def
      with_buckets_def Let_def split_beta split: option.split)+


lemma steps_beside: "(\<And>w. beside w (snd (h w))) \<Longrightarrow> steps.keeps h"
  by (rule steps_one) (rule beside_matches)

lemma service_steps:
  "steps.keeps (start_match now now2 host code)" "steps.keeps (pause_match now host code)" "steps.keeps (resume_match now now2 host code)"
  "steps.keeps (end_match now now2 mid (Some host))" "steps.keeps (submit_answer now now2 mid pid ans rid)"
  "steps.keeps (create_room tok now draws u room)" "steps.keeps (join_room tok pol now ip code nick uid)" "steps.keeps (build_snapshot now code)"
  "steps.keeps (create_report now t reason details)" "steps.keeps (decide now host rep dec details)"
  "steps.keeps (create_quiz_set now host quiz)" "steps.keeps (update_quiz_set host i quiz_changes)" "steps.keeps (add_question host i question)"
  "steps.keeps (update_question host i question_changes)" "steps.keeps (delete_question host i)" "steps.keeps (publish_quiz_set pol now host i)"
  by (rule steps_one, rule backend_step.intros)+

lemma beside_steps:
  "steps.keeps (register_user L sl email password name)" "steps.keeps (login L cfg now email password ip)" "steps.keeps (refresh L cfg now token)"
  "steps.keeps (logout L cfg now token)" "steps.keeps invalidate_lists" "steps.keeps (answer_attempt r pid i)" "steps.keeps (report_attempt r u)"
  by (intro steps_beside register_user_beside login_beside refresh_beside logout_beside beside_handlers)+

lemma hydrated_read: "snd (hydrated i w) = w"
  by (simp add: hydrated_def split: option.split)

lemma api_list_steps: "steps.keeps (api_list_quiz_sets D r q o' t l k)"
  unfolding api_list_quiz_sets_def
  by (intro steps.keeps_with_viewer steps.keeps_checked steps_beside besideI) (auto simp: Let_def split: option.split)

lemma api_analytics_steps: "steps.keeps (api_analytics D r i)"
  by (rule steps_beside) (simp add: api_analytics_def beside_refl beside_handlers split_beta Let_def split: sum.split)

lemma api_end_steps: "steps.keeps (api_end_match D r code)"
proof -
  have "backend_step\<^sup>*\<^sup>* w (snd (and_then (end_match now now2 i (Some h)) (\<lambda>m. reply (match_control_response m)) w))" for now now2 i h w
    by (rule steps.keepsD) (intro steps.keeps_and_then service_steps steps.keeps_reply)
  then show ?thesis unfolding api_end_match_def
    by (intro steps.keeps_with_role) (simp add: steps.keeps_def split: sum.split)
qed

lemma dispatch_steps: "steps.keeps (call_route D r rid call)"
proof (cases call)
  case (ListQuizSets q o' t l k)
  then show ?thesis using api_list_steps by simp
next
  case (EndMatch code)
  then show ?thesis using api_end_steps by simp
next
  case (GetAnalytics i)
  then show ?thesis using api_analytics_steps by simp
qed (simp_all add: api_register_def api_login_def api_refresh_def api_logout_def api_me_def api_get_user_def api_create_quiz_set_def
    api_get_quiz_set_def api_patch_quiz_set_def api_publish_quiz_set_def api_add_question_def api_patch_question_def api_delete_question_def
    api_create_room_def api_get_room_def api_join_room_def api_start_match_def api_pause_match_def api_resume_match_def api_submit_answer_def
    api_get_leaderboard_def api_create_report_def api_list_reports_def api_decide_report_def api_admin_metrics_def Let_def split_beta
    steps.keeps_combinators service_steps beside_steps hydrated_read
    steps.keeps_read reply_def split: option.split sum.split)

section \<open>What the handlers answer\<close>

definition yields :: "('a \<Rightarrow> bool) \<Rightarrow> 'a handler \<Rightarrow> bool" where
  "yields P h \<longleftrightarrow> (\<forall>w y w'. h w = (Inr y, w') \<longrightarrow> P y)"

lemma yields_reply: "P x \<Longrightarrow> yields P (reply x)"
  by (simp add: yields_def reply_def)

lemma yields_mono: "yields P h \<Longrightarrow> (\<And>y. P y \<Longrightarrow> Q y) \<Longrightarrow> yields Q h"
  unfolding yields_def by blast

lemma yields_of_result: "(\<And>y. x = Inr y \<Longrightarrow> P y) \<Longrightarrow> yields P (of_result x)"
  by (simp add: yields_def of_result_def)

lemma yields_and_then: "(\<And>x. yields P (k x)) \<Longrightarrow> yields P (and_then h k)"
  by (auto simp: yields_def and_then_def split: prod.splits sum.splits)

lemma yields_checked: "(ok \<Longrightarrow> yields P h) \<Longrightarrow> yields P (checked ok h)"
  by (auto simp: yields_def checked_def)

lemma yields_with_user: "(\<And>u. yields P (h u)) \<Longrightarrow> yields P (with_user D r h)"
  by (auto simp: yields_def with_user_def split: sum.splits)

lemma yields_with_viewer: "(\<And>u. yields P (h u)) \<Longrightarrow> yields P (with_viewer D r h)"
  by (auto simp: yields_def with_viewer_def split: sum.splits)

lemma yields_with_role: "(\<And>u. yields P (h u)) \<Longrightarrow> yields P (with_role rs D r h)"
  unfolding with_role_def by (rule yields_with_user) (simp add: yields_def split: sum.split)

lemma yields_with_participant: "(\<And>p. yields P (h p)) \<Longrightarrow> yields P (with_participant D r h)"
  by (auto simp: yields_def with_participant_def split: sum.splits)

lemmas yields_combinators = yields_reply yields_of_result yields_and_then yields_checked yields_with_user yields_with_viewer
  yields_with_role yields_with_participant

fun response_model :: "api_call \<Rightarrow> schema option" where
  "response_model (Register _ _ _) = Some UserPublic"
| "response_model (Login _ _) = Some TokenPairModel"
| "response_model (Refresh _) = Some TokenPairModel"
| "response_model (Logout _) = None"
| "response_model Me = Some UserPublic"
| "response_model (GetUser _) = Some UserPublic"
| "response_model (ListQuizSets _ _ _ _ _) = Some QuizSetListResponse"
| "response_model (CreateQuizSet _) = Some QuizSetSummary"
| "response_model (GetQuizSet _) = Some QuizSetDetail"
| "response_model (PatchQuizSet _ _) = Some QuizSetSummary"
| "response_model (PublishQuizSet _) = Some QuizSetSummary"
| "response_model (AddQuestion _ _) = Some QuestionDetail"
| "response_model (PatchQuestion _ _) = Some QuestionDetail"
| "response_model (DeleteQuestion _) = None"
| "response_model (CreateRoom _) = Some RoomCreateResponse"
| "response_model (GetRoom _) = Some RoomSnapshotResponse"
| "response_model (JoinRoom _ _ _) = Some RoomJoinResponse"
| "response_model (StartMatch _) = Some MatchStartedResponse"
| "response_model (PauseMatch _) = Some MatchControlResponse"
| "response_model (ResumeMatch _) = Some MatchControlResponse"
| "response_model (EndMatch _) = Some MatchControlResponse"
| "response_model (PostAnswer _ _) = Some AnswerSubmitResponse"
| "response_model (GetLeaderboard _ _) = Some LeaderboardResponse"
| "response_model (GetAnalytics _) = Some SDict"
| "response_model (CreateReport _ _ _ _ _) = Some ReportResponse"
| "response_model (ListReports _ _ _) = Some ReportQueueResponse"
| "response_model (DecideReport _ _ _) = Some DecisionResponse"
| "response_model AdminMetrics = Some AdminMetricsResponse"
| "response_model Health = Some (SModel False [(''status'', True, SStr)])"
| "response_model Ready = Some (SModel True [(''db'', True, SStr), (''redis'', True, SStr), (''clickhouse'', True, SStr)])"

definition conforms :: "api_call \<Rightarrow> json \<Rightarrow> bool" where
  "conforms call body \<longleftrightarrow> (case response_model call of None \<Rightarrow> body = JNull | Some s \<Rightarrow> valid s body)"

definition ErrorResponse :: schema where
  "ErrorResponse = SModel False [(''error'', True, SModel False [(''code'', True, SStr), (''message'', True, SStr), (''details'', False, SDict)]),
     (''request_id'', False, SOpt SStr)]"

lemma valid_envelope: "valid ErrorResponse (http_body (error_response D rid e))"
  by (simp add: ErrorResponse_def error_response_def envelope_def Let_def split: error.split)

lemma declared_valid:
  assumes "valid (SModel False fs) j" "\<forall>(k, req, s) \<in> set fs. req" "distinct (map fst fs)"
  shows "valid (SModel False fs) (declared (map fst fs) j)"
proof -
  from assms(1) obtain kvs where j: "j = JObj kvs" by (cases j) auto
  have "map_of (map ((\<lambda>k. (k, json_get j k)) \<circ> fst) gs) k = (if k \<in> fst ` set gs then Some (json_get j k) else None)" for gs :: "(string \<times> bool \<times> schema) list" and k
    by (induction gs) auto
  moreover have "valid s (json_get j k)" if "(k, req, s) \<in> set fs" for k req s
    using assms(1,2) that j by (fastforce simp: list_all_iff split: option.splits)
  ultimately show ?thesis by (force simp: declared_def list_all_iff)
qed

lemma valid_snapshot_response: "room_snapshot_response s = Inr j \<Longrightarrow> valid RoomSnapshotResponse j"
proof -
  assume r: "room_snapshot_response s = Inr j"
  then have v: "valid RoomSnapshotResponse s" by (simp add: room_snapshot_response_def split: if_splits)
  then obtain kvs where s: "s = JObj kvs" by (cases s) (auto simp: RoomSnapshotResponse_def)
  have room: "valid SnapshotRoom (json_get s ''room'')" and ps: "valid (SList SnapshotParticipant) (json_get s ''participants'')"
    and m: "valid (SOpt SDict) (json_get s ''match'')" and l: "json_get s ''leaderboard'' = JNull \<or> valid (SList SDict) (json_get s ''leaderboard'')"
    using v by (simp_all add: s RoomSnapshotResponse_def split: option.splits)
  have "valid SnapshotRoom (declared [''code'', ''status'', ''player_count''] (json_get s ''room''))"
    using declared_valid [OF room [unfolded SnapshotRoom_def]] by (simp add: SnapshotRoom_def)
  moreover have "valid SnapshotParticipant (declared [''participant_id'', ''nickname'', ''online''] p)" if "valid SnapshotParticipant p" for p
    using declared_valid [OF that [unfolded SnapshotParticipant_def]] by (simp add: SnapshotParticipant_def)
  then have "list_all (valid SnapshotParticipant) (map (declared [''participant_id'', ''nickname'', ''online'']) (json_items (json_get s ''participants'')))"
    using ps by (auto simp: json_items_def list_all_iff split: json.splits)
  moreover have "valid (SList SDict) (case json_get s ''leaderboard'' of JNull \<Rightarrow> JArr [] | l \<Rightarrow> l)" using l by (auto split: json.splits)
  ultimately show ?thesis using r v m
    by (simp add: room_snapshot_response_def RoomSnapshotResponse_def del: valid.simps(8)) auto
qed


lemma yields_hydrated: "yields (valid QuestionDetail) (hydrated i)"
  by (auto simp: yields_def hydrated_def split: option.splits)

lemma yields_list: "yields (valid QuizSetListResponse) (api_list_quiz_sets D r q o' t l k)"
  unfolding api_list_quiz_sets_def
  by (intro yields_with_viewer yields_checked) (auto simp: yields_def Let_def list_body_def split: option.splits if_splits)

lemma yields_reply_read: "(\<And>w. P (f w)) \<Longrightarrow> yields P (\<lambda>w. reply (f w) w)"
  by (simp add: yields_def reply_def)

lemma yields_reads:
  "yields (valid UserPublic) (\<lambda>w. case get_user (wdb w) i of None \<Rightarrow> (Inl e, w) | Some u \<Rightarrow> (user_public u, w))"
  "yields (valid QuizSetDetail) (\<lambda>w. case get_quiz_for_viewer (wdb w) v i of Inl e \<Rightarrow> (Inl e, w) | Inr (quiz, b) \<Rightarrow> (Inr (quiz_set_detail quiz (f w) (g quiz) (h w) b (c w)), w))"
  "yields (valid LeaderboardResponse) (\<lambda>w. case read_leaderboard lb i n w of Inl e \<Rightarrow> (Inl e, w) | Inr x \<Rightarrow> (Inr (leaderboard_response_json x), w))"
  "yields (valid AdminMetricsResponse) (\<lambda>w. (Inr (JObj [(''total_users'', JInt (int (length (users (wdb w))))), (''total_quiz_sets'', JInt (int (length (quiz_sets (wdb w))))),
          (''published_quiz_sets'', JInt (int (length (filter qs_is_published (quiz_sets (wdb w)))))), (''total_rooms'', JInt (int (length (rooms (wdb w))))),
          (''total_matches'', JInt (int (length (matches (wdb w))))),
          (''completed_matches'', JInt (int (length (filter (\<lambda>m. m_status m = completed) (matches (wdb w))))))]), w))"
  by (auto simp: yields_def AdminMetricsResponse_def Let_def valid_checked_responses split: option.splits sum.splits)

lemma valid_queue_item: "valid (SModel False [(''report'', True, ReportResponse), (''target'', False, SOpt ReportTargetPreview)]) (report_queue_item tx d rep)"
proof -
  note valid_optional(2) [simplified]
  then show ?thesis by (simp add: report_queue_item_def ReportTargetPreview_def split: option.split)
qed

lemma yields_queue:
  "yields (valid ReportQueueResponse) (\<lambda>w. (Inr (JObj [(''items'', JArr (map (report_queue_item tx (wdb w)) (reps w))), (''limit'', JInt l), (''offset'', JInt k)]), w))"
  using valid_queue_item by (simp add: yields_def ReportQueueResponse_def list_all_iff del: valid.simps(9)) (simp add: list_all_iff)

lemma json_set_object: "\<exists>kvs. json_set j k v = JObj kvs"
  by (cases j) (simp_all add: json_set_def)

lemma analytics_object: "\<exists>kvs. an_body (fst (get_match_analytics up ch pct use_cache now i w)) = JObj kvs"
  by (simp add: get_match_analytics_def Let_def json_set_object split: option.split)

lemma yields_analytics: "yields (\<lambda>body. \<exists>kvs. body = JObj kvs) (api_analytics D r i)"
  using analytics_object by (auto simp: yields_def api_analytics_def participant_view_def Let_def split_beta split: sum.splits)

lemma yields_end: "yields (valid MatchControlResponse) (api_end_match D r code)"
proof -
  have "yields (valid MatchControlResponse) (and_then (end_match now now2 i (Some h)) (\<lambda>m. reply (match_control_response m)))" for now now2 i h
    by (intro yields_combinators) simp
  then show ?thesis unfolding api_end_match_def by (intro yields_with_role) (auto simp: yields_def split: sum.splits)
qed

lemma dispatch_conforms: "yields (conforms call) (call_route D r rid call)"
proof (cases call)
  case (GetAnalytics i)
  have "yields (conforms call) (api_analytics D r i)"
    by (rule yields_mono [OF yields_analytics]) (auto simp: conforms_def GetAnalytics)
  then show ?thesis by (simp add: GetAnalytics)
qed (auto simp: conforms_def [abs_def] api_register_def api_login_def api_refresh_def api_logout_def api_me_def api_get_user_def api_create_quiz_set_def
    api_get_quiz_set_def api_patch_quiz_set_def api_publish_quiz_set_def api_add_question_def api_patch_question_def api_delete_question_def
    api_create_room_def api_get_room_def api_join_room_def api_start_match_def api_pause_match_def api_resume_match_def api_submit_answer_def
    api_get_leaderboard_def api_create_report_def api_list_reports_def api_decide_report_def api_admin_metrics_def ready_def
    Let_def yields_hydrated yields_list yields_reads yields_queue yields_end
    valid_checked_responses valid_snapshot_response intro!: yields_combinators yields_reply_read split: option.splits)


text \<open>
  C18: every answer has its declared shape.  A request is answered either with the route's status code and a body of the
  route's response model, every id in it a string, or with the documented error envelope, which carries the request id,
  the client's own when it sent one; the response echoes that id, except a 500 for an exception no handler expects.
\<close>
theorem responses_conform:
  "(let resp = fst (serve D r call w);
        rid = (case x_request_id r of Some (c # x) \<Rightarrow> c # x | _ \<Rightarrow> ''req_'' @ hex_int (id_supply w (id_next w)))
    in http_status resp = status_code call \<and> conforms call (http_body resp) \<and> echoed_request_id resp = Some rid \<or>
       valid ErrorResponse (http_body resp) \<and> json_get (http_body resp) ''request_id'' = JStr rid \<and>
         (echoed_request_id resp = Some rid \<or> http_status resp = 500 \<and> echoed_request_id resp = None))"
proof -
  obtain rid w1 where m: "request_id_middleware r w = (rid, w1)" by fastforce
  then have rid: "rid = (case x_request_id r of Some (c # x) \<Rightarrow> c # x | _ \<Rightarrow> ''req_'' @ hex_int (id_supply w (id_next w)))"
    by (auto simp: request_id_middleware_def fresh_id_def Let_def split: option.splits if_splits list.splits)
  obtain res w2 where d: "call_route D r rid call w1 = (res, w2)" by fastforce
  show ?thesis
  proof (cases res)
    case (Inl e)
    then show ?thesis using valid_envelope [of D rid e]
      by (cases e) (simp_all add: serve_def m d rid [symmetric] error_response_def envelope_def Let_def)
  next
    case (Inr body)
    then have "conforms call body" using dispatch_conforms [of call D r rid] d unfolding yields_def by blast
    then show ?thesis by (simp add: serve_def m d Inr rid [symmetric])
  qed
qed

lemma serve_steps: "backend_step\<^sup>*\<^sup>* w (snd (serve D r call w))"
proof -
  obtain rid w1 where m: "request_id_middleware r w = (rid, w1)" by fastforce
  have "backend_step w w1" using beside_handlers(5) [of w r] m by (auto intro: beside_matches)
  moreover have "backend_step\<^sup>*\<^sup>* w1 (snd (call_route D r rid call w1))" by (rule steps.keepsD [OF dispatch_steps])
  ultimately show ?thesis by (simp add: serve_def m split_beta converse_rtranclp_into_rtranclp)
qed

text \<open>
  C6: the HTTP surface refines the backend.  Any history of requests, whatever their tokens, bodies, clocks and the answers of
  ClickHouse, takes the world from one state to another by steps of the transition system of theory System; so every
  state the API produces from a reachable one is reachable, and the invariants of the reachable states hold in it.
\<close>
theorem requests_are_backend_steps: "backend_step\<^sup>*\<^sup>* w (fold (\<lambda>(r, call) w. snd (serve D r call w)) history w)"
proof (induction history arbitrary: w)
  case (Cons rc history)
  then show ?case using serve_steps [of w D "fst rc" "snd rc"] by (auto simp: split_beta intro: rtranclp_trans)
qed simp

section \<open>Entitlement\<close>

definition caller :: "deployment \<Rightarrow> request \<Rightarrow> world \<Rightarrow> User \<Rightarrow> bool" where
  "caller D r w u \<longleftrightarrow> current_user (a_lib D) (a_cfg D) (received r) (bearer_creds r) w = Inr u"

definition owns_quiz :: "world \<Rightarrow> User \<Rightarrow> int \<Rightarrow> bool" where
  "owns_quiz w u quiz_set_id \<longleftrightarrow> (\<exists>quiz. get_quiz_set (wdb w) quiz_set_id = Some quiz \<and> qs_owner_id quiz = u_id u)"

definition hosts_room :: "world \<Rightarrow> User \<Rightarrow> string \<Rightarrow> bool" where
  "hosts_room w u code \<longleftrightarrow> (\<exists>room. get_room_by_code (wdb w) code = Some room \<and> rm_host_id room = u_id u)"

definition holds_seat :: "deployment \<Rightarrow> request \<Rightarrow> ParticipantContext \<Rightarrow> bool" where
  "holds_seat D r p \<longleftrightarrow> current_participant_from_header (a_lib D) (a_cfg D) (received r) (bearer_creds r) = Inr p"

text \<open>Who may make a call: the rules of the endpoint table, over the state the request meets.\<close>

fun entitled :: "deployment \<Rightarrow> request \<Rightarrow> api_call \<Rightarrow> world \<Rightarrow> bool" where
  "entitled D r (Logout _) w = (\<exists>u. caller D r w u)"
| "entitled D r Me w = (\<exists>u. caller D r w u)"
| "entitled D r (GetUser _) w = (\<exists>u. caller D r w u \<and> u_role u = role_admin)"
| "entitled D r (CreateQuizSet _) w = (\<exists>u. caller D r w u \<and> u_role u \<in> {role_host, role_admin})"
| "entitled D r (GetQuizSet i) w = (\<exists>quiz. get_quiz_set (wdb w) i = Some quiz \<and>
     (qs_is_published quiz \<and> qs_visibility quiz \<noteq> vis_private \<or> (\<exists>u. caller D r w u \<and> u_id u = qs_owner_id quiz)))"
| "entitled D r (PatchQuizSet i _) w = (\<exists>u. caller D r w u \<and> owns_quiz w u i)"
| "entitled D r (PublishQuizSet i) w = (\<exists>u. caller D r w u \<and> owns_quiz w u i)"
| "entitled D r (AddQuestion i _) w = (\<exists>u. caller D r w u \<and> owns_quiz w u i)"
| "entitled D r (PatchQuestion i _) w = (\<exists>u q. caller D r w u \<and> get_question (wdb w) i = Some q \<and> owns_quiz w u (q_quiz_set_id q))"
| "entitled D r (DeleteQuestion i) w = (\<exists>u q. caller D r w u \<and> get_question (wdb w) i = Some q \<and> owns_quiz w u (q_quiz_set_id q))"
| "entitled D r (CreateRoom payload) w = (\<exists>u. caller D r w u \<and> u_role u \<in> {role_host, role_admin} \<and> owns_quiz w u (rc_quiz_set_id payload))"
| "entitled D r (StartMatch code) w = (\<exists>u. caller D r w u \<and> u_role u \<in> {role_host, role_admin} \<and> hosts_room w u code)"
| "entitled D r (PauseMatch code) w = (\<exists>u. caller D r w u \<and> u_role u \<in> {role_host, role_admin} \<and> hosts_room w u code)"
| "entitled D r (ResumeMatch code) w = (\<exists>u. caller D r w u \<and> u_role u \<in> {role_host, role_admin} \<and> hosts_room w u code)"
| "entitled D r (EndMatch code) w = (\<exists>u. caller D r w u \<and> u_role u \<in> {role_host, role_admin} \<and> hosts_room w u code)"
| "entitled D r (PostAnswer _ _) w = (\<exists>p. holds_seat D r p)"
| "entitled D r (GetLeaderboard _ _) w = (\<exists>p. holds_seat D r p)"
| "entitled D r (GetAnalytics i) w =
     ((\<exists>u. caller D r w u \<and> (u_role u = role_admin \<or>
        (\<exists>m room. get_match (wdb w) i = Some m \<and> get_room (wdb w) (m_room_id m) = Some room \<and> rm_host_id room = u_id u))) \<or>
      (\<exists>token c code m room. bearer_creds r = Some token \<and> decode_token (a_lib D) (received r) token PARTICIPANT_TYPE (jwt_secret (a_cfg D)) = Inr c \<and>
         map_of c ''room_code'' = Some code \<and> get_match (wdb w) i = Some m \<and> get_room (wdb w) (m_room_id m) = Some room \<and>
         rm_code room = claim_text (a_lib D) code))"
| "entitled D r (ListReports _ _ _) w = (\<exists>u. caller D r w u \<and> u_role u \<in> {role_moderator, role_admin})"
| "entitled D r (DecideReport _ _ _) w = (\<exists>u. caller D r w u \<and> u_role u \<in> {role_moderator, role_admin})"
| "entitled D r AdminMetrics w = (\<exists>u. caller D r w u \<and> u_role u = role_admin)"
| "entitled D r _ w = True"

text \<open>A handler refuses: an error, and nothing changed.\<close>

fun error_status :: "error \<Rightarrow> int" where
  "error_status (AuthError _ status _) = status"
| "error_status (PyError _) = 500"

definition refuses :: "'a handler \<Rightarrow> world \<Rightarrow> bool" where
  "refuses h w \<longleftrightarrow> (\<exists>e. h w = (Inl e, w) \<and> 400 \<le> error_status e)"

lemma auth_error_status:
  "bearer m creds = Inl e \<Longrightarrow> 400 \<le> error_status e" "decode_token L now token ty sec = Inl e \<Longrightarrow> 400 \<le> error_status e"
  "user_of_claims L now d s c = Inl e \<Longrightarrow> 400 \<le> error_status e" "claim_get c k = Inl e \<Longrightarrow> 400 \<le> error_status e"
  "claim_int c k m = Inl e \<Longrightarrow> 400 \<le> error_status e" "int_or_raise j = Inl e \<Longrightarrow> 400 \<le> error_status e"
  by (auto simp: bearer_def decode_token_def user_of_claims_def claim_get_def claim_int_def load_active_user_def int_or_raise_def
      bind_r_def of_option_def guard_def split: option.splits sum.splits jwt_error.splits if_splits int_error.splits)

lemma dependency_error_status:
  "current_user L cfg now creds w = Inl e \<Longrightarrow> 400 \<le> error_status e"
  "current_participant_from_header L cfg now creds = Inl e \<Longrightarrow> 400 \<le> error_status e"
  by (auto simp: current_user_def current_participant_from_header_def current_participant_def bind_r_def
      intro: auth_error_status split: sum.splits)

lemma refuses_and_then: "refuses h w \<Longrightarrow> refuses (and_then h k) w"
  by (auto simp: refuses_def and_then_def)

lemma refuses_checked: "refuses h w \<Longrightarrow> refuses (checked ok h) w"
  by (auto simp: refuses_def checked_def)

lemma refuses_with_user: "(\<And>u. caller D r w u \<Longrightarrow> refuses (h u) w) \<Longrightarrow> refuses (with_user D r h) w"
  by (auto simp: refuses_def with_user_def caller_def intro: dependency_error_status split: sum.split)

lemma refuses_with_role:
  "(\<And>u. caller D r w u \<Longrightarrow> u_role u \<in> set rs \<Longrightarrow> refuses (h u) w) \<Longrightarrow> refuses (with_role rs D r h) w"
  unfolding with_role_def by (rule refuses_with_user) (auto simp: refuses_def require_role_def split: sum.split)

lemma refuses_with_participant: "(\<And>p. holds_seat D r p \<Longrightarrow> refuses (h p) w) \<Longrightarrow> refuses (with_participant D r h) w"
  by (auto simp: refuses_def with_participant_def holds_seat_def intro: dependency_error_status split: sum.split)

lemma owned_services:
  assumes "\<not> owns_quiz w u i"
  shows "refuses (update_quiz_set (u_id u) i changes) w" "refuses (publish_quiz_set pol now (u_id u) i) w" "refuses (add_question (u_id u) i q) w"
proof -
  have "\<exists>e. load_owned_quiz (wdb w) (u_id u) i = Inl e \<and> 400 \<le> error_status e"
    using assms by (auto simp: owns_quiz_def load_owned_quiz_def guard_def of_option_def split: option.splits)
  then show "refuses (update_quiz_set (u_id u) i changes) w" "refuses (publish_quiz_set pol now (u_id u) i) w" "refuses (add_question (u_id u) i q) w"
    by (auto simp: refuses_def update_quiz_set_def publish_quiz_set_def add_question_def)
qed

lemma owned_question_services:
  assumes "\<forall>q. get_question (wdb w) i = Some q \<longrightarrow> \<not> owns_quiz w u (q_quiz_set_id q)"
  shows "refuses (update_question (u_id u) i changes) w" "refuses (delete_question (u_id u) i) w"
proof -
  have "\<exists>e. owned_question (wdb w) (u_id u) i = Inl e \<and> 400 \<le> error_status e"
    using assms by (auto simp: owns_quiz_def owned_question_def guard_def of_option_def split: option.splits)
  then show "refuses (update_question (u_id u) i changes) w" "refuses (delete_question (u_id u) i) w"
    by (auto simp: refuses_def update_question_def delete_question_def)
qed

lemma hosted_services:
  assumes "\<not> hosts_room w u code"
  shows "refuses (start_match now now2 (u_id u) code) w" "refuses (pause_match now (u_id u) code) w" "refuses (resume_match now now2 (u_id u) code) w"
    "\<exists>e. room_match (wdb w) (u_id u) code = Inl e \<and> 400 \<le> error_status e"
  using assms
  by (auto simp: refuses_def hosts_room_def start_match_def start_check_def pause_match_def resume_match_def control_check_def room_match_def
      guard_def bind_r_def of_option_def Let_def split: option.splits if_splits)

lemma create_room_owned: "\<not> owns_quiz w u (rc_quiz_set_id payload) \<Longrightarrow> refuses (create_room tok now draws u payload) w"
  by (auto simp: refuses_def owns_quiz_def create_room_def create_check_def guard_def bind_r_def of_option_def split: option.splits if_splits)


lemma analytics_refused: "\<not> entitled D r (GetAnalytics i) w \<Longrightarrow> refuses (api_analytics D r i) w"
proof -
  assume n: "\<not> entitled D r (GetAnalytics i) w"
  have "\<exists>e. authorize D r i w = Inl e \<and> 400 \<le> error_status e"
  proof (cases "bearer ''missing bearer token'' (bearer_creds r)")
    case (Inl e)
    then show ?thesis using auth_error_status(1) by (simp add: authorize_def bind_r_def)
  next
    case (Inr token)
    then have b: "bearer_creds r = Some token" by (auto simp: bearer_def split: option.splits if_splits)
    show ?thesis
    proof (cases "decode_token (a_lib D) (received r) token ACCESS_TYPE (jwt_secret (a_cfg D))")
      case access: (Inr c)
      show ?thesis
      proof (cases "user_of_claims (a_lib D) (received r) (wdb w) (wredis w) c")
        case (Inl e)
        then show ?thesis using auth_error_status(3) by (simp add: authorize_def bind_r_def Inr access)
      next
        case user: (Inr u)
        have "caller D r w u" by (simp add: caller_def current_user_def bind_r_def Inr access user)
        with n have "u_role u \<noteq> role_admin" "\<forall>m room. get_match (wdb w) i = Some m \<longrightarrow> get_room (wdb w) (m_room_id m) = Some room \<longrightarrow> rm_host_id room \<noteq> u_id u"
          by auto
        then show ?thesis by (auto simp: authorize_def Let_def bind_r_def of_option_def guard_def Inr access user split: option.split)
      qed
    next
      case access: (Inl e)
      show ?thesis
      proof (cases "decode_token (a_lib D) (received r) token PARTICIPANT_TYPE (jwt_secret (a_cfg D))")
        case part: (Inl e')
        then show ?thesis using auth_error_status(2) by (simp add: authorize_def bind_r_def Inr access)
      next
        case part: (Inr c)
        with n b have "\<forall>code m room. map_of c ''room_code'' = Some code \<longrightarrow> get_match (wdb w) i = Some m \<longrightarrow> get_room (wdb w) (m_room_id m) = Some room \<longrightarrow>
          rm_code room \<noteq> claim_text (a_lib D) code" by auto
        then show ?thesis by (auto simp: authorize_def bind_r_def of_option_def guard_def claim_get_def Let_def Inr access part split: option.split)
      qed
    qed
  qed
  then show ?thesis by (auto simp: refuses_def api_analytics_def)
qed

lemma dispatch_refuses:
  assumes "\<not> entitled D r call w"
  shows "refuses (call_route D r rid call) w"
proof (cases call)
  case (GetAnalytics i)
  then show ?thesis using assms analytics_refused by simp
next
  case (GetQuizSet i)
  then have "\<exists>e. get_quiz_for_viewer (wdb w) (viewer_id v) i = Inl e \<and> 400 \<le> error_status e"
    if "optional_current_user (a_lib D) (a_cfg D) (received r) (bearer_creds r) w = Inr v" for v
    using assms that by (auto simp: get_quiz_for_viewer_def of_option_def bind_r_def viewer_id_def optional_current_user_def caller_def
        split: option.splits if_splits sum.splits error.splits)
  moreover have "400 \<le> error_status e" if "optional_current_user (a_lib D) (a_cfg D) (received r) (bearer_creds r) w = Inl e" for e
    using that by (auto simp: optional_current_user_def split: if_splits sum.splits error.splits)
  ultimately show ?thesis by (fastforce simp: GetQuizSet refuses_def api_get_quiz_set_def with_viewer_def split: sum.splits)
next
  case (EndMatch code)
  have "refuses (\<lambda>w. case room_match (wdb w) (u_id u) code of Inl e \<Rightarrow> (Inl e, w) | Inr match \<Rightarrow> k match w) w"
    if "caller D r w u" "u_role u \<in> set [role_host, role_admin]" for u and k :: "Match \<Rightarrow> json handler"
  proof -
    have "\<not> hosts_room w u code" using assms that EndMatch by auto
    from hosted_services(4) [OF this] show ?thesis by (auto simp: refuses_def)
  qed
  then have "refuses (api_end_match D r code) w" unfolding api_end_match_def by (rule refuses_with_role)
  then show ?thesis by (simp add: EndMatch)
qed (use assms in \<open>auto simp: api_register_def api_login_def api_refresh_def api_logout_def api_me_def api_get_user_def api_create_quiz_set_def
    api_patch_quiz_set_def api_publish_quiz_set_def api_add_question_def api_patch_question_def api_delete_question_def
    api_create_room_def api_start_match_def api_pause_match_def api_resume_match_def api_submit_answer_def
    api_get_leaderboard_def api_list_reports_def api_decide_report_def api_admin_metrics_def
    intro!: refuses_with_user refuses_with_role refuses_with_participant refuses_checked refuses_and_then owned_services owned_question_services
      hosted_services create_room_owned\<close>)


lemma middleware_frame: "request_id_middleware r w = (rid, w1) \<Longrightarrow> wdb w1 = wdb w \<and> wredis w1 = wredis w"
  by (auto simp: request_id_middleware_def fresh_id_def Let_def split: option.splits if_splits)

lemma entitled_cong: "wdb w' = wdb w \<Longrightarrow> wredis w' = wredis w \<Longrightarrow> entitled D r call w' = entitled D r call w"
proof -
  assume eq: "wdb w' = wdb w" "wredis w' = wredis w"
  then have "caller D r w' = caller D r w" "owns_quiz w' = owns_quiz w" "hosts_room w' = hosts_room w"
    by (simp_all add: fun_eq_iff caller_def owns_quiz_def hosts_room_def current_user_def)
  with eq show ?thesis by (cases call) simp_all
qed

lemma error_response_status: "http_status (error_response D rid e) = error_status e"
  by (cases e) (simp_all add: error_response_def envelope_def Let_def)

text \<open>
  C5: only the entitled are served.  Whatever the route, the token and the state, a request whose caller does not meet the
  rule of the route (a live account with the role the route asks for; the owner of the quiz it edits, publishes or opens a
  room for; the host of the room whose match it starts, pauses, resumes or ends; a participant token for answers and
  leaderboards; an administrator, the host or a player of that room for analytics) is answered with an error status,
  and the database, Redis, the message bus and the timers stay as they are.
\<close>
theorem only_entitled_served:
  assumes "\<not> entitled D r call w" "serve D r call w = (resp, w')"
  shows "400 \<le> http_status resp \<and> wdb w' = wdb w \<and> wredis w' = wredis w \<and> bus w' = bus w \<and> tasks w' = tasks w"
proof -
  obtain rid w1 where m: "request_id_middleware r w = (rid, w1)" by fastforce
  then have f: "wdb w1 = wdb w" "wredis w1 = wredis w" "bus w1 = bus w" "tasks w1 = tasks w"
    by (auto simp: request_id_middleware_def fresh_id_def Let_def split: option.splits if_splits)
  have "\<not> entitled D r call w1" using assms(1) entitled_cong [OF f(1,2)] by blast
  from dispatch_refuses [OF this, of rid] obtain e where "call_route D r rid call w1 = (Inl e, w1)" "400 \<le> error_status e"
    by (auto simp: refuses_def)
  with assms(2) m have "http_status resp = error_status e" "w' = w1"
    by (auto simp: serve_def error_response_status split: error.splits)
  with f \<open>400 \<le> error_status e\<close> show ?thesis by simp
qed


definition demo_digest :: "json \<Rightarrow> string" where
  "demo_digest j = (case j of JObj kvs \<Rightarrow> demo_enc_claims kvs | _ \<Rightarrow> [])"

definition demo_deployment :: deployment where
  "demo_deployment = \<lparr>a_lib = demo_lib, a_cfg = demo_settings, a_policy = demo_policy, sha1_json = demo_digest, json_text = (\<lambda>_. []),
     similarity = (\<lambda>_ _. 0), similarity_threshold = 1, percentile_cont = (\<lambda>_ _. 0), updated_at_of = qs_created_at,
     leaderboard_backend = ''redis'', details_of = (\<lambda>_. [])\<rparr>"

definition demo_request :: "string option \<Rightarrow> time \<Rightarrow> request" where
  "demo_request token now = \<lparr>bearer_creds = token, client_host = None, x_request_id = None, received = now, answered_at = now, salt = 0,
     code_draws = (\<lambda>_ _. 0), cache_up = True, clickhouse = None, db_answers = True, redis_ping = Some True, clickhouse_probe = None\<rparr>"

theorem only_entitled_served_witness:
  "let (resp, w') = serve demo_deployment (demo_request None 4) (StartMatch ''000000'') run5 in 400 \<le> http_status resp \<and> wdb w' = wdb run5"
proof -
  obtain resp w' where s: "serve demo_deployment (demo_request None 4) (StartMatch ''000000'') run5 = (resp, w')" by fastforce
  have "\<not> entitled demo_deployment (demo_request None 4) (StartMatch ''000000'') run5"
    by (simp add: caller_def demo_request_def current_user_def bearer_def)
  from only_entitled_served [OF this s] show ?thesis by (simp add: s)
qed

end
