(* ===== verification/QuizListCache.thy ===== *)
theory QuizListCache
  imports Api
begin

text \<open>
  The list cache of src/backend/app/api/v1/quiz\_sets.py: every authoring route invalidates the whole prefix, so the list a
  request gets is the list of the database at that moment, whatever was served before.  Two exceptions are shown: a decision that
  hides a quiz does not invalidate, and the filter \<^verbatim>\<open>owner_id=0\<close> shares its key with no filter.
\<close>

section \<open>What the list reads\<close>

definition list_tables :: "db \<Rightarrow> QuizSet list \<times> Question list \<times> QuizTag list \<times> QuizSetTag list" where
  "list_tables d = (quiz_sets d, questions d, quiz_tags d, quiz_set_tags d)"

definition same_lists :: "world \<Rightarrow> world \<Rightarrow> bool" where
  "same_lists w w' \<longleftrightarrow> list_tables (wdb w') = list_tables (wdb w) \<and> quiz_lists (wredis w') = quiz_lists (wredis w)"

lemma list_body_cong: "list_tables d' = list_tables d \<Longrightarrow> list_body D d' = list_body D d"
proof -
  assume "list_tables d' = list_tables d"
  then have eqs: "quiz_sets d' = quiz_sets d" "questions d' = questions d" "quiz_tags d' = quiz_tags d" "quiz_set_tags d' = quiz_set_tags d"
    by (simp_all add: list_tables_def)
  then have "has_tag d' = has_tag d" by (simp add: fun_eq_iff has_tag_def)
  with eqs show ?thesis by (intro ext) (simp only: list_body_def list_for_viewer_def)
qed

interpretation lists: handler_relation same_lists
  by unfold_locales (simp_all add: same_lists_def)

lemma list_tables_frame [simp]:
  "list_tables (set_room i g d) = list_tables d" "list_tables (set_match i h d) = list_tables d" "list_tables (set_mq i k d) = list_tables d"
  "list_tables (set_statuses i j s d) = list_tables d" "list_tables (register_event e t a b p n d) = list_tables d"
  "list_tables (d\<lparr>matches := ms\<rparr>) = list_tables d" "list_tables (d\<lparr>match_questions := mqs\<rparr>) = list_tables d"
  "list_tables (d\<lparr>final_scores := fs\<rparr>) = list_tables d" "list_tables (d\<lparr>answer_submissions := ss\<rparr>) = list_tables d"
  "list_tables (d\<lparr>rooms := rs\<rparr>) = list_tables d" "list_tables (d\<lparr>room_participants := ps\<rparr>) = list_tables d"
  "list_tables (d\<lparr>moderation_reports := mrs\<rparr>) = list_tables d" "list_tables (d\<lparr>users := us\<rparr>) = list_tables d"
  "list_tables (d\<lparr>audit_logs := al\<rparr>) = list_tables d" "list_tables (d\<lparr>outbox_events := ob\<rparr>) = list_tables d"
  by (simp_all add: list_tables_def set_room_def set_match_def set_mq_def set_statuses_def register_event_def)

lemma resume_deadline_lists [simp]: "list_tables (resume_deadline d i p n t) = list_tables d"
  by (simp add: resume_deadline_def split: option.split)

lemma redis_lists [simp]:
  "quiz_lists (start_match_redis now m room n parts s) = quiz_lists s" "quiz_lists (end_match_redis now c s) = quiz_lists s"
  "quiz_lists (snapshot_write t c j st s) = quiz_lists s" "quiz_lists (participants_count_init c x s) = quiz_lists s"
  "quiz_lists (snd (participants_count_admit c x s)) = quiz_lists s" "quiz_lists (snd (participants_count_release c s)) = quiz_lists s" "quiz_lists (snd (idem_set s now k v)) = quiz_lists s"
  by (simp_all add: start_match_redis_def end_match_redis_def set_nicknames_def reset_def snapshot_write_def participants_count_init_def
      participants_count_admit_def participants_count_release_def idem_set_def Let_def split: option.splits)

section \<open>The services\<close>

lemma start_match_lists: "same_lists w (snd (start_match now now2 h c w))"
  by (auto simp: same_lists_def start_match_def Let_def register_eq split_beta start_post_def insert_match_Some insert_match_questions_Some
      split: sum.splits option.splits)

lemma end_match_lists: "same_lists w (snd (end_match now now2 i h w))"
  by (auto simp: same_lists_def end_match_def Let_def register_eq split: sum.splits prod.splits)

lemma pause_match_lists: "same_lists w (snd (pause_match now h c w))"
  by (auto simp: same_lists_def pause_match_def Let_def split: sum.splits)

lemma resume_match_lists: "same_lists w (snd (resume_match now now2 h c w))"
  by (auto simp: same_lists_def resume_match_def Let_def split_beta split: sum.splits option.splits)

lemma submit_post_lists [simp]: "quiz_lists (wredis (snd (submit_post s a w))) = quiz_lists (wredis w)"
  by (simp add: submit_post_def Let_def mark_answered_def set_nicknames_def zadd_total_def split: option.splits)

lemma submit_tx_lists: "same_lists w (snd (submit_tx now i pid p rid w))"
  by (auto simp: same_lists_def submit_tx_def Let_def register_eq split_beta split: sum.splits option.splits)

lemma submit_answer_lists: "same_lists w (snd (submit_answer now now2 i pid p rid w))"
proof -
  obtain x w1 where t: "submit_tx now i pid p rid w = (x, w1)" by fastforce
  have "same_lists w w1" using submit_tx_lists [of w now i pid p rid] by (simp add: t)
  then show ?thesis using submit_post_frame
    by (auto simp: same_lists_def submit_answer_def t Let_def split_beta split: sum.splits option.splits submit_outcome.splits)
qed

lemma create_room_lists: "same_lists w (snd (create_room tok now draws host payload w))"
proof (cases "create_check (wdb w) (u_id host) payload")
  case (Inl e)
  then show ?thesis by (simp add: create_room_def same_lists_def)
next
  case (Inr quiz)
  obtain x w1 where al: "allocate_room CODE_RETRIES draws (u_id host) (qs_id quiz) payload (wdb w) w = (x, w1)" by fastforce
  note fr = allocate_room_frame [OF al]
  show ?thesis
  proof (cases x)
    case None
    then show ?thesis using fr by (simp add: create_room_def same_lists_def Inr al)
  next
    case (Some rd)
    obtain room d where rd: "rd = (room, d)" by (cases rd)
    then have "d = (wdb w)\<lparr>rooms := rooms (wdb w) @ [room]\<rparr>" using allocate_room_Some al Some by blast
    then show ?thesis using fr by (simp add: create_room_def same_lists_def Inr al Some rd Let_def register_eq split_beta)
  qed
qed

lemma build_snapshot_lists: "same_lists w (snd (build_snapshot now code w))"
  by (auto simp: same_lists_def build_snapshot_def Let_def split_beta split: option.splits)

lemma create_report_lists: "same_lists w (snd (create_report now t reason details w))"
  by (simp add: same_lists_def create_report_def Let_def register_eq split_beta)


lemma join_room_lists: "same_lists w (snd (join_room tok pol now ip code nick uid w))"
proof -
  have "same_lists w (snd (join_admitted tok pol now room code nick uid w))" for room w
  proof -
    have flags: "list_tables (fst (snd (auto_flag_on_join pol now room nick uid d w))) = list_tables d \<and>
        wredis (snd (snd (auto_flag_on_join pol now room nick uid d w))) = wredis w" for d w
    proof -
      obtain rs d' w' where f: "auto_flag_on_join pol now room nick uid d w = (rs, d', w')" by (cases "auto_flag_on_join pol now room nick uid d w")
      from persist_flags_effect [OF f [unfolded auto_flag_on_join_def]] show ?thesis by (auto simp: f list_tables_def)
    qed
    show ?thesis
      by (auto simp: same_lists_def join_admitted_def Let_def split_beta register_eq flags insert_participant_def split: option.splits if_splits)
  qed
  then show ?thesis by (auto simp: same_lists_def join_room_def Let_def split_beta split: sum.splits)
qed

lemma decide_lists:
  assumes "decision \<noteq> ''hide''"
  shows "same_lists w (snd (decide now m i decision reason w))"
proof -
  have tables: "list_tables d' = list_tables d" if "apply_decision decision rep d = Inr (ex, ks, d')" for rep d ex ks d'
    using that assms by (auto simp: apply_decision_def apply_mute_def apply_ban_def Let_def result_iff split: if_splits)
  have kicks: "wdb (fold (\<lambda>(code, pid). broadcast code t (f pid)) ks w) = wdb w" "wredis (fold (\<lambda>(code, pid). broadcast code t (f pid)) ks w) = wredis w" for ks t f w
    by (induction ks arbitrary: w) auto
  let ?x = "bind_r (decide_check (wdb w) i decision) (\<lambda>report. bind_r (apply_decision decision report (wdb w)) (\<lambda>x. Inr (report, x)))"
  show ?thesis
  proof (cases ?x)
    case (Inl e)
    then show ?thesis by (simp add: decide_def same_lists_def)
  next
    case (Inr y)
    obtain report ex ks d where y: "y = (report, ex, ks, d)" by (cases y) auto
    then have "apply_decision decision report (wdb w) = Inr (ex, ks, d)" using Inr by (auto simp: result_iff)
    from tables [OF this] show ?thesis
      unfolding same_lists_def decide_def Inr y by (simp add: Let_def register_eq split_beta kicks)
  qed
qed

section \<open>Keys\<close>

definition collision_free :: "(json \<Rightarrow> string) \<Rightarrow> bool" where
  "collision_free sha \<longleftrightarrow> (\<forall>v q ow t l k v' q' ow' t' l' k'. sha (quiz_list_payload v q ow t l k) = sha (quiz_list_payload v' q' ow' t' l' k') \<longrightarrow>
     quiz_list_payload v q ow t l k = quiz_list_payload v' q' ow' t' l' k')"

definition nonzero :: "int option \<Rightarrow> bool" where
  "nonzero x \<longleftrightarrow> x \<noteq> Some 0"

lemma int_str_text [simp]: "int_str i \<noteq> []" "[] \<noteq> int_str i" "int_str i \<noteq> ''anon''" "''anon'' \<noteq> int_str i"
proof -
  show n: "int_str i \<noteq> []" by (simp add: int_str_def)
  then show "[] \<noteq> int_str i" by metis
  show a: "int_str i \<noteq> ''anon''" using int_str_chars [of "CHR ''a''" i] by auto
  then show "''anon'' \<noteq> int_str i" by metis
qed

definition same_text :: "string option \<Rightarrow> string option \<Rightarrow> bool" where
  "same_text a b \<longleftrightarrow> (case a of None \<Rightarrow> '''' | Some s \<Rightarrow> s) = (case b of None \<Rightarrow> '''' | Some s \<Rightarrow> s)"

lemma list_body_text:
  "same_text q q' \<Longrightarrow> same_text t t' \<Longrightarrow> list_body D d v q ow t l k = list_body D d v q' ow t' l k"
  by (cases q; cases q'; cases t; cases t') (auto simp: same_text_def list_body_def list_for_viewer_def Let_def)

lemma payload_list_body:
  assumes "quiz_list_payload v q ow t l k = quiz_list_payload v' q' ow' t' l' k'" "nonzero v" "nonzero v'" "nonzero ow" "nonzero ow'"
  shows "list_body D d v q ow t l k = list_body D d v' q' ow' t' l' k'"
proof -
  have "v = v'" using assms by (cases v; cases v') (auto simp: quiz_list_payload_def nonzero_def int_str_inject split: if_splits)
  moreover have "ow = ow'" using assms by (cases ow; cases ow') (auto simp: quiz_list_payload_def nonzero_def int_str_inject split: if_splits)
  moreover have "l = l'" "k = k'" "same_text q q'" "same_text t t'" using assms(1) by (simp_all add: quiz_list_payload_def same_text_def)
  ultimately show ?thesis using list_body_text by simp
qed

section \<open>Freshness\<close>

definition lists_fresh :: "deployment \<Rightarrow> world \<Rightarrow> bool" where
  "lists_fresh D w \<longleftrightarrow> (\<forall>v q ow t l k body expires. nonzero v \<and> nonzero ow \<and>
     quiz_lists (wredis w) (quiz_list_cache_key (sha1_json D) v q ow t l k) = Some (body, expires) \<longrightarrow> body = list_body D (wdb w) v q ow t l k)"

lemma same_lists_fresh: "same_lists w w' \<Longrightarrow> lists_fresh D w \<Longrightarrow> lists_fresh D w'"
  using list_body_cong [of "wdb w'" "wdb w" D] by (auto simp: lists_fresh_def same_lists_def)

lemma invalidated_fresh: "lists_fresh D (snd (invalidate_lists w))"
  by (simp add: lists_fresh_def invalidate_lists_def invalidate_prefix_def quiz_list_cache_key_def)

lemma fresh_entry:
  assumes "lists_fresh D w" "collision_free (sha1_json D)" "nonzero v" "nonzero ow"
  shows "lists_fresh D (w\<lparr>wredis := (wredis w)\<lparr>quiz_lists := (quiz_lists (wredis w))
    (quiz_list_cache_key (sha1_json D) v q ow t l k \<mapsto> (list_body D (wdb w) v q ow t l k, ex))\<rparr>\<rparr>)"
  unfolding lists_fresh_def
proof (intro allI impI, elim conjE)
  fix v' q' ow' t' l' k' body ex'
  assume n: "nonzero v'" "nonzero ow'" and e: "quiz_lists (wredis (w\<lparr>wredis := (wredis w)\<lparr>quiz_lists := (quiz_lists (wredis w))
    (quiz_list_cache_key (sha1_json D) v q ow t l k \<mapsto> (list_body D (wdb w) v q ow t l k, ex))\<rparr>\<rparr>)) (quiz_list_cache_key (sha1_json D) v' q' ow' t' l' k') = Some (body, ex')"
  have "body = list_body D (wdb w) v' q' ow' t' l' k'"
  proof (cases "quiz_list_cache_key (sha1_json D) v' q' ow' t' l' k' = quiz_list_cache_key (sha1_json D) v q ow t l k")
    case True
    then have "quiz_list_payload v q ow t l k = quiz_list_payload v' q' ow' t' l' k'"
      using assms(2) unfolding collision_free_def quiz_list_cache_key_def by (metis same_append_eq)
    from payload_list_body [OF this assms(3) n(1) assms(4) n(2)] e True show ?thesis by simp
  next
    case False
    then show ?thesis using e n assms(1) unfolding lists_fresh_def by simp
  qed
  then show "body = list_body D (wdb (w\<lparr>wredis := (wredis w)\<lparr>quiz_lists := (quiz_lists (wredis w))
    (quiz_list_cache_key (sha1_json D) v q ow t l k \<mapsto> (list_body D (wdb w) v q ow t l k, ex))\<rparr>\<rparr>)) v' q' ow' t' l' k'" by simp
qed

section \<open>The routes\<close>

lemma publish_flags_frame [simp]:
  "wdb (snd (snd (auto_flag_on_publish pol now quiz qs d w))) = wdb w" "wredis (snd (snd (auto_flag_on_publish pol now quiz qs d w))) = wredis w"
proof -
  obtain rs d' w' where f: "auto_flag_on_publish pol now quiz qs d w = (rs, d', w')" by (cases "auto_flag_on_publish pol now quiz qs d w")
  from persist_flags_effect [OF f [unfolded auto_flag_on_publish_def]]
  show "wdb (snd (snd (auto_flag_on_publish pol now quiz qs d w))) = wdb w" "wredis (snd (snd (auto_flag_on_publish pol now quiz qs d w))) = wredis w"
    by (auto simp: f)
qed

lemma authoring_errors:
  "create_quiz_set now h quiz w = (Inl e, w') \<Longrightarrow> same_lists w w'" "update_quiz_set h i changes w = (Inl e, w') \<Longrightarrow> same_lists w w'"
  "publish_quiz_set pol now h i w = (Inl e, w') \<Longrightarrow> same_lists w w'" "add_question h i question w = (Inl e, w') \<Longrightarrow> same_lists w w'"
  "update_question h i qchanges w = (Inl e, w') \<Longrightarrow> same_lists w w'" "delete_question h i w = (Inl e, w') \<Longrightarrow> same_lists w w'"
  by (auto simp: same_lists_def create_quiz_set_def update_quiz_set_def publish_quiz_set_def add_question_def update_question_def delete_question_def
      Let_def split_beta split: sum.splits option.splits prod.splits if_splits)

lemma authoring_fresh:
  assumes "\<And>e w'. h w = (Inl e, w') \<Longrightarrow> same_lists w w'" "\<And>x. lists.keeps (k x)" "lists_fresh D w"
  shows "lists_fresh D (snd (and_then h (\<lambda>x. and_then invalidate_lists (\<lambda>_. k x)) w))"
proof -
  obtain y w1 where h: "h w = (y, w1)" by fastforce
  show ?thesis
  proof (cases y)
    case (Inl e)
    then show ?thesis using assms(1,3) h same_lists_fresh by (simp add: and_then_def)
  next
    case (Inr x)
    have "same_lists (snd (invalidate_lists w1)) (snd (k x (snd (invalidate_lists w1))))" by (rule lists.keepsD [OF assms(2)])
    from same_lists_fresh [OF this invalidated_fresh] show ?thesis using h Inr by (simp add: and_then_def invalidate_lists_def)
  qed
qed

lemma hydrated_lists: "lists.keeps (hydrated i)"
  by (rule lists.keeps_read) (rule hydrated_read)

lemma service_lists:
  "lists.keeps (start_match now now2 host code)" "lists.keeps (pause_match now host code)" "lists.keeps (resume_match now now2 host code)"
  "lists.keeps (end_match now now2 mid h)" "lists.keeps (submit_answer now now2 mid pid ans rid)"
  "lists.keeps (create_room tok now draws u room)" "lists.keeps (join_room tok pol now ip code nick uid)" "lists.keeps (build_snapshot now code)"
  "lists.keeps (create_report now t reason details)"
  unfolding lists.keeps_def
  by (simp_all add: start_match_lists pause_match_lists resume_match_lists end_match_lists submit_answer_lists create_room_lists join_room_lists
      build_snapshot_lists create_report_lists)

lemma beside_lists:
  "lists.keeps (register_user L sl email password name)" "lists.keeps (login L cfg now email password ip)" "lists.keeps (refresh L cfg now token)"
  "lists.keeps (logout L cfg now token)" "lists.keeps (answer_attempt r pid i)" "lists.keeps (report_attempt r u)"
  by (auto simp: lists.keeps_def same_lists_def register_user_def insert_user_def audit_add_def login_def refresh_def refresh_rotate_def logout_def
      revoke_claims_def revoke_jti_def answer_attempt_def report_attempt_def with_buckets_def result_iff Let_def split_beta
      split: option.splits sum.splits)


fun authoring :: "api_call \<Rightarrow> bool" where
  "authoring (CreateQuizSet _) = True"
| "authoring (PatchQuizSet _ _) = True"
| "authoring (PublishQuizSet _) = True"
| "authoring (AddQuestion _ _) = True"
| "authoring (PatchQuestion _ _) = True"
| "authoring (DeleteQuestion _) = True"
| "authoring _ = False"

lemma fresh_guards:
  "lists_fresh D w \<Longrightarrow> (\<And>u. lists_fresh D (snd (h u w))) \<Longrightarrow> lists_fresh D (snd (with_user E r h w))"
  "lists_fresh D w \<Longrightarrow> (\<And>u. lists_fresh D (snd (h u w))) \<Longrightarrow> lists_fresh D (snd (with_role rs E r h w))"
  "lists_fresh D w \<Longrightarrow> lists_fresh D (snd (k w)) \<Longrightarrow> lists_fresh D (snd (checked ok k w))"
  by (simp_all add: with_role_def with_user_def checked_def split: sum.split)

lemma authoring_dispatch:
  assumes "authoring call" "lists_fresh D w"
  shows "lists_fresh D (snd (call_route D r rid call w))"
proof -
  have k: "lists.keeps (\<lambda>w. reply (f w) w)" for f :: "world \<Rightarrow> json" by (rule lists.keeps_read) (simp add: reply_def)
  show ?thesis using assms
    by (cases call) (auto simp: api_create_quiz_set_def api_patch_quiz_set_def api_publish_quiz_set_def api_add_question_def api_patch_question_def api_delete_question_def
      intro!: fresh_guards authoring_fresh hydrated_lists lists.keeps_reply k dest: authoring_errors)
qed

lemma api_end_lists: "lists.keeps (api_end_match D r code)"
proof -
  have "same_lists w (snd (and_then (end_match now now2 i (Some h)) (\<lambda>m. reply (match_control_response m)) w))" for now now2 i h w
    by (rule lists.keepsD) (intro lists.keeps_and_then service_lists lists.keeps_reply)
  then show ?thesis unfolding api_end_match_def
    by (intro lists.keeps_with_role) (simp add: lists.keeps_def lists.same split: sum.split)
qed

lemma api_analytics_lists: "lists.keeps (api_analytics D r i)"
  by (simp add: lists.keeps_def same_lists_def api_analytics_def get_match_analytics_def split_beta Let_def split: sum.split option.split)

lemma other_dispatch:
  assumes "\<not> authoring call" "\<And>q ow t l k. call \<noteq> ListQuizSets q ow t l k" "\<And>i reason. call \<noteq> DecideReport i ''hide'' reason"
  shows "lists.keeps (call_route D r rid call)"
proof (cases call)
  case (EndMatch code)
  then show ?thesis using api_end_lists by simp
next
  case (GetAnalytics i)
  then show ?thesis using api_analytics_lists by simp
next
  case (DecideReport i dec reason)
  then have "dec \<noteq> ''hide''" using assms(3) by blast
  from decide_lists [OF this] have "lists.keeps (decide now m i dec reason)" for now m by (simp add: lists.keeps_def)
  then show ?thesis by (simp add: DecideReport api_decide_report_def lists.keeps_combinators)
qed (use assms in \<open>simp_all add: api_register_def api_login_def api_refresh_def api_logout_def api_me_def api_get_user_def
    api_get_quiz_set_def api_create_room_def api_get_room_def api_join_room_def api_start_match_def api_pause_match_def api_resume_match_def api_submit_answer_def
    api_get_leaderboard_def api_create_report_def api_list_reports_def api_admin_metrics_def Let_def split_beta
    lists.keeps_combinators service_lists beside_lists lists.keeps_read reply_def split: option.split sum.split\<close>)


lemma arm_question_lists: "same_lists w (arm_question now now2 now3 i p w)"
  by (auto simp: same_lists_def arm_question_def Let_def register_eq split_beta split: option.splits)

lemma close_question_lists: "same_lists w (snd (close_question k now now2 i p w))"
proof -
  have "same_lists w (close_commit now i p mq room (runtime_state_for i w))" for mq room
    by (auto simp: same_lists_def close_commit_def Let_def register_eq)
  from lists.chain [OF this end_match_lists] this show ?thesis
    by (auto simp: close_question_snd Let_def split: option.splits) (simp_all add: same_lists_def)
qed

lemma run_task_lists: "same_lists w (run_task k now now2 now3 tid w)"
proof (cases "map_of (tasks w) tid")
  case (Some t)
  let ?w0 = "w\<lparr>running_task := Some tid, must_cancel := False\<rparr>"
  have "same_lists ?w0 (task_body k now now2 now3 t ?w0)"
    by (simp add: task_body_def arm_question_lists close_question_lists split: task.splits)
  then show ?thesis by (simp add: run_task_def Some Let_def same_lists_def)
qed (simp add: run_task_def same_lists_def)

lemma viewer_caller:
  "optional_current_user (a_lib D) (a_cfg D) (received r) (bearer_creds r) w = Inr (Some u) \<Longrightarrow> caller D r w u"
  by (auto simp: optional_current_user_def caller_def split: if_splits sum.splits error.splits)

lemma fresh_cached:
  assumes "lists_fresh D w" "nonzero v" "nonzero ow" "cached_list now (quiz_list_cache_key (sha1_json D) v q ow t l k) (wredis w) = Some body"
  shows "body = list_body D (wdb w) v q ow t l k"
  using assms unfolding lists_fresh_def cached_list_def by (auto split: option.splits if_splits)

lemma list_route:
  assumes "lists_fresh D w" "collision_free (sha1_json D)" "nonzero ow" "\<And>u. caller D r w u \<Longrightarrow> u_id u \<noteq> 0"
  shows "lists_fresh D (snd (api_list_quiz_sets D r q ow t l k w)) \<and>
    (\<forall>body. fst (api_list_quiz_sets D r q ow t l k w) = Inr body \<longrightarrow>
       (\<exists>v. optional_current_user (a_lib D) (a_cfg D) (received r) (bearer_creds r) w = Inr v \<and> body = list_body D (wdb w) (viewer_id v) q ow t l k))"
proof (cases "optional_current_user (a_lib D) (a_cfg D) (received r) (bearer_creds r) w")
  case (Inl e)
  then show ?thesis using assms(1) by (simp add: api_list_quiz_sets_def with_viewer_def)
next
  case (Inr v)
  have nz: "nonzero (viewer_id v)" using assms(4) viewer_caller Inr by (cases v) (auto simp: nonzero_def viewer_id_def)
  note fresh_cached [OF assms(1) nz assms(3)]
  moreover note fresh_entry [OF assms(1,2) nz assms(3)]
  ultimately show ?thesis using assms(1)
    by (auto simp: api_list_quiz_sets_def with_viewer_def Inr checked_def Let_def split: option.split)
qed

section \<open>Histories\<close>

definition plain_request :: "deployment \<Rightarrow> request \<Rightarrow> api_call \<Rightarrow> world \<Rightarrow> bool" where
  "plain_request D r call w \<longleftrightarrow> (\<forall>q t l k. call \<noteq> ListQuizSets q (Some 0) t l k) \<and> (\<forall>i reason. call \<noteq> DecideReport i ''hide'' reason) \<and>
     (\<forall>u. caller D r w u \<longrightarrow> u_id u \<noteq> 0)"

inductive served :: "deployment \<Rightarrow> world \<Rightarrow> bool" for D where
  cold: "quiz_lists (wredis w) = Map.empty \<Longrightarrow> served D w"
| request: "served D w \<Longrightarrow> plain_request D r call w \<Longrightarrow> served D (snd (serve D r call w))"
| timer: "served D w \<Longrightarrow> served D (run_task k now now2 now3 tid w)"

lemma caller_cong: "wdb w' = wdb w \<Longrightarrow> wredis w' = wredis w \<Longrightarrow> caller D r w' u = caller D r w u"
  by (simp add: caller_def current_user_def)

lemma serve_fresh:
  assumes "lists_fresh D w" "collision_free (sha1_json D)" "plain_request D r call w"
  shows "lists_fresh D (snd (serve D r call w))"
proof -
  obtain rid w1 where m: "request_id_middleware r w = (rid, w1)" by fastforce
  note f = middleware_frame [OF m]
  have w1: "lists_fresh D w1" "\<And>u. caller D r w1 u \<Longrightarrow> u_id u \<noteq> 0"
    using assms(1,3) f caller_cong [of w1 w] by (auto simp: lists_fresh_def plain_request_def)
  have "lists_fresh D (snd (call_route D r rid call w1))"
  proof (cases "authoring call")
    case True
    then show ?thesis using authoring_dispatch w1 by blast
  next
    case False
    show ?thesis
    proof (cases "\<exists>q ow t l k. call = ListQuizSets q ow t l k")
      case True
      then obtain q ow t l k where call: "call = ListQuizSets q ow t l k" by blast
      then have "nonzero ow" using assms(3) by (auto simp: plain_request_def nonzero_def)
      from list_route [OF w1(1) assms(2) this w1(2)] show ?thesis by (simp add: call)
    next
      case nolist: False
      have "lists.keeps (call_route D r rid call)" by (rule other_dispatch) (use False nolist assms(3) in \<open>auto simp: plain_request_def\<close>)
      from same_lists_fresh [OF lists.keepsD [OF this] w1(1)] show ?thesis .
    qed
  qed
  then show ?thesis by (simp add: serve_def m split_beta)
qed

lemma served_fresh: "served D w \<Longrightarrow> collision_free (sha1_json D) \<Longrightarrow> lists_fresh D w"
proof (induction rule: served.induct)
  case (cold w)
  then show ?case by (simp add: lists_fresh_def)
next
  case (request w r call)
  then show ?case using serve_fresh by blast
next
  case (timer w k now now2 now3 tid)
  then show ?case using same_lists_fresh [OF run_task_lists] by blast
qed


lemma viewer_cong:
  "wdb w' = wdb w \<Longrightarrow> wredis w' = wredis w \<Longrightarrow> optional_current_user L cfg now creds w' = optional_current_user L cfg now creds w"
  by (simp add: optional_current_user_def current_user_def)

text \<open>
  C17: the list cache is never stale.  Start with an empty cache and let any requests and timers run, in any order: as long as no
  decision hides a quiz and no request filters by owner 0, every listing that is served, from the cache or not, is the
  listing of the database at that moment for that viewer and those filters.
\<close>
theorem quiz_lists_current:
  assumes "served D w" "collision_free (sha1_json D)" "plain_request D r (ListQuizSets q owner tag limit offset) w"
    and "optional_current_user (a_lib D) (a_cfg D) (received r) (bearer_creds r) w = Inr viewer"
    and "opt_all (\<lambda>i. 0 \<le> i) owner" "opt_all (\<lambda>t. length t \<le> 60) tag" "1 \<le> limit" "limit \<le> 100" "0 \<le> offset"
  shows "http_status (fst (serve D r (ListQuizSets q owner tag limit offset) w)) = 200 \<and>
    http_body (fst (serve D r (ListQuizSets q owner tag limit offset) w)) = list_body D (wdb w) (viewer_id viewer) q owner tag limit offset"
proof -
  obtain rid w1 where m: "request_id_middleware r w = (rid, w1)" by fastforce
  note f = middleware_frame [OF m]
  have v: "optional_current_user (a_lib D) (a_cfg D) (received r) (bearer_creds r) w1 = Inr viewer"
    using assms(4) f viewer_cong by metis
  have w1: "lists_fresh D w1" "\<And>u. caller D r w1 u \<Longrightarrow> u_id u \<noteq> 0"
    using served_fresh [OF assms(1,2)] assms(3) f caller_cong [of w1 w] by (auto simp: lists_fresh_def plain_request_def)
  have "nonzero owner" using assms(3) by (auto simp: plain_request_def nonzero_def)
  note route = list_route [where r = r, OF w1(1) assms(2) this w1(2), where q = q and t = tag and l = limit and k = offset]
  have "nonzero (viewer_id viewer)" using w1(2) viewer_caller v by (cases viewer) (auto simp: nonzero_def viewer_id_def)
  then have "valid QuizSetListResponse c" if "cached_list (received r) (quiz_list_cache_key (sha1_json D) (viewer_id viewer) q owner tag limit offset) (wredis w1) = Some c" for c
    using fresh_cached [OF w1(1) _ \<open>nonzero owner\<close> that] by (simp add: list_body_def)
  then have "\<exists>body. fst (api_list_quiz_sets D r q owner tag limit offset w1) = Inr body"
    using assms(5-) by (cases "cached_list (received r) (quiz_list_cache_key (sha1_json D) (viewer_id viewer) q owner tag limit offset) (wredis w1)")
      (auto simp: api_list_quiz_sets_def with_viewer_def v checked_def Let_def)
  then obtain body where body: "fst (api_list_quiz_sets D r q owner tag limit offset w1) = Inr body" by blast
  with route have "body = list_body D (wdb w1) (viewer_id viewer) q owner tag limit offset" using v by auto
  with body f show ?thesis by (simp add: serve_def m split_beta)
qed


lemma demo_collision_free: "collision_free (sha1_json demo_deployment)"
proof -
  have plain: "\<exists>kvs. quiz_list_payload v q ow t l k = JObj kvs \<and> list_all (\<lambda>(k, v). case v of JStr _ \<Rightarrow> True | JInt _ \<Rightarrow> True | _ \<Rightarrow> False) kvs" for v q ow t l k
    by (simp add: quiz_list_payload_def)
  have dec: "demo_dec_claims (length (demo_enc_claims kvs)) (demo_enc_claims kvs) = Some kvs"
    if "list_all (\<lambda>(k, v). case v of JStr _ \<Rightarrow> True | JInt _ \<Rightarrow> True | _ \<Rightarrow> False) kvs" for kvs
    using that demo_dec_enc_claims [OF _ demo_enc_claims_length] by blast
  show ?thesis unfolding collision_free_def
  proof (intro allI impI)
    fix v q ow t l k v' q' ow' t' l' k'
    assume eq: "sha1_json demo_deployment (quiz_list_payload v q ow t l k) = sha1_json demo_deployment (quiz_list_payload v' q' ow' t' l' k')"
    obtain a where a: "quiz_list_payload v q ow t l k = JObj a" "list_all (\<lambda>(k, v). case v of JStr _ \<Rightarrow> True | JInt _ \<Rightarrow> True | _ \<Rightarrow> False) a"
      using plain [of v q ow t l k] by (elim exE conjE)
    obtain b where b: "quiz_list_payload v' q' ow' t' l' k' = JObj b" "list_all (\<lambda>(k, v). case v of JStr _ \<Rightarrow> True | JInt _ \<Rightarrow> True | _ \<Rightarrow> False) b"
      using plain [of v' q' ow' t' l' k'] by (elim exE conjE)
    have "demo_enc_claims a = demo_enc_claims b" using eq by (simp add: a b demo_deployment_def demo_digest_def)
    then have "Some a = Some b" using dec [OF a(2)] dec [OF b(2)] by metis
    then show "quiz_list_payload v q ow t l k = quiz_list_payload v' q' ow' t' l' k'" by (simp only: a(1) b(1) option.inject)
  qed
qed

lemma serve_list_db: "wdb (snd (serve D r (ListQuizSets q ow t l k) w)) = wdb w"
proof -
  obtain rid w1 where m: "request_id_middleware r w = (rid, w1)" by fastforce
  have "wdb (snd (api_list_quiz_sets D r q ow t l k w1)) = wdb w1"
    by (simp add: api_list_quiz_sets_def with_viewer_def checked_def Let_def split: sum.split option.split)
  then show ?thesis using middleware_frame [OF m] by (simp add: serve_def m split_beta)
qed

lemma no_caller: "bearer_creds r = None \<Longrightarrow> \<not> caller D r w u"
  by (simp add: caller_def current_user_def bearer_def)

lemma demo_list_run3: "list_body D (wdb run3) None None None None 20 0 = quiz_set_list [(hd (quiz_sets run3_db), 1)] 20 0"
  by (simp add: list_body_def list_for_viewer_def visible_in_list_def run3_eq run3_db_def run2_db_def empty_db_def)

theorem quiz_lists_current_witness:
  "let D = demo_deployment; call = ListQuizSets None None None 20 0; w = snd (serve D (demo_request None 2) call run3) in
   http_body (fst (serve D (demo_request None 3) call w)) = quiz_set_list [(hd (quiz_sets run3_db), 1)] 20 0"
proof -
  let ?D = demo_deployment and ?call = "ListQuizSets None None None 20 0"
  have creds: "bearer_creds (demo_request None t) = None" for t by (simp add: demo_request_def)
  have plain: "plain_request ?D (demo_request None t) ?call w" for t w using no_caller [OF creds] by (simp add: plain_request_def)
  have anon: "optional_current_user (a_lib ?D) (a_cfg ?D) (received (demo_request None t)) (bearer_creds (demo_request None t)) w = Inr None" for t w
    by (simp add: optional_current_user_def creds)
  have "served ?D run3" by (rule served.cold) (simp add: run3_eq empty_world_def empty_rstate_def)
  from served.request [OF this plain] have s: "served ?D (snd (serve ?D (demo_request None 2) ?call run3))" .
  from quiz_lists_current [OF s demo_collision_free plain anon, of 3] show ?thesis
    by (simp add: opt_all_def viewer_id_def serve_list_db demo_list_run3 Let_def)
qed

lemma anonymous_list:
  assumes "bearer_creds r = None" "opt_all (\<lambda>i. 0 \<le> i) owner" "opt_all (\<lambda>t. length t \<le> 60) tag" "1 \<le> limit" "limit \<le> 100" "0 \<le> offset"
  shows "api_list_quiz_sets D r q owner tag limit offset w =
    (let key = quiz_list_cache_key (sha1_json D) None q owner tag limit offset in
     case cached_list (received r) key (wredis w) of
       Some cached \<Rightarrow> (if valid QuizSetListResponse cached then Inr cached else Inl (PyError ''ValidationError''), w)
     | None \<Rightarrow> let body = list_body D (wdb w) None q owner tag limit offset
         in (Inr body, w\<lparr>wredis := (wredis w)\<lparr>quiz_lists := (quiz_lists (wredis w))(key \<mapsto> (body, received r + LIST_CACHE_TTL_SECONDS * 1000000))\<rparr>\<rparr>))"
  using assms by (simp add: api_list_quiz_sets_def with_viewer_def optional_current_user_def checked_def viewer_id_def Let_def split: option.split)

lemma owner_zero_key: "quiz_list_cache_key sha v q (Some 0) t l k = quiz_list_cache_key sha v q None t l k"
  by (simp add: quiz_list_cache_key_def quiz_list_payload_def)

text \<open>
  A filter can poison the list.  The cache key treats \<^verbatim>\<open>owner_id=0\<close> as no filter, the query does not: when nothing is cached, an
  anonymous request for the quizzes of owner 0 (of which there are none) fills the entry of the unfiltered list, and for a
  minute every anonymous visitor is served that answer instead of the public quizzes.
\<close>
theorem owner_zero_poisons_list:
  assumes "bearer_creds r = None" "bearer_creds r' = None" "opt_all (\<lambda>t. length t \<le> 60) tag" "1 \<le> limit" "limit \<le> 100" "0 \<le> offset"
    and "cached_list (received r) (quiz_list_cache_key (sha1_json D) None q None tag limit offset) (wredis w) = None"
    and "received r' < received r + 60 * 1000000" "\<forall>s \<in> set (quiz_sets (wdb w)). qs_owner_id s \<noteq> 0"
  shows "http_status (fst (serve D r' (ListQuizSets q None tag limit offset) (snd (serve D r (ListQuizSets q (Some 0) tag limit offset) w)))) = 200 \<and>
    json_get (http_body (fst (serve D r' (ListQuizSets q None tag limit offset) (snd (serve D r (ListQuizSets q (Some 0) tag limit offset) w))))) ''items'' = JArr []"
proof -
  let ?key = "quiz_list_cache_key (sha1_json D) None q None tag limit offset"
  obtain rid w1 where m: "request_id_middleware r w = (rid, w1)" by fastforce
  note f = middleware_frame [OF m]
  define body where "body = list_body D (wdb w) None q (Some 0) tag limit offset"
  have "list_for_viewer sim th (wdb w) None q (Some 0) tag n k = []" for sim th n k
    using assms(9) by (auto simp: list_for_viewer_def Let_def filter_empty_conv split: option.splits)
  then have items: "json_get body ''items'' = JArr []" and valid: "valid QuizSetListResponse body" by (simp_all add: body_def list_body_def quiz_set_list_def)
     (simp add: QuizSetListResponse_def)
  have "opt_all (\<lambda>i. 0 \<le> i) (Some (0 :: int))" "opt_all (\<lambda>i. 0 \<le> i) (None :: int option)" by (simp_all add: opt_all_def)
  note first = anonymous_list [OF assms(1) this(1) assms(3-6), of D q w1] and second = anonymous_list [OF assms(2) this(2) assms(3-6), of D q]
  define w2 where "w2 = snd (serve D r (ListQuizSets q (Some 0) tag limit offset) w)"
  have "quiz_lists (wredis w2) ?key = Some (body, received r + LIST_CACHE_TTL_SECONDS * 1000000)"
    using assms(7) f by (simp add: w2_def serve_def m first owner_zero_key Let_def body_def)
  moreover obtain rid' w3 where m': "request_id_middleware r' w2 = (rid', w3)" by fastforce
  moreover note middleware_frame [OF m']
  ultimately have "cached_list (received r') ?key (wredis w3) = Some body" using assms(8) by (simp add: cached_list_def LIST_CACHE_TTL_SECONDS_def)
  then have "fst (serve D r' (ListQuizSets q None tag limit offset) w2) =
      \<lparr>http_status = 200, http_body = body, retry_after = None, echoed_request_id = Some rid'\<rparr>"
    using valid by (simp add: serve_def m' second Let_def)
  then show ?thesis using items by (simp add: w2_def)
qed

theorem owner_zero_poisons_list_witness:
  "let D = demo_deployment; w = snd (serve D (demo_request None 2) (ListQuizSets None (Some 0) None 20 0) run3) in
   json_get (http_body (fst (serve D (demo_request None 3) (ListQuizSets None None None 20 0) w))) ''items'' = JArr [] \<and>
   json_get (list_body D (wdb run3) None None None None 20 0) ''items'' \<noteq> JArr []"
proof -
  let ?D = demo_deployment
  have "cached_list 2 key (wredis run3) = None" for key by (simp add: cached_list_def run3_eq empty_world_def empty_rstate_def)
  moreover have "\<forall>s \<in> set (quiz_sets (wdb run3)). qs_owner_id s \<noteq> 0" by (simp add: run3_eq run3_db_def)
  ultimately have "json_get (http_body (fst (serve ?D (demo_request None 3) (ListQuizSets None None None 20 0)
      (snd (serve ?D (demo_request None 2) (ListQuizSets None (Some 0) None 20 0) run3))))) ''items'' = JArr []"
    using owner_zero_poisons_list [of "demo_request None 2" "demo_request None 3" None 20 0 ?D None run3] by (simp add: demo_request_def opt_all_def)
  moreover have "json_get (list_body ?D (wdb run3) None None None None 20 0) ''items'' \<noteq> JArr []"
    by (simp add: demo_list_run3 quiz_set_list_def)
  ultimately show ?thesis by (simp add: Let_def)
qed

end
