(* ===== verification/Accounts.thy ===== *)
theory Accounts
  imports Api
begin

text \<open>
  Registration, login and \<^verbatim>\<open>/me\<close> as a client sees them over HTTP: theory Auth composed with the routes, the request models and
  the response models.
\<close>

lemma register_http:
  assumes "serve D r (Register email password name) w = (resp, w1)" "http_status resp = 201" "hasher_ok (a_lib D)"
  shows "\<exists>e u. RegisterRequest email password name = Some e \<and> user_public u = Inr (http_body resp) \<and> u_is_active u \<and>
    get_user (wdb w1) (u_id u) = Some u \<and> login_check (a_lib D) (wdb w1) e password = Inr u \<and>
    wredis w1 = wredis w \<and> id_supply w1 = id_supply w \<and> id_next w < id_next w1"
proof -
  obtain rid w0 where m: "request_id_middleware r w = (rid, w0)" by fastforce
  have f: "wdb w0 = wdb w" "wredis w0 = wredis w" "id_supply w0 = id_supply w" "id_next w \<le> id_next w0"
    using m by (auto simp: request_id_middleware_def fresh_id_def Let_def split: option.splits if_splits)
  obtain res w' where d: "api_register D r email password name w0 = (res, w')" by fastforce
  have no201: "http_status (error_response D rid e) \<noteq> 201" if "res = Inl e" for e
  proof
    assume s: "http_status (error_response D rid e) = 201"
    have "error_status e \<noteq> 201"
      using d that by (auto simp: api_register_def checked_def and_then_def register_user_def of_result_def user_public_def Let_def split_beta
          split: option.splits if_splits sum.splits prod.splits)
    with s show False by (simp add: error_response_status)
  qed
  from assms(1,2) d m no201 obtain body where res: "res = Inr body" and w1: "w1 = w'" and b: "body = http_body resp"
    by (cases res) (auto simp: serve_def split: error.splits)
  from d res obtain e where e: "RegisterRequest email password name = Some e" by (cases "RegisterRequest email password name") (auto simp: api_register_def checked_def)
  with d res obtain u where reg: "register_user (a_lib D) (salt r) e password name w0 = (Inr u, w')" and pub: "user_public u = Inr body"
    by (auto simp: api_register_def and_then_def of_result_def split: prod.splits sum.splits)
  note u = register_user_Inr [OF reg]
  have "verify_password (a_lib D) password (u_password_hash u)" using assms(3) by (simp add: hasher_ok_def verify_password_def u)
  then have "login_check (a_lib D) (wdb w1) e password = Inr u" by (simp add: w1 login_check_Inr u(3,7))
  then show ?thesis using e pub b u f by (auto simp: w1)
qed

text \<open>
  C19: an account over HTTP.  After a registration answered with 201, a login with the same address and password that the rate
  limiter lets through is answered with 200 and a token pair, and until it expires the access token makes \<^verbatim>\<open>/me\<close> answer with
  the same user the registration returned.
\<close>
theorem account_over_http:
  assumes "jwt_ok (a_lib D)" "hasher_ok (a_lib D)"
    and "serve D r (Register email password name) w = (resp, w1)" "http_status resp = 201"
    and "\<forall>k \<ge> id_next w. revoked_jtis (wredis w) (int_str (id_supply w k)) = None"
    and "\<forall>e. fst (fst (acquire (rate_buckets (wredis w1)) (login_key (a_lib D) (peer r2) e) LOGIN_CAPACITY LOGIN_REFILL_PER_SEC 1 (received r2 div 1000)))"
  shows "\<exists>resp2 w2 token. serve D r2 (Login email password) w1 = (resp2, w2) \<and> http_status resp2 = 200 \<and>
    json_get (http_body resp2) ''access_token'' = JStr token \<and>
    (\<forall>r3. bearer_creds r3 = Some token \<and> received r2 \<le> received r3 \<and>
       received r3 < (now_ts (received r2) + jwt_access_ttl_min (a_cfg D) * 60) * 1000000 \<longrightarrow>
       http_status (fst (serve D r3 Me w2)) = 200 \<and> http_body (fst (serve D r3 Me w2)) = http_body resp)"
proof -
  from register_http [OF assms(3,4,2)] obtain e u where
    e: "RegisterRequest email password name = Some e" and pub: "user_public u = Inr (http_body resp)" and
    u: "u_is_active u" "get_user (wdb w1) (u_id u) = Some u" "login_check (a_lib D) (wdb w1) e password = Inr u" and
    f: "wredis w1 = wredis w" "id_supply w1 = id_supply w" "id_next w < id_next w1" by blast
  have l: "LoginRequest email password = Some e" using e by (auto simp: RegisterRequest_def LoginRequest_def split: if_splits)
  obtain rid w0 where m: "request_id_middleware r2 w1 = (rid, w0)" by fastforce
  have f0: "wdb w0 = wdb w1" "wredis w0 = wredis w1" "id_supply w0 = id_supply w1" "id_next w1 \<le> id_next w0"
    using m by (auto simp: request_id_middleware_def fresh_id_def Let_def split: option.splits if_splits)
  have clean: "\<not> is_jti_revoked (wredis w0) t (int_str (id_supply w0 (id_next w0)))" for t
    using assms(5) f f0 by (simp add: is_jti_revoked_def)
  have allowed: "fst (fst (acquire (rate_buckets (wredis w0)) (login_key (a_lib D) (peer r2) e) LOGIN_CAPACITY LOGIN_REFILL_PER_SEC 1 (received r2 div 1000)))"
    using assms(6) f0 by simp
  from login_authenticates [OF assms(1) _ _ allowed clean, of password u "a_cfg D"] u f0 obtain pair w2 where
    login: "login (a_lib D) (a_cfg D) (received r2) e password (peer r2) w0 = (Inr (u, pair), w2)" and
    good: "\<And>t w3. wdb w3 = wdb w2 \<Longrightarrow> wredis w3 = wredis w2 \<Longrightarrow> received r2 \<le> t \<Longrightarrow> t < (now_ts (received r2) + jwt_access_ttl_min (a_cfg D) * 60) * 1000000 \<Longrightarrow>
       current_user (a_lib D) (a_cfg D) t (Some (access_token pair)) w3 = Inr u"
    by auto
  have "serve D r2 (Login email password) w1 = (\<lparr>http_status = 200, http_body = token_pair pair, retry_after = None, echoed_request_id = Some rid\<rparr>, w2)"
    by (simp add: serve_def m api_login_def l and_then_def login reply_def)
  moreover have "json_get (token_pair pair) ''access_token'' = JStr (access_token pair)" by (simp add: token_pair_def)
  moreover have "http_status (fst (serve D r3 Me w2)) = 200 \<and> http_body (fst (serve D r3 Me w2)) = http_body resp"
    if "bearer_creds r3 = Some (access_token pair)" "received r2 \<le> received r3"
       "received r3 < (now_ts (received r2) + jwt_access_ttl_min (a_cfg D) * 60) * 1000000" for r3
  proof -
    obtain rid3 w3 where m3: "request_id_middleware r3 w2 = (rid3, w3)" by fastforce
    have "current_user (a_lib D) (a_cfg D) (received r3) (bearer_creds r3) w3 = Inr u"
      using good [of w3 "received r3"] middleware_frame [OF m3] that by simp
    then show ?thesis by (simp add: serve_def m3 api_me_def with_user_def of_result_def pub)
  qed
  ultimately show ?thesis by (intro exI conjI allI impI; (elim conjE)?) auto
qed


lemma demo_addresses:
  "RegisterRequest ''Ada@X.org'' ''password'' ''Ada'' = Some ''Ada@x.org''" "validate_email_shape ''Ada@x.org'' = Some ''Ada@x.org''"
  by code_simp+

theorem account_over_http_witness:
  "\<exists>resp w1 resp2 w2 token. serve demo_deployment (demo_request None 0) (Register ''Ada@X.org'' ''password'' ''Ada'') (empty_world int) = (resp, w1) \<and>
     serve demo_deployment (demo_request None 1000000) (Login ''Ada@X.org'' ''password'') w1 = (resp2, w2) \<and>
     json_get (http_body resp2) ''access_token'' = JStr token \<and>
     http_body (fst (serve demo_deployment (demo_request (Some token) 2000000) Me w2)) = http_body resp"
proof -
  let ?D = demo_deployment
  obtain resp w1 where s: "serve ?D (demo_request None 0) (Register ''Ada@X.org'' ''password'' ''Ada'') (empty_world int) = (resp, w1)" by fastforce
  then have 201: "http_status resp = 201"
    by (auto simp: serve_def request_id_middleware_def demo_request_def api_register_def demo_addresses and_then_def register_user_def
        empty_world_def empty_db_def get_by_email_def insert_user_def of_result_def user_public_def fresh_id_def Let_def)
  have lib: "a_lib ?D = demo_lib" "a_cfg ?D = demo_settings" by (simp_all add: demo_deployment_def)
  have clean: "\<forall>k \<ge> id_next (empty_world int). revoked_jtis (wredis (empty_world int)) (int_str (id_supply (empty_world int) k)) = None"
    by (simp add: empty_world_def empty_rstate_def)
  have "wredis w1 = wredis (empty_world int)" using register_http [OF s 201] demo_hasher_ok by (auto simp: lib)
  then have allowed: "\<forall>e. fst (fst (acquire (rate_buckets (wredis w1)) (login_key (a_lib ?D) (peer (demo_request None 1000000)) e)
      LOGIN_CAPACITY LOGIN_REFILL_PER_SEC 1 (received (demo_request None 1000000) div 1000)))"
    by (simp add: empty_world_def empty_rstate_def acquire_def live_bucket_def rate_limit_lua_def refill_def LOGIN_CAPACITY_def Let_def split_beta)
  from account_over_http [OF _ _ s 201 clean allowed] demo_lib_ok demo_hasher_ok obtain resp2 w2 token where
    l: "serve ?D (demo_request None 1000000) (Login ''Ada@X.org'' ''password'') w1 = (resp2, w2)" "json_get (http_body resp2) ''access_token'' = JStr token" and
    me: "\<And>r3. bearer_creds r3 = Some token \<and> 1000000 \<le> received r3 \<and> received r3 < (now_ts 1000000 + jwt_access_ttl_min demo_settings * 60) * 1000000 \<Longrightarrow>
      http_body (fst (serve ?D r3 Me w2)) = http_body resp"
    by (auto simp: lib demo_request_def)
  have "http_body (fst (serve ?D (demo_request (Some token) 2000000) Me w2)) = http_body resp"
    by (rule me) (simp add: demo_request_def now_ts_def demo_settings_def)
  then show ?thesis using s l by blast
qed

end
