(* ===== verification/Baseline.thy ===== *)
theory Baseline
  imports Api
begin

text \<open>
  The schema of src/backend/alembic/versions/0001_baseline.py as predicates on the tables: primary keys, unique constraints
  and indexes, foreign keys.  The services of this development check the constraints whose violation the code
  handles or can run into; that the others hold after every history of requests, frames, timers, restarts, batches
  and seed runs is concluded in theory Deployment.
\<close>

section \<open>The constraints\<close>

text \<open>\<open>refers f xs g ys\<close>: the foreign key \<open>f\<close> of the rows \<open>xs\<close> names the key \<open>g\<close> of rows in \<open>ys\<close>; \<open>may_refer\<close> is that of a nullable column.\<close>

definition refers :: "('a \<Rightarrow> int) \<Rightarrow> 'a list \<Rightarrow> ('b \<Rightarrow> int) \<Rightarrow> 'b list \<Rightarrow> bool" where
  "refers f xs g ys \<longleftrightarrow> set (map f xs) \<subseteq> set (map g ys)"

definition may_refer :: "('a \<Rightarrow> int option) \<Rightarrow> 'a list \<Rightarrow> ('b \<Rightarrow> int) \<Rightarrow> 'b list \<Rightarrow> bool" where
  "may_refer f xs g ys \<longleftrightarrow> (\<forall>v \<in> set (map f xs). set_option v \<subseteq> set (map g ys))"

definition table_users :: "db \<Rightarrow> bool" where
  "table_users d \<longleftrightarrow> unique_by u_id (users d) \<and> unique_by u_email (users d)"

definition table_quiz_tags :: "db \<Rightarrow> bool" where
  "table_quiz_tags d \<longleftrightarrow> unique_by qt_id (quiz_tags d) \<and> unique_by qt_name (quiz_tags d)"

definition table_quiz_sets :: "db \<Rightarrow> bool" where
  "table_quiz_sets d \<longleftrightarrow> unique_by qs_id (quiz_sets d) \<and> refers qs_owner_id (quiz_sets d) u_id (users d)"

definition table_quiz_set_tags :: "db \<Rightarrow> bool" where
  "table_quiz_set_tags d \<longleftrightarrow> unique_by (\<lambda>t. (qst_quiz_set_id t, qst_tag_id t)) (quiz_set_tags d) \<and>
     refers qst_quiz_set_id (quiz_set_tags d) qs_id (quiz_sets d) \<and> refers qst_tag_id (quiz_set_tags d) qt_id (quiz_tags d)"

definition table_questions :: "db \<Rightarrow> bool" where
  "table_questions d \<longleftrightarrow> unique_by q_id (questions d) \<and> unique_by question_key (questions d) \<and>
     refers q_quiz_set_id (questions d) qs_id (quiz_sets d)"

definition table_answer_options :: "db \<Rightarrow> bool" where
  "table_answer_options d \<longleftrightarrow> unique_by ao_id (answer_options d) \<and> unique_by option_key (answer_options d) \<and>
     refers ao_question_id (answer_options d) q_id (questions d)"

definition table_rooms :: "db \<Rightarrow> bool" where
  "table_rooms d \<longleftrightarrow> unique_by rm_id (rooms d) \<and> unique_by rm_code (rooms d) \<and>
     refers rm_host_id (rooms d) u_id (users d) \<and> refers rm_quiz_set_id (rooms d) qs_id (quiz_sets d)"

definition table_room_participants :: "db \<Rightarrow> bool" where
  "table_room_participants d \<longleftrightarrow> unique_by rp_id (room_participants d) \<and>
     refers rp_room_id (room_participants d) rm_id (rooms d) \<and> may_refer rp_user_id (room_participants d) u_id (users d)"

definition table_matches :: "db \<Rightarrow> bool" where
  "table_matches d \<longleftrightarrow> unique_by m_id (matches d) \<and> unique_by m_room_id (matches d) \<and> refers m_room_id (matches d) rm_id (rooms d)"

definition table_match_questions :: "db \<Rightarrow> bool" where
  "table_match_questions d \<longleftrightarrow> unique_by mq_id (match_questions d) \<and> unique_by (\<lambda>q. (mq_match_id q, mq_position q)) (match_questions d) \<and>
     refers mq_match_id (match_questions d) m_id (matches d) \<and> refers mq_question_id (match_questions d) q_id (questions d)"

definition table_answer_submissions :: "db \<Rightarrow> bool" where
  "table_answer_submissions d \<longleftrightarrow> unique_by as_id (answer_submissions d) \<and>
     unique_by (\<lambda>s. (as_match_question_id s, as_participant_id s)) (answer_submissions d) \<and> unique_by as_request_id (answer_submissions d) \<and>
     refers as_match_id (answer_submissions d) m_id (matches d) \<and> refers as_match_question_id (answer_submissions d) mq_id (match_questions d) \<and>
     refers as_participant_id (answer_submissions d) rp_id (room_participants d)"

definition table_final_scores :: "db \<Rightarrow> bool" where
  "table_final_scores d \<longleftrightarrow> unique_by (\<lambda>f. (fs_match_id f, fs_participant_id f)) (final_scores d) \<and>
     refers fs_match_id (final_scores d) m_id (matches d) \<and> refers fs_participant_id (final_scores d) rp_id (room_participants d)"

definition table_moderation_reports :: "db \<Rightarrow> bool" where
  "table_moderation_reports d \<longleftrightarrow> unique_by mr_id (moderation_reports d) \<and>
     may_refer mr_reporter_user_id (moderation_reports d) u_id (users d) \<and> may_refer mr_room_id (moderation_reports d) rm_id (rooms d) \<and>
     may_refer mr_target_user_id (moderation_reports d) u_id (users d) \<and>
     may_refer mr_target_quiz_set_id (moderation_reports d) qs_id (quiz_sets d) \<and> may_refer mr_reviewed_by (moderation_reports d) u_id (users d)"

definition table_audit_logs :: "db \<Rightarrow> bool" where
  "table_audit_logs d \<longleftrightarrow> unique_by al_id (audit_logs d) \<and> may_refer al_actor_user_id (audit_logs d) u_id (users d)"

definition table_outbox_events :: "db \<Rightarrow> bool" where
  "table_outbox_events d \<longleftrightarrow> unique_by ob_id (outbox_events d)"

text \<open>The unique indexes on expressions: \<^verbatim>\<open>lower(email)\<close>, and \<^verbatim>\<open>room_id, lower(nickname)\<close>.\<close>

definition unique_indexes :: "db \<Rightarrow> bool" where
  "unique_indexes d \<longleftrightarrow> unique_by (lower \<circ> u_email) (users d) \<and> unique_by nickname_key (room_participants d)"

definition baseline :: "db \<Rightarrow> bool" where
  "baseline d \<longleftrightarrow> table_users d \<and> table_quiz_tags d \<and> table_quiz_sets d \<and> table_quiz_set_tags d \<and> table_questions d \<and> table_answer_options d \<and>
     table_rooms d \<and> table_room_participants d \<and> table_matches d \<and> table_match_questions d \<and> table_answer_submissions d \<and> table_final_scores d \<and>
     table_moderation_reports d \<and> table_audit_logs d \<and> table_outbox_events d \<and> unique_indexes d"

section \<open>The part beyond the backend's invariant\<close>

text \<open>
  Rooms, nicknames, matches, match questions, submissions and outbox rows are unique in every reachable state of the backend, and
  their references to rooms and matches hold (theory System).  The rest is split by the tables it speaks of.
\<close>

definition accounts_ok :: "db \<Rightarrow> bool" where
  "accounts_ok d \<longleftrightarrow> table_users d \<and> unique_by (lower \<circ> u_email) (users d) \<and> table_audit_logs d"

definition authoring_sound :: "db \<Rightarrow> bool" where
  "authoring_sound d \<longleftrightarrow> table_quiz_tags d \<and> table_quiz_sets d \<and> table_quiz_set_tags d \<and> table_questions d \<and> table_answer_options d"

definition play_ok :: "db \<Rightarrow> bool" where
  "play_ok d \<longleftrightarrow> refers rm_host_id (rooms d) u_id (users d) \<and> refers rm_quiz_set_id (rooms d) qs_id (quiz_sets d) \<and>
     unique_by rp_id (room_participants d) \<and> may_refer rp_user_id (room_participants d) u_id (users d) \<and>
     refers mq_match_id (match_questions d) m_id (matches d) \<and> refers mq_question_id (match_questions d) q_id (questions d) \<and>
     unique_by as_id (answer_submissions d) \<and> refers as_match_question_id (answer_submissions d) mq_id (match_questions d) \<and>
     refers as_participant_id (answer_submissions d) rp_id (room_participants d) \<and>
     unique_by (\<lambda>f. (fs_match_id f, fs_participant_id f)) (final_scores d) \<and> refers fs_participant_id (final_scores d) rp_id (room_participants d)"

text \<open>The ids of the tables without a check at the insert come from the generator.\<close>

definition used :: "world \<Rightarrow> int set" where
  "used w = id_supply w ` {..< id_next w}"

definition row_ids :: "db \<Rightarrow> int set" where
  "row_ids d = set (map qs_id (quiz_sets d)) \<union> set (map qt_id (quiz_tags d)) \<union> set (map mr_id (moderation_reports d)) \<union>
     set (map al_id (audit_logs d)) \<union> set (map as_id (answer_submissions d))"

definition minted :: "world \<Rightarrow> db \<Rightarrow> bool" where
  "minted w d \<longleftrightarrow> row_ids d \<subseteq> used w"

definition sound_at :: "world \<Rightarrow> db \<Rightarrow> bool" where
  "sound_at w d \<longleftrightarrow> inj (id_supply w) \<and> minted w d \<and> accounts_ok d \<and> authoring_sound d \<and> play_ok d \<and> table_moderation_reports d"

abbreviation sound :: "world \<Rightarrow> bool" where
  "sound w \<equiv> sound_at w (wdb w)"

lemmas table_defs = table_users_def table_quiz_tags_def table_quiz_sets_def table_quiz_set_tags_def table_questions_def table_answer_options_def
  table_rooms_def table_room_participants_def table_matches_def table_match_questions_def table_answer_submissions_def table_final_scores_def
  table_moderation_reports_def table_audit_logs_def table_outbox_events_def

lemmas sound_defs = sound_at_def minted_def row_ids_def accounts_ok_def authoring_sound_def play_ok_def

lemma baseline_of_sound:
  assumes "sound w" "backend_ok w"
  shows "baseline (wdb w)"
proof -
  note ok = backend_okD [OF assms(2)]
  have "table_rooms (wdb w)" "table_room_participants (wdb w)" using assms(1) ok(5) by (simp_all add: sound_defs table_defs seats_ok_def refers_def)
  moreover have "unique_indexes (wdb w)" using assms(1) ok(5) by (simp add: sound_defs unique_indexes_def seats_ok_def)
  moreover have "table_matches (wdb w)" using ok(1) by (auto simp: table_defs lifecycle_ok_def refers_def) (metis imageI)
  moreover have "table_match_questions (wdb w)" using assms(1) ok(2) by (simp add: sound_defs table_defs mq_unique_def)
  moreover have "table_answer_submissions (wdb w)" using assms(1) ok(6) by (simp add: sound_defs table_defs scores_ok_def subs_unique_def refers_def)
  moreover have "table_final_scores (wdb w)"
    using assms(1) ok(6) by (auto simp: sound_defs table_defs scores_ok_def final_ok_def refers_def) (metis imageI)
  moreover have "table_outbox_events (wdb w)" using events_ok_unique [OF ok(7)] by (simp add: table_defs)
  ultimately show ?thesis using assms(1) by (simp add: baseline_def sound_at_def accounts_ok_def authoring_sound_def)
qed

section \<open>Columns\<close>

lemma refers_append [simp]: "refers f (xs @ xs') g ys \<longleftrightarrow> refers f xs g ys \<and> refers f xs' g ys"
  by (auto simp: refers_def)

lemma may_refer_append [simp]: "may_refer f (xs @ xs') g ys \<longleftrightarrow> may_refer f xs g ys \<and> may_refer f xs' g ys"
  by (simp add: may_refer_def ball_Un)

lemma refers_simps [simp]: "refers f [] g ys" "refers f (x # xs) g ys \<longleftrightarrow> f x \<in> g ` set ys \<and> refers f xs g ys"
  "may_refer h [] g ys" "may_refer h (z # zs) g ys \<longleftrightarrow> set_option (h z) \<subseteq> g ` set ys \<and> may_refer h zs g ys"
  by (auto simp: refers_def may_refer_def)

lemma refers_grow: "refers f xs g ys \<Longrightarrow> refers f xs g (ys @ zs)" "may_refer h us g ys \<Longrightarrow> may_refer h us g (ys @ zs)"
  by (auto simp: refers_def may_refer_def)

lemma refers_filter: "refers f xs g ys \<Longrightarrow> refers f (filter P xs) g ys"
  by (auto simp: refers_def)

text \<open>The columns the constraints speak of.\<close>

definition account_columns :: "db \<Rightarrow> _" where
  "account_columns d = (map u_id (users d), map u_email (users d), map (lower \<circ> u_email) (users d), map al_id (audit_logs d), map al_actor_user_id (audit_logs d))"

definition authored_columns :: "db \<Rightarrow> _" where
  "authored_columns d = (map qt_id (quiz_tags d), map qt_name (quiz_tags d), map qs_id (quiz_sets d), map qs_owner_id (quiz_sets d), quiz_set_tags d,
     map q_id (questions d), map question_key (questions d), map q_quiz_set_id (questions d), map ao_id (answer_options d), map option_key (answer_options d),
     map ao_question_id (answer_options d))"

definition room_columns :: "db \<Rightarrow> _" where
  "room_columns d = (map rm_id (rooms d), map rm_host_id (rooms d), map rm_quiz_set_id (rooms d), map rp_id (room_participants d), map rp_user_id (room_participants d))"

definition match_columns :: "db \<Rightarrow> _" where
  "match_columns d = (map m_id (matches d), map mq_id (match_questions d), map mq_match_id (match_questions d), map mq_question_id (match_questions d),
     map as_id (answer_submissions d), map as_match_question_id (answer_submissions d), map as_participant_id (answer_submissions d),
     map (\<lambda>f. (fs_match_id f, fs_participant_id f)) (final_scores d), map fs_participant_id (final_scores d))"

definition report_columns :: "db \<Rightarrow> _" where
  "report_columns d = (map mr_id (moderation_reports d), map mr_reporter_user_id (moderation_reports d), map mr_room_id (moderation_reports d),
     map mr_target_user_id (moderation_reports d), map mr_target_quiz_set_id (moderation_reports d), map mr_reviewed_by (moderation_reports d))"

lemmas column_defs = account_columns_def authored_columns_def room_columns_def match_columns_def report_columns_def

definition ids_le :: "world \<Rightarrow> world \<Rightarrow> bool" where
  "ids_le w w' \<longleftrightarrow> id_supply w' = id_supply w \<and> id_next w \<le> id_next w'"

lemma ids_le_emits: "emits P d w d' w' \<Longrightarrow> ids_le w w'"
  by (simp add: emits_def ids_le_def)

lemma used_grow: "ids_le w w' \<Longrightarrow> used w \<subseteq> used w'"
  by (auto simp: ids_le_def used_def)

lemma minted_grow: "minted w d \<Longrightarrow> ids_le w w' \<Longrightarrow> row_ids d' \<subseteq> row_ids d \<union> used w' \<Longrightarrow> minted w' d'"
  using used_grow unfolding minted_def by blast

text \<open>Each part is kept when its own columns stay and the rows it refers to are still there.\<close>

lemma set_map_columns: "map f xs' = map f xs \<Longrightarrow> f ` set xs' = f ` set xs"
  by (metis set_map)

lemma accounts_same: "account_columns d' = account_columns d \<Longrightarrow> accounts_ok d' = accounts_ok d"
  unfolding accounts_ok_def table_defs unique_by_def may_refer_def account_columns_def by (simp del: set_map)

lemma authoring_kept:
  assumes "authoring_sound d" "authored_columns d' = authored_columns d" "u_id ` set (users d) \<subseteq> u_id ` set (users d')"
  shows "authoring_sound d'"
  using assms unfolding authoring_sound_def table_defs unique_by_def refers_def authored_columns_def by (auto simp del: set_map) (simp add: subset_iff)+

lemma play_kept:
  assumes "play_ok d" "room_columns d' = room_columns d" "match_columns d' = match_columns d" "u_id ` set (users d) \<subseteq> u_id ` set (users d')"
    "qs_id ` set (quiz_sets d) \<subseteq> qs_id ` set (quiz_sets d')" "mq_question_id ` set (match_questions d) \<subseteq> q_id ` set (questions d')"
  shows "play_ok d'"
proof -
  note c = assms(2,3) [unfolded room_columns_def match_columns_def prod.inject]
  have "may_refer rp_user_id (room_participants d') u_id (users d')"
    using assms(1,4) c unfolding play_ok_def may_refer_def by (metis order_trans set_map)
  moreover have "refers rm_host_id (rooms d') u_id (users d')" "refers rm_quiz_set_id (rooms d') qs_id (quiz_sets d')"
    "refers mq_question_id (match_questions d') q_id (questions d')"
    using assms(1,4-) c unfolding play_ok_def refers_def by (metis order_trans set_map)+
  ultimately show ?thesis using assms(1) c unfolding play_ok_def refers_def unique_by_def by (simp del: set_map)
qed

lemma reports_kept:
  assumes "table_moderation_reports d" "report_columns d' = report_columns d" "u_id ` set (users d) \<subseteq> u_id ` set (users d')"
    "rm_id ` set (rooms d) \<subseteq> rm_id ` set (rooms d')" "qs_id ` set (quiz_sets d) \<subseteq> qs_id ` set (quiz_sets d')"
  shows "table_moderation_reports d'"
proof -
  note c = assms(2) [unfolded report_columns_def prod.inject]
  have k: "may_refer f xs' g ys'" if "may_refer f xs g ys" "map f xs' = map f xs" "g ` set ys \<subseteq> g ` set ys'"
    for f g and xs xs' :: "ModerationReport list" and ys ys' :: "'x list"
    using that unfolding may_refer_def by (metis order_trans set_map)
  show ?thesis using assms(1,3-) c unfolding table_moderation_reports_def by (intro conjI) (auto simp: unique_by_def elim: k)
qed

lemma minted_kept:
  assumes "minted w d" "ids_le w w'" "map qs_id (quiz_sets d') = map qs_id (quiz_sets d)" "map qt_id (quiz_tags d') = map qt_id (quiz_tags d)"
    "map mr_id (moderation_reports d') = map mr_id (moderation_reports d)" "map al_id (audit_logs d') = map al_id (audit_logs d)"
    "map as_id (answer_submissions d') = map as_id (answer_submissions d)"
  shows "minted w' d'"
  using assms(1,3-) used_grow [OF assms(2)] unfolding minted_def row_ids_def by (auto simp del: set_map)

lemma sound_same:
  assumes "sound_at w d" "ids_le w w'" "account_columns d' = account_columns d" "authored_columns d' = authored_columns d"
    "room_columns d' = room_columns d" "match_columns d' = match_columns d" "report_columns d' = report_columns d"
  shows "sound_at w' d'"
proof -
  have "u_id ` set (users d') = u_id ` set (users d)" "qs_id ` set (quiz_sets d') = qs_id ` set (quiz_sets d)"
    "rm_id ` set (rooms d') = rm_id ` set (rooms d)" "q_id ` set (questions d') = q_id ` set (questions d)"
    using assms(3-) by (auto simp: column_defs dest!: set_map_columns)
  moreover have "minted w' d'" using assms minted_kept [of w d w' d'] by (simp add: sound_at_def column_defs)
  moreover have "mq_question_id ` set (match_questions d) \<subseteq> q_id ` set (questions d)" using assms(1) by (auto simp: sound_at_def play_ok_def refers_def)
  ultimately show ?thesis
    using assms accounts_same [of d' d] authoring_kept [of d d'] play_kept [of d d'] reports_kept [of d d'] by (auto simp: sound_at_def ids_le_def)
qed

section \<open>Matches\<close>

definition same_columns :: "db \<Rightarrow> db \<Rightarrow> bool" where
  "same_columns d d' \<longleftrightarrow> account_columns d' = account_columns d \<and> authored_columns d' = authored_columns d \<and> room_columns d' = room_columns d \<and>
     match_columns d' = match_columns d \<and> report_columns d' = report_columns d"

lemma same_columns_trans: "same_columns a b \<Longrightarrow> same_columns b c \<Longrightarrow> same_columns a c"
  by (simp add: same_columns_def)

lemma sound_same_columns: "sound_at w d \<Longrightarrow> ids_le w w' \<Longrightarrow> same_columns d d' \<Longrightarrow> sound_at w' d'"
  by (simp add: same_columns_def sound_same)

lemma same_columns_refl [simp]: "same_columns d d"
  by (simp add: same_columns_def)

lemma same_columns_register [simp]: "same_columns d (register_event i e a n p t d') = same_columns d d'"
  by (simp add: same_columns_def column_defs register_event_def)

lemma same_columns_updates:
  "(\<And>r. rm_id (g r) = rm_id r \<and> rm_host_id (g r) = rm_host_id r \<and> rm_quiz_set_id (g r) = rm_quiz_set_id r) \<Longrightarrow> same_columns d (set_room i g d)"
  "(\<And>m. m_id (h m) = m_id m) \<Longrightarrow> same_columns d (set_match i h d)"
  "(\<And>q. mq_id (k q) = mq_id q \<and> mq_match_id (k q) = mq_match_id q \<and> mq_question_id (k q) = mq_question_id q) \<Longrightarrow> same_columns d (set_mq i k d)"
  by (simp_all add: same_columns_def column_defs set_room_def set_match_def set_mq_def map_upd_where)

lemma same_columns_statuses: "same_columns d (set_statuses i j st d)"
  unfolding set_statuses_def by (rule same_columns_trans [OF same_columns_updates(2) same_columns_updates(1)]) simp_all

lemma same_columns_deadline: "same_columns d (resume_deadline d i p n t)"
  by (auto simp: resume_deadline_def intro!: same_columns_updates split: option.splits)

lemma pause_match_sound: "sound w \<Longrightarrow> sound (snd (pause_match now h c w))"
  by (erule sound_same_columns [OF _ ids_le_emits [OF pause_match_emits]])
    (auto simp: pause_match_db same_columns_statuses split: sum.splits)

lemma resume_match_sound: "sound w \<Longrightarrow> sound (snd (resume_match now now2 h c w))"
  by (erule sound_same_columns [OF _ ids_le_emits [OF resume_match_emits]])
    (auto simp: resume_match_db split: sum.splits intro: same_columns_trans same_columns_statuses same_columns_deadline)

lemma arm_question_sound: "sound w \<Longrightarrow> sound (arm_question now now2 now3 i p w)"
  by (erule sound_same_columns [OF _ ids_le_emits [OF arm_question_emits]])
    (auto simp: arm_question_db split: option.splits intro!: same_columns_updates)

lemma sound_finals:
  assumes "sound_at w d" "unique_by (\<lambda>f. (fs_match_id f, fs_participant_id f)) (final_scores d @ rows)" "refers fs_participant_id rows rp_id (room_participants d)"
  shows "sound_at w (d\<lparr>final_scores := final_scores d @ rows\<rparr>)"
  using assms by (simp add: sound_defs table_defs)

lemma end_match_sound:
  assumes "sound w"
  shows "sound (snd (end_match now now2 i h w))"
  using end_match_db [of now now2 i h w]
proof (elim disjE exE conjE)
  assume "wdb (snd (end_match now now2 i h w)) = wdb w"
  then show ?thesis using sound_same_columns [OF assms ids_le_emits [OF end_match_emits]] by simp
next
  fix match and room :: Room
  let ?rows = "final_rows i (match_ranking (wdb w) i (rm_id room))" and ?d = "wdb (snd (end_match now now2 i h w))"
  assume u: "unique_by (\<lambda>f. (fs_match_id f, fs_participant_id f)) (final_scores (wdb w) @ ?rows)" and d: "?d = end_commit now i room w"
  have "set (map fs_participant_id ?rows) = fst ` set (match_ranking (wdb w) i (rm_id room))"
    using final_rows_simps(2) [of i "match_ranking (wdb w) i (rm_id room)"] by (metis (no_types, lifting) fst_conv image_cong image_image list.set_map)
  moreover have "\<dots> \<subseteq> rp_id ` set (room_participants (wdb w))"
    using assms by (auto simp: match_ranking_def ranking_ids match_subs_def sound_at_def play_ok_def refers_def)
  ultimately have "refers fs_participant_id ?rows rp_id (room_participants (wdb w))" by (simp add: refers_def)
  moreover have "sound_at w (set_room (rm_id room) (\<lambda>r. r\<lparr>rm_status := completed, rm_ended_at := Some now\<rparr>)
       (set_match i (\<lambda>m. m\<lparr>m_status := completed, m_ended_at := Some now\<rparr>) (wdb w)))" (is "sound_at w ?d1")
    by (rule sound_same_columns [OF assms])
      (auto simp: ids_le_def intro: same_columns_trans [OF same_columns_updates(2) same_columns_updates(1)])
  ultimately have "sound_at w (?d1\<lparr>final_scores := final_scores ?d1 @ ?rows\<rparr>)" using u by (intro sound_finals) simp_all
  then have "sound_at w (ended_db now i room (wdb w))" by (simp add: ended_db_def)
  then show ?thesis
    by (rule sound_same_columns [OF _ ids_le_emits [OF end_match_emits]]) (simp add: d end_commit_def)
qed

lemma sound_world: "sound w \<Longrightarrow> wdb w' = wdb w \<Longrightarrow> ids_le w w' \<Longrightarrow> sound w'"
  by (simp add: sound_same_columns)

lemma ids_le_frames: "ids_le w (runtime_state_for i w)" "ids_le w (set_active i t w)" "ids_le w (snd (create_task k w))"
  by (simp_all add: ids_le_def runtime_state_for_def set_active_def create_task_def task_cancel_def Let_def split: option.splits)

lemma close_question_sound:
  assumes "sound w"
  shows "sound (snd (close_question k now now2 i p w))"
proof (cases "close_check (wdb w) i p")
  case None
  then show ?thesis using sound_world [OF assms _ ids_le_frames(1)] by (simp add: close_question_snd)
next
  case (Some x)
  obtain mq room where x: "x = (mq, room)" by (cases x)
  define w1 where "w1 = close_commit now i p mq room (runtime_state_for i w)"
  have "ids_le (runtime_state_for i w) w1" by (simp add: ids_le_def w1_def close_commit_def Let_def register_eq broadcast_def split_beta)
  then have "ids_le w w1" using ids_le_frames(1) [of w i] by (simp add: ids_le_def)
  moreover have "same_columns (wdb w) (wdb w1)"
    using close_commit_db [of now i p mq room "runtime_state_for i w"] by (auto simp: w1_def intro!: same_columns_updates)
  ultimately have w1: "sound w1" by (rule sound_same_columns [OF assms])
  have "sound (set_active i (next_task w) (snd (create_task (GapThenArm i (p + 1) (now2 + max 0 k * 1000000)) w1)))"
    by (rule sound_world [OF w1]) (use ids_le_frames(2,3) in \<open>simp_all add: ids_le_def\<close>)
  then show ?thesis using end_match_sound [OF w1] by (simp add: close_question_snd Some x Let_def w1_def [symmetric])
qed

lemma run_task_sound:
  assumes "sound w"
  shows "sound (run_task k now now2 now3 tid w)"
proof (cases "map_of (tasks w) tid")
  case (Some t)
  have "sound (w\<lparr>running_task := Some tid, must_cancel := False\<rparr>)" by (rule sound_world [OF assms]) (simp_all add: ids_le_def)
  then have "sound (task_body k now now2 now3 t (w\<lparr>running_task := Some tid, must_cancel := False\<rparr>))"
    by (simp add: task_body_def arm_question_sound close_question_sound split: task.splits)
  then show ?thesis unfolding run_task_def Some by (elim sound_world) (simp_all add: Let_def ids_le_def)
qed (simp add: run_task_def assms)

lemma start_match_sound:
  assumes "sound w"
  shows "sound (snd (start_match now now2 h c w))"
proof (cases "fst (start_match now now2 h c w)")
  case (Inl e)
  then obtain n where "snd (start_match now now2 h c w) = w\<lparr>id_next := n\<rparr>" using start_match_Inl by (metis prod.collapse)
  then show ?thesis using sound_world [OF assms _ ids_le_emits [OF start_match_emits [of w now now2 h c]]] by simp
next
  case (Inr match)
  then obtain w' where s: "start_match now now2 h c w = (Inr match, w')" by (metis prod.collapse)
  from s show ?thesis
  proof (rule start_match_Inr)
    fix room quiz qs ids mqs ob p
    assume c: "start_check (wdb w) h c = Inr (room, quiz, qs)" and mqs: "mqs = new_match_questions (m_id match) ids qs" "length ids = length qs"
      and d: "wdb w' = register_event ob EVT_MATCH_STARTED AGG_MATCH (m_id match) p now
          (set_room (rm_id room) (\<lambda>r. r\<lparr>rm_status := running, rm_started_at := Some now\<rparr>)
            ((wdb w)\<lparr>matches := matches (wdb w) @ [match], match_questions := match_questions (wdb w) @ mqs\<rparr>))"
    let ?d = "(wdb w)\<lparr>matches := matches (wdb w) @ [match], match_questions := match_questions (wdb w) @ mqs\<rparr>"
    have "set (map mq_question_id mqs) \<subseteq> q_id ` set (questions (wdb w))"
      using c by (auto simp: mqs new_match_questions_simps start_check_Inr questions_of_def)
    then have "refers mq_question_id mqs q_id (questions (wdb w))" by (simp add: refers_def)
    moreover have "refers mq_match_id mqs m_id (matches (wdb w) @ [match])"
      using new_match_questions_simps(3) [OF mqs(2)] by (auto simp: refers_def mqs(1))
    ultimately have "sound_at w ?d"
      using assms by (auto simp: sound_defs table_defs refers_grow)
    moreover have "same_columns ?d (wdb w')" by (auto simp: d intro!: same_columns_updates)
    ultimately show ?thesis using sound_same_columns ids_le_emits [OF start_match_emits [of w now now2 h c]] by (simp add: s)
  qed
qed

lemma not_minted:
  assumes "sound_at w d" "id_next w \<le> n"
  shows "id_supply w n \<notin> qs_id ` set (quiz_sets d)" "id_supply w n \<notin> qt_id ` set (quiz_tags d)" "id_supply w n \<notin> mr_id ` set (moderation_reports d)"
    "id_supply w n \<notin> al_id ` set (audit_logs d)" "id_supply w n \<notin> as_id ` set (answer_submissions d)"
proof -
  have "id_supply w n \<notin> used w" using assms by (auto simp: sound_at_def used_def dest: injD)
  then show "id_supply w n \<notin> qs_id ` set (quiz_sets d)" "id_supply w n \<notin> qt_id ` set (quiz_tags d)" "id_supply w n \<notin> mr_id ` set (moderation_reports d)"
    "id_supply w n \<notin> al_id ` set (audit_logs d)" "id_supply w n \<notin> as_id ` set (answer_submissions d)"
    using assms(1) by (auto simp: sound_at_def minted_def row_ids_def)
qed

lemma sound_submission:
  assumes "sound_at w d" "as_id s = id_supply w (id_next w)" "as_match_question_id s \<in> mq_id ` set (match_questions d)"
    "as_participant_id s \<in> rp_id ` set (room_participants d)" "ids_le w w'" "id_next w < id_next w'"
  shows "sound_at w' (d\<lparr>answer_submissions := answer_submissions d @ [s]\<rparr>)"
proof -
  have "minted w' (d\<lparr>answer_submissions := answer_submissions d @ [s]\<rparr>)"
    by (rule minted_grow [OF _ assms(5)]) (use assms in \<open>auto simp: sound_at_def row_ids_def used_def ids_le_def\<close>)
  then show ?thesis
    using assms not_minted(5) [OF assms(1), of "id_next w"]
    by (simp add: sound_at_def accounts_ok_def authoring_sound_def play_ok_def table_defs unique_by_append1 ids_le_def)
qed

lemma submit_answer_sound:
  assumes "sound w"
  shows "sound (snd (submit_answer now now2 mid pid payload rid w))"
proof -
  obtain res w' where s: "submit_answer now now2 mid pid payload rid w = (res, w')" by fastforce
  have "sound w'"
    using s
  proof (cases rule: submit_answer_cases)
    case (rejected e)
    then show ?thesis using sound_world [OF assms] submit_tx_Inl [OF rejected(3)] by (auto simp: ids_le_def)
  next
    case (duplicate x w1)
    then show ?thesis using sound_world [OF assms, of w'] submit_tx_Duplicate [OF duplicate(3)] by (auto simp: ids_le_def)
  next
    case (inserted x a w1 rank w2)
    note tx = submit_tx_Inserted [OF inserted(3)]
    have x: "as_id x = id_supply w (id_next w)" "as_match_question_id x \<in> mq_id ` set (match_questions (wdb w))"
      "as_participant_id x \<in> rp_id ` set (room_participants (wdb w))"
      using tx by (auto simp: submit_check_Inr find_participant_def get_mq_by_id_def split: option.splits if_splits dest!: find_Some_set)
    have w2: "w2 = snd (submit_post x a w1)" using inserted(4) by simp
    have ids: "id_supply w' = id_supply w" "id_next w < id_next w'" "wdb w' = wdb w1"
      using inserted(6) tx by (auto simp: w2 submit_post_def Let_def broadcast_def split_beta split: option.splits)
    then have "sound_at w' ((wdb w)\<lparr>answer_submissions := answer_submissions (wdb w) @ [x]\<rparr>)"
      by (intro sound_submission [OF assms x]) (auto simp: ids_le_def)
    then show ?thesis by (rule sound_same_columns) (use tx ids in \<open>simp_all add: ids_le_def\<close>)
  qed (use assms in auto)
  then show ?thesis by (simp add: s)
qed

section \<open>Moderation and accounts\<close>

definition mints :: "world \<Rightarrow> world \<Rightarrow> int list \<Rightarrow> bool" where
  "mints w w' is \<longleftrightarrow> (\<exists>ns. is = map (id_supply w) ns \<and> distinct ns \<and> set ns \<subseteq> {id_next w ..< id_next w'})"

lemma mints_new:
  assumes "mints w w' is" "ids_le w w'" "inj (id_supply w)"
  shows "distinct is" "set is \<subseteq> used w'" "set is \<inter> used w = {}"
proof -
  from assms(1) obtain ns where ns: "is = map (id_supply w) ns" "distinct ns" "set ns \<subseteq> {id_next w ..< id_next w'}" by (auto simp: mints_def)
  show "distinct is" using ns assms(3) by (simp add: distinct_map inj_on_subset)
  show "set is \<subseteq> used w'" using ns assms(2) by (auto simp: ids_le_def used_def)
  show "set is \<inter> used w = {}" using ns assms(3) by (auto simp: used_def dest: injD)
qed

lemma sound_reports:
  assumes "sound_at w d" "ids_le w w'" "mints w w' (map mr_id rs)"
    "\<And>r. r \<in> set rs \<Longrightarrow> targets_exist d \<lparr>t_reporter = mr_reporter_user_id r, t_room = mr_room_id r, t_user = mr_target_user_id r,
       t_quiz = mr_target_quiz_set_id r\<rparr> \<and> mr_reviewed_by r = None"
  shows "sound_at w' (d\<lparr>moderation_reports := moderation_reports d @ rs\<rparr>)"
proof -
  have "inj (id_supply w)" using assms(1) by (simp add: sound_at_def)
  note new = mints_new [OF assms(3,2) this]
  have "mr_id ` set (moderation_reports d) \<inter> mr_id ` set rs = {}" using assms(1) new(3) unfolding sound_at_def minted_def row_ids_def set_map by blast
  then have "unique_by mr_id (moderation_reports d @ rs)" using assms(1) new(1) by (simp add: sound_at_def table_defs unique_by_def)
  moreover have "may_refer mr_reporter_user_id rs u_id (users d)" "may_refer mr_room_id rs rm_id (rooms d)"
    "may_refer mr_target_user_id rs u_id (users d)" "may_refer mr_target_quiz_set_id rs qs_id (quiz_sets d)" "may_refer mr_reviewed_by rs u_id (users d)"
    using assms(4) by (auto simp: may_refer_def targets_exist_def)
  moreover have "minted w' (d\<lparr>moderation_reports := moderation_reports d @ rs\<rparr>)"
    by (rule minted_grow [OF _ assms(2)]) (use assms(1) new(2) in \<open>auto simp: sound_at_def row_ids_def\<close>)
  ultimately show ?thesis
    using assms(1,2) by (simp add: sound_at_def accounts_ok_def authoring_sound_def play_ok_def table_defs ids_le_def)
qed

lemma create_report_sound: "sound w \<Longrightarrow> sound (snd (create_report now t reason details w))"
proof (cases "set_count t = 1 \<and> targets_exist (wdb w) t")
  case True
  let ?w' = "snd (create_report now t reason details w)" and ?i = "id_supply w (id_next w)"
  let ?r = "new_report ?i t reason (map_option JStr details) now"
  assume "sound w"
  have le: "ids_le w ?w'" "id_next w < id_next ?w'" using True by (simp_all add: ids_le_def create_report_def register_eq Let_def split_beta)
  have "sound_at ?w' ((wdb w)\<lparr>moderation_reports := moderation_reports (wdb w) @ [?r]\<rparr>)"
    by (rule sound_reports [OF \<open>sound w\<close> le(1)])
      (use True le in \<open>auto simp: mints_def new_report_def targets_exist_def intro: exI [of _ "[id_next w]"]\<close>)
  then show ?thesis by (rule sound_same_columns) (use True in \<open>simp_all add: ids_le_def create_report_def register_eq Let_def split_beta\<close>)
next
  case False
  assume "sound w"
  then show ?thesis by (rule sound_world) (use False in \<open>auto simp: create_report_def ids_le_def Let_def split_beta\<close>)
qed

lemma persist_flags_reports:
  assumes "persist_flags now flags t source d w = (rs, d', w')"
  shows "ids_le w w' \<and> mints w w' (map mr_id rs) \<and> (\<forall>r \<in> set rs. mr_reporter_user_id r = t_reporter t \<and> mr_room_id r = t_room t \<and>
    mr_target_user_id r = t_user t \<and> mr_target_quiz_set_id r = t_quiz t \<and> mr_reviewed_by r = None)"
  using assms
proof (induction flags arbitrary: d w rs d' w')
  case Nil
  then show ?case by (simp add: ids_le_def mints_def)
next
  case (Cons cf flags)
  obtain ctx f where cf: "cf = (ctx, f)" by (cases cf)
  define w1 where "w1 = snd (fresh_id (snd (fresh_id w)))"
  from Cons.prems obtain d1 rs' where rs: "rs = new_report (id_supply w (id_next w)) t (flag_reason f) (Some (flag_details_json ctx f source)) now # rs'"
    and rest: "persist_flags now flags t source d1 w1 = (rs', d', w')"
    by (auto simp: cf Let_def register_eq w1_def fresh_id_def split: prod.splits)
  from Cons.IH [OF rest] obtain ns where ns: "map mr_id rs' = map (id_supply w1) ns" "distinct ns" "set ns \<subseteq> {id_next w1 ..< id_next w'}"
    and le: "ids_le w1 w'" by (auto simp: mints_def)
  have "mints w w' (map mr_id rs)"
    unfolding mints_def using ns le by (intro exI [of _ "id_next w # ns"]) (auto simp: rs new_report_def w1_def ids_le_def)
  then show ?case using Cons.IH [OF rest] by (auto simp: rs new_report_def w1_def ids_le_def)
qed

lemma sound_audit:
  assumes "sound_at w d" "al_id a = id_supply w n" "id_next w \<le> n" "n < id_next w'" "ids_le w w'" "set_option (al_actor_user_id a) \<subseteq> u_id ` set (users d)"
  shows "sound_at w' (d\<lparr>audit_logs := audit_logs d @ [a]\<rparr>)"
proof -
  have "minted w' (d\<lparr>audit_logs := audit_logs d @ [a]\<rparr>)"
    by (rule minted_grow [OF _ assms(5)]) (use assms in \<open>auto simp: sound_at_def row_ids_def used_def ids_le_def\<close>)
  then show ?thesis
    using assms not_minted(4) [OF assms(1,3)]
    by (simp add: sound_at_def accounts_ok_def authoring_sound_def play_ok_def table_defs unique_by_append1 ids_le_def)
qed

lemma apply_decision_columns: "apply_decision dec report d = Inr (extra, kicks, d') \<Longrightarrow> same_columns d d'"
  by (auto simp: apply_decision_def apply_hide_def apply_mute_def apply_ban_def result_iff Let_def same_columns_def column_defs map_upd_where
      split: if_splits)

lemma sound_reviewed:
  assumes "sound_at w d" "moderator \<in> u_id ` set (users d)"
  shows "sound_at w (d\<lparr>moderation_reports := upd_where P (\<lambda>r. r\<lparr>mr_status := st, mr_reviewed_by := Some moderator, mr_reviewed_at := t\<rparr>) (moderation_reports d)\<rparr>)"
    (is "sound_at w (d\<lparr>moderation_reports := ?rs\<rparr>)")
proof -
  have "may_refer mr_reviewed_by ?rs u_id (users d)"
    using assms by (auto simp: sound_at_def table_defs may_refer_def upd_where_def split: if_splits)
  then show ?thesis using assms(1)
    by (simp add: sound_defs table_defs unique_by_def may_refer_def map_upd_where flip: set_map del: set_map)
qed

lemma decide_sound:
  assumes "sound w" "moderator \<in> u_id ` set (users (wdb w))"
  shows "sound (snd (decide now moderator i dec reason w))"
proof (cases "bind_r (decide_check (wdb w) i dec) (\<lambda>report. bind_r (apply_decision dec report (wdb w)) (\<lambda>x. Inr (report, x)))")
  case (Inl e)
  then show ?thesis using assms(1) by (simp add: decide_def)
next
  case (Inr y)
  obtain report extra kicks d where y: "y = (report, extra, kicks, d)" by (cases y)
  have cols: "same_columns (wdb w) d" using Inr by (auto simp: y result_iff dest: apply_decision_columns)
  let ?w' = "snd (decide now moderator i dec reason w)"
  have le: "ids_le w ?w'" using ids_le_emits decide_emits by (metis prod.collapse)
  define st where "st = (if dec = ''dismiss'' then dismissed else action_taken)"
  define a where "a = \<lparr>al_id = id_supply w (id_next w), al_actor_user_id = Some moderator, al_action = ''moderation.decide.'' @ dec,
    al_entity_type = ''moderation_report'', al_entity_id = Some i, al_metadata = JObj ([(''decision'', JStr dec), (''reason'', opt_str reason)] @ extra)\<rparr>"
  define d1 where "d1 = d\<lparr>moderation_reports := upd_where (\<lambda>r. mr_id r = i)
    (\<lambda>r. r\<lparr>mr_status := st, mr_reviewed_by := Some moderator, mr_reviewed_at := Some now\<rparr>) (moderation_reports d)\<rparr>"
  have w': "wdb ?w' = register_event (id_supply w (Suc (id_next w))) EVT_MODERATION_DECISION AGG_MODERATION i
      (JObj [(''report_id'', JStr (int_str i)), (''decision'', JStr dec), (''reason'', opt_str reason), (''moderator_user_id'', JStr (int_str moderator)),
        (''status'', JStr (moderation_status_value st)), (''affected'', al_metadata a)]) now (d1\<lparr>audit_logs := audit_logs d1 @ [a]\<rparr>)"
    "id_next w < id_next ?w'"
    by (simp_all add: decide_def Inr y Let_def register_eq split_beta a_def d1_def st_def)
  have users: "u_id ` set (users d) = u_id ` set (users (wdb w))" using cols by (auto simp: same_columns_def column_defs dest!: set_map_columns)
  have "sound_at w d" by (rule sound_same_columns [OF assms(1) _ cols]) (simp add: ids_le_def)
  then have "sound_at w d1" unfolding d1_def by (rule sound_reviewed) (simp add: users assms(2))
  then have "sound_at ?w' (d1\<lparr>audit_logs := audit_logs d1 @ [a]\<rparr>)"
    by (rule sound_audit [where n = "id_next w"]) (use le w'(2) assms(2) in \<open>auto simp: a_def d1_def users\<close>)
  then show ?thesis by (rule sound_same_columns) (simp_all add: ids_le_def w'(1))
qed

lemma sound_user:
  assumes "sound_at w d" "insert_user u d = Some d'"
  shows "sound_at w d'"
proof -
  from assms(2) have d': "d' = d\<lparr>users := users d @ [u]\<rparr>" and n: "u_id u \<notin> u_id ` set (users d)" "lower (u_email u) \<notin> (\<lambda>v. lower (u_email v)) ` set (users d)"
    by (simp_all add: insert_user_Some)
  then have "u_email u \<notin> u_email ` set (users d)" by auto
  with n assms(1) show ?thesis by (simp add: d' sound_defs table_defs unique_by_append1 refers_grow image_comp comp_def)
qed

lemma register_user_sound:
  assumes "sound w"
  shows "sound (snd (register_user L sl email password name w))"
proof -
  obtain res w' where g: "register_user L sl email password name w = (res, w')" by fastforce
  show ?thesis
  proof (cases res)
    case (Inl e)
    then show ?thesis using sound_world [OF assms, of w'] g
      by (auto simp: register_user_def ids_le_def Let_def split_beta split: if_splits option.splits)
  next
    case (Inr u)
    define a where "a = \<lparr>al_id = id_supply w (Suc (id_next w)), al_actor_user_id = Some (u_id u), al_action = ''user.registered'',
      al_entity_type = ''user'', al_entity_id = Some (u_id u), al_metadata = JObj [(''email'', JStr email)]\<rparr>"
    have a: "al_id a = id_supply w (Suc (id_next w))" "al_actor_user_id a = Some (u_id u)" by (simp_all add: a_def)
    from g Inr obtain d where i: "insert_user u (wdb w) = Some d" and
      w': "wdb w' = d\<lparr>audit_logs := audit_logs d @ [a]\<rparr>" "id_supply w' = id_supply w" "id_next w' = Suc (Suc (id_next w))"
      by (auto simp: register_user_def audit_add_def a_def Let_def split_beta split: if_splits option.splits)
    have "sound_at w' (d\<lparr>audit_logs := audit_logs d @ [a]\<rparr>)"
      by (rule sound_audit [OF sound_user [OF assms i] a(1)]) (use i in \<open>auto simp: w' a ids_le_def insert_user_Some\<close>)
    then show ?thesis by (simp add: g w'(1))
  qed
qed

section \<open>Authoring\<close>

lemma sound_quiz_set:
  assumes "sound_at w d" "qs_id s = id_supply w (id_next w)" "qs_owner_id s \<in> u_id ` set (users d)" "ids_le w w'" "id_next w < id_next w'"
  shows "sound_at w' (d\<lparr>quiz_sets := quiz_sets d @ [s]\<rparr>)"
proof -
  have "minted w' (d\<lparr>quiz_sets := quiz_sets d @ [s]\<rparr>)"
    by (rule minted_grow [OF _ assms(4)]) (use assms in \<open>auto simp: sound_at_def row_ids_def used_def ids_le_def\<close>)
  then show ?thesis
    using assms not_minted(1) [OF assms(1), of "id_next w"]
    by (simp add: sound_at_def accounts_ok_def authoring_sound_def play_ok_def table_defs unique_by_append1 ids_le_def refers_grow)
qed

lemma sound_tag:
  assumes "sound_at w d" "qt_id t = id_supply w (id_next w)" "qt_name t \<notin> qt_name ` set (quiz_tags d)" "ids_le w w'" "id_next w < id_next w'"
  shows "sound_at w' (d\<lparr>quiz_tags := quiz_tags d @ [t]\<rparr>)"
proof -
  have "minted w' (d\<lparr>quiz_tags := quiz_tags d @ [t]\<rparr>)"
    by (rule minted_grow [OF _ assms(4)]) (use assms in \<open>auto simp: sound_at_def row_ids_def used_def ids_le_def\<close>)
  then show ?thesis
    using assms not_minted(2) [OF assms(1), of "id_next w"]
    by (simp add: sound_at_def accounts_ok_def authoring_sound_def play_ok_def table_defs unique_by_append1 ids_le_def refers_grow)
qed

text \<open>The tags of a quiz: distinct ids of tags that exist.\<close>

lemma resolve_tags_sound:
  assumes "resolve_tags names seen d w = (ids, d', w')" "sound_at w d" "distinct (map fst seen)"
    "\<forall>(n, i) \<in> set seen. \<lparr>qt_id = i, qt_name = n\<rparr> \<in> set (quiz_tags d)"
  shows "sound_at w' d' \<and> ids_le w w' \<and> distinct ids \<and> set ids \<subseteq> qt_id ` set (quiz_tags d')"
  using assms
proof (induction names arbitrary: seen d w)
  case Nil
  have "unique_by qt_id (quiz_tags d)" using Nil.prems(2) by (simp add: sound_at_def authoring_sound_def table_defs)
  then have "x = y" if "x \<in> set seen" "y \<in> set seen" "snd x = snd y" for x y
    using that Nil.prems(4) unique_by_eq [of qt_id "quiz_tags d" "\<lparr>qt_id = snd x, qt_name = fst x\<rparr>" "\<lparr>qt_id = snd y, qt_name = fst y\<rparr>"]
    by (auto simp: split_beta prod_eq_iff)
  moreover have "distinct seen" using Nil.prems(3) by (simp add: distinct_map)
  ultimately have "distinct (map snd seen)" by (simp add: distinct_map inj_on_def)
  with Nil show ?case by (force simp: ids_le_def)
next
  case (Cons raw names)
  let ?name = "lower (strip raw)"
  show ?case
  proof (cases "?name = [] \<or> map_of seen ?name \<noteq> None")
    case True
    then have "resolve_tags names seen d w = (ids, d', w')" using Cons.prems(1) by (simp add: Let_def)
    then show ?thesis by (rule Cons.IH [OF _ Cons.prems(2-)])
  next
    case False
    define w1 where "w1 = snd (fresh_id w)"
    obtain tid d1 where u: "upsert_tag (id_supply w (id_next w)) ?name d = (tid, d1)" by fastforce
    from False u have rest: "resolve_tags names (seen @ [(?name, tid)]) d1 w1 = (ids, d', w')"
      using Cons.prems(1) by (simp add: Let_def w1_def split_beta)
    have le: "ids_le w w1" "id_next w < id_next w1" by (simp_all add: w1_def ids_le_def)
    have d1: "sound_at w1 d1 \<and> \<lparr>qt_id = tid, qt_name = ?name\<rparr> \<in> set (quiz_tags d1) \<and> set (quiz_tags d) \<subseteq> set (quiz_tags d1)"
    proof (cases "find (\<lambda>t. qt_name t = ?name) (quiz_tags d)")
      case None
      then have "?name \<notin> qt_name ` set (quiz_tags d)" by (auto simp: find_None_iff)
      with sound_tag [OF Cons.prems(2), of "\<lparr>qt_id = id_supply w (id_next w), qt_name = ?name\<rparr>" w1] u le None
      show ?thesis by (auto simp: upsert_tag_def)
    next
      case (Some t)
      then have "t = \<lparr>qt_id = tid, qt_name = ?name\<rparr>" "d1 = d" "t \<in> set (quiz_tags d)"
        using u find_Some_set [OF Some] by (auto simp: upsert_tag_def)
      with sound_same_columns [OF Cons.prems(2) le(1)] show ?thesis by simp
    qed
    have "distinct (map fst (seen @ [(?name, tid)]))" using Cons.prems(3) False by (auto simp: map_of_eq_None_iff)
    moreover have "\<forall>(n, i) \<in> set (seen @ [(?name, tid)]). \<lparr>qt_id = i, qt_name = n\<rparr> \<in> set (quiz_tags d1)"
      using Cons.prems(4) d1 by auto
    ultimately show ?thesis using Cons.IH [OF rest] d1 le by (auto simp: ids_le_def)
  qed
qed

lemma sound_quiz_tags:
  assumes "sound_at w d" "quiz_id \<in> qs_id ` set (quiz_sets d)" "distinct ids" "set ids \<subseteq> qt_id ` set (quiz_tags d)"
  shows "sound_at w (replace_quiz_tags quiz_id ids d)"
proof -
  let ?ls = "map (\<lambda>t. \<lparr>qst_quiz_set_id = quiz_id, qst_tag_id = t\<rparr>) ids"
  have "refers qst_quiz_set_id ?ls qs_id (quiz_sets d)" "refers qst_tag_id ?ls qt_id (quiz_tags d)" using assms(2,4) by (auto simp: refers_def)
  moreover have "unique_by (\<lambda>t. (qst_quiz_set_id t, qst_tag_id t)) (filter (\<lambda>t. qst_quiz_set_id t \<noteq> quiz_id) (quiz_set_tags d) @ ?ls)"
    using assms(1,3) by (auto simp: sound_at_def authoring_sound_def table_defs unique_by_def distinct_map inj_on_def)
  ultimately show ?thesis using assms(1) by (simp add: sound_defs table_defs replace_quiz_tags_def refers_filter)
qed

lemma create_quiz_set_sound:
  assumes "sound w" "owner_id \<in> u_id ` set (users (wdb w))"
  shows "sound (snd (create_quiz_set now owner_id payload w))"
proof -
  let ?w1 = "snd (fresh_id w)"
  define quiz where "quiz = \<lparr>qs_id = id_supply w (id_next w), qs_owner_id = owner_id, qs_title = qc_title payload, qs_description = qc_description payload,
    qs_visibility = qc_visibility payload, qs_is_published = False, qs_version = 1, qs_created_at = now\<rparr>"
  define d1 where "d1 = (wdb w)\<lparr>quiz_sets := quiz_sets (wdb w) @ [quiz]\<rparr>"
  have q: "sound_at ?w1 d1" unfolding d1_def by (rule sound_quiz_set [OF assms(1)]) (simp_all add: quiz_def assms(2) ids_le_def)
  obtain ids d2 w2 where t: "resolve_tags (qc_tags payload) [] d1 ?w1 = (ids, d2, w2)" by (metis prod_cases3)
  note rt = resolve_tags_sound [OF t q] resolve_tags_frame [OF t]
  have "quiz_sets d2 = quiz_sets d1" using rt(2) by auto
  then have "sound_at w2 (replace_quiz_tags (qs_id quiz) ids d2)" using rt(1) by (intro sound_quiz_tags) (simp_all add: d1_def)
  then have "sound_at (w2\<lparr>wdb := replace_quiz_tags (qs_id quiz) ids d2\<rparr>) (replace_quiz_tags (qs_id quiz) ids d2)"
    "sound_at (?w1\<lparr>wdb := d1\<rparr>) d1"
    using q by (auto elim: sound_same_columns simp: ids_le_def)
  then show ?thesis
    by (simp add: create_quiz_set_def Let_def split_beta t quiz_def [symmetric] d1_def [symmetric]) (simp add: quiz_def)
qed

lemma load_owned_known: "load_owned_quiz d owner_id i = Inr quiz \<Longrightarrow> qs_id quiz = i \<and> i \<in> qs_id ` set (quiz_sets d)"
  by (auto simp: load_owned_quiz_def result_iff get_quiz_set_def dest!: find_Some_set)

lemma sound_world_at: "sound_at w d \<Longrightarrow> sound (w\<lparr>wdb := d\<rparr>)"
  by (erule sound_same_columns) (simp_all add: ids_le_def)

lemma update_quiz_set_sound:
  assumes "sound w"
  shows "sound (snd (update_quiz_set owner_id i payload w))"
proof (cases "load_owned_quiz (wdb w) owner_id i")
  case (Inl e)
  then show ?thesis by (simp add: update_quiz_set_def assms)
next
  case (Inr quiz)
  note q = load_owned_known [OF Inr]
  define upd where "upd d = d\<lparr>quiz_sets := upd_where (\<lambda>s. qs_id s = i) (apply_quiz_update payload) (quiz_sets d)\<rparr>" for d :: db
  have upd: "sound_at w' (upd d)" if "sound_at w' d" for w' d
    by (rule sound_same_columns [OF that]) (simp_all add: ids_le_def upd_def same_columns_def column_defs map_upd_where apply_quiz_update_def)
  show ?thesis
  proof (cases "qu_tags payload")
    case None
    then show ?thesis using sound_world_at [OF upd [OF assms]] by (simp add: update_quiz_set_def Inr Let_def upd_def)
  next
    case (Some names)
    obtain ids d2 w2 where t: "resolve_tags names [] (wdb w) w = (ids, d2, w2)" by (metis prod_cases3)
    note rt = resolve_tags_sound [OF t assms] resolve_tags_frame [OF t]
    have "quiz_sets d2 = quiz_sets (wdb w)" using rt(2) by auto
    then have "sound_at w2 (replace_quiz_tags i ids d2)" using rt(1) q by (intro sound_quiz_tags) simp_all
    from sound_world_at [OF upd [OF this]] show ?thesis using q by (simp add: update_quiz_set_def Inr Some t Let_def upd_def)
  qed
qed

text \<open>Renumbering moves positions only and never makes two equal.\<close>

definition renumbers :: "Question list \<Rightarrow> Question list \<Rightarrow> bool" where
  "renumbers qs qs' \<longleftrightarrow> map q_id qs' = map q_id qs \<and> map q_quiz_set_id qs' = map q_quiz_set_id qs \<and>
     (unique_by question_key qs \<longrightarrow> unique_by question_key qs')"

lemma renumbers_refl [simp]: "renumbers qs qs"
  by (simp add: renumbers_def)

lemma renumbers_trans: "renumbers a b \<Longrightarrow> renumbers b c \<Longrightarrow> renumbers a c"
  by (simp add: renumbers_def)

lemma renumbers_update: "update_questions P f qs = Some qs' \<Longrightarrow> renumbers qs qs'"
  using update_questions_result [of P f qs qs'] update_questions_unique [of P f qs qs'] by (simp add: renumbers_def map_upd_where)

lemma renumbers_statements:
  "shift_question_positions i p b qs = Some qs' \<Longrightarrow> renumbers qs qs'"
  "renumber_after_delete i p qs = Some qs' \<Longrightarrow> renumbers qs qs'"
  "move_question_to question p qs = Some qs' \<Longrightarrow> renumbers qs qs'"
  by (auto simp: shift_question_positions_def renumber_after_delete_def move_question_to_def Let_def bind_eq_Some_conv
      split: if_splits prod.splits dest!: renumbers_update intro: renumbers_trans)

lemma question_slot_renumbers: "question_slot i pos qs = Some (p, qs') \<Longrightarrow> renumbers qs qs'"
  by (auto simp: question_slot_def Let_def split: option.splits if_splits dest: renumbers_statements(1))

lemma sound_renumbered:
  assumes "sound_at w d" "renumbers (questions d) qs"
  shows "sound_at w (d\<lparr>questions := qs\<rparr>)"
proof -
  have "q_id ` set qs = q_id ` set (questions d)" using assms(2) unfolding renumbers_def by (metis set_map)
  with assms show ?thesis unfolding renumbers_def
    by (simp add: sound_defs table_defs unique_by_def refers_def)
qed

lemma sound_question:
  assumes "sound_at w d" "insert_question q (questions d) = Some qs" "q_quiz_set_id q \<in> qs_id ` set (quiz_sets d)"
  shows "sound_at w (d\<lparr>questions := qs\<rparr>)"
  using assms by (auto simp: sound_defs table_defs insert_question_def unique_by_append1 refers_grow split: if_splits)

lemma new_options_question: "ao_question_id ` set (new_options i ids opts) \<subseteq> {i}"
  by (auto simp: new_options_def)

lemma sound_options:
  assumes "sound_at w d" "insert_options (new_options i ids opts) d = Some d'" "i \<in> q_id ` set (questions d)"
  shows "sound_at w d'"
proof -
  have "refers ao_question_id (new_options i ids opts) q_id (questions d)"
    using new_options_question [of i ids opts] assms(3) by (auto simp: refers_def)
  with assms show ?thesis by (auto simp: sound_defs table_defs insert_options_def split: if_splits)
qed

lemma sound_fewer_options: "sound_at w d \<Longrightarrow> sound_at w (d\<lparr>answer_options := filter P (answer_options d)\<rparr>)"
  by (auto simp: sound_defs table_defs refers_filter unique_by_filter)

lemma ids_le_fresh: "ids_le w (snd (fresh_id w))" "ids_le w (snd (fresh_ids n w))"
  by (simp_all add: ids_le_def fresh_ids_def)

lemma sound_ids: "sound_at w d \<Longrightarrow> ids_le w w' \<Longrightarrow> sound_at w' d"
  by (erule sound_same_columns) simp_all

lemma add_question_sound:
  assumes "sound w"
  shows "sound (snd (add_question owner_id i payload w))"
proof (cases "load_owned_quiz (wdb w) owner_id i")
  case (Inr quiz)
  show ?thesis
  proof (cases "question_slot i (cq_position payload) (questions (wdb w))")
    case (Some pq)
    obtain p qs where pq: "pq = (p, qs)" by fastforce
    let ?w1 = "snd (fresh_id w)"
    define q where "q = \<lparr>q_id = id_supply w (id_next w), q_quiz_set_id = i, q_position = p, q_body = cq_body payload, q_type = cq_type payload,
      q_time_limit_seconds = cq_time_limit_seconds payload, q_points = cq_points payload, q_explanation = cq_explanation payload\<rparr>"
    have "sound_at w ((wdb w)\<lparr>questions := qs\<rparr>)"
      by (rule sound_renumbered [OF assms question_slot_renumbers]) (use Some pq in simp)
    note s0 = sound_ids [OF this ids_le_fresh(1)]
    show ?thesis
    proof (cases "insert_question q qs")
      case None
      then show ?thesis using sound_ids [OF assms ids_le_fresh(1)] by (simp add: add_question_def Inr Some pq Let_def split_beta q_def)
    next
      case (Some qs')
      obtain ids w2 where f: "fresh_ids (length (cq_options payload)) ?w1 = (ids, w2)" by fastforce
      have "sound_at ?w1 ((wdb w)\<lparr>questions := qs, questions := qs'\<rparr>)"
        by (rule sound_question [OF s0, of q]) (use Some load_owned_known [OF Inr] in \<open>simp_all add: q_def\<close>)
      then have "sound_at ?w1 ((wdb w)\<lparr>questions := qs'\<rparr>)" by simp
      then have s1: "sound_at w2 ((wdb w)\<lparr>questions := qs'\<rparr>)" using sound_ids ids_le_fresh(2) f by (metis snd_conv)
      have w2: "wdb w2 = wdb w" using f by (auto simp: fresh_ids_def)
      have q': "id_supply w (id_next w) \<in> q_id ` set qs'" using Some by (auto simp: insert_question_def q_def split: if_splits)
      note eq = add_question_def Inr pq Let_def split_beta q_def [symmetric] Some f w2 \<open>question_slot i (cq_position payload) (questions (wdb w)) = Some pq\<close>
      show ?thesis
      proof (cases "insert_options (new_options (id_supply w (id_next w)) ids (cq_options payload)) ((wdb w)\<lparr>questions := qs'\<rparr>)")
        case None
        have "sound_at w2 (wdb w)" using assms sound_ids ids_le_fresh f by (metis snd_conv)
        with None show ?thesis by (simp add: eq)
      next
        case (Some d)
        then show ?thesis using sound_world_at [OF sound_options [OF s1 Some]] q' by (simp add: eq)
      qed
    qed
  qed (simp add: add_question_def Inr assms)
qed (simp add: add_question_def assms)

lemma get_question_known: "owned_question d owner_id i = Inr q \<Longrightarrow> i \<in> q_id ` set (questions d)"
  by (auto simp: owned_question_Inr get_question_def dest!: find_Some_set)

lemma update_question_sound:
  assumes "sound w"
  shows "sound (snd (update_question owner_id i payload w))"
proof (cases "owned_question (wdb w) owner_id i")
  case (Inr question)
  define qs0 where "qs0 = upd_where (\<lambda>q. q_id q = i) (apply_question_update payload) (questions (wdb w))"
  define moved where "moved = (case uq_position payload of None \<Rightarrow> Some qs0 | Some p \<Rightarrow> move_question_to question p qs0)"
  have r0: "renumbers (questions (wdb w)) qs0"
    by (simp add: renumbers_def qs0_def map_upd_where apply_question_update_def unique_by_def question_key_def)
  show ?thesis
  proof (cases moved)
    case None
    then show ?thesis by (simp add: update_question_def Inr Let_def qs0_def [symmetric] moved_def [symmetric] assms)
  next
    case (Some qs)
    have "renumbers qs0 qs" using Some by (auto simp: moved_def split: option.splits dest: renumbers_statements(3))
    then have r: "renumbers (questions (wdb w)) qs" by (rule renumbers_trans [OF r0])
    then have s1: "sound_at w ((wdb w)\<lparr>questions := qs\<rparr>)" by (rule sound_renumbered [OF assms])
    have i: "i \<in> q_id ` set qs" using get_question_known [OF Inr] r unfolding renumbers_def by (metis set_map)
    note eq = update_question_def Inr Let_def qs0_def [symmetric] moved_def [symmetric] Some
    show ?thesis
    proof (cases "uq_options payload")
      case None
      then show ?thesis using sound_world_at [OF s1] by (simp add: eq)
    next
      case (Some opts)
      obtain ids w2 where f: "fresh_ids (length opts) w = (ids, w2)" by fastforce
      have w2: "ids_le w w2" "wdb w2 = wdb w" using f by (auto simp: fresh_ids_def ids_le_def)
      have "sound_at w2 ((wdb w)\<lparr>questions := qs\<rparr>\<lparr>answer_options := filter (\<lambda>ao. ao_question_id ao \<noteq> i) (answer_options ((wdb w)\<lparr>questions := qs\<rparr>))\<rparr>)"
        by (rule sound_fewer_options [OF sound_ids [OF s1 w2(1)]])
      note s2 = sound_options [OF this]
      show ?thesis
      proof (cases "replace_options i (new_options i ids opts) ((wdb w)\<lparr>questions := qs\<rparr>)")
        case None
        then show ?thesis using sound_ids [OF assms w2(1)] by (simp add: eq Some f w2)
      next
        case (Some d)
        have "sound_at w2 d" using s2 Some i by (simp add: replace_options_def)
        then show ?thesis using sound_world_at by (simp add: eq \<open>uq_options payload = Some opts\<close> f Some)
      qed
    qed
  qed
qed (simp add: update_question_def assms)

lemma refers_unless: "refers f xs g ys \<Longrightarrow> i \<notin> f ` set xs \<Longrightarrow> refers f xs g (filter (\<lambda>y. g y \<noteq> i) ys)"
  by (fastforce simp: refers_def image_iff subset_iff)

lemma delete_question_sound:
  assumes "sound w"
  shows "sound (snd (delete_question owner_id i w))"
proof (cases "owned_question (wdb w) owner_id i")
  case (Inr question)
  let ?qs = "filter (\<lambda>q. q_id q \<noteq> i) (questions (wdb w))" and ?aos = "filter (\<lambda>ao. ao_question_id ao \<noteq> i) (answer_options (wdb w))"
  show ?thesis
  proof (cases "i \<in> mq_question_id ` set (match_questions (wdb w)) \<or> renumber_after_delete (q_quiz_set_id question) (q_position question) ?qs = None")
    case True
    then show ?thesis by (auto simp: delete_question_def Inr assms)
  next
    case False
    then obtain qs where r: "renumber_after_delete (q_quiz_set_id question) (q_position question) ?qs = Some qs"
      and i: "i \<notin> mq_question_id ` set (match_questions (wdb w))" by auto
    have "refers ao_question_id (answer_options (wdb w)) q_id (questions (wdb w))"
      "refers mq_question_id (match_questions (wdb w)) q_id (questions (wdb w))"
      using assms by (simp_all add: sound_defs table_defs)
    then have "refers ao_question_id ?aos q_id ?qs" "refers mq_question_id (match_questions (wdb w)) q_id ?qs"
      using i by (simp_all add: refers_unless refers_filter image_iff)
    then have "sound_at w ((wdb w)\<lparr>answer_options := ?aos, questions := ?qs\<rparr>)"
      using assms by (simp add: sound_defs table_defs refers_filter unique_by_filter)
    from sound_renumbered [OF this, of qs] renumbers_statements(2) [OF r]
    have "sound_at w ((wdb w)\<lparr>answer_options := ?aos, questions := qs\<rparr>)" by simp
    also have "(wdb w)\<lparr>answer_options := ?aos, questions := qs\<rparr> = (wdb w)\<lparr>questions := qs, answer_options := ?aos\<rparr>" by simp
    finally show ?thesis using sound_world_at i by (simp add: delete_question_def Inr r)
  qed
qed (simp add: delete_question_def assms)

lemma sound_registered:
  "sound_at w d \<Longrightarrow> sound ((snd (register event kind key payload now d w))\<lparr>wdb := fst (register event kind key payload now d w)\<rparr>)"
  by (erule sound_same_columns) (simp_all add: register_eq ids_le_def)

lemma publish_quiz_set_sound:
  assumes "sound w"
  shows "sound (snd (publish_quiz_set pol now owner_id i w))"
proof (cases "load_owned_quiz (wdb w) owner_id i")
  case (Inr quiz)
  obtain rs d w1 where fl: "auto_flag_on_publish pol now quiz (with_options (wdb w) i) (wdb w) w = (rs, d, w1)" by (metis prod_cases3)
  note p = persist_flags_reports [OF fl [unfolded auto_flag_on_publish_def]] persist_flags_effect [OF fl [unfolded auto_flag_on_publish_def]]
  have "sound_at w1 ((wdb w)\<lparr>moderation_reports := moderation_reports (wdb w) @ rs\<rparr>)"
    by (rule sound_reports [OF assms]) (use p(1) load_owned_known [OF Inr] in \<open>auto simp: targets_exist_def\<close>)
  moreover have "same_columns ((wdb w)\<lparr>moderation_reports := moderation_reports (wdb w) @ rs\<rparr>)
      (d\<lparr>quiz_sets := upd_where (\<lambda>s. qs_id s = i) (\<lambda>s. s\<lparr>qs_is_published := True, qs_version := v\<rparr>) (quiz_sets d)\<rparr>)" for v
    using p(2) by (auto simp: same_columns_def column_defs map_upd_where)
  ultimately have "sound_at w1 (d\<lparr>quiz_sets := upd_where (\<lambda>s. qs_id s = i) (\<lambda>s. s\<lparr>qs_is_published := True, qs_version := v\<rparr>) (quiz_sets d)\<rparr>)" for v
    by - (erule sound_same_columns, auto simp: ids_le_def)
  moreover have "sound_at w1 (wdb w)" using sound_ids [OF assms] p(1) by blast
  moreover have "wdb w1 = wdb w" using p(2) by blast
  ultimately show ?thesis
    using sound_registered [of w1 "d\<lparr>quiz_sets := upd_where (\<lambda>s. qs_id s = i) (\<lambda>s. s\<lparr>qs_is_published := True, qs_version := qs_version quiz + 1\<rparr>) (quiz_sets d)\<rparr>"]
    by (simp add: publish_quiz_set_def Inr fl Let_def split_beta)
qed (simp add: publish_quiz_set_def assms)

section \<open>Rooms\<close>

lemma sound_frames [simp]: "sound_at (w\<lparr>wredis := r\<rparr>) d = sound_at w d" "sound_at (w\<lparr>wdb := d'\<rparr>) d = sound_at w d"
  by (simp_all add: sound_at_def minted_def used_def)

lemma quiz_known: "get_quiz_set d i = Some q \<Longrightarrow> qs_id q \<in> qs_id ` set (quiz_sets d)"
  by (auto simp: get_quiz_set_def dest!: find_Some_set)

lemma allocate_ids: "allocate_room n draws h q payload d w = (x, w') \<Longrightarrow> ids_le w w'"
proof (induction n arbitrary: w)
  case (Suc n)
  have "ids_le (snd (fresh_id w)) w' \<Longrightarrow> ids_le w w'" by (simp add: ids_le_def)
  with Suc show ?case by (auto simp: Let_def split_beta ids_le_fresh split: option.splits)
qed (simp add: ids_le_def)

lemma sound_room:
  assumes "sound_at w d" "rm_host_id room \<in> u_id ` set (users d)" "rm_quiz_set_id room \<in> qs_id ` set (quiz_sets d)"
  shows "sound_at w (d\<lparr>rooms := rooms d @ [room]\<rparr>)"
  using assms by (auto simp: sound_defs table_defs refers_grow)

lemma create_room_sound:
  assumes "sound w" "u_id host \<in> u_id ` set (users (wdb w))"
  shows "sound (snd (create_room tok now draws host payload w))"
proof (cases "create_check (wdb w) (u_id host) payload")
  case (Inr quiz)
  obtain x w1 where al: "allocate_room CODE_RETRIES draws (u_id host) (qs_id quiz) payload (wdb w) w = (x, w1)" by fastforce
  have le: "ids_le w w1" and db: "wdb w1 = wdb w" using allocate_ids [OF al] allocate_room_frame [OF al] by simp_all
  show ?thesis
  proof (cases x)
    case None
    then show ?thesis using sound_world [OF assms(1) db le] by (simp add: create_room_def Inr al)
  next
    case (Some rd)
    obtain room d where rd: "rd = (room, d)" by fastforce
    note a = allocate_room_Some [OF al [unfolded Some rd]]
    have "sound_at w1 d"
      using sound_room [OF sound_ids [OF assms(1) le], of room] assms(2) a Inr quiz_known by (auto simp: create_check_Inr)
    from sound_registered [OF this]
    show ?thesis
      by (simp add: create_room_def Inr al Some rd Let_def split_beta)
  qed
qed (simp add: create_room_def assms)

lemma sound_participant:
  assumes "sound_at w d" "rp_id p \<notin> rp_id ` set (room_participants d)" "set_option (rp_user_id p) \<subseteq> u_id ` set (users d)"
  shows "sound_at w (d\<lparr>room_participants := room_participants d @ [p]\<rparr>)"
  using assms by (auto simp: sound_defs table_defs refers_grow unique_by_append1)

lemma auto_flag_on_join_sound:
  assumes "auto_flag_on_join pol now room nick uid d w = (rs, d', w')" "sound_at w d" "rm_id room \<in> rm_id ` set (rooms d)"
    "set_option uid \<subseteq> u_id ` set (users d)"
  shows "sound_at w' d'"
proof -
  note p = persist_flags_reports [OF assms(1) [unfolded auto_flag_on_join_def]] persist_flags_effect [OF assms(1) [unfolded auto_flag_on_join_def]]
  have "sound_at w' (d\<lparr>moderation_reports := moderation_reports d @ rs\<rparr>)"
    by (rule sound_reports [OF assms(2)]) (use p(1) assms in \<open>auto simp: targets_exist_def\<close>)
  then show ?thesis by (rule sound_same_columns) (use p(2) in \<open>auto simp: ids_le_def same_columns_def column_defs\<close>)
qed

lemma join_admitted_sound:
  assumes "sound w" "set_option uid \<subseteq> u_id ` set (users (wdb w))" "rm_id room \<in> rm_id ` set (rooms (wdb w))"
  shows "sound (snd (join_admitted tok pol now room code nick uid w))"
proof -
  let ?p = "\<lparr>rp_id = id_supply w (id_next w), rp_room_id = rm_id room, rp_user_id = uid, rp_nickname = nick,
            rp_guest_token_hash = None, rp_joined_at = now, rp_left_at = None, rp_is_kicked = False\<rparr>"
  note s = sound_ids [OF assms(1) ids_le_fresh(1)]
  show ?thesis
  proof (cases "insert_participant ?p (wdb w)")
    case None
    then show ?thesis using s by (simp add: join_admitted_def Let_def split_beta)
  next
    case (Some d)
    let ?reg = "register ''PlayerJoined'' ''room'' (rm_id room) (player_joined_event room ?p) now d (snd (fresh_id w))"
    have d: "d = (wdb w)\<lparr>room_participants := room_participants (wdb w) @ [?p]\<rparr>" "rp_id ?p \<notin> rp_id ` set (room_participants (wdb w))"
      using Some by (auto simp: insert_participant_def split: if_splits)
    have "sound_at (snd (fresh_id w)) d" unfolding d(1) by (rule sound_participant [OF s d(2)]) (use assms(2) in simp)
    then have r: "sound_at (snd ?reg) (fst ?reg)" by (rule sound_same_columns) (simp_all add: register_eq ids_le_def)
    obtain rs d' w' where fl: "auto_flag_on_join pol now room nick uid (fst ?reg) (snd ?reg) = (rs, d', w')" by (metis prod_cases3)
    have "sound_at w' d'"
      by (rule auto_flag_on_join_sound [OF fl r]) (use assms(2,3) in \<open>simp_all add: register_eq d(1)\<close>)
    then show ?thesis using Some fl
      by (simp add: join_admitted_def Let_def split_beta)
  qed
qed

lemma room_known: "get_room_by_code d code = Some room \<Longrightarrow> rm_id room \<in> rm_id ` set (rooms d)"
  by (auto simp: get_room_by_code_def dest!: find_Some_set)

lemma join_room_sound:
  assumes "sound w" "set_option uid \<subseteq> u_id ` set (users (wdb w))"
  shows "sound (snd (join_room tok pol now ip code nick uid w))"
proof -
  have s: "sound (w\<lparr>wredis := r\<rparr>)" for r using assms(1) by simp
  have "sound (snd (join_admitted tok pol now room code nick uid (w\<lparr>wredis := r\<rparr>)))" if "join_gate (wdb w) code = Inr room" for room r
    by (rule join_admitted_sound [OF s]) (use that assms room_known in \<open>auto simp: join_gate_def result_iff\<close>)
  then show ?thesis using s by (auto simp: join_room_def Let_def split_beta split: sum.split)
qed

lemma build_snapshot_sound: "sound w \<Longrightarrow> sound (snd (build_snapshot now code w))"
  by (erule sound_same_columns) (auto simp: build_snapshot_def ids_le_def Let_def split_beta split: option.splits)

section \<open>Seeding\<close>

interpretation seeds: seed_relation "\<lambda>d w d' w'. sound_at w d \<and> P d \<longrightarrow> sound_at w' d' \<and> P d'" for P :: "db \<Rightarrow> bool"
  by unfold_locales simp_all

lemma seed_bind_assoc: "seed_bind (seed_bind m k) h = seed_bind m (\<lambda>x. seed_bind (k x) h)"
  by (rule ext)+ (simp add: seed_bind_def split: prod.split sum.split)

abbreviation quiz_in :: "int \<Rightarrow> db \<Rightarrow> bool" where
  "quiz_in i d \<equiv> i \<in> qs_id ` set (quiz_sets d)"

lemma sound_link:
  assumes "sound_at w d" "quiz_in (qst_quiz_set_id l) d" "qst_tag_id l \<in> qt_id ` set (quiz_tags d)" "l \<notin> set (quiz_set_tags d)"
  shows "sound_at w (d\<lparr>quiz_set_tags := quiz_set_tags d @ [l]\<rparr>)"
proof -
  have "t = l" if "(qst_quiz_set_id l, qst_tag_id l) = (qst_quiz_set_id t, qst_tag_id t)" for t using that by (cases t; cases l) simp
  with assms(4) have "(qst_quiz_set_id l, qst_tag_id l) \<notin> (\<lambda>t. (qst_quiz_set_id t, qst_tag_id t)) ` set (quiz_set_tags d)" by blast
  with assms show ?thesis by (auto simp: sound_defs table_defs unique_by_append1)
qed

lemma seed_user_sound: "seeds.keeps (\<lambda>_. True) (new_seed_user argon2 spec)"
  unfolding seeds.keeps_def
  by (auto simp: new_seed_user_def Let_def split_beta split: option.splits intro: sound_user [OF sound_ids [OF _ ids_le_fresh(1)]])

lemma seed_tag_sound: "seeds.keeps (quiz_in i) (seed_bind (ensure_tag name) (link_tag i))"
  unfolding seeds.keeps_def seed_bind_Inr
proof (intro allI impI, elim exE conjE)
  fix d w and x :: unit and d' w' tag d1 w1
  assume e: "ensure_tag name d w = (Inr (tag, d1), w1)" and l: "link_tag i tag d1 w1 = (Inr (x, d'), w')" and s: "sound_at w d" and q: "quiz_in i d"
  have "sound_at w1 d1" "quiz_in i d1" "qt_id tag \<in> qt_id ` set (quiz_tags d1)"
    using ensure_tag_cases [OF e] s q by (auto intro!: sound_tag [of w d] simp: ids_le_def)
  then show "sound_at w' d' \<and> quiz_in i d'"
    using l by (auto simp: link_tag_def Let_def split: if_splits intro!: sound_link)
qed

lemma seed_tags_sound: "seeds.keeps (quiz_in i) (seed_tags i names)"
proof (induction names)
  case (Cons name names)
  then show ?case unfolding seed_tags.simps seed_bind_assoc [symmetric] by (intro seeds.keeps_bind seed_tag_sound)
qed simp

lemma seed_question_sound: "seeds.keeps (quiz_in i) (seed_question i position spec)"
  unfolding seeds.keeps_def
proof (intro allI impI, elim conjE)
  fix d w and x :: unit and d' w'
  assume q: "seed_question i position spec d w = (Inr (x, d'), w')" and s: "sound_at w d" "quiz_in i d"
  let ?i = "id_supply w (id_next w)"
  obtain qs where qs: "insert_question (question_row i position spec ?i) (questions d) = Some qs"
    using q by (auto simp: seed_question_def Let_def split_beta split: option.splits)
  obtain ids where "fresh_ids (length (spec_options spec)) (snd (fresh_id w)) = (ids, w')"
    and o': "insert_options (new_options ?i ids (spec_options spec)) (d\<lparr>questions := qs\<rparr>) = Some d'"
    using q qs by (auto simp: seed_question_def Let_def fresh_id_def split: option.splits prod.splits)
  then have le: "ids_le w w'" by (auto simp: fresh_ids_def ids_le_def)
  have "sound_at w' (d\<lparr>questions := qs\<rparr>)"
    by (rule sound_ids [OF sound_question [OF s(1) qs] le]) (use s in \<open>simp add: question_row_def split_beta\<close>)
  from sound_options [OF this o'] show "sound_at w' d' \<and> quiz_in i d'"
    using qs o' s by (auto simp: insert_question_def question_row_def split_beta dest!: insert_options_frame split: if_splits)
qed

abbreviation user_in :: "int \<Rightarrow> db \<Rightarrow> bool" where
  "user_in i d \<equiv> i \<in> u_id ` set (users d)"

lemma seed_quiz_sound: "seeds.keeps (user_in owner_id) (new_seed_quiz now owner_id spec)"
  unfolding seeds.keeps_def
proof (intro allI impI, elim conjE)
  fix d w x d' w'
  assume n: "new_seed_quiz now owner_id spec d w = (Inr (x, d'), w')" and s: "sound_at w d" "user_in owner_id d"
  obtain title description tags qspecs where spec: "spec = (title, description, tags, qspecs)" by (cases spec)
  from n obtain d1 w1 d2 w2 where
    q: "add_quiz_row now owner_id title description d w = (Inr (x, d1), w1)" and
    t: "seed_tags (qs_id x) tags d1 w1 = (Inr ((), d2), w2)" and qs: "seed_questions (qs_id x) 1 qspecs d2 w2 = (Inr ((), d'), w')"
    by (auto simp: new_seed_quiz_def spec seed_bind_Inr seed_return_def)
  have "sound_at w1 d1 \<and> quiz_in (qs_id x) d1"
    using q s by (auto simp: add_quiz_row_def quiz_row_def Let_def split_beta ids_le_def split: if_splits intro!: sound_quiz_set)
  then have "sound_at w2 d2 \<and> quiz_in (qs_id x) d2" using seeds.keepsD [OF seed_tags_sound t] by blast
  then have "sound_at w' d'" using seeds.keepsD [OF seeds.keeps_questions [OF seed_question_sound] qs] by blast
  then show "sound_at w' d' \<and> user_in owner_id d'" using new_seed_quiz_cases [OF n] s by simp
qed

lemma seed_main_sound:
  assumes "sound w"
  shows "sound (snd (seed_main argon2 now w))"
proof (cases "seed_steps argon2 now (wdb w) w")
  case (Pair x w')
  show ?thesis
  proof (cases x)
    case (Inl e)
    have "ids_grow w w'" using takes_ids_steps [unfolded takes_ids_def] Pair by (metis snd_conv)
    then show ?thesis using assms sound_world [of w w'] by (auto simp: seed_main_def Pair Inl ids_grow_def ids_le_def)
  next
    case (Inr rd)
    then obtain room d' where rd: "x = Inr (room, d')" by (cases rd) auto
    from Pair [unfolded rd] obtain us d1 w1 host qs d2 w2 quiz where
      u: "seed_users argon2 SEED_USERS (wdb w) w = (Inr (us, d1), w1)" "map_of us ''host@livequiz.local'' = Some host"
      and q: "seed_quizzes now (u_id host) QUIZZES d1 w1 = (Inr (qs, d2), w2)" "map_of qs ''Computer Networks basics'' = Some quiz"
      and r: "seed_demo_room (u_id host) (qs_id quiz) d2 w2 = (Inr (room, d'), w')" by (rule seed_steps_Inr)
    have "host \<in> set (users d1)"
      using seed_users_rows [OF u(1) seed_specs_distinct(1)] map_of_SomeD [OF u(2)] by (fastforce simp: users_with_email_def dest!: filter_eq_ConsD)
    then have h: "user_in (u_id host) d1" by simp
    have "quiz \<in> set (quiz_sets d2)"
      using seed_quizzes_rows [OF q(1) seed_specs_distinct(2)] map_of_SomeD [OF q(2)] by (fastforce simp: quizzes_titled_def dest!: filter_eq_ConsD)
    moreover have "sound_at w1 d1" using seeds.keepsD [OF seeds.keeps_users [OF seed_user_sound] u(1)] assms by blast
    then have "sound_at w2 d2" "user_in (u_id host) d2"
      using seeds.keepsD [OF seeds.keeps_quizzes [OF seed_quiz_sound] q(1)] h by blast+
    ultimately have "sound_at w' d'"
      using r by (auto simp: seed_demo_room_def ensure_def new_demo_room_def Let_def split_beta split: sum.splits option.splits if_splits
          intro!: sound_room sound_ids [OF _ ids_le_fresh(1)])
    then show ?thesis by (simp add: seed_main_def Pair rd)
  qed
qed

section \<open>Requests\<close>

interpretation sounds: handler_relation "\<lambda>w w'. sound w \<longrightarrow> sound w'"
  by unfold_locales simp_all

lemma sounds_beside:
  assumes "\<And>w. beside w (snd (h w))" "\<And>w. wdb (snd (h w)) = wdb w"
  shows "sounds.keeps h"
  unfolding sounds.keeps_def
proof (intro allI impI)
  fix w assume "sound w"
  then show "sound (snd (h w))" by (rule sound_world [OF _ assms(2)]) (use assms(1) [of w] in \<open>auto simp: beside_def ids_le_def\<close>)
qed

lemma beside_tables:
  "wdb (snd (login L cfg now email password ip w)) = wdb w" "wdb (snd (refresh L cfg now token w)) = wdb w" "wdb (snd (logout L cfg now token w)) = wdb w"
  "wdb (snd (invalidate_lists w)) = wdb w" "wdb (snd (answer_attempt r pid i w)) = wdb w" "wdb (snd (report_attempt r u w)) = wdb w"
  "wdb (snd (get_match_analytics up ch pct use_cache now i w)) = wdb w" "wdb (snd (request_id_middleware r w)) = wdb w"
  by (auto simp: login_def refresh_def refresh_rotate_def logout_def revoke_claims_def revoke_jti_def invalidate_lists_def answer_attempt_def
      report_attempt_def get_match_analytics_def request_id_middleware_def with_buckets_def result_iff Let_def split_beta split: option.splits sum.splits)

lemma beside_sounds:
  "sounds.keeps (login L cfg now email password ip)" "sounds.keeps (refresh L cfg now token)" "sounds.keeps (logout L cfg now token)"
  "sounds.keeps invalidate_lists" "sounds.keeps (answer_attempt r pid i)" "sounds.keeps (report_attempt r u)"
  by (intro sounds_beside login_beside refresh_beside logout_beside beside_handlers beside_tables)+

lemma service_sounds:
  "sounds.keeps (start_match now now2 host code)" "sounds.keeps (pause_match now host code)" "sounds.keeps (resume_match now now2 host code)"
  "sounds.keeps (end_match now now2 mid h)" "sounds.keeps (submit_answer now now2 mid pid ans rid)" "sounds.keeps (build_snapshot now code)"
  "sounds.keeps (create_report now t reason details)" "sounds.keeps (register_user L sl email password name)"
  "sounds.keeps (update_quiz_set owner i quiz_changes)" "sounds.keeps (add_question owner i question)"
  "sounds.keeps (update_question owner i question_changes)" "sounds.keeps (delete_question owner i)" "sounds.keeps (publish_quiz_set pol now owner i)"
  by (simp_all add: sounds.keeps_def start_match_sound pause_match_sound resume_match_sound end_match_sound submit_answer_sound build_snapshot_sound
      create_report_sound register_user_sound update_quiz_set_sound add_question_sound update_question_sound delete_question_sound publish_quiz_set_sound)

text \<open>The caller of a request is a user of the table.\<close>

lemma current_user_known: "current_user L cfg now creds w = Inr u \<Longrightarrow> user_in (u_id u) (wdb w)"
  by (auto simp: current_user_def result_iff user_of_claims_Inr get_user_def dest!: find_Some_set)

lemma with_role_sound:
  assumes "\<And>u w. sound w \<Longrightarrow> user_in (u_id u) (wdb w) \<Longrightarrow> sound (snd (h u w))"
  shows "sounds.keeps (with_role rs D r h)"
  using assms by (auto simp: sounds.keeps_def with_role_def with_user_def require_role_def dest!: current_user_known split: sum.split)

lemma with_viewer_sound:
  assumes "\<And>v w. sound w \<Longrightarrow> set_option (viewer_id v) \<subseteq> u_id ` set (users (wdb w)) \<Longrightarrow> sound (snd (h v w))"
  shows "sounds.keeps (with_viewer D r h)"
proof -
  have "set_option (viewer_id v) \<subseteq> u_id ` set (users (wdb w))" if "optional_current_user (a_lib D) (a_cfg D) (received r) (bearer_creds r) w = Inr v" for v w
    using that current_user_known by (auto simp: optional_current_user_def viewer_id_def split: if_splits sum.splits error.splits)
  with assms show ?thesis by (simp add: sounds.keeps_def with_viewer_def split: sum.split)
qed

lemma checked_sound: "sound w \<Longrightarrow> sound (snd (h w)) \<Longrightarrow> sound (snd (checked ok h w))"
  by (simp add: checked_def)

lemma and_then_sound: "sound (snd (h w)) \<Longrightarrow> (\<And>x. sounds.keeps (k x)) \<Longrightarrow> sound (snd (and_then h k w))"
  using sounds.keepsD by (fastforce simp: and_then_def split: prod.split sum.split)

lemma acting_sounds:
  "sounds.keeps (api_create_quiz_set D r quiz)" "sounds.keeps (api_create_room D r room)" "sounds.keeps (api_join_room D r code nick guest)"
  "sounds.keeps (api_decide_report D r i dec reason)"
  unfolding api_create_quiz_set_def api_create_room_def api_join_room_def api_decide_report_def
  by (intro with_role_sound with_viewer_sound checked_sound and_then_sound create_quiz_set_sound create_room_sound join_room_sound decide_sound
      sounds.keeps_and_then beside_sounds; simp add: sounds.keeps_reply split_beta)+

lemma list_sounds: "sounds.keeps (api_list_quiz_sets D r q o' t l k)"
  unfolding api_list_quiz_sets_def
  by (intro sounds.keeps_with_viewer sounds.keeps_checked sounds_beside besideI) (auto simp: Let_def split: option.split)

lemma analytics_sounds: "sounds.keeps (api_analytics D r i)"
  by (rule sounds_beside) (simp_all add: api_analytics_def beside_refl beside_handlers beside_tables split_beta Let_def split: sum.split)

lemma end_sounds: "sounds.keeps (api_end_match D r code)"
  unfolding api_end_match_def
  by (rule with_role_sound) (auto intro!: and_then_sound end_match_sound sounds.keeps_reply split: sum.split)

lemma call_route_sounds: "sounds.keeps (call_route D r rid call)"
proof (cases call)
  case (ListQuizSets q o' t l k)
  then show ?thesis using list_sounds by simp
next
  case (EndMatch code)
  then show ?thesis using end_sounds by simp
next
  case (GetAnalytics i)
  then show ?thesis using analytics_sounds by simp
qed (simp_all add: acting_sounds, simp_all add: api_register_def api_login_def api_refresh_def api_logout_def api_me_def api_get_user_def
    api_get_quiz_set_def api_patch_quiz_set_def api_publish_quiz_set_def api_add_question_def api_patch_question_def api_delete_question_def
    api_get_room_def api_start_match_def api_pause_match_def api_resume_match_def api_submit_answer_def
    api_get_leaderboard_def api_create_report_def api_list_reports_def api_admin_metrics_def Let_def split_beta
    sounds.keeps_combinators service_sounds beside_sounds hydrated_read
    sounds.keeps_read reply_def split: option.split sum.split)

lemma serve_sound:
  assumes "sound w"
  shows "sound (snd (serve D r call w))"
proof -
  have "sounds.keeps (\<lambda>w. (Inr (), snd (request_id_middleware r w)))"
    by (rule sounds_beside) (simp_all add: beside_handlers beside_tables)
  then have "sound (snd (request_id_middleware r w))" using sounds.keepsD assms by fastforce
  then show ?thesis using sounds.keepsD [OF call_route_sounds] by (simp add: serve_def split_beta)
qed

end
