(* ===== verification/Deployment.thy ===== *)
theory Deployment
  imports Baseline
begin

text \<open>
  A deployment as a whole: HTTP requests (Api), WebSocket handshakes, frames and departures (WsRouter), the backend's timers
  and restarts (MatchLifecycle), the outbox publisher and the seed script, in any order.  Every state is one of the transition system
  of theory System, and the tables of every state satisfy the schema of theory Baseline.
\<close>

section \<open>Presence notices\<close>

lemma broadcast_beside:
  assumes "type = ''participant.joined'' \<or> type = ''participant.left''"
  shows "beside w (broadcast code type (presence_payload pid nick n) w)"
proof -
  have "contract (JObj [(''type'', JStr type), (''message_id'', JStr i), (''payload'', presence_payload pid nick n)])" for i
    using assms by (auto simp: contract_message presence_payload_def ParticipantJoinedPayload_def ParticipantLeftPayload_def strict_model_def)
  then have "speaks w (broadcast code type (presence_payload pid nick n) w)" by (simp add: speaks_def broadcast_bus)
  moreover have "\<exists>m. broadcast code type (presence_payload pid nick n) w =
      w\<lparr>wdb := (wdb w)\<lparr>users := users (wdb w), audit_logs := audit_logs (wdb w)\<rparr>,
        wredis := (wredis w)\<lparr>rate_buckets := rate_buckets (wredis w), revoked_jtis := revoked_jtis (wredis w),
          attempt_counts := attempt_counts (wredis w), match_analytics := match_analytics (wredis w), quiz_lists := quiz_lists (wredis w)\<rparr>,
        id_next := Suc (id_next w), bus := m\<rparr>"
    by (simp add: broadcast_def fresh_id_def Let_def) (metis world.surjective world.update_convs(1))
  ultimately show ?thesis unfolding beside_def by fastforce
qed

section \<open>Sockets and a relation on the world\<close>

text \<open>
  What a socket does to the world is made of rate checks, a submission, a snapshot, ids and presence notices: a relation that
  each of these keeps holds for the endpoint.
\<close>

locale socket_relation = handler_relation +
  assumes rate: "beside w w' \<Longrightarrow> wdb w' = wdb w \<Longrightarrow> R w w'"
    and submit: "R w (snd (submit_answer now now2 match_id pid payload rid w))"
    and snapshot: "R w (snd (build_snapshot now code w))"
begin

lemma rate_checks:
  "R w (snd (ws_rate_check now cid w))" "R w (snd (host_rate_check now pid w))" "R w (snd (answer_rate_check now pid q w))"
  by (intro rate besideI; simp add: ws_rate_check_def host_rate_check_def answer_rate_check_def with_buckets_def Let_def split_beta)+

lemma submits: "R w (snd (ws_submit_answer now now2 i payload conn w))"
proof (cases "answer_ids payload")
  case (Some a)
  obtain m q ids where a: "a = (m, q, ids)" by (cases a)
  have "snd (ws_submit_answer now now2 i payload conn w) =
      snd (submit_answer now now2 m (participant_id conn) \<lparr>req_match_question_id = q, req_selected_option_ids = ids\<rparr> i w)"
    by (simp add: ws_submit_answer_def Some a split: prod.split sum.split error.split)
  then show ?thesis using submit by simp
qed (simp add: ws_submit_answer_def same)

lemma dispatches: "R w (snd (ws_dispatch now now2 m conn w))"
proof (cases m)
  case (AnswerSubmitMessage i payload)
  then show ?thesis using rate_checks(3) chain [OF rate_checks(3) submits] by (simp add: Let_def split_beta)
qed (simp_all add: host_message_def Let_def split_beta same rate_checks)

lemma receives: "R w (snd (ws_receive validate_json now now2 raw conn w))"
  using rate_checks(1) [of w now "conn_id conn"] dispatches
  by (auto simp: ws_receive_def Let_def split_beta split: parsed_frame.split intro: chain)

lemma notices: "type \<in> {''participant.joined'', ''participant.left''} \<Longrightarrow> R w (broadcast code type (presence_payload pid nick n) w)"
  by (rule rate) (auto simp: broadcast_beside)

lemma opens: "R w (snd (snd (ws_open L cfg now handle uuid token code manager w)))"
proof (cases "authenticate L cfg now token code (wdb w)")
  case (Inr a)
  obtain pid nick host where a: "a = (pid, nick, host)" by (cases a)
  obtain res w1 where b: "build_snapshot now code w = (res, w1)" by fastforce
  have s: "R w w1" using snapshot [of w now code] b by simp
  have "R w1 (snd (fresh_id w1))" by (intro rate besideI) simp_all
  with s have "R w (broadcast code ''participant.joined'' (presence_payload pid nick n) (snd (fresh_id w1)))" for n
    using notices by (meson chain insertI1)
  with s show ?thesis by (auto simp: ws_open_def Inr a b Let_def split_beta split: sum.split error.split)
qed (simp add: ws_open_def same)

lemma leaves: "R w (snd (ws_leave code conn n manager w))"
  using notices by (simp add: ws_leave_def)

end

section \<open>Histories\<close>

inductive deployed :: "deployment \<Rightarrow> world \<Rightarrow> bool" for D where
  booted: "inj ids \<Longrightarrow> deployed D (empty_world ids)"
| requested: "deployed D w \<Longrightarrow> deployed D (snd (serve D request call w))"
| connected: "deployed D w \<Longrightarrow> deployed D (snd (snd (ws_open (a_lib D) (a_cfg D) now handle uuid token code manager w)))"
| received_frame: "deployed D w \<Longrightarrow> deployed D (snd (ws_receive validate_json now now2 raw conn w))"
| disconnected: "deployed D w \<Longrightarrow> deployed D (snd (ws_leave code conn player_count manager w))"
| timer: "deployed D w \<Longrightarrow> (tid, t) \<in> set (tasks w) \<Longrightarrow> deployed D (run_task inter_question_seconds now now2 now3 tid w)"
| rebooted: "deployed D w \<Longrightarrow> deployed D (snd (recover_running_matches now (w\<lparr>tasks := [], registry := [], runtimes := []\<rparr>)))"
| published_batch: "deployed D w \<Longrightarrow> outbox s = outbox_events (wdb w) \<Longrightarrow>
    deployed D (w\<lparr>wdb := (wdb w)\<lparr>outbox_events := outbox (snd (process_batch net locked now s))\<rparr>\<rparr>)"
| seeded_again: "deployed D w \<Longrightarrow> deployed D (snd (seed_main argon2 now w))"

interpretation socket_steps: socket_relation "backend_step\<^sup>*\<^sup>*"
  by unfold_locales (auto intro: backend_step.intros)

interpretation socket_sounds: socket_relation "\<lambda>w w'. sound w \<longrightarrow> sound w'"
proof unfold_locales
  show "sound w \<longrightarrow> sound w'" if "beside w w'" "wdb w' = wdb w" for w w'
    using that sound_world [of w w'] by (auto simp: beside_def ids_le_def)
qed (simp_all add: submit_answer_sound build_snapshot_sound)

lemma reachable_steps: "backend_step\<^sup>*\<^sup>* w w' \<Longrightarrow> backend_reachable w \<Longrightarrow> backend_reachable w'"
  by (induction rule: rtranclp_induct) (auto intro: backend_reachable.step)

lemma deployed_reachable: "deployed D w \<Longrightarrow> backend_reachable w"
proof (induction rule: deployed.induct)
  case (booted ids)
  then show ?case by (rule backend_reachable.boot)
next
  case (requested w request call)
  then show ?case using reachable_steps [OF serve_steps] by blast
qed (auto intro: reachable_steps [OF socket_steps.opens] reachable_steps [OF socket_steps.receives] reachable_steps [OF socket_steps.leaves]
    backend_reachable.step backend_step.intros)

lemma sound_empty: "inj ids \<Longrightarrow> sound (empty_world ids)"
  by (simp add: sound_defs table_defs empty_world_def empty_db_def unique_by_def)

lemma deployed_sound: "deployed D w \<Longrightarrow> sound w"
proof (induction rule: deployed.induct)
  case (rebooted w now)
  from rebooted.IH show ?case by (rule sound_world) (simp_all add: ids_le_emits [OF recover_emits])
next
  case (published_batch w s net locked now)
  then show ?case by (intro sound_world_at) (simp add: sound_same_columns same_columns_def column_defs ids_le_def)
qed (auto simp: sound_empty serve_sound run_task_sound seed_main_sound socket_sounds.opens [rule_format] socket_sounds.receives [rule_format]
    socket_sounds.leaves [rule_format])

lemma deployed_baseline: "deployed D w \<Longrightarrow> baseline (wdb w)"
  by (rule baseline_of_sound [OF deployed_sound backend_invariant [OF deployed_reachable]])

text \<open>
  C8: the schema holds.  In every state of a deployment, after any history of requests, WebSocket traffic, timers, restarts,
  publisher batches and seed runs, every table satisfies the primary keys, unique constraints, unique indexes and foreign keys of
  the baseline migration: those a statement of the services runs into and answers, and those that no statement of the model
  tests and the code relies on.
\<close>
theorem tables_keep_baseline:
  assumes "deployed D w"
  shows "baseline (wdb w)"
  using assms by (rule deployed_baseline)

lemma demo_seed_users: "map u_email (users (wdb (snd (seed_main (\<lambda>p. p) 0 (empty_world int))))) = map su_email SEED_USERS"
  by code_simp

theorem tables_keep_baseline_witness:
  "let w = snd (seed_main (\<lambda>p. p) 0 (empty_world int)) in
     deployed demo_deployment w \<and> map u_email (users (wdb w)) = map su_email SEED_USERS \<and> baseline (wdb w)"
proof -
  have "deployed demo_deployment (snd (seed_main (\<lambda>p. p) 0 (empty_world int)))"
    by (intro deployed.seeded_again deployed.booted) (simp add: inj_def)
  then show ?thesis using tables_keep_baseline demo_seed_users by simp
qed

end
