(* ===== verification/WorkerLoops.thy ===== *)
theory WorkerLoops
  imports StreamWorker
begin

text \<open>
  The loops of the two workers: \<^verbatim>\<open>_run\<close> of src/workers/outbox_publisher/app/main.py and of
  src/workers/stream_worker/app/main.py.  A turn carries the answers of its environment: whether a stop was requested before
  it, how the batch or poll went, and the clock.  Sleeps are kept as the list of their durations.
\<close>

section \<open>The publisher\<close>

datatype batch_run =
    Committed "nat \<Rightarrow> send_result" "int \<Rightarrow> bool" time
  | BatchFailed "nat \<Rightarrow> send_result" "int \<Rightarrow> bool" nat bool

record publisher_turn =
  stop_set :: bool
  batch_of :: batch_run
  loop_time :: rat
  count_answered :: bool

record publisher_process =
  pub :: publisher
  last_gauge_refresh :: rat
  unpublished_gauge :: nat
  slept :: "rat list"

definition update_unpublished_gauge :: "bool \<Rightarrow> publisher_process \<Rightarrow> publisher_process" where
  "update_unpublished_gauge ok p = (if ok then p\<lparr>unpublished_gauge := unpublished_count (pub p)\<rparr> else p)"

definition publisher_body :: "publisher_turn \<Rightarrow> publisher_process \<Rightarrow> publisher_process" where
  "publisher_body t p =
     (case batch_of t of
        BatchFailed net locked k mid \<Rightarrow>
          p\<lparr>pub := process_batch_aborted net locked k mid (pub p), slept := slept p @ [BACKOFF_BASE_S * 4]\<rparr>
      | Committed net locked now \<Rightarrow>
          let (published, s) = process_batch net locked now (pub p);
              p = p\<lparr>pub := s\<rparr>;
              p = (if 1 < loop_time t - last_gauge_refresh p
                   then (update_unpublished_gauge (count_answered t) p)\<lparr>last_gauge_refresh := loop_time t\<rparr> else p)
          in case next_sleep published s of None \<Rightarrow> p | Some d \<Rightarrow> p\<lparr>slept := slept p @ [d]\<rparr>)"

fun publisher_loop :: "publisher_turn list \<Rightarrow> publisher_process \<Rightarrow> publisher_process" where
  "publisher_loop [] p = p"
| "publisher_loop (t # ts) p = (if stop_set t then p else publisher_loop ts (publisher_body t p))"

definition publisher_started :: "OutboxEvent list \<Rightarrow> publisher_process" where
  "publisher_started rows =
     \<lparr>pub = \<lparr>outbox = rows, broker_log = [], backoff = [], sends = 0\<rparr>, last_gauge_refresh = 0, unpublished_gauge = 0, slept = []\<rparr>"

lemma publisher_body_pub:
  "pub (publisher_body t p) =
     (case batch_of t of BatchFailed net locked k mid \<Rightarrow> process_batch_aborted net locked k mid (pub p)
      | Committed net locked now \<Rightarrow> snd (process_batch net locked now (pub p)))"
  by (simp add: publisher_body_def update_unpublished_gauge_def Let_def split_beta split: batch_run.split option.split)

text \<open>The loop only does what the publisher's transition system allows.\<close>

theorem publisher_loop_reachable: "publisher_reachable (pub p) \<Longrightarrow> publisher_reachable (pub (publisher_loop ts p))"
proof (induction ts arbitrary: p)
  case (Cons t ts)
  have "publisher_step (pub p) (pub (publisher_body t p))"
    by (auto simp: publisher_body_pub split: batch_run.split intro: publisher_step.intros)
  with Cons show ?case by (auto intro: publisher_reachable.step)
qed simp

text \<open>Backoffs stay between twice the base and the maximum, hence so do the sleeps.\<close>

definition backoff_ok :: "publisher \<Rightarrow> bool" where
  "backoff_ok s \<longleftrightarrow> (\<forall>b \<in> snd ` set (backoff s). 1 / 2 \<le> b \<and> b \<le> BACKOFF_MAX_S)"

lemma set_AList_update: "set (AList.update k v al) \<subseteq> insert (k, v) (set al)"
  by (induction al) auto

lemma set_AList_delete: "set (AList.delete k al) \<subseteq> set al"
  by (auto simp: AList.delete_eq)

lemma process_row_backoff:
  assumes "backoff_ok s"
  shows "backoff_ok (snd (process_row net row (ids, s)))"
proof -
  define d where "d = min ((case map_of (backoff s) (ob_id row) of None \<Rightarrow> BACKOFF_BASE_S | Some b \<Rightarrow> b) * 2) BACKOFF_MAX_S"
  have "1 / 2 \<le> d" "d \<le> BACKOFF_MAX_S"
    using assms by (fastforce simp: d_def backoff_ok_def BACKOFF_BASE_S_def BACKOFF_MAX_S_def dest!: map_of_SomeD split: option.split)+
  then show ?thesis using assms set_AList_update [of "ob_id row" d "backoff s"] set_AList_delete [of "ob_id row" "backoff s"]
    by (auto simp: process_row_def send_and_wait_def backoff_ok_def Let_def split_beta d_def [symmetric])
qed

lemma fold_backoff: "backoff_ok s \<Longrightarrow> backoff_ok (snd (fold (process_row net) rows (ids, s)))"
proof (induction rows arbitrary: ids s)
  case (Cons row rows)
  then show ?case using process_row_backoff [of s net row ids] by (cases "process_row net row (ids, s)") simp
qed simp

lemma batch_backoff:
  "backoff_ok s \<Longrightarrow> backoff_ok (snd (process_batch net locked now s))"
  "backoff_ok s \<Longrightarrow> backoff_ok (process_batch_aborted net locked k mid s)"
  using fold_backoff [of s net _ "[]"]
  by (simp_all add: process_batch_def process_batch_aborted_def send_and_wait_def backoff_ok_def Let_def split_beta)

lemma fold_min_mem: "fold min bs b \<in> insert b (set (bs :: rat list))"
  by (induction bs arbitrary: b) (auto simp: min_def split: if_splits)

lemma next_sleep_bounds: "backoff_ok s \<Longrightarrow> next_sleep n s = Some d \<Longrightarrow> 1 / 2 \<le> d \<and> d \<le> 30"
  using fold_min_mem [of "tl (map snd (backoff s))" "hd (map snd (backoff s))"]
  by (auto simp: next_sleep_def backoff_ok_def IDLE_SLEEP_S_def BACKOFF_MAX_S_def split: if_splits list.splits) (metis snd_conv)

definition waits_ok :: "publisher_process \<Rightarrow> bool" where
  "waits_ok p \<longleftrightarrow> backoff_ok (pub p) \<and> (\<forall>d \<in> set (slept p). 1 / 2 \<le> d \<and> d \<le> 30)"

lemma publisher_body_waits:
  assumes "waits_ok p"
  shows "waits_ok (publisher_body t p)"
proof -
  have "backoff_ok (pub (publisher_body t p))" using assms by (auto simp: waits_ok_def publisher_body_pub batch_backoff split: batch_run.split)
  moreover have "slept (publisher_body t p) = slept p \<or> (\<exists>d. slept (publisher_body t p) = slept p @ [d] \<and> 1 / 2 \<le> d \<and> d \<le> 30)"
  proof (cases "batch_of t")
    case (Committed net locked now)
    let ?x = "process_batch net locked now (pub p)"
    have "slept (publisher_body t p) = slept p @ (case next_sleep (fst ?x) (snd ?x) of None \<Rightarrow> [] | Some d \<Rightarrow> [d])"
      by (simp add: publisher_body_def Committed update_unpublished_gauge_def Let_def split_beta split: option.split)
    then show ?thesis using next_sleep_bounds [OF batch_backoff(1)] assms by (auto simp: waits_ok_def split: option.splits)
  qed (simp add: publisher_body_def BACKOFF_BASE_S_def)
  ultimately show ?thesis using assms by (auto simp: waits_ok_def)
qed

text \<open>
  However the broker and the database behave, the publisher never sleeps less than half a second, nor more than half a
  minute, between two batches.
\<close>
theorem publisher_sleeps_bounded:
  assumes "d \<in> set (slept (publisher_loop ts (publisher_started rows)))"
  shows "1 / 2 \<le> d \<and> d \<le> 30"
proof -
  have "waits_ok p \<Longrightarrow> waits_ok (publisher_loop ts p)" for p
    by (induction ts arbitrary: p) (simp_all add: publisher_body_waits)
  from this [of "publisher_started rows"] have "waits_ok (publisher_loop ts (publisher_started rows))"
    by (simp add: waits_ok_def publisher_started_def backoff_ok_def)
  with assms show ?thesis unfolding waits_ok_def by blast
qed

definition healthy_turn :: "publisher_turn \<Rightarrow> bool" where
  "healthy_turn t \<longleftrightarrow> \<not> stop_set t \<and> (\<exists>now. batch_of t = Committed (\<lambda>_. Acked) (\<lambda>_. False) now)"

lemma healthy_turn_effect:
  assumes "healthy_turn t" "unique_by ob_id (outbox (pub p))"
  shows "unpublished_count (pub (publisher_body t p)) = unpublished_count (pub p) - 100 \<and> unique_by ob_id (outbox (pub (publisher_body t p))) \<and>
    (0 < unpublished_count (pub p) \<longrightarrow> slept (publisher_body t p) = slept p)"
proof -
  from assms(1) obtain now where t: "batch_of t = Committed (\<lambda>_. Acked) (\<lambda>_. False) now" by (auto simp: healthy_turn_def)
  have b: "pub (publisher_body t p) = healthy_batch now (pub p)" by (simp add: publisher_body_pub t healthy_batch_def)
  have "fst (process_batch (\<lambda>_. Acked) (\<lambda>_. False) now (pub p)) = min (unpublished_count (pub p)) POLL_BATCH"
    by (simp add: process_batch_rest acked_all SELECT_BATCH_def unpublished_count_def)
  then have "0 < unpublished_count (pub p) \<longrightarrow> slept (publisher_body t p) = slept p"
    by (auto simp: publisher_body_def t next_sleep_def update_unpublished_gauge_def POLL_BATCH_def Let_def split_beta)
  then show ?thesis
    using healthy_batch_count [OF assms(2), of now] healthy_batch_ids [of now "pub p"] assms(2) by (simp add: b unique_by_def POLL_BATCH_def)
qed



section \<open>The stream worker\<close>

datatype poll =
    PollFailed
  | Polled time "((string \<times> nat) \<times> (nat \<times> json option) list) list"

text \<open>
  The turns until a stop is requested, the worker dies, or the list ends; then the \<^verbatim>\<open>finally\<close> block flushes once more.  When
  a turn dies, \<open>poll_cycle\<close> has run that block.
\<close>

fun stream_loop :: "validators \<Rightarrow> infra \<Rightarrow> time \<Rightarrow> (bool \<times> poll) list \<Rightarrow> worker \<Rightarrow> worker" where
  "stream_loop V I stopped [] w = snd (flush_all I stopped w)"
| "stream_loop V I stopped ((stop, poll) # ts) w =
     (if stop then snd (flush_all I stopped w)
      else case poll of
        PollFailed \<Rightarrow> stream_loop V I stopped ts w
      | Polled now records \<Rightarrow>
          (case poll_cycle V I now records w of (True, w) \<Rightarrow> stream_loop V I stopped ts w | (False, w) \<Rightarrow> w))"

text \<open>A worker that has ended, by a stop or by an exception, holds no row back in memory.\<close>

theorem stream_loop_flushes: "(t, b) \<in> set (buffers (stream_loop V I stopped ts w)) \<Longrightarrow> b = []"
proof (induction ts arbitrary: w)
  case Nil
  then show ?case using flush_all_buffers [of I stopped w] by auto
next
  case (Cons x ts)
  obtain stop poll where x: "x = (stop, poll)" by fastforce
  show ?case
  proof (cases "stop \<or> poll = PollFailed")
    case True
    then show ?thesis using Cons flush_all_buffers [of I stopped w] by (auto simp: x split: if_splits)
  next
    case False
    then obtain now records where p: "poll = Polled now records" by (cases poll) auto
    show ?thesis
    proof (cases "fst (poll_cycle V I now records w)")
      case True
      then show ?thesis using Cons False by (auto simp: x p split: prod.splits)
    next
      case dead: False
      then obtain w1 where "snd (poll_cycle V I now records w) = snd (flush_all I now w1)"
        by (auto simp: poll_cycle_def Let_def split_beta split: if_splits)
      with dead show ?thesis using Cons.prems False flush_all_buffers [of I now w1] by (auto simp: x p split: prod.splits bool.splits)
    qed
  qed
qed

end
