(* ===== verification/Repositories.thy ===== *)
theory Repositories
  imports Deployment WorkerLoops
begin

text \<open>
  The queries of src/backend/app/repositories as they are written, beside the lookups the services of this development call, and
  src/backend/app/events, the backend's own copy of the routing table and the envelope.  A query that ends in
  \<^verbatim>\<open>scalar_one_or_none\<close> raises when it finds several rows; that it never does is a consequence of the schema.
\<close>

section \<open>Lookups\<close>

definition get_by_code_query :: "db \<Rightarrow> string \<Rightarrow> Room option result" where
  "get_by_code_query d code = scalar_one_or_none (filter (\<lambda>r. rm_code r = code) (rooms d))"

definition get_by_room_id_query :: "db \<Rightarrow> int \<Rightarrow> Match option result" where
  "get_by_room_id_query d room_id = scalar_one_or_none (filter (\<lambda>m. m_room_id m = room_id) (matches d))"

definition get_by_email_query :: "db \<Rightarrow> string \<Rightarrow> User option result" where
  "get_by_email_query d email = scalar_one_or_none (filter (\<lambda>u. lower (u_email u) = lower email) (users d))"

definition get_submission_by_request_id :: "db \<Rightarrow> string \<Rightarrow> AnswerSubmission option result" where
  "get_submission_by_request_id d request_id = scalar_one_or_none (filter (\<lambda>s. as_request_id s = request_id) (answer_submissions d))"

definition get_participant_by_nickname :: "db \<Rightarrow> int \<Rightarrow> string \<Rightarrow> RoomParticipant option result" where
  "get_participant_by_nickname d room_id nick =
     scalar_one_or_none (filter (\<lambda>p. rp_room_id p = room_id \<and> lower (rp_nickname p) = lower nick) (room_participants d))"

definition get_tag_by_name :: "db \<Rightarrow> string \<Rightarrow> QuizTag option result" where
  "get_tag_by_name d name = scalar_one_or_none (filter (\<lambda>t. qt_name t = name) (quiz_tags d))"

definition is_owner_query :: "db \<Rightarrow> int \<Rightarrow> int \<Rightarrow> bool result" where
  "is_owner_query d quiz_set_id user_id =
     bind_r (scalar_one_or_none (filter (\<lambda>s. qs_id s = quiz_set_id \<and> qs_owner_id s = user_id) (quiz_sets d))) (\<lambda>row. Inr (row \<noteq> None))"

section \<open>Lists and counts\<close>

definition get_active_participant_count :: "db \<Rightarrow> int \<Rightarrow> nat" where
  "get_active_participant_count d room_id =
     length (filter (\<lambda>p. rp_room_id p = room_id \<and> rp_left_at p = None \<and> \<not> rp_is_kicked p) (room_participants d))"

definition list_pending :: "db \<Rightarrow> nat \<Rightarrow> ModerationReport list" where
  "list_pending d limit = take limit (sort_key mr_created_at (filter (\<lambda>r. mr_status r = pending) (moderation_reports d)))"

definition list_public_published :: "db \<Rightarrow> nat \<Rightarrow> nat \<Rightarrow> QuizSet list" where
  "list_public_published d limit offset =
     take limit (drop offset (sort_key (\<lambda>s. - qs_created_at s) (filter (\<lambda>s. qs_visibility s = vis_public \<and> qs_is_published s) (quiz_sets d))))"

definition search_by_title :: "(string \<Rightarrow> string \<Rightarrow> rat) \<Rightarrow> rat \<Rightarrow> db \<Rightarrow> string \<Rightarrow> nat \<Rightarrow> QuizSet list" where
  "search_by_title sim threshold d query limit =
     take limit (sort_key (\<lambda>s. (- sim (qs_title s) query, - qs_created_at s))
       (filter (\<lambda>s. threshold \<le> sim (qs_title s) query) (quiz_sets d)))"

definition fetch_unpublished :: "db \<Rightarrow> nat \<Rightarrow> OutboxEvent list" where
  "fetch_unpublished d limit = take limit (sort_key ob_occurred_at (filter (\<lambda>e. ob_published_at e = None) (outbox_events d)))"

section \<open>Writes\<close>

definition mark_published :: "int list \<Rightarrow> time \<Rightarrow> db \<Rightarrow> db" where
  "mark_published event_ids published_at d =
     (if event_ids = [] then d
      else d\<lparr>outbox_events := upd_where (\<lambda>e. ob_id e \<in> set event_ids) (\<lambda>e. e\<lparr>ob_published_at := Some published_at\<rparr>) (outbox_events d)\<rparr>)"

definition increment_attempt :: "int \<Rightarrow> db \<Rightarrow> db" where
  "increment_attempt event_id d =
     d\<lparr>outbox_events := upd_where (\<lambda>e. ob_id e = event_id) (\<lambda>e. e\<lparr>ob_publish_attempts := ob_publish_attempts e + 1\<rparr>) (outbox_events d)\<rparr>"

definition score_key :: "FinalScore \<Rightarrow> int \<times> int" where
  "score_key f = (fs_match_id f, fs_participant_id f)"

text \<open>\<^verbatim>\<open>INSERT ... ON CONFLICT DO UPDATE\<close> of one row, and of a list, which may not name a key twice.\<close>

definition upsert_score :: "FinalScore \<Rightarrow> FinalScore list \<Rightarrow> FinalScore list" where
  "upsert_score r rows =
     (if score_key r \<in> score_key ` set rows
      then upd_where (\<lambda>f. score_key f = score_key r)
        (\<lambda>f. f\<lparr>fs_total_score := fs_total_score r, fs_correct_count := fs_correct_count r,
               fs_average_response_ms := fs_average_response_ms r, fs_rank := fs_rank r\<rparr>) rows
      else rows @ [r])"

definition bulk_upsert :: "FinalScore list \<Rightarrow> db \<Rightarrow> db result" where
  "bulk_upsert payload d =
     (if payload = [] then Inr d
      else if distinct (map score_key payload) then Inr (d\<lparr>final_scores := fold upsert_score payload (final_scores d)\<rparr>)
      else Inl (PyError ''CardinalityViolationError''))"

section \<open>Events\<close>

definition API_PRODUCER_NAME :: string where "API_PRODUCER_NAME = ''livequiz-api''"

definition API_EVENT_TO_TOPIC :: "(string \<times> string) list" where
  "API_EVENT_TO_TOPIC =
     [(''RoomCreated'', ''livequiz.events.room''), (''PlayerJoined'', ''livequiz.events.room''), (''PlayerLeft'', ''livequiz.events.room''),
      (''MatchStarted'', ''livequiz.events.match''), (''QuestionStarted'', ''livequiz.events.match''), (''QuestionClosed'', ''livequiz.events.match''),
      (''MatchFinished'', ''livequiz.events.match''), (''AnswerSubmitted'', ''livequiz.events.answer''),
      (''ContentReported'', ''livequiz.events.moderation''), (''ContentFlagged'', ''livequiz.events.moderation''),
      (''ModerationDecisionMade'', ''livequiz.events.moderation'')]"

definition api_topic_for :: "string \<Rightarrow> string" where
  "api_topic_for event_type = (case map_of API_EVENT_TO_TOPIC event_type of None \<Rightarrow> ''livequiz.events.dead_letter'' | Some t \<Rightarrow> t)"

text \<open>The serialized \<^verbatim>\<open>EventEnvelope\<close> of a row.\<close>

definition EventEnvelope :: "OutboxEvent \<Rightarrow> json" where
  "EventEnvelope e =
     JObj [(''event_id'', JStr (int_str (ob_id e))), (''event_type'', JStr (ob_event_type e)), (''aggregate_type'', JStr (ob_aggregate_type e)),
           (''aggregate_id'', JStr (int_str (ob_aggregate_id e))), (''occurred_at'', JTime (ob_occurred_at e)), (''producer'', JStr API_PRODUCER_NAME),
           (''schema_version'', JInt 1), (''payload'', ob_payload e)]"

section \<open>What they return\<close>

lemma scalar_unique:
  assumes "unique_by k rows" "\<And>x y. P x \<Longrightarrow> P y \<Longrightarrow> k x = k y"
  shows "scalar_one_or_none (filter P rows) = Inr (find P rows)"
proof -
  have u: "unique_by k (filter P rows)" using assms(1) by (simp add: unique_by_def distinct_map_filter)
  have "\<not> (\<exists>x y zs. filter P rows = x # y # zs)"
  proof clarify
    fix x y zs assume f: "filter P rows = x # y # zs"
    then have "P x" "P y" using filter_set [of P rows] by auto
    with u f assms(2) [of x y] show False by (auto simp: unique_by_def)
  qed
  then consider "filter P rows = []" | x where "filter P rows = [x]" by (metis list.exhaust)
  then show ?thesis
  proof cases
    case 1
    then show ?thesis by (simp add: scalar_one_or_none_def) (metis filter_empty_conv find_None_iff)
  next
    case (2 x)
    have "find P rows = Some (hd (filter P rows))" using 2 by (induction rows) auto
    with 2 show ?thesis by (simp add: scalar_one_or_none_def)
  qed
qed

lemma found_iff: "find P rows \<noteq> None \<longleftrightarrow> (\<exists>x \<in> set rows. P x)"
  by (auto simp: find_None_iff)

lemma owned_iff:
  assumes "unique_by qs_id (quiz_sets d)"
  shows "(\<exists>s. load_owned_quiz d u q = Inr s) \<longleftrightarrow> (\<exists>s \<in> set (quiz_sets d). qs_id s = q \<and> qs_owner_id s = u)"
proof
  assume "\<exists>s. load_owned_quiz d u q = Inr s"
  then obtain s where "get_quiz_set d q = Some s" "qs_owner_id s = u" by (auto simp: load_owned_quiz_def result_iff)
  then show "\<exists>s \<in> set (quiz_sets d). qs_id s = q \<and> qs_owner_id s = u" by (auto simp: get_quiz_set_def dest!: find_Some_set)
next
  assume "\<exists>s \<in> set (quiz_sets d). qs_id s = q \<and> qs_owner_id s = u"
  then obtain s where s: "s \<in> set (quiz_sets d)" "qs_id s = q" "qs_owner_id s = u" by blast
  then obtain s' where g: "get_quiz_set d q = Some s'" using found_iff [of "\<lambda>x. qs_id x = q" "quiz_sets d"] by (auto simp: get_quiz_set_def)
  then have "s' = s" using s unique_by_eq [OF assms] by (auto simp: get_quiz_set_def dest!: find_Some_set)
  with g s show "\<exists>s. load_owned_quiz d u q = Inr s" by (simp add: load_owned_quiz_def result_iff)
qed

lemma baseline_keys:
  assumes "baseline d"
  shows "unique_by rm_code (rooms d)" "unique_by m_room_id (matches d)" "unique_by (lower \<circ> u_email) (users d)"
    "unique_by as_request_id (answer_submissions d)" "unique_by qt_name (quiz_tags d)" "unique_by qs_id (quiz_sets d)"
    "unique_by nickname_key (room_participants d)"
  using assms by (simp_all add: baseline_def table_defs unique_indexes_def)

text \<open>
  No lookup of the repositories is ambiguous: in every state of a deployment each query that ends in \<^verbatim>\<open>scalar_one_or_none\<close> returns, and
  returns what the lookup of the model returns.
\<close>
theorem lookups_unambiguous:
  assumes "deployed D w"
  shows "get_by_code_query (wdb w) code = Inr (get_room_by_code (wdb w) code)"
    and "get_by_room_id_query (wdb w) i = Inr (get_match_by_room (wdb w) i)"
    and "get_by_email_query (wdb w) email = Inr (get_by_email (wdb w) email)"
    and "\<exists>s. get_submission_by_request_id (wdb w) rid = Inr s"
    and "get_tag_by_name (wdb w) name = Inr (find (\<lambda>t. qt_name t = name) (quiz_tags (wdb w)))"
    and "is_owner_query (wdb w) q u = Inr (\<exists>s. load_owned_quiz (wdb w) u q = Inr s)"
proof -
  note u = baseline_keys [OF deployed_baseline [OF assms]]
  show "get_by_code_query (wdb w) code = Inr (get_room_by_code (wdb w) code)"
    unfolding get_by_code_query_def get_room_by_code_def by (rule scalar_unique [OF u(1)]) simp
  show "get_by_room_id_query (wdb w) i = Inr (get_match_by_room (wdb w) i)"
    unfolding get_by_room_id_query_def get_match_by_room_def by (rule scalar_unique [OF u(2)]) simp
  show "get_by_email_query (wdb w) email = Inr (get_by_email (wdb w) email)"
    unfolding get_by_email_query_def get_by_email_def by (rule scalar_unique [OF u(3)]) simp
  show "\<exists>s. get_submission_by_request_id (wdb w) rid = Inr s"
    unfolding get_submission_by_request_id_def by (intro exI, rule scalar_unique [OF u(4)]) simp
  show "get_tag_by_name (wdb w) name = Inr (find (\<lambda>t. qt_name t = name) (quiz_tags (wdb w)))"
    unfolding get_tag_by_name_def by (rule scalar_unique [OF u(5)]) simp
  have "is_owner_query (wdb w) q u = Inr (find (\<lambda>s. qs_id s = q \<and> qs_owner_id s = u) (quiz_sets (wdb w)) \<noteq> None)"
    unfolding is_owner_query_def by (subst scalar_unique [OF u(6)]) (auto simp: bind_r_def)
  also have "(find (\<lambda>s. qs_id s = q \<and> qs_owner_id s = u) (quiz_sets (wdb w)) \<noteq> None) = (\<exists>s. load_owned_quiz (wdb w) u q = Inr s)"
    unfolding found_iff owned_iff [OF u(6)] ..
  finally show "is_owner_query (wdb w) q u = Inr (\<exists>s. load_owned_quiz (wdb w) u q = Inr s)" .
qed

text \<open>The nickname lookup is the join's own check: a nickname is free exactly when the lookup finds no row.\<close>

theorem nickname_lookup_decides_join:
  assumes "deployed D w" "rp_id p \<notin> rp_id ` set (room_participants (wdb w))"
  shows "insert_participant p (wdb w) = None \<longleftrightarrow> (\<exists>r. get_participant_by_nickname (wdb w) (rp_room_id p) (rp_nickname p) = Inr (Some r))"
proof -
  have "get_participant_by_nickname (wdb w) (rp_room_id p) (rp_nickname p) =
      Inr (find (\<lambda>r. rp_room_id r = rp_room_id p \<and> lower (rp_nickname r) = lower (rp_nickname p)) (room_participants (wdb w)))"
    unfolding get_participant_by_nickname_def
    by (rule scalar_unique [OF baseline_keys(7) [OF deployed_baseline [OF assms(1)]]]) (simp add: nickname_key_def)
  then have "(\<exists>r. get_participant_by_nickname (wdb w) (rp_room_id p) (rp_nickname p) = Inr (Some r)) \<longleftrightarrow>
      find (\<lambda>r. rp_room_id r = rp_room_id p \<and> lower (rp_nickname r) = lower (rp_nickname p)) (room_participants (wdb w)) \<noteq> None" by simp
  then show ?thesis using assms(2) unfolding found_iff by (simp add: insert_participant_def nickname_key_def image_iff) metis
qed

text \<open>The room's count by query stays within its capacity and within the Redis counter.\<close>

theorem active_count_within_capacity:
  assumes "deployed D w" "room \<in> set (rooms (wdb w))"
  shows "int (get_active_participant_count (wdb w) (rm_id room)) \<le> max 0 (rm_max_players room)"
    and "int (get_active_participant_count (wdb w) (rm_id room)) \<le> count_of (wredis w) (rm_code room)"
  using backend_okD(5) [OF backend_invariant [OF deployed_reachable [OF assms(1)]]] assms(2)
  by (simp_all add: seats_ok_def get_active_participant_count_def present_def [abs_def])

text \<open>The lists are special cases of those the routes use.\<close>

theorem repository_lists:
  "list_pending d n = list_by_status d (Some pending) n 0"
  "list_public_published d n k = map fst (list_for_viewer sim th d None None None None n k)"
  "fetch_unpublished d n = SELECT_BATCH (\<lambda>_. False) n (outbox_events d)"
  by (simp_all add: list_pending_def list_by_status_def list_public_published_def list_for_viewer_def visible_in_list_def [abs_def] comp_def
      fetch_unpublished_def SELECT_BATCH_def)

theorem repository_outbox_writes:
  "outbox_events (mark_published ids now d) = MARK_PUBLISHED now ids (outbox_events d)"
  "outbox_events (increment_attempt i d) = INCREMENT_ATTEMPTS i (outbox_events d)"
  by (auto simp: mark_published_def MARK_PUBLISHED_def increment_attempt_def INCREMENT_ATTEMPTS_def upd_where_def)

text \<open>Both copies of the routing table agree; the envelopes differ in the producer.\<close>

theorem topics_agree: "api_topic_for e = topic_for e"
  by (simp add: api_topic_for_def topic_for_def API_EVENT_TO_TOPIC_def EVENT_TO_TOPIC_def TOPIC_ROOM_def TOPIC_MATCH_def TOPIC_ANSWER_def
      TOPIC_MODERATION_def TOPIC_DEAD_LETTER_def)

theorem envelopes_differ_in_producer:
  "\<exists>kvs. EventEnvelope e = JObj kvs \<and> build_envelope e = JObj (AList.update ''producer'' (JStr PRODUCER_NAME) kvs)"
  "EventEnvelope e \<noteq> build_envelope e"
  by (simp_all add: EventEnvelope_def build_envelope_def API_PRODUCER_NAME_def PRODUCER_NAME_def SCHEMA_VERSION_def)

section \<open>Upserting final scores\<close>

lemma upsert_score_eq:
  "upsert_score r rows = (if score_key r \<in> score_key ` set rows then map (\<lambda>f. if score_key f = score_key r then r else f) rows else rows @ [r])"
  by (simp add: upsert_score_def upd_where_def score_key_def)

lemma upsert_unique: "unique_by score_key rows \<Longrightarrow> unique_by score_key (upsert_score r rows)"
  by (simp add: upsert_score_eq unique_by_append1) (simp add: unique_by_def comp_def if_distrib [of score_key] cong: if_cong)

lemma upsert_member: "r \<in> set (upsert_score r rows)"
  by (auto simp: upsert_score_eq image_iff)

lemma upsert_other: "score_key f \<noteq> score_key r \<Longrightarrow> f \<in> set (upsert_score r rows) \<longleftrightarrow> f \<in> set rows"
  by (auto simp: upsert_score_eq image_iff)

lemma upsert_again: "unique_by score_key rows \<Longrightarrow> r \<in> set rows \<Longrightarrow> upsert_score r rows = rows"
  using unique_by_eq [of score_key rows r] by (auto simp: upsert_score_eq intro!: map_idI)

lemma fold_upsert_other: "\<forall>r \<in> set rs. score_key f \<noteq> score_key r \<Longrightarrow> f \<in> set (fold upsert_score rs rows) \<longleftrightarrow> f \<in> set rows"
  by (induction rs arbitrary: rows) (simp_all add: upsert_other)

lemma fold_upsert_unique: "unique_by score_key rows \<Longrightarrow> unique_by score_key (fold upsert_score rs rows)"
  by (induction rs arbitrary: rows) (simp_all add: upsert_unique)

lemma fold_upsert_members:
  "distinct (map score_key rs) \<Longrightarrow> set rs \<subseteq> set (fold upsert_score rs rows)"
proof (induction rs arbitrary: rows)
  case (Cons r rs)
  have "r \<in> set (fold upsert_score rs (upsert_score r rows))"
    by (subst fold_upsert_other) (use Cons.prems in \<open>auto simp: upsert_member\<close>)
  with Cons show ?case by auto
qed simp

lemma fold_upsert_again: "unique_by score_key rows \<Longrightarrow> set rs \<subseteq> set rows \<Longrightarrow> fold upsert_score rs rows = rows"
  by (induction rs) (simp_all add: upsert_again)

text \<open>
  The upsert of final scores.  On rows with distinct keys it succeeds, afterwards the table holds every given row, the rows of other
  keys are as before, the primary key still holds, and doing it again changes nothing.
\<close>
theorem bulk_upsert_idempotent:
  assumes "distinct (map score_key rs)" "unique_by score_key (final_scores d)"
  shows "\<exists>d'. bulk_upsert rs d = Inr d' \<and> bulk_upsert rs d' = Inr d' \<and> set rs \<subseteq> set (final_scores d') \<and> unique_by score_key (final_scores d') \<and>
    (\<forall>f. score_key f \<notin> score_key ` set rs \<longrightarrow> (f \<in> set (final_scores d') \<longleftrightarrow> f \<in> set (final_scores d)))"
proof -
  let ?f = "fold upsert_score rs (final_scores d)"
  have u: "unique_by score_key ?f" and m: "set rs \<subseteq> set ?f" using assms by (simp_all add: fold_upsert_unique fold_upsert_members)
  have "f \<in> set ?f \<longleftrightarrow> f \<in> set (final_scores d)" if "score_key f \<notin> score_key ` set rs" for f
    by (rule fold_upsert_other) (use that in auto)
  then show ?thesis using assms u m fold_upsert_again [OF u m]
    by (intro exI [of _ "d\<lparr>final_scores := ?f\<rparr>"]) (auto simp: bulk_upsert_def)
qed

end
