(* ===== verification/Spec2Isabelle.thy ===== *)
theory Spec2Isabelle
  imports Snowflake RateLimit Scoring Keys Auth Scenario Broadcasts WsRouter Pipeline QuizListCache Accounts Repositories
begin

text \<open>
  \<^bold>\<open>The program.\<close>  LiveQuiz runs live quizzes.  Hosts write quizzes over a REST API, open a room and start a match; players
  join the room, follow the match over a WebSocket and answer within a deadline; scores stand on a live leaderboard.  The
  backend (src/backend/app, FastAPI) keeps its data in Postgres, its live state in Redis and its timers as asyncio
  tasks.  Every business event is written to an outbox table in the transaction it belongs to; a publisher
  (src/workers/outbox\_publisher) moves it to the broker and a stream worker (src/workers/stream\_worker) writes it to ClickHouse,
  from which the analytics endpoint reads.

  \<^bold>\<open>How the parts meet.\<close>  A request passes the request-id middleware, the dependencies that authenticate it, the checks of its
  request model, one service call and the response model (Api).  A service call reads and writes the tables (Models)
  and Redis (RedisState), creates tasks and hands messages to the bus (World).  A task is woken by the loop and runs a
  match step (MatchLifecycle).  What is on the bus is delivered to the sockets of every replica (ConnectionManager).  Outbox rows
  leave through OutboxPublisher and arrive in StreamWorker.

  \<^bold>\<open>Theories\<close>, in the order of their imports, with the code they model.

  \<^item> Prelude, PyFloat, PyText: errors, JSON values, tables as lists of rows, the collection \<^verbatim>\<open>tables\<close>; Python's floats as exact
    rationals with the rounding of binary64 after every operation; ASCII text functions.  The lemmas on them are shared by
    all components.
  \<^item> Snowflake (core/ids/snowflake.py): the id generator with its clock.  Ids of one generator increase strictly; it returns
    when the clock advances; ids fit 63 bits and decode to their fields.
  \<^item> RateLimit (cache/rate\_limit.py): the token bucket script.  Scoring (services/scoring\_service.py): points with floats as
    computed, and their bounds.  Keys (cache/keys.py): every key, and that no two keys collide, which justifies one map
    per key family.
  \<^item> Models (db/models, services/outbox\_service.py), RedisState (cache/leaderboard.py, idempotency.py, redis.py), World (the
    \<^verbatim>\<open>MatchScheduler\<close> and \<^verbatim>\<open>MatchRuntime\<close> of services/match\_service.py): the state.  The locales \<open>once_store\<close> (a claim that
    succeeds once while its entry lives) and \<open>seat_counter\<close> (admit and release against a bound) are the contracts of the
    idempotency cache, the dedupe keys of the stream worker and the capacity scripts.
  \<^item> MatchLifecycle, MatchProperties, AnswerSubmit (services/match\_service.py): start, arm, close, pause, resume, end, recovery,
    answer submission and the leaderboard read, with what each does on every branch.
  \<^item> Moderation, RoomService, QuizService (the services of these names and their repositories).
  \<^item> Seeds (db/seed.py, src/migrations/seeds): the seed script with its data.  The locale \<open>natural_key\<close> is the contract of a part that
    looks for its row first; \<open>seed_relation\<close> carries a preorder on the tables through the script.
  \<^item> System: all calls, task wake-ups, the restart, seed runs and the publisher's batches as one step relation \<open>backend_step\<close>, and the
    invariant \<open>backend_ok\<close> of the reachable states.  Scenario: a computed run of one match, the source of the witnesses.
  \<^item> OutboxPublisher, StreamWorker, WorkerLoops (src/workers), Pipeline: batches with failures and aborts, dedupe and buffering under
    failing services, the polling loops with their sleeps and shutdown, and what ClickHouse holds after the events of a reachable state were delivered in any order with
    repetitions.
  \<^item> Auth (core/security.py, services/auth\_service.py, api/deps.py): tokens, revocation, login and the dependencies.  The locale
    \<open>revocation_list\<close> is the contract of the revoked-token entries, \<open>bearer_token\<close> that of a signed token kind.
  \<^item> ConnectionManager, Protocol, WsRouter, Broadcasts (ws/): registries and cross-replica delivery (locale \<open>room_registry\<close>), message
    classes as schemas, the endpoint with its limits (locale \<open>attempt_window\<close>), and what the services put on the bus.
  \<^item> AnalyticsService (services/analytics\_service.py), Schemas (schemas/), Api (api/v1, main.py, core/middleware.py,
    middleware/request\_id.py): every route from the headers to the response.  The locale \<open>handler_relation\<close> turns a preorder on worlds
    that the services keep into one that all handlers keep; it is interpreted on sequences of backend steps here and on the tables behind
    the quiz lists in QuizListCache.
  \<^item> QuizListCache: the cached quiz lists against the database.  Accounts: registration, login and \<^verbatim>\<open>/me\<close> over HTTP.
  \<^item> Baseline (src/backend/alembic/versions/0001\_baseline.py): the keys, unique constraints, unique indexes and foreign keys of every
    table as predicates, and for each service and handler that it keeps those the invariant of System does not speak of.
  \<^item> Deployment: requests, WebSocket handshakes, frames and departures, timers, restarts, batches and seed runs as one set of
    histories \<open>deployed\<close>.  The locale \<open>socket_relation\<close> extends \<open>handler_relation\<close> to the WebSocket endpoint.
  \<^item> Repositories (repositories/, events/): the queries as written, those no service calls included.  Each lookup that would raise on
    two rows returns what the model's lookup returns (\<open>lookups_unambiguous\<close>); the upsert of final scores is idempotent.
  \<^item> This theory: the properties of reachable states that span components.

  \<^bold>\<open>What is shown.\<close>  For one call: the functional outcome of submitting, starting, ending, joining, adding a question, on success and
  on refusal.  For all histories: the live leaderboard, the final scores and the analytics facts all add up to the
  submissions; a completed match is frozen; rooms stay within capacity; one timer per match; one event per submission; a
  broadcast reaches every connection once; messages and responses have their declared shape and hide the answers; only the
  entitled are served; a refresh token works once; cached lists are current; the tables satisfy the
  schema; seeding twice is seeding once.  The HTTP surface refines the step
  relation (\<open>requests_are_backend_steps\<close>), so what holds of reachable states holds behind the API.  The error properties show
  behaviour the code has and does not intend: a match that never finishes by itself, events lost after a failed
  handler, a list poisoned by a filter.

  \<^bold>\<open>Conventions.\<close>  A service is a function \<^verbatim>\<open>world \<Rightarrow> result \<times> world\<close>; \<^verbatim>\<open>Inl\<close> is the exception, with the status code an \<^verbatim>\<open>AuthError\<close>
  carries.  Each reading of the clock is an argument, in microseconds, and no order between readings is assumed unless
  a statement says so.  Integers are unbounded, as in Python; columns are not given a width.  A unique index or foreign key is checked
  where a statement of the code can run into it; that the others hold is a theorem (\<open>tables_keep_baseline\<close>).  JSON text and message bytes are the JSON value they encode, a datetime in JSON is \<open>JTime\<close>.
  A service call, a task step and a worker batch are atomic: two calls do not interleave inside a transaction or between
  commit and the hooks after it.  There is no fuel: the recursive definitions are total, except the generator's busy
  wait, a \<^verbatim>\<open>partial_function (option)\<close> shown to return under a clock that advances.

  \<^bold>\<open>Parameters.\<close>  Code outside the repository is an argument: the JWT library and the password hasher (\<open>auth_lib\<close>, laws \<open>jwt_ok\<close> and
  \<open>hasher_ok\<close>), SHA-1 (\<open>collision_free\<close> where it matters), pydantic's parsing (\<open>validators\<close>, \<open>pydantic_ok\<close>), the broker, Redis and
  ClickHouse as outcomes per call, compiled regular expressions, trigram similarity and \<^verbatim>\<open>percentile_cont\<close> of Postgres,
  random draws.  The \<^verbatim>\<open>details\<close> of an error and the \<^verbatim>\<open>updated_at\<close> column, which no service reads, are arguments too
  (\<open>details_of\<close>, \<open>updated_at_of\<close>).  Each law is shown satisfiable by the witness of the property that uses it.

  \<^bold>\<open>Not modelled.\<close>  Process start-up and shutdown of main.py, db/session.py and core/config.py (wiring; settings are
  fields of the parameters).  Logging, metrics and tracing (no state the program reads).  workers/scheduler (a stub that
  sleeps).  Of the migration, column widths, server defaults, the indexes for speed and the downgrade; alembic/env.py.  scripts
  (measurement and load tools), tests, the frontend and the operations files.  Pydantic's coercion of a raw request body: a call
  starts with values of the declared types.  Failures of Postgres other than violated constraints, and of Redis in the
  backend outside the analytics cache.
\<close>

section \<open>Properties of the whole backend\<close>

text \<open>
  C3: the live leaderboard is a refinement of the submissions table.  In every reachable state, whatever the order of calls,
  timers, restarts and batches, a participant stands on the Redis leaderboard of a match exactly when it has an
  accepted answer there, with the sum of the points of its answers.
\<close>
theorem live_leaderboard_is_sum:
  assumes "backend_reachable w"
  shows "map_of (leaderboards (wredis w) match_id) pid =
    (let ss = filter (\<lambda>s. as_match_id s = match_id \<and> as_participant_id s = pid) (answer_submissions (wdb w))
     in if ss = [] then None else Some (sum_list (map as_score_awarded ss)))"
  using backend_okD(6) [OF backend_invariant [OF assms]]
  by (simp add: scores_ok_def live_total_def subs_by_def match_subs_def conj_commute Let_def)

theorem live_leaderboard_is_sum_witness: "map_of (leaderboards (wredis run8) 10) 8 = Some 438"
  using live_leaderboard_is_sum [OF run_reachable(1), of 10 8] by (simp add: run8_facts run8_db_def demo_submission_def)

text \<open>
  C7: final scores agree with the leaderboard.  In every reachable state each row of \<^verbatim>\<open>final_scores\<close> belongs to
  a completed match, and its total is what the live leaderboard of that match shows for the participant (0 if
  it is not on it).
\<close>
theorem final_scores_agree:
  assumes "backend_reachable w" "f \<in> set (final_scores (wdb w))"
  shows "(\<exists>m \<in> set (matches (wdb w)). m_id m = fs_match_id f \<and> m_status m = completed) \<and>
    fs_total_score f = (case map_of (leaderboards (wredis w) (fs_match_id f)) (fs_participant_id f) of None \<Rightarrow> 0 | Some t \<Rightarrow> t)"
  using backend_okD(6) [OF backend_invariant [OF assms(1)]] assms(2)
  by (auto simp: scores_ok_def final_ok_def live_total_def)

theorem final_scores_agree_witness:
  "\<exists>f \<in> set (final_scores (wdb run9)). fs_participant_id f = 8 \<and> fs_total_score f = 438 \<and>
     fs_total_score f = (case map_of (leaderboards (wredis run9) (fs_match_id f)) (fs_participant_id f) of None \<Rightarrow> 0 | Some t \<Rightarrow> t)"
proof -
  from run9_facts(1) obtain f where f: "final_scores (wdb run9) = [f]" "fs_participant_id f = 8" "fs_total_score f = 438" by auto
  with final_scores_agree [OF run_reachable(2), of f] show ?thesis by simp
qed

text \<open>
  C9: a completed match is final.  From a reachable state no step of any kind changes a completed match's row, its
  submissions or its final scores.
\<close>
theorem completed_match_frozen:
  assumes "backend_reachable w" "backend_step w w'" "m \<in> set (matches (wdb w))" "m_status m = completed"
  shows "m \<in> set (matches (wdb w')) \<and> match_subs (wdb w') (m_id m) = match_subs (wdb w) (m_id m) \<and>
    filter (\<lambda>f. fs_match_id f = m_id m) (final_scores (wdb w')) = filter (\<lambda>f. fs_match_id f = m_id m) (final_scores (wdb w))"
  using backend_step_ok [OF assms(2) backend_invariant [OF assms(1)]] assms(3,4) by (simp add: frozen_kept_def)

theorem completed_match_frozen_witness:
  "match_subs (wdb (snd (submit_answer 7000000 7000000 10 8 \<lparr>req_match_question_id = 11, req_selected_option_ids = [4]\<rparr> ''r2'' run9))) 10 =
     [demo_submission]"
proof -
  from run9_facts(2) obtain m where m: "m \<in> set (matches (wdb run9))" "m_id m = 10" "m_status m = completed" by auto
  have "match_subs (wdb run9) 10 = [demo_submission]" by (simp add: match_subs_def run9_facts(3) demo_submission_def)
  with completed_match_frozen [OF run_reachable(2) submitted m(1,3)] show ?thesis by (simp add: m(2))
qed

text \<open>
  C10: no room is over its capacity.  In every reachable state the participants of a room who have neither left nor
  been kicked are at most its \<^verbatim>\<open>max_players\<close> (none when that is negative), and no two participants of a
  room have nicknames equal up to letter case.
\<close>
theorem room_within_capacity:
  assumes "backend_reachable w" "r \<in> set (rooms (wdb w))"
  shows "int (length (filter (present (rm_id r)) (room_participants (wdb w)))) \<le> max 0 (rm_max_players r) \<and>
    distinct (map (lower \<circ> rp_nickname) (filter (\<lambda>p. rp_room_id p = rm_id r) (room_participants (wdb w))))"
proof
  note ok = backend_okD(5) [OF backend_invariant [OF assms(1)]]
  show "int (length (filter (present (rm_id r)) (room_participants (wdb w)))) \<le> max 0 (rm_max_players r)"
    by (rule seats_room(2) [OF ok assms(2)])
  have "distinct (map nickname_key (filter (\<lambda>p. rp_room_id p = rm_id r) (room_participants (wdb w))))"
    using ok by (simp add: seats_ok_def unique_by_def distinct_map_filter)
  then show "distinct (map (lower \<circ> rp_nickname) (filter (\<lambda>p. rp_room_id p = rm_id r) (room_participants (wdb w))))"
    by (auto simp: distinct_map inj_on_def nickname_key_def)
qed

theorem room_within_capacity_witness:
  "\<exists>r \<in> set (rooms (wdb run8)). rm_max_players r = 2 \<and> int (length (filter (present (rm_id r)) (room_participants (wdb run8)))) \<le> 2"
proof -
  obtain r where r: "r \<in> set (rooms (wdb run8))" "rm_max_players r = 2"
    by (auto simp: run8_facts run8_db_def run7_db_def run6_db_def)
  with room_within_capacity [OF run_reachable(1) r(1)] show ?thesis by auto
qed

text \<open>
  C11: the lifecycle is coherent.  In every reachable state a match is running, paused or completed and its room has the
  same status, a room is in the lobby exactly when no match was started in it, and the event loop holds at
  most one timer (close or gap) per match.
\<close>
theorem lifecycle_coherent:
  assumes "backend_reachable w"
  shows "(\<forall>m \<in> set (matches (wdb w)). m_status m \<in> {running, paused, completed} \<and>
      (\<exists>r \<in> set (rooms (wdb w)). rm_id r = m_room_id m \<and> rm_status r = m_status m)) \<and>
    (\<forall>r \<in> set (rooms (wdb w)). rm_status r = lobby \<longleftrightarrow> (\<forall>m \<in> set (matches (wdb w)). m_room_id m \<noteq> rm_id r)) \<and>
    (\<forall>(a, s) \<in> set (tasks w). \<forall>(b, t) \<in> set (tasks w). is_timer s \<and> is_timer t \<and> task_match s = task_match t \<longrightarrow> a = b)"
proof -
  note ok = backend_invariant [OF assms]
  have "a = b" if "(a, s) \<in> set (tasks w)" "(b, t) \<in> set (tasks w)" "is_timer s" "is_timer t" "task_match s = task_match t" for a b s t
    using timers_ok_unique [OF backend_okD(3,4) [OF ok] that] .
  then show ?thesis using backend_okD(1) [OF ok] unfolding lifecycle_ok_def by blast
qed

theorem lifecycle_coherent_witness:
  "map (\<lambda>m. (m_id m, m_status m)) (matches (wdb run9)) = [(10, completed)] \<and> (\<exists>r \<in> set (rooms (wdb run9)). rm_status r = completed)"
proof -
  from run9_facts(2) obtain m where "matches (wdb run9) = [m]" "m_status m = completed" by auto
  with lifecycle_coherent [OF run_reachable(2)] run9_facts(2) show ?thesis by auto
qed

text \<open>
  C12: one event per submission.  In every reachable state the \<^verbatim>\<open>AnswerSubmitted\<close> rows of the outbox are, in order,
  the submissions: each names its submission and its payload carries the match, the participant and the
  points; and no two outbox rows have the same id.
\<close>
theorem one_event_per_submission:
  assumes "backend_reachable w"
  shows "map (\<lambda>e. (ob_aggregate_id e, json_get (ob_payload e) ''match_id'', json_get (ob_payload e) ''participant_id'',
        json_get (ob_payload e) ''score_awarded'')) (filter (\<lambda>e. ob_event_type e = EVT_ANSWER_SUBMITTED) (outbox_events (wdb w))) =
      map (\<lambda>s. (as_id s, JStr (int_str (as_match_id s)), JStr (int_str (as_participant_id s)), JInt (as_score_awarded s)))
        (answer_submissions (wdb w)) \<and>
    distinct (map ob_id (outbox_events (wdb w)))"
proof
  note ev = backend_okD(7) [OF backend_invariant [OF assms]]
  have "list_all2 event_for ss es \<Longrightarrow> map (\<lambda>e. (ob_aggregate_id e, json_get (ob_payload e) ''match_id'', json_get (ob_payload e) ''participant_id'',
        json_get (ob_payload e) ''score_awarded'')) es =
      map (\<lambda>s. (as_id s, JStr (int_str (as_match_id s)), JStr (int_str (as_participant_id s)), JInt (as_score_awarded s))) ss" for ss es
    by (induction rule: list_all2_induct) (auto simp: event_for_def answer_submitted_event_def)
  then show "map (\<lambda>e. (ob_aggregate_id e, json_get (ob_payload e) ''match_id'', json_get (ob_payload e) ''participant_id'',
        json_get (ob_payload e) ''score_awarded'')) (filter (\<lambda>e. ob_event_type e = EVT_ANSWER_SUBMITTED) (outbox_events (wdb w))) =
      map (\<lambda>s. (as_id s, JStr (int_str (as_match_id s)), JStr (int_str (as_participant_id s)), JInt (as_score_awarded s)))
        (answer_submissions (wdb w))" using ev by (simp add: events_ok_def answer_events_def)
  show "distinct (map ob_id (outbox_events (wdb w)))" using events_ok_unique [OF ev] by (simp add: unique_by_def)
qed

theorem one_event_per_submission_witness:
  "map ob_aggregate_id (filter (\<lambda>e. ob_event_type e = EVT_ANSWER_SUBMITTED) (outbox_events (wdb run9))) = [16]"
proof -
  have "map fst (map (\<lambda>e. (ob_aggregate_id e, json_get (ob_payload e) ''match_id'', json_get (ob_payload e) ''participant_id'',
        json_get (ob_payload e) ''score_awarded'')) (filter (\<lambda>e. ob_event_type e = EVT_ANSWER_SUBMITTED) (outbox_events (wdb run9)))) = [16]"
    unfolding conjunct1 [OF one_event_per_submission [OF run_reachable(2)]] by (simp add: run9_facts demo_submission_def)
  then show ?thesis by (simp add: comp_def)
qed

section \<open>End to end\<close>



lemma run8_bus:
  "(''000000'', JObj [(''type'', JStr ''question.started''), (''message_id'', JStr (int_str 15)), (''payload'',
     question_payload (hd (match_questions run6_db)) (hd (questions run6_db)) (answer_options run6_db) 1 5 20000005 5)]) \<in> set (bus run8)"
proof -
  have "(''000000'', JObj [(''type'', JStr ''question.started''), (''message_id'', JStr (int_str 15)), (''payload'',
     question_payload (hd (match_questions run6_db)) (hd (questions run6_db)) (answer_options run6_db) 1 5 20000005 5)]) \<in> set (bus run7)"
    by (simp add: run7_def run6_facts question_payload_def run6_db_def run5_db_def run4_db_def run3_db_def run2_db_def exec)
  moreover have "set (bus run7) \<subseteq> set (bus run8)" using submit_answer_speaks unfolding run8_def speaks_def by (metis Un_upper1 set_append)
  ultimately show ?thesis by blast
qed

text \<open>
  C15: every broadcast is a message of the published protocol.  In every reachable state each message the services ever
  put on the WebSocket bus, whatever the calls, timers and restarts, validates against one of the server message classes
  of \<^verbatim>\<open>messages.py\<close>, required fields and types included and no other field, with the one exception of the
  moderation kick notice, which the protocol module does not list.
\<close>
theorem broadcasts_conform:
  assumes "backend_reachable w" "(code, message) \<in> set (bus w)"
  shows "server_message message \<or> json_get message ''type'' = JStr ''participant.kicked''"
  using reachable_contract [OF assms] by (simp add: contract_def)

theorem broadcasts_conform_witness: "\<exists>m. (''000000'', m) \<in> set (bus run8) \<and> (server_message m \<or> json_get m ''type'' = JStr ''participant.kicked'')"
proof -
  have "\<exists>m. (''000000'', m) \<in> set (bus run8)" using run8_bus by blast
  then show ?thesis using broadcasts_conform [OF run_reachable(1)] by blast
qed

text \<open>
  C14: the answer key does not leak.  In every reachable state an option inside a \<^verbatim>\<open>question.started\<close> broadcast tells its
  id and its text and nothing else, in particular not whether it is correct.
\<close>
theorem question_started_hides_answers:
  assumes "backend_reachable w" "(code, message) \<in> set (bus w)" "ao \<in> set (started_options message)"
  shows "\<exists>kvs. ao = JObj kvs \<and> fst ` set kvs \<subseteq> {''id'', ''body''}"
  using contract_options [OF _ assms(3)] reachable_contract [OF assms(1,2)] by simp

theorem question_started_hides_answers_witness:
  "\<exists>m ao. (''000000'', m) \<in> set (bus run8) \<and> ao \<in> set (started_options m) \<and> json_get ao ''body'' \<noteq> JNull \<and>
     (\<exists>kvs. ao = JObj kvs \<and> fst ` set kvs \<subseteq> {''id'', ''body''})"
proof -
  let ?m = "JObj [(''type'', JStr ''question.started''), (''message_id'', JStr (int_str 15)), (''payload'',
     question_payload (hd (match_questions run6_db)) (hd (questions run6_db)) (answer_options run6_db) 1 5 20000005 5)]"
  obtain ao where ao: "ao \<in> set (started_options ?m)" "json_get ao ''body'' \<noteq> JNull"
    by (force simp: started_options_def question_payload_def run6_db_def run5_db_def run4_db_def run3_db_def run2_db_def empty_db_def)
  from question_started_hides_answers [OF run_reachable(1) run8_bus ao(1)] ao run8_bus show ?thesis by blast
qed



end
